(* ===== verification/Bpf_Prelude.thy ===== *)
theory Bpf_Prelude
  imports Main "HOL-Library.Word"
begin

text \<open>
  Shared vocabulary of the development: the machine types of the BPF program, byte
  buffers with bounded copies into them, little-endian decoding, C strings, and the
  list lemmas the component theories use. Buffers are lists of 8-bit words; an index or
  a length that the C code has already bounded is a natural number, every stored field
  keeps the width it has in C.
\<close>

unbundle bit_operations_syntax

named_theorems bpf_defs \<open>definitions of the small helpers, unfolded by component proofs\<close>
named_theorems frame_simps \<open>what each operation leaves unchanged\<close>

section \<open>Machine types\<close>

type_synonym u8 = "8 word"
type_synonym u16 = "16 word"
type_synonym u32 = "32 word"
type_synonym u64 = "64 word"
type_synonym s32 = "32 word"
type_synonym s64 = "64 word"
type_synonym ptr = "64 word"
type_synonym bytes = "8 word list"

abbreviation NULL :: ptr where "NULL \<equiv> 0"

text \<open>The bytes of a C string literal, without its terminating NUL.\<close>

definition c_lit :: "string \<Rightarrow> bytes" where
  "c_lit s = map of_char s"

lemma length_c_lit [simp]: "length (c_lit s) = length s"
  by (simp add: c_lit_def)

lemma c_lit_Nil [simp]: "c_lit [] = []"
  by (simp add: c_lit_def)

lemma c_lit_Cons [simp]: "c_lit (c # s) = of_char c # c_lit s"
  by (simp add: c_lit_def)

text \<open>A C truth value stored in a byte.\<close>

definition u8_of_bool :: "bool \<Rightarrow> u8" where
  "u8_of_bool b = (if b then 1 else 0)"

lemma u8_of_bool_simps [simp]: "u8_of_bool True = 1" "u8_of_bool False = 0"
  by (simp_all add: u8_of_bool_def)

section \<open>Copies into a buffer\<close>

text \<open>
  \<open>blit off src dst\<close> is \<open>memcpy(dst + off, src, length src)\<close>. The result has the length
  of \<open>dst\<close> exactly when the copy stays inside it, so a lemma that a buffer keeps its
  length is the bounds check of the copy.
\<close>

definition blit :: "nat \<Rightarrow> bytes \<Rightarrow> bytes \<Rightarrow> bytes" where
  "blit off src dst = take off dst @ src @ drop (off + length src) dst"

lemma length_blit [simp]:
  "off + length src \<le> length dst \<Longrightarrow> length (blit off src dst) = length dst"
  by (simp add: blit_def)

lemma blit_Nil [simp]: "blit off [] dst = dst"
  by (simp add: blit_def)

lemma blit_0: "blit 0 src dst = src @ drop (length src) dst"
  by (simp add: blit_def)

lemma blit_full [simp]: "length src = length dst \<Longrightarrow> blit 0 src dst = src"
  by (simp add: blit_def)

lemma take_blit_0 [simp]: "n \<le> length src \<Longrightarrow> take n (blit 0 src dst) = take n src"
  by (simp add: blit_def)

lemma nth_blit:
  assumes "off + length src \<le> length dst" "i < length dst"
  shows "blit off src dst ! i =
           (if i < off then dst ! i
            else if i < off + length src then src ! (i - off) else dst ! i)"
  using assms by (auto simp: blit_def nth_append min_def)

lemma drop_blit_beyond [simp]:
  assumes "off + length src \<le> n" "n \<le> length dst"
  shows "drop n (blit off src dst) = drop n dst"
  using assms by (simp add: blit_def)

lemma drop_blit_at:
  assumes "off \<le> length dst"
  shows "drop off (blit off src dst) = src @ drop (off + length src) dst"
  using assms by (simp add: blit_def)

lemma take_blit_before [simp]: "n \<le> off \<Longrightarrow> off \<le> length dst \<Longrightarrow> take n (blit off src dst) = take n dst"
  by (simp add: blit_def min_def)

text \<open>
  The literal-bound loops that clear a buffer with 64-bit stores
  (\<open>for (i = 0; i < n; i++) words[i] = 0\<close>).
\<close>

definition zero_words :: "nat \<Rightarrow> bytes \<Rightarrow> bytes" where
  "zero_words n buf = fold (\<lambda>i b. blit (8 * i) (replicate 8 0) b) [0..<n] buf"

lemma zero_words_eq:
  "8 * n \<le> length buf \<Longrightarrow> zero_words n buf = replicate (8 * n) 0 @ drop (8 * n) buf"
proof (induction n)
  case 0
  then show ?case by (simp add: zero_words_def)
next
  case (Suc n)
  have "zero_words (Suc n) buf = blit (8 * n) (replicate 8 0) (zero_words n buf)"
    by (simp add: zero_words_def)
  also have "\<dots> = replicate (8 * n) 0 @ replicate 8 0 @ drop (8 + 8 * n) buf"
    using Suc by (simp add: blit_def add.commute)
  also have "\<dots> = replicate (8 * Suc n) 0 @ drop (8 * Suc n) buf"
    by (simp add: replicate_add [symmetric] flip: append_assoc)
  finally show ?case .
qed

lemma length_zero_words [simp]: "8 * n \<le> length buf \<Longrightarrow> length (zero_words n buf) = length buf"
  by (simp add: zero_words_eq)

lemma zero_words_whole [simp]: "length buf = 8 * n \<Longrightarrow> zero_words n buf = replicate (8 * n) 0"
  by (simp add: zero_words_eq)

section \<open>Little-endian words and C strings\<close>

fun le_word :: "bytes \<Rightarrow> 'a::len word" where
  "le_word [] = 0"
| "le_word (b # bs) = ucast b + 256 * le_word bs"

definition slice :: "nat \<Rightarrow> nat \<Rightarrow> bytes \<Rightarrow> bytes" where
  "slice off n buf = take n (drop off buf)"

lemma length_slice [simp]: "off + n \<le> length buf \<Longrightarrow> length (slice off n buf) = n"
  by (simp add: slice_def)

text \<open>
  The bytes of a buffer up to its first NUL, as userspace reads a fixed-size \<open>char\<close>
  array.
\<close>

definition c_string :: "bytes \<Rightarrow> bytes" where
  "c_string buf = takeWhile (\<lambda>b. b \<noteq> 0) buf"

lemma c_string_append_NUL [simp]: "0 \<notin> set xs \<Longrightarrow> c_string (xs @ 0 # ys) = xs"
  by (auto simp: c_string_def takeWhile_append)

lemma c_string_no_NUL [simp]: "0 \<notin> set xs \<Longrightarrow> c_string xs = xs"
  by (auto simp: c_string_def takeWhile_eq_all_conv)

lemma c_string_replicate_0 [simp]: "c_string (replicate n 0) = []"
  by (cases n) (simp_all add: c_string_def)

lemma c_string_append_zeros [simp]:
  "0 \<notin> set xs \<Longrightarrow> c_string (xs @ replicate n 0) = xs"
  by (cases n) (simp_all add: replicate_Suc)

lemma set_c_string: "0 \<notin> set (c_string buf)"
  by (auto simp: c_string_def dest: set_takeWhileD)

section \<open>Lists\<close>

lemma nth_take_eq_imp: "take n xs = take n ys \<Longrightarrow> i < n \<Longrightarrow> xs ! i = ys ! i"
  by (metis nth_take)

lemma takeWhile_eq_take_first:
  assumes "k \<le> length xs" "\<forall>i<k. P (xs ! i)" "k < length xs \<Longrightarrow> \<not> P (xs ! k)"
  shows "takeWhile P xs = take k xs"
proof (rule takeWhile_eq_take_P_nth)
  fix i assume "i < k" "i < length xs"
  with assms(2) show "P (xs ! i)" by blast
next
  assume "k < length xs"
  with assms(3) show "\<not> P (xs ! k)" by blast
qed

end
