(* ===== verification/Kernel_Samples.thy ===== *)
theory Kernel_Samples
  imports Bpf_Prelude
begin

text \<open>
  The ring buffer sample ABI, after \<open>kernel_samples.h\<close>: the sample kinds, the field sizes,
  one record per \<open>*_sample\<close> struct (explicit padding members included, because the hooks
  have to write them) and the C layout of every struct, from which its size, its field
  offsets and its implicit padding are computed.

  A field that several structs share under one name carries a prefix for its struct, since
  Isabelle record fields are global. The task header that \<open>SET_TASK_HEADER\<close> fills is a
  record of its own, which the structs that embed it extend.
\<close>

section \<open>Sample kinds and field sizes\<close>

datatype agent_sample_kind =
    SAMPLE_KIND_FORK
  | SAMPLE_KIND_CGROUP_MKDIR
  | SAMPLE_KIND_CGROUP_ATTACH
  | SAMPLE_KIND_CGROUP_RMDIR
  | SAMPLE_KIND_EXEC
  | SAMPLE_KIND_NETWORK_CONNECT_V4
  | SAMPLE_KIND_NETWORK_CONNECT_V6
  | SAMPLE_KIND_FILE_OPEN
  | SAMPLE_KIND_FILE_REMOVE
  | SAMPLE_KIND_FILE_MOVE
  | SAMPLE_KIND_FILE_LINK
  | SAMPLE_KIND_DNS
  | SAMPLE_KIND_UNIX_SOCKET_CONNECT
  | SAMPLE_KIND_MOUNT
  | SAMPLE_KIND_HTTP_REQUEST
  | SAMPLE_KIND_HTTP_UPROBE_ATTACH_CANDIDATE

fun kind_value :: "agent_sample_kind \<Rightarrow> u32" where
  "kind_value SAMPLE_KIND_FORK = 1"
| "kind_value SAMPLE_KIND_CGROUP_MKDIR = 2"
| "kind_value SAMPLE_KIND_CGROUP_ATTACH = 3"
| "kind_value SAMPLE_KIND_CGROUP_RMDIR = 4"
| "kind_value SAMPLE_KIND_EXEC = 5"
| "kind_value SAMPLE_KIND_NETWORK_CONNECT_V4 = 6"
| "kind_value SAMPLE_KIND_NETWORK_CONNECT_V6 = 7"
| "kind_value SAMPLE_KIND_FILE_OPEN = 8"
| "kind_value SAMPLE_KIND_FILE_REMOVE = 9"
| "kind_value SAMPLE_KIND_FILE_MOVE = 10"
| "kind_value SAMPLE_KIND_FILE_LINK = 11"
| "kind_value SAMPLE_KIND_DNS = 12"
| "kind_value SAMPLE_KIND_UNIX_SOCKET_CONNECT = 13"
| "kind_value SAMPLE_KIND_MOUNT = 14"
| "kind_value SAMPLE_KIND_HTTP_REQUEST = 15"
| "kind_value SAMPLE_KIND_HTTP_UPROBE_ATTACH_CANDIDATE = 16"

lemma kind_value_inj: "kind_value a = kind_value b \<Longrightarrow> a = b"
  by (cases a; cases b; simp)

definition UNIX_SOCKET_SUN_PATH_LEN :: nat where [simp]: "UNIX_SOCKET_SUN_PATH_LEN = 108"
definition CGROUP_PATH_LEN :: nat where [simp]: "CGROUP_PATH_LEN = 512"
definition FILE_PATH_LEN :: nat where [simp]: "FILE_PATH_LEN = 1024"
definition EXEC_PATH_LEN :: nat where [simp]: "EXEC_PATH_LEN = 512"
definition ARGV_BLOB_LEN :: nat where [simp]: "ARGV_BLOB_LEN = 2048"
definition DNS_PAYLOAD_LEN :: nat where [simp]: "DNS_PAYLOAD_LEN = 512"
definition HTTP_METHOD_LEN :: nat where [simp]: "HTTP_METHOD_LEN = 16"
definition HTTP_PATH_LEN :: nat where [simp]: "HTTP_PATH_LEN = 256"
definition HTTP_HOST_LEN :: nat where [simp]: "HTTP_HOST_LEN = 256"

section \<open>Sample structs\<close>

record sample_base =
  kind :: u32

record task_sample = sample_base +
  ts_ns :: u64
  cgroup_id :: u64
  start_boottime :: u64
  tgid :: s32

record fork_sample = sample_base +
  fk_pad :: u32
  fk_ts_ns :: u64
  fk_cgroup_id :: u64
  child_start_boottime :: u64
  parent_start_boottime :: u64
  child_tgid :: s32
  parent_tgid :: s32

record cgroup_mkdir_sample = sample_base +
  staging_matched :: u8
  cm_pad0 :: u8
  cm_pad1 :: u16
  cm_cgroup_id :: u64
  parent_cgroup_id :: u64
  cm_ts_ns :: u64
  cm_path :: bytes

record cgroup_attach_sample = sample_base +
  ca_pad :: u32
  ca_ts_ns :: u64
  source_cgroup_id :: u64
  destination_cgroup_id :: u64
  ca_tgid :: s32
  ca_pad2 :: u32

record cgroup_rmdir_sample = sample_base +
  cr_pad :: u32
  cr_cgroup_id :: u64
  cr_ts_ns :: u64

text \<open>\<open>exec_sample\<close> has the members of the task header under the same names.\<close>

record exec_sample = task_sample +
  argv_truncated :: u8
  argv_faulted :: u8
  ex_pad0 :: u16
  is_memfd :: u8
  ex_pad2 :: bytes
  argc :: u32
  argv_blob_len :: u32
  exec_path :: bytes
  argv_blob :: bytes

record file_open_sample = task_sample +
  is_write :: u8
  is_read :: u8
  fo_path_truncated :: u8
  fo_pad0 :: u8
  fo_flags :: u32
  fo_path :: bytes

record file_remove_sample = task_sample +
  is_folder :: u8
  fr_path_truncated :: u8
  fr_path_offset :: u16
  fr_pad :: u32
  fr_path :: bytes

record file_move_sample = task_sample +
  from_truncated :: u8
  to_truncated :: u8
  from_offset :: u16
  to_offset :: u16
  fm_pad0 :: u16
  fm_pad1 :: u32
  fm_pad2 :: u32
  from_path :: bytes
  to_path :: bytes

record file_link_sample = task_sample +
  is_hardlink :: u8
  is_symlink :: u8
  created_truncated :: u8
  existing_truncated :: u8
  created_offset :: u16
  existing_offset :: u16
  fl_pad0 :: u32
  fl_pad1 :: u32
  created_path :: bytes
  existing_path :: bytes

record mount_sample = task_sample +
  source_truncated :: u8
  target_truncated :: u8
  source_offset :: u16
  target_offset :: u16
  pad_offsets :: u16
  mt_pad0 :: u32
  mt_pad1 :: u32
  source_path :: bytes
  target_path :: bytes

record net_v4_sample = task_sample +
  n4_protocol :: u8
  n4_blocked :: u8
  n4_pad0 :: u16
  n4_pad1 :: u32
  n4_remote_ip :: bytes
  n4_remote_port :: u16
  n4_pad2 :: u16

record net_v6_sample = task_sample +
  n6_protocol :: u8
  n6_blocked :: u8
  n6_pad0 :: u16
  n6_pad1 :: u32
  n6_remote_ip :: bytes
  n6_remote_port :: u16
  n6_pad2 :: u16

record unix_socket_connect_sample = task_sample +
  sun_path_len :: u32
  socket_type :: u8
  is_abstract :: u8
  sun_path_truncated :: u8
  cwd_truncated :: u8
  cwd_unavailable :: u8
  us_pad0 :: u8
  cwd_offset :: u16
  sun_path :: bytes
  cwd :: bytes

record dns_sample = task_sample +
  dn_source :: u8
  dn_family :: u8
  dn_pad0 :: u16
  dport :: u16
  dn_pad1 :: u16
  payload_len :: u32
  dn_pad2 :: u32
  daddr_v4 :: bytes
  daddr_v6 :: bytes
  payload :: bytes

record http_request_sample = task_sample +
  hr_source :: u8
  hr_pad0 :: bytes
  hr_pad1 :: u32
  hr_method :: bytes
  hr_path :: bytes
  hr_host :: bytes

record mapped_file_identity =
  device_major :: u32
  device_minor :: u32
  mf_inode :: u64

record file_classification_key =
  mapped_file :: mapped_file_identity
  ctime_sec :: s64
  ctime_nsec :: u32
  fc_pad :: u32

record http_uprobe_attach_candidate_sample = sample_base +
  ac_tgid :: s32
  ac_vm_start :: u64
  ac_vm_end :: u64
  ac_file :: file_classification_key

text \<open>A record of the ring buffer: one of the structs.\<close>

datatype sample =
    ForkSample fork_sample
  | CgroupMkdirSample cgroup_mkdir_sample
  | CgroupAttachSample cgroup_attach_sample
  | CgroupRmdirSample cgroup_rmdir_sample
  | ExecSample exec_sample
  | NetV4Sample net_v4_sample
  | NetV6Sample net_v6_sample
  | FileOpenSample file_open_sample
  | FileRemoveSample file_remove_sample
  | FileMoveSample file_move_sample
  | FileLinkSample file_link_sample
  | DnsSample dns_sample
  | UnixSocketConnectSample unix_socket_connect_sample
  | MountSample mount_sample
  | HttpRequestSample http_request_sample
  | HttpUprobeAttachCandidateSample http_uprobe_attach_candidate_sample

text \<open>The \<open>kind\<close> word userspace reads at offset 0, and the kind the struct stands for.\<close>

fun stored_kind :: "sample \<Rightarrow> u32" where
  "stored_kind (ForkSample x) = kind x"
| "stored_kind (CgroupMkdirSample x) = kind x"
| "stored_kind (CgroupAttachSample x) = kind x"
| "stored_kind (CgroupRmdirSample x) = kind x"
| "stored_kind (ExecSample x) = kind x"
| "stored_kind (NetV4Sample x) = kind x"
| "stored_kind (NetV6Sample x) = kind x"
| "stored_kind (FileOpenSample x) = kind x"
| "stored_kind (FileRemoveSample x) = kind x"
| "stored_kind (FileMoveSample x) = kind x"
| "stored_kind (FileLinkSample x) = kind x"
| "stored_kind (DnsSample x) = kind x"
| "stored_kind (UnixSocketConnectSample x) = kind x"
| "stored_kind (MountSample x) = kind x"
| "stored_kind (HttpRequestSample x) = kind x"
| "stored_kind (HttpUprobeAttachCandidateSample x) = kind x"

fun struct_kind :: "sample \<Rightarrow> agent_sample_kind" where
  "struct_kind (ForkSample x) = SAMPLE_KIND_FORK"
| "struct_kind (CgroupMkdirSample x) = SAMPLE_KIND_CGROUP_MKDIR"
| "struct_kind (CgroupAttachSample x) = SAMPLE_KIND_CGROUP_ATTACH"
| "struct_kind (CgroupRmdirSample x) = SAMPLE_KIND_CGROUP_RMDIR"
| "struct_kind (ExecSample x) = SAMPLE_KIND_EXEC"
| "struct_kind (NetV4Sample x) = SAMPLE_KIND_NETWORK_CONNECT_V4"
| "struct_kind (NetV6Sample x) = SAMPLE_KIND_NETWORK_CONNECT_V6"
| "struct_kind (FileOpenSample x) = SAMPLE_KIND_FILE_OPEN"
| "struct_kind (FileRemoveSample x) = SAMPLE_KIND_FILE_REMOVE"
| "struct_kind (FileMoveSample x) = SAMPLE_KIND_FILE_MOVE"
| "struct_kind (FileLinkSample x) = SAMPLE_KIND_FILE_LINK"
| "struct_kind (DnsSample x) = SAMPLE_KIND_DNS"
| "struct_kind (UnixSocketConnectSample x) = SAMPLE_KIND_UNIX_SOCKET_CONNECT"
| "struct_kind (MountSample x) = SAMPLE_KIND_MOUNT"
| "struct_kind (HttpRequestSample x) = SAMPLE_KIND_HTTP_REQUEST"
| "struct_kind (HttpUprobeAttachCandidateSample x) = SAMPLE_KIND_HTTP_UPROBE_ATTACH_CANDIDATE"

text \<open>
  The cgroup of the task a sample is about. The lifecycle samples are about cgroups instead
  of a task in one, and the discovery sample carries none.
\<close>

fun sample_cgroup :: "sample \<Rightarrow> u64 option" where
  "sample_cgroup (ForkSample x) = Some (fk_cgroup_id x)"
| "sample_cgroup (CgroupMkdirSample x) = None"
| "sample_cgroup (CgroupAttachSample x) = None"
| "sample_cgroup (CgroupRmdirSample x) = None"
| "sample_cgroup (ExecSample x) = Some (cgroup_id x)"
| "sample_cgroup (NetV4Sample x) = Some (cgroup_id x)"
| "sample_cgroup (NetV6Sample x) = Some (cgroup_id x)"
| "sample_cgroup (FileOpenSample x) = Some (cgroup_id x)"
| "sample_cgroup (FileRemoveSample x) = Some (cgroup_id x)"
| "sample_cgroup (FileMoveSample x) = Some (cgroup_id x)"
| "sample_cgroup (FileLinkSample x) = Some (cgroup_id x)"
| "sample_cgroup (DnsSample x) = Some (cgroup_id x)"
| "sample_cgroup (UnixSocketConnectSample x) = Some (cgroup_id x)"
| "sample_cgroup (MountSample x) = Some (cgroup_id x)"
| "sample_cgroup (HttpRequestSample x) = Some (cgroup_id x)"
| "sample_cgroup (HttpUprobeAttachCandidateSample x) = None"

text \<open>The array members of a sample have the length the struct declares.\<close>

fun sample_wf :: "sample \<Rightarrow> bool" where
  "sample_wf (ForkSample x) = True"
| "sample_wf (CgroupMkdirSample x) = (length (cm_path x) = CGROUP_PATH_LEN)"
| "sample_wf (CgroupAttachSample x) = True"
| "sample_wf (CgroupRmdirSample x) = True"
| "sample_wf (ExecSample x) =
     (length (ex_pad2 x) = 3 \<and> length (exec_path x) = EXEC_PATH_LEN \<and>
      length (argv_blob x) = ARGV_BLOB_LEN)"
| "sample_wf (NetV4Sample x) = (length (n4_remote_ip x) = 4)"
| "sample_wf (NetV6Sample x) = (length (n6_remote_ip x) = 16)"
| "sample_wf (FileOpenSample x) = (length (fo_path x) = FILE_PATH_LEN)"
| "sample_wf (FileRemoveSample x) = (length (fr_path x) = FILE_PATH_LEN)"
| "sample_wf (FileMoveSample x) =
     (length (from_path x) = FILE_PATH_LEN \<and> length (to_path x) = FILE_PATH_LEN)"
| "sample_wf (FileLinkSample x) =
     (length (created_path x) = FILE_PATH_LEN \<and> length (existing_path x) = FILE_PATH_LEN)"
| "sample_wf (DnsSample x) =
     (length (daddr_v4 x) = 4 \<and> length (daddr_v6 x) = 16 \<and>
      length (payload x) = DNS_PAYLOAD_LEN)"
| "sample_wf (UnixSocketConnectSample x) =
     (length (sun_path x) = UNIX_SOCKET_SUN_PATH_LEN \<and> length (cwd x) = FILE_PATH_LEN)"
| "sample_wf (MountSample x) =
     (length (source_path x) = FILE_PATH_LEN \<and> length (target_path x) = FILE_PATH_LEN)"
| "sample_wf (HttpRequestSample x) =
     (length (hr_pad0 x) = 3 \<and> length (hr_method x) = HTTP_METHOD_LEN \<and>
      length (hr_path x) = HTTP_PATH_LEN \<and> length (hr_host x) = HTTP_HOST_LEN)"
| "sample_wf (HttpUprobeAttachCandidateSample x) = True"

text \<open>The lengths a sample announces fit the buffers they describe.\<close>

fun lengths_ok :: "sample \<Rightarrow> bool" where
  "lengths_ok (ExecSample x) \<longleftrightarrow> unat (argv_blob_len x) \<le> ARGV_BLOB_LEN"
| "lengths_ok (DnsSample x) \<longleftrightarrow> unat (payload_len x) \<le> DNS_PAYLOAD_LEN"
| "lengths_ok (UnixSocketConnectSample x) \<longleftrightarrow> unat (sun_path_len x) \<le> UNIX_SOCKET_SUN_PATH_LEN"
| "lengths_ok _ \<longleftrightarrow> True"

end
