(* ===== verification/Sample_Layout.thy ===== *)
theory Sample_Layout
  imports Kernel_Samples
begin

text \<open>
  The C layout of the sample structs of \<open>kernel_samples.h\<close> under the 64-bit little-endian
  ABI both build targets use: natural alignment, members in declaration order, trailing
  padding up to the alignment of the struct. \<open>sizeof\<close> of a struct is what
  \<open>bpf_ringbuf_reserve\<close> is asked for and what the Go decoders compare the record length with;
  the structs \<open>bpf2go\<close> generates (\<open>generated/bpf_program_x86_bpfel.go\<close>) spell the same
  members and make the implicit padding explicit.
\<close>

section \<open>C types, alignment and size\<close>

datatype cty = CU8 | CU16 | CU32 | CS32 | CU64 | CS64 | CBytes nat | CStruct "(string \<times> cty) list"

definition round_up :: "nat \<Rightarrow> nat \<Rightarrow> nat" where
  "round_up n a = (n + (a - 1)) div a * a"

fun calign :: "cty \<Rightarrow> nat" where
  "calign CU8 = 1"
| "calign CU16 = 2"
| "calign CU32 = 4"
| "calign CS32 = 4"
| "calign CU64 = 8"
| "calign CS64 = 8"
| "calign (CBytes n) = 1"
| "calign (CStruct fs) = foldr (\<lambda>f m. max (calign (snd f)) m) fs 1"

text \<open>
  \<open>csize t\<close> is \<open>sizeof(t)\<close>; \<open>place off fs\<close> gives each member its offset, starting the search
  at \<open>off\<close>, and the offset after the last member.
\<close>

fun csize :: "cty \<Rightarrow> nat"
and members_end :: "nat \<Rightarrow> (string \<times> cty) list \<Rightarrow> nat" where
  "csize CU8 = 1"
| "csize CU16 = 2"
| "csize CU32 = 4"
| "csize CS32 = 4"
| "csize CU64 = 8"
| "csize CS64 = 8"
| "csize (CBytes n) = n"
| "csize (CStruct fs) = round_up (members_end 0 fs) (calign (CStruct fs))"
| "members_end off [] = off"
| "members_end off ((x, t) # fs) = members_end (round_up off (calign t) + csize t) fs"

fun offsets :: "nat \<Rightarrow> (string \<times> cty) list \<Rightarrow> (string \<times> nat) list" where
  "offsets off [] = []"
| "offsets off ((x, t) # fs) =
     (x, round_up off (calign t)) # offsets (round_up off (calign t) + csize t) fs"

text \<open>
  The gaps the compiler leaves: the bytes before each member that no member covers, and the
  trailing ones.
\<close>

fun member_gaps :: "nat \<Rightarrow> (string \<times> cty) list \<Rightarrow> nat" where
  "member_gaps off [] = 0"
| "member_gaps off ((x, t) # fs) =
     (round_up off (calign t) - off) + member_gaps (round_up off (calign t) + csize t) fs"

definition tail_padding :: "(string \<times> cty) list \<Rightarrow> nat" where
  "tail_padding fs = csize (CStruct fs) - members_end 0 fs"

section \<open>The structs\<close>

definition fork_sample_layout :: "(string \<times> cty) list" where
  "fork_sample_layout =
     [(''kind'', CU32), (''_pad'', CU32), (''ts_ns'', CU64), (''cgroup_id'', CU64),
      (''child_start_boottime'', CU64), (''parent_start_boottime'', CU64),
      (''child_tgid'', CS32), (''parent_tgid'', CS32)]"

definition cgroup_mkdir_sample_layout :: "(string \<times> cty) list" where
  "cgroup_mkdir_sample_layout =
     [(''kind'', CU32), (''staging_matched'', CU8), (''_pad0'', CU8), (''_pad1'', CU16),
      (''cgroup_id'', CU64), (''parent_cgroup_id'', CU64), (''ts_ns'', CU64),
      (''path'', CBytes CGROUP_PATH_LEN)]"

definition cgroup_attach_sample_layout :: "(string \<times> cty) list" where
  "cgroup_attach_sample_layout =
     [(''kind'', CU32), (''_pad'', CU32), (''ts_ns'', CU64), (''source_cgroup_id'', CU64),
      (''destination_cgroup_id'', CU64), (''tgid'', CS32), (''_pad2'', CU32)]"

definition cgroup_rmdir_sample_layout :: "(string \<times> cty) list" where
  "cgroup_rmdir_sample_layout =
     [(''kind'', CU32), (''_pad'', CU32), (''cgroup_id'', CU64), (''ts_ns'', CU64)]"

definition exec_sample_layout :: "(string \<times> cty) list" where
  "exec_sample_layout =
     [(''kind'', CU32), (''argv_truncated'', CU8), (''argv_faulted'', CU8), (''_pad0'', CU16),
      (''ts_ns'', CU64), (''cgroup_id'', CU64), (''start_boottime'', CU64), (''tgid'', CS32),
      (''is_memfd'', CU8), (''_pad2'', CBytes 3), (''argc'', CU32), (''argv_blob_len'', CU32),
      (''exec_path'', CBytes EXEC_PATH_LEN), (''argv_blob'', CBytes ARGV_BLOB_LEN)]"

definition file_open_sample_layout :: "(string \<times> cty) list" where
  "file_open_sample_layout =
     [(''kind'', CU32), (''is_write'', CU8), (''is_read'', CU8), (''path_truncated'', CU8),
      (''_pad0'', CU8), (''ts_ns'', CU64), (''cgroup_id'', CU64), (''start_boottime'', CU64),
      (''tgid'', CS32), (''flags'', CU32), (''path'', CBytes FILE_PATH_LEN)]"

definition file_remove_sample_layout :: "(string \<times> cty) list" where
  "file_remove_sample_layout =
     [(''kind'', CU32), (''is_folder'', CU8), (''path_truncated'', CU8), (''path_offset'', CU16),
      (''ts_ns'', CU64), (''cgroup_id'', CU64), (''start_boottime'', CU64), (''tgid'', CS32),
      (''_pad'', CU32), (''path'', CBytes FILE_PATH_LEN)]"

definition file_move_sample_layout :: "(string \<times> cty) list" where
  "file_move_sample_layout =
     [(''kind'', CU32), (''from_truncated'', CU8), (''to_truncated'', CU8),
      (''from_offset'', CU16), (''to_offset'', CU16), (''_pad0'', CU16), (''_pad1'', CU32),
      (''ts_ns'', CU64), (''cgroup_id'', CU64), (''start_boottime'', CU64), (''tgid'', CS32),
      (''_pad2'', CU32), (''from_path'', CBytes FILE_PATH_LEN), (''to_path'', CBytes FILE_PATH_LEN)]"

definition file_link_sample_layout :: "(string \<times> cty) list" where
  "file_link_sample_layout =
     [(''kind'', CU32), (''is_hardlink'', CU8), (''is_symlink'', CU8),
      (''created_truncated'', CU8), (''existing_truncated'', CU8), (''created_offset'', CU16),
      (''existing_offset'', CU16), (''_pad0'', CU32), (''ts_ns'', CU64), (''cgroup_id'', CU64),
      (''start_boottime'', CU64), (''tgid'', CS32), (''_pad1'', CU32),
      (''created_path'', CBytes FILE_PATH_LEN), (''existing_path'', CBytes FILE_PATH_LEN)]"

definition mount_sample_layout :: "(string \<times> cty) list" where
  "mount_sample_layout =
     [(''kind'', CU32), (''source_truncated'', CU8), (''target_truncated'', CU8),
      (''source_offset'', CU16), (''target_offset'', CU16), (''_pad_offsets'', CU16),
      (''_pad0'', CU32), (''ts_ns'', CU64), (''cgroup_id'', CU64), (''start_boottime'', CU64),
      (''tgid'', CS32), (''_pad1'', CU32), (''source_path'', CBytes FILE_PATH_LEN),
      (''target_path'', CBytes FILE_PATH_LEN)]"

definition net_v4_sample_layout :: "(string \<times> cty) list" where
  "net_v4_sample_layout =
     [(''kind'', CU32), (''protocol'', CU8), (''blocked'', CU8), (''_pad0'', CU16),
      (''ts_ns'', CU64), (''cgroup_id'', CU64), (''start_boottime'', CU64), (''tgid'', CS32),
      (''_pad1'', CU32), (''remote_ip'', CBytes 4), (''remote_port'', CU16), (''_pad2'', CU16)]"

definition net_v6_sample_layout :: "(string \<times> cty) list" where
  "net_v6_sample_layout =
     [(''kind'', CU32), (''protocol'', CU8), (''blocked'', CU8), (''_pad0'', CU16),
      (''ts_ns'', CU64), (''cgroup_id'', CU64), (''start_boottime'', CU64), (''tgid'', CS32),
      (''_pad1'', CU32), (''remote_ip'', CBytes 16), (''remote_port'', CU16), (''_pad2'', CU16)]"

definition unix_socket_connect_sample_layout :: "(string \<times> cty) list" where
  "unix_socket_connect_sample_layout =
     [(''kind'', CU32), (''sun_path_len'', CU32), (''ts_ns'', CU64), (''cgroup_id'', CU64),
      (''start_boottime'', CU64), (''tgid'', CS32), (''socket_type'', CU8),
      (''is_abstract'', CU8), (''sun_path_truncated'', CU8), (''cwd_truncated'', CU8),
      (''cwd_unavailable'', CU8), (''_pad0'', CU8), (''cwd_offset'', CU16),
      (''sun_path'', CBytes UNIX_SOCKET_SUN_PATH_LEN), (''cwd'', CBytes FILE_PATH_LEN)]"

definition dns_sample_layout :: "(string \<times> cty) list" where
  "dns_sample_layout =
     [(''kind'', CU32), (''source'', CU8), (''family'', CU8), (''_pad0'', CU16),
      (''dport'', CU16), (''_pad1'', CU16), (''payload_len'', CU32), (''ts_ns'', CU64),
      (''cgroup_id'', CU64), (''start_boottime'', CU64), (''tgid'', CS32), (''_pad2'', CU32),
      (''daddr_v4'', CBytes 4), (''daddr_v6'', CBytes 16), (''payload'', CBytes DNS_PAYLOAD_LEN)]"

definition http_request_sample_layout :: "(string \<times> cty) list" where
  "http_request_sample_layout =
     [(''kind'', CU32), (''source'', CU8), (''_pad0'', CBytes 3), (''ts_ns'', CU64),
      (''cgroup_id'', CU64), (''start_boottime'', CU64), (''tgid'', CS32), (''_pad1'', CU32),
      (''method'', CBytes HTTP_METHOD_LEN), (''path'', CBytes HTTP_PATH_LEN),
      (''host'', CBytes HTTP_HOST_LEN)]"

definition mapped_file_identity_layout :: "(string \<times> cty) list" where
  "mapped_file_identity_layout =
     [(''device_major'', CU32), (''device_minor'', CU32), (''inode'', CU64)]"

definition file_classification_key_layout :: "(string \<times> cty) list" where
  "file_classification_key_layout =
     [(''mapped_file'', CStruct mapped_file_identity_layout), (''ctime_sec'', CS64),
      (''ctime_nsec'', CU32), (''_pad'', CU32)]"

definition http_uprobe_attach_candidate_sample_layout :: "(string \<times> cty) list" where
  "http_uprobe_attach_candidate_sample_layout =
     [(''kind'', CU32), (''tgid'', CS32), (''vm_start'', CU64), (''vm_end'', CU64),
      (''file'', CStruct file_classification_key_layout)]"

fun sample_layout :: "agent_sample_kind \<Rightarrow> (string \<times> cty) list" where
  "sample_layout SAMPLE_KIND_FORK = fork_sample_layout"
| "sample_layout SAMPLE_KIND_CGROUP_MKDIR = cgroup_mkdir_sample_layout"
| "sample_layout SAMPLE_KIND_CGROUP_ATTACH = cgroup_attach_sample_layout"
| "sample_layout SAMPLE_KIND_CGROUP_RMDIR = cgroup_rmdir_sample_layout"
| "sample_layout SAMPLE_KIND_EXEC = exec_sample_layout"
| "sample_layout SAMPLE_KIND_NETWORK_CONNECT_V4 = net_v4_sample_layout"
| "sample_layout SAMPLE_KIND_NETWORK_CONNECT_V6 = net_v6_sample_layout"
| "sample_layout SAMPLE_KIND_FILE_OPEN = file_open_sample_layout"
| "sample_layout SAMPLE_KIND_FILE_REMOVE = file_remove_sample_layout"
| "sample_layout SAMPLE_KIND_FILE_MOVE = file_move_sample_layout"
| "sample_layout SAMPLE_KIND_FILE_LINK = file_link_sample_layout"
| "sample_layout SAMPLE_KIND_DNS = dns_sample_layout"
| "sample_layout SAMPLE_KIND_UNIX_SOCKET_CONNECT = unix_socket_connect_sample_layout"
| "sample_layout SAMPLE_KIND_MOUNT = mount_sample_layout"
| "sample_layout SAMPLE_KIND_HTTP_REQUEST = http_request_sample_layout"
| "sample_layout SAMPLE_KIND_HTTP_UPROBE_ATTACH_CANDIDATE =
     http_uprobe_attach_candidate_sample_layout"

definition sizeof_sample :: "agent_sample_kind \<Rightarrow> nat" where
  "sizeof_sample k = csize (CStruct (sample_layout k))"

lemmas layout_defs =
  fork_sample_layout_def cgroup_mkdir_sample_layout_def cgroup_attach_sample_layout_def
  cgroup_rmdir_sample_layout_def exec_sample_layout_def file_open_sample_layout_def
  file_remove_sample_layout_def file_move_sample_layout_def file_link_sample_layout_def
  mount_sample_layout_def net_v4_sample_layout_def net_v6_sample_layout_def
  unix_socket_connect_sample_layout_def dns_sample_layout_def http_request_sample_layout_def
  mapped_file_identity_layout_def file_classification_key_layout_def
  http_uprobe_attach_candidate_sample_layout_def

lemmas layout_eval = layout_defs round_up_def sizeof_sample_def tail_padding_def

section \<open>The ABI rules\<close>

text \<open>
  A struct whose members need no implicit gap is laid out back to back: every member starts
  where the previous one ends.
\<close>

lemma sample_layout_no_gaps: "member_gaps 0 (sample_layout k) = 0"
  by (cases k) (simp_all add: layout_eval)

lemma sample_kind_first: "hd (offsets 0 (sample_layout k)) = (''kind'', 0)"
  by (cases k) (simp_all add: layout_eval)

lemma sample_tail_padding:
  "tail_padding (sample_layout k) =
     (if k = SAMPLE_KIND_DNS \<or> k = SAMPLE_KIND_NETWORK_CONNECT_V6 then 4 else 0)"
  by (cases k) (simp_all add: layout_eval)

text \<open>The record length \<open>binary.Size\<close> gives for the struct \<open>bpf2go\<close> generates.\<close>

fun go_sample_size :: "agent_sample_kind \<Rightarrow> nat" where
  "go_sample_size SAMPLE_KIND_FORK = 4+4+8+8+8+8+4+4"
| "go_sample_size SAMPLE_KIND_CGROUP_MKDIR = 4+1+1+2+8+8+8+512"
| "go_sample_size SAMPLE_KIND_CGROUP_ATTACH = 4+4+8+8+8+4+4"
| "go_sample_size SAMPLE_KIND_CGROUP_RMDIR = 4+4+8+8"
| "go_sample_size SAMPLE_KIND_EXEC = 4+1+1+2+8+8+8+4+1+3+4+4+512+2048"
| "go_sample_size SAMPLE_KIND_NETWORK_CONNECT_V4 = 4+1+1+2+8+8+8+4+4+4+2+2"
| "go_sample_size SAMPLE_KIND_NETWORK_CONNECT_V6 = 4+1+1+2+8+8+8+4+4+16+2+2+4"
| "go_sample_size SAMPLE_KIND_FILE_OPEN = 4+1+1+1+1+8+8+8+4+4+1024"
| "go_sample_size SAMPLE_KIND_FILE_REMOVE = 4+1+1+2+8+8+8+4+4+1024"
| "go_sample_size SAMPLE_KIND_FILE_MOVE = 4+1+1+2+2+2+4+8+8+8+4+4+1024+1024"
| "go_sample_size SAMPLE_KIND_FILE_LINK = 4+1+1+1+1+2+2+4+8+8+8+4+4+1024+1024"
| "go_sample_size SAMPLE_KIND_DNS = 4+1+1+2+2+2+4+8+8+8+4+4+4+16+512+4"
| "go_sample_size SAMPLE_KIND_UNIX_SOCKET_CONNECT = 4+4+8+8+8+4+1+1+1+1+1+1+2+108+1024"
| "go_sample_size SAMPLE_KIND_MOUNT = 4+1+1+2+2+2+4+8+8+8+4+4+1024+1024"
| "go_sample_size SAMPLE_KIND_HTTP_REQUEST = 4+1+3+8+8+8+4+4+16+256+256"
| "go_sample_size SAMPLE_KIND_HTTP_UPROBE_ATTACH_CANDIDATE = 4+4+8+8+(4+4+8)+8+4+4"

lemma sizeof_sample_go: "sizeof_sample k = go_sample_size k"
  by (cases k) (simp_all add: layout_eval)

end
