(* ===== verification/Bpf_Kernel.thy ===== *)
theory Bpf_Kernel
  imports Sample_Layout
begin

text \<open>
  What the BPF programs see of the kernel while one program runs: the kernel objects they
  read through CO-RE accesses (the members of \<open>vmlinux.h\<close> structs the sources name), raw
  kernel and user memory, the results of the parameterless helpers, and the decisions the
  kernel takes for them (whether a ring buffer reservation or a map update succeeds, what
  an uninitialised reservation holds, what a failed read leaves in its destination, which
  struct members the running kernel has). All of it is the record \<open>kenv\<close>, an argument of
  every hook; nothing of it is fixed by the model.
\<close>

section \<open>Kernel objects\<close>

text \<open>Struct members are named after the C member, prefixed where two structs share a name.\<close>

record task_struct =
  t_pid :: s32
  t_tgid :: s32
  t_start_boottime :: u64
  t_group_leader :: ptr
  t_mm :: ptr
  t_fs :: ptr
  t_cgroups :: ptr

record css_set =
  dfl_cgrp :: ptr

record kernfs_node =
  kn_id :: u64
  kn_name :: ptr

text \<open>
  \<open>ancestor_ids\<close> is the member of kernels up to 6.4 (\<open>struct cgroup___legacy\<close>),
  \<open>ancestors\<close> the one of later kernels.
\<close>

record cgroup =
  cg_kn :: ptr
  cg_level :: s32
  cg_ancestor_ids :: "nat \<Rightarrow> u64"
  cg_ancestors :: "nat \<Rightarrow> ptr"

record mm_struct =
  arg_start :: u64
  arg_end :: u64

record fs_struct =
  pwd_dentry :: ptr

record dentry =
  d_parent :: ptr
  d_name :: ptr

record path =
  p_dentry :: ptr

record super_block =
  s_magic :: u64
  s_dev :: u32

text \<open>
  The change time has three layouts: \<open>i_ctime_sec\<close>/\<open>i_ctime_nsec\<close>, the 6.6 to 6.11
  \<open>__i_ctime\<close>, and \<open>i_ctime\<close> before.
\<close>

record inode =
  i_sb :: ptr
  i_ino :: u64
  i_ctime_sec :: s64
  i_ctime_nsec :: u32
  mid_ctime_tv_sec :: s64
  mid_ctime_tv_nsec :: s64
  leg_ctime_tv_sec :: s64
  leg_ctime_tv_nsec :: s64

text \<open>\<open>f_path\<close> is the address of the embedded \<open>struct path\<close>, which \<open>bpf_d_path\<close> is given.\<close>

record kfile =
  f_inode :: ptr
  f_path_dentry :: ptr
  f_path :: ptr
  f_flags :: u32

record linux_binprm =
  bprm_argc :: s32
  bprm_file :: ptr
  bprm_filename :: ptr

record vm_area_struct =
  vm_flags :: u64
  vm_file :: ptr
  vm_start :: u64
  vm_end :: u64

text \<open>\<open>uscore_iov\<close> is \<open>__iov\<close> (6.10 and later), \<open>legacy_iov\<close> the older member \<open>iov\<close>.\<close>

record iov_iter =
  iter_type :: u32
  ubuf :: ptr
  it_count :: u64
  nr_segs :: u64
  uscore_iov :: ptr
  legacy_iov :: ptr

record msghdr =
  msg_name :: ptr
  msg_iter :: iov_iter

text \<open>\<open>struct sock\<close> with the members of \<open>__sk_common\<close>; \<open>skc_daddr\<close> is the four bytes in
  memory order, \<open>peer\<close> and \<open>addr\<close> are the members of the enclosing \<open>struct unix_sock\<close>.\<close>

record sock =
  skc_family :: u16
  skc_dport :: u16
  skc_daddr :: bytes
  skc_v6_daddr :: bytes
  unix_peer :: ptr
  unix_addr :: ptr

record socket =
  so_sk :: ptr
  so_type :: u16

text \<open>\<open>ua_name\<close> is the address of the embedded \<open>name[]\<close>.\<close>

record unix_address =
  ua_len :: s32
  ua_name :: ptr

record kheap =
  h_task :: "ptr \<rightharpoonup> task_struct"
  h_css_set :: "ptr \<rightharpoonup> css_set"
  h_cgroup :: "ptr \<rightharpoonup> cgroup"
  h_kernfs :: "ptr \<rightharpoonup> kernfs_node"
  h_mm :: "ptr \<rightharpoonup> mm_struct"
  h_fs :: "ptr \<rightharpoonup> fs_struct"
  h_dentry :: "ptr \<rightharpoonup> dentry"
  h_path :: "ptr \<rightharpoonup> path"
  h_super :: "ptr \<rightharpoonup> super_block"
  h_inode :: "ptr \<rightharpoonup> inode"
  h_file :: "ptr \<rightharpoonup> kfile"
  h_binprm :: "ptr \<rightharpoonup> linux_binprm"
  h_vma :: "ptr \<rightharpoonup> vm_area_struct"
  h_msghdr :: "ptr \<rightharpoonup> msghdr"
  h_sock :: "ptr \<rightharpoonup> sock"
  h_socket :: "ptr \<rightharpoonup> socket"
  h_unix_address :: "ptr \<rightharpoonup> unix_address"

text \<open>
  What CO-RE resolves against the running kernel when the object is loaded:
  \<open>bpf_core_field_exists\<close> and \<open>bpf_core_enum_value(_exists)\<close> at the places the sources use
  them.
\<close>

record btf_info =
  has_ancestor_ids :: bool
  has_uscore_iov :: bool
  has_ITER_UBUF :: bool
  ITER_UBUF :: u32
  ITER_IOVEC :: u32
  has_i_ctime_sec :: bool
  has_mid_ctime :: bool

text \<open>The uninitialised storage a reservation of each struct returns.\<close>

record ring_storage =
  st_fork :: fork_sample
  st_mkdir :: cgroup_mkdir_sample
  st_attach :: cgroup_attach_sample
  st_rmdir :: cgroup_rmdir_sample
  st_exec :: exec_sample
  st_net_v4 :: net_v4_sample
  st_net_v6 :: net_v6_sample
  st_file_open :: file_open_sample
  st_file_remove :: file_remove_sample
  st_file_move :: file_move_sample
  st_file_link :: file_link_sample
  st_dns :: dns_sample
  st_unix :: unix_socket_connect_sample
  st_mount :: mount_sample
  st_http :: http_request_sample
  st_candidate :: http_uprobe_attach_candidate_sample

section \<open>The environment of one program run\<close>

text \<open>
  \<open>fault_word\<close> and \<open>fault_fill\<close> are what a failed typed or byte read leaves in its
  destination; \<open>d_path\<close> is \<open>bpf_d_path\<close> (the return value and the new buffer);
  \<open>lru_victim\<close> tells which entries of an LRU map an insertion evicts.
\<close>

record kenv =
  cpu :: nat
  ktime_ns :: u64
  pid_tgid :: u64
  cur_task :: ptr
  cur_cgroup :: u64
  umem :: "ptr \<rightharpoonup> u8"
  kmem :: "ptr \<rightharpoonup> u8"
  heap :: kheap
  btf :: btf_info
  fault_word :: u64
  fault_fill :: "nat \<Rightarrow> bytes"
  d_path :: "ptr \<Rightarrow> bytes \<Rightarrow> int \<times> bytes"
  ringbuf_space :: "nat \<Rightarrow> bool"
  map_update_ok :: bool
  lru_victim :: "file_classification_key \<Rightarrow> bool"
  storage :: ring_storage

text \<open>
  The facts about these parameters that the code relies on: uninitialised storage and
  faulted reads have the size of their object, IPv6 addresses have 16 bytes, and
  \<open>bpf_d_path\<close> writes inside the buffer it is given.
\<close>

definition storage_wf :: "ring_storage \<Rightarrow> bool" where
  "storage_wf st \<longleftrightarrow>
     sample_wf (CgroupMkdirSample (st_mkdir st)) \<and> sample_wf (ExecSample (st_exec st)) \<and>
     sample_wf (NetV4Sample (st_net_v4 st)) \<and> sample_wf (NetV6Sample (st_net_v6 st)) \<and>
     sample_wf (FileOpenSample (st_file_open st)) \<and> sample_wf (FileRemoveSample (st_file_remove st)) \<and>
     sample_wf (FileMoveSample (st_file_move st)) \<and> sample_wf (FileLinkSample (st_file_link st)) \<and>
     sample_wf (DnsSample (st_dns st)) \<and> sample_wf (UnixSocketConnectSample (st_unix st)) \<and>
     sample_wf (MountSample (st_mount st)) \<and> sample_wf (HttpRequestSample (st_http st))"

definition env_wf :: "kenv \<Rightarrow> bool" where
  "env_wf env \<longleftrightarrow>
     storage_wf (storage env) \<and>
     (\<forall>n. length (fault_fill env n) = n) \<and>
     (\<forall>p sk. h_sock (heap env) p = Some sk \<longrightarrow>
        length (skc_daddr sk) = 4 \<and> length (skc_v6_daddr sk) = 16) \<and>
     (\<forall>p buf. length (snd (d_path env p buf)) = length buf)"

section \<open>Memory helpers\<close>

text \<open>
  \<open>bpf_probe_read_user\<close> and \<open>bpf_probe_read_kernel\<close>: all \<open>n\<close> bytes, or failure.
  \<open>bpf_probe_read_kernel_str\<close>: the string with its NUL, cut to \<open>size - 1\<close> bytes and
  terminated when it is longer; the destination is not padded.
\<close>

fun read_bytes :: "(ptr \<rightharpoonup> u8) \<Rightarrow> ptr \<Rightarrow> nat \<Rightarrow> bytes option" where
  "read_bytes m p 0 = Some []"
| "read_bytes m p (Suc n) =
     (case m p of None \<Rightarrow> None
      | Some b \<Rightarrow> map_option (Cons b) (read_bytes m (p + 1) n))"

fun read_str :: "(ptr \<rightharpoonup> u8) \<Rightarrow> ptr \<Rightarrow> nat \<Rightarrow> bytes option" where
  "read_str m p 0 = Some []"
| "read_str m p (Suc 0) = Some [0]"
| "read_str m p (Suc (Suc n)) =
     (case m p of None \<Rightarrow> None
      | Some b \<Rightarrow> if b = 0 then Some [0] else map_option (Cons b) (read_str m (p + 1) (Suc n)))"

definition bpf_probe_read_user :: "kenv \<Rightarrow> nat \<Rightarrow> ptr \<Rightarrow> bytes option" where
  "bpf_probe_read_user env n p = read_bytes (umem env) p n"

definition bpf_probe_read_kernel :: "kenv \<Rightarrow> nat \<Rightarrow> ptr \<Rightarrow> bytes option" where
  "bpf_probe_read_kernel env n p = read_bytes (kmem env) p n"

definition bpf_probe_read_kernel_str :: "kenv \<Rightarrow> nat \<Rightarrow> ptr \<Rightarrow> bytes option" where
  "bpf_probe_read_kernel_str env n p = read_str (kmem env) p n"

text \<open>
  The read into a destination buffer at an offset: what the buffer holds afterwards when
  \<open>n\<close> bytes were asked for.
\<close>

definition read_into :: "kenv \<Rightarrow> nat \<Rightarrow> bytes option \<Rightarrow> nat \<Rightarrow> bytes \<Rightarrow> bytes" where
  "read_into env n r off dst =
     (case r of Some bs \<Rightarrow> blit off bs dst | None \<Rightarrow> blit off (fault_fill env n) dst)"

text \<open>\<open>BPF_CORE_READ\<close> of one member; chained accesses nest it.\<close>

definition BPF_CORE_READ :: "kenv \<Rightarrow> (kheap \<Rightarrow> ptr \<rightharpoonup> 'o) \<Rightarrow> ptr \<Rightarrow> ('o \<Rightarrow> 'a::len word) \<Rightarrow> 'a word" where
  "BPF_CORE_READ env h p member =
     (case h (heap env) p of None \<Rightarrow> ucast (fault_word env) | Some obj \<Rightarrow> member obj)"

lemma core_read_Some [simp]:
  "h (heap env) p = Some obj \<Longrightarrow> BPF_CORE_READ env h p member = member obj"
  by (simp add: BPF_CORE_READ_def)

lemma length_read_bytes [simp]: "read_bytes m p n = Some bs \<Longrightarrow> length bs = n"
  by (induction m p n arbitrary: bs rule: read_bytes.induct) (auto split: option.splits)

lemma read_bytes_nth:
  "read_bytes m p n = Some bs \<Longrightarrow> i < n \<Longrightarrow> m (p + of_nat i) = Some (bs ! i)"
proof (induction m p n arbitrary: bs i rule: read_bytes.induct)
  case (2 m p n)
  then show ?case
    by (cases i) (auto split: option.splits simp: add.assoc)
qed simp

lemma read_bytes_SomeI:
  "(\<And>i. i < n \<Longrightarrow> m (p + of_nat i) = Some (bs ! i)) \<Longrightarrow> length bs = n \<Longrightarrow>
   read_bytes m p n = Some bs"
proof (induction n arbitrary: p bs)
  case (Suc n)
  then obtain b bs' where bs: "bs = b # bs'" by (cases bs) auto
  have "m p = Some b" using Suc.prems(1)[of 0] bs by simp
  moreover have "read_bytes m (p + 1) n = Some bs'"
    using Suc.prems bs by (intro Suc.IH) (force simp: add.assoc dest: Suc.prems(1)[of "Suc _"])+
  ultimately show ?case using bs by simp
qed simp

lemma read_bytes_prefix:
  "read_bytes m p n = Some bs \<Longrightarrow> k \<le> n \<Longrightarrow> read_bytes m p k = Some (take k bs)"
  by (rule read_bytes_SomeI) (auto simp: read_bytes_nth dest: length_read_bytes)

lemma read_str_length: "read_str m p n = Some bs \<Longrightarrow> length bs \<le> n"
  by (induction m p n arbitrary: bs rule: read_str.induct) (auto split: option.splits if_splits)

lemma read_str_shape:
  "read_str m p n = Some bs \<Longrightarrow> 0 < n \<Longrightarrow> \<exists>str. bs = str @ [0] \<and> 0 \<notin> set str \<and> length str < n"
proof (induction m p n arbitrary: bs rule: read_str.induct)
  case (3 m p n)
  show ?case
  proof (cases "m p")
    case None
    with 3 show ?thesis by simp
  next
    case (Some b)
    show ?thesis
    proof (cases "b = 0")
      case True
      with 3 Some show ?thesis by auto
    next
      case False
      with 3 Some obtain bs' where bs': "read_str m (p + 1) (Suc n) = Some bs'" "bs = b # bs'"
        by auto
      with 3(1)[OF Some False bs'(1)] obtain str where
        "bs' = str @ [0]" "0 \<notin> set str" "length str < Suc n" by auto
      with bs' False show ?thesis by (intro exI[of _ "b # str"]) auto
    qed
  qed
qed auto

lemma length_probe_read_user [simp]:
  "bpf_probe_read_user env n p = Some bs \<Longrightarrow> length bs = n"
  by (simp add: bpf_probe_read_user_def)

lemma length_probe_read_kernel [simp]:
  "bpf_probe_read_kernel env n p = Some bs \<Longrightarrow> length bs = n"
  by (simp add: bpf_probe_read_kernel_def)

lemma length_probe_read_kernel_str:
  "bpf_probe_read_kernel_str env n p = Some bs \<Longrightarrow> length bs \<le> n"
  by (simp add: bpf_probe_read_kernel_str_def read_str_length)

lemma probe_read_kernel_str_shape:
  "bpf_probe_read_kernel_str env n p = Some bs \<Longrightarrow> 0 < n \<Longrightarrow>
   \<exists>str. bs = str @ [0] \<and> 0 \<notin> set str \<and> length str < n"
  by (simp add: bpf_probe_read_kernel_str_def read_str_shape)

lemma env_wf_fault [simp]: "env_wf env \<Longrightarrow> length (fault_fill env n) = n"
  by (simp add: env_wf_def)

lemma length_read_into:
  assumes "env_wf env" "off + n \<le> length dst" "\<And>bs. r = Some bs \<Longrightarrow> length bs \<le> n"
  shows "length (read_into env n r off dst) = length dst"
  using assms by (cases r) (simp_all add: read_into_def)

section \<open>Byte order\<close>

text \<open>\<open>bpf_ntohs\<close> on the little-endian targets: \<open>__builtin_bswap16\<close>.\<close>

definition bpf_ntohs :: "u16 \<Rightarrow> u16" where
  "bpf_ntohs x = push_bit 8 x OR drop_bit 8 x"

lemma bpf_ntohs_involution: "bpf_ntohs (bpf_ntohs x) = x"
proof (rule bit_word_eqI)
  fix n assume "n < LENGTH(16)"
  then show "bit (bpf_ntohs (bpf_ntohs x)) n = bit x n"
    by (auto simp: bpf_ntohs_def bit_or_iff bit_push_bit_iff bit_drop_bit_eq not_le
        dest: bit_imp_le_length)
qed

lemma unat_u16_less: "unat (x :: u16) < 65536"
proof -
  have "unat x < 2 ^ LENGTH(16)" by (rule unsigned_less)
  then show ?thesis by simp
qed

lemma ntohs_value: "unat (bpf_ntohs x) = 256 * (unat x mod 256) + unat x div 256"
proof -
  have "push_bit 8 x OR drop_bit 8 x = push_bit 8 x + drop_bit 8 x"
    by (rule disjunctive_add [symmetric])
      (auto simp: bit_push_bit_iff bit_drop_bit_eq dest: bit_imp_le_length)
  moreover have p: "unat (push_bit 8 x) = 256 * (unat x mod 256)"
    by (simp only: unsigned_push_bit_eq) (use mult_mod_right [of 256 "unat x" 256] in \<open>simp add: push_bit_eq_mult take_bit_eq_mod mult.commute\<close>)
  moreover have d: "unat (drop_bit 8 x) = unat x div 256"
    by (simp only: unsigned_drop_bit_eq) (use unat_u16_less [of x] in \<open>simp add: drop_bit_eq_div take_bit_eq_mod\<close>)
  moreover have "unat (push_bit 8 x + drop_bit 8 x) = unat (push_bit 8 x) + unat (drop_bit 8 x)"
  proof -
    have "unat x < 65536" by (rule unat_u16_less)
    then have "unat (push_bit 8 x) + unat (drop_bit 8 x) < 65536" unfolding p d by linarith
    then show ?thesis by (simp add: unat_word_ariths)
  qed
  ultimately show ?thesis by (simp add: bpf_ntohs_def)
qed

text \<open>The port a socket address carries in its two bytes.\<close>

lemma ntohs_le_word: "unat (bpf_ntohs (le_word [hi, lo])) = 256 * unat hi + unat lo"
proof -
  have b: "unat hi < 256" "unat lo < 256" using unsigned_less [of hi] unsigned_less [of lo] by simp_all
  have "unat (ucast hi + 256 * ucast lo :: u16) = (unat hi + 256 * unat lo mod 65536) mod 65536"
    using b by (simp add: unat_word_ariths unsigned_ucast_eq take_bit_nat_eq_self)
  then have "unat (le_word [hi, lo] :: u16) = unat hi + 256 * unat lo" using b by simp
  then show ?thesis using b by (simp add: ntohs_value)
qed

text \<open>A 32-bit value as its four bytes in memory.\<close>

definition bytes_of_u32 :: "u32 \<Rightarrow> bytes" where
  "bytes_of_u32 x = [ucast x, ucast (drop_bit 8 x), ucast (drop_bit 16 x), ucast (drop_bit 24 x)]"

lemma length_bytes_of_u32 [simp]: "length (bytes_of_u32 x) = 4"
  by (simp add: bytes_of_u32_def)

end
