(* ===== verification/Bpf_Maps.thy ===== *)
theory Bpf_Maps
  imports Bpf_Kernel
begin

text \<open>
  The BPF maps and their value types, after \<open>maps.bpf.h\<close>, and the map and ring buffer
  helpers the programs call on them. Together the maps are the state \<open>bpf_state\<close> that every
  hook takes and returns. A per-CPU array gives each CPU a list of slots; hash maps are
  finite maps; the ring buffer is the list of submitted samples and the number of
  reservations that are neither submitted nor discarded yet.
\<close>

section \<open>Value types\<close>

definition STAGING_KEY_LEN :: nat where [simp]: "STAGING_KEY_LEN = 256"
definition DENTRY_NAME_BUF_LEN :: nat where [simp]: "DENTRY_NAME_BUF_LEN = 256"
definition HTTP1_PREFIX_LEN :: nat where [simp]: "HTTP1_PREFIX_LEN = 256"

record path_scratch =
  ps_buf :: bytes

record http_scratch =
  prefix :: bytes
  data_len :: u32
  pos :: u32
  mlen :: u32
  line_end :: u32
  path_n :: u32
  host_val :: u32
  host_n :: u32
  have_host :: u32
  nghttp2_method :: u64
  nghttp2_path :: u64
  nghttp2_authority :: u64
  nghttp2_method_len :: u64
  nghttp2_path_len :: u64
  nghttp2_authority_len :: u64
  nghttp2_method_n :: u32
  nghttp2_path_n :: u32
  go_http_method :: u64
  go_http_path :: u64
  go_http_host :: u64
  go_http_method_len :: u64
  go_http_path_len :: u64
  go_http_host_len :: u64
  go_http_method_n :: u32
  go_http_path_n :: u32

record staging_value =
  job_id_lo :: u64
  job_id_hi :: u64

text \<open>The programs userspace installs in the two tail-call tables.\<close>

datatype bpf_prog =
    Prog_tcp_sendmsg_http_parse
  | Prog_ssl_write_parse
  | Prog_nghttp2_required
  | Prog_nghttp2_emit
  | Prog_go_net_http_required
  | Prog_go_net_http_emit

section \<open>The maps\<close>

record bpf_state =
  http_stages :: "nat \<rightharpoonup> bpf_prog"
  http_uprobe_stages :: "nat \<rightharpoonup> bpf_prog"
  events :: "sample list"
  reserved :: nat
  tracked_cgroups :: "u64 \<rightharpoonup> u8"
  path_scratch :: "nat \<Rightarrow> path_scratch list"
  http_scratch :: "nat \<Rightarrow> http_scratch list"
  ringbuf_drop_count :: "nat \<Rightarrow> u64 list"
  http_uprobe_discovery_cache :: "file_classification_key \<rightharpoonup> u8"
  staging_map :: "bytes \<rightharpoonup> staging_value"

text \<open>
  The buffers inside map values and inside submitted samples have their declared sizes.
\<close>

definition state_wf :: "bpf_state \<Rightarrow> bool" where
  "state_wf s \<longleftrightarrow>
     (\<forall>c. \<forall>v \<in> set (path_scratch s c). length (ps_buf v) = FILE_PATH_LEN + DENTRY_NAME_BUF_LEN) \<and>
     (\<forall>c. \<forall>v \<in> set (http_scratch s c). length (prefix v) = HTTP1_PREFIX_LEN) \<and>
     (\<forall>x \<in> set (events s). sample_wf x)"

section \<open>Map helpers\<close>

text \<open>\<open>bpf_map_lookup_elem\<close> and the store through its result, on a per-CPU array.\<close>

definition percpu_lookup :: "kenv \<Rightarrow> (nat \<Rightarrow> 'v list) \<Rightarrow> nat \<Rightarrow> 'v option" where
  "percpu_lookup env m key = (if key < length (m (cpu env)) then Some (m (cpu env) ! key) else None)"

definition percpu_store :: "kenv \<Rightarrow> (nat \<Rightarrow> 'v list) \<Rightarrow> nat \<Rightarrow> 'v \<Rightarrow> (nat \<Rightarrow> 'v list)" where
  "percpu_store env m key v = m(cpu env := (m (cpu env))[key := v])"

text \<open>
  \<open>bpf_map_update_elem\<close> on a hash map: \<open>None\<close> is the negative return. The kernel may refuse
  any insertion (\<open>map_update_ok\<close>: the map is full, no memory), and \<open>BPF_NOEXIST\<close> refuses a
  present key.
\<close>

datatype update_flag = BPF_ANY | BPF_NOEXIST

definition bpf_map_update_elem :: "kenv \<Rightarrow> ('k \<rightharpoonup> 'v) \<Rightarrow> 'k \<Rightarrow> 'v \<Rightarrow> update_flag \<Rightarrow> ('k \<rightharpoonup> 'v) option" where
  "bpf_map_update_elem env m k v flag =
     (if \<not> map_update_ok env \<or> (flag = BPF_NOEXIST \<and> m k \<noteq> None) then None else Some (m(k \<mapsto> v)))"

definition bpf_map_delete_elem :: "('k \<rightharpoonup> 'v) \<Rightarrow> 'k \<Rightarrow> ('k \<rightharpoonup> 'v)" where
  "bpf_map_delete_elem m k = m(k := None)"

text \<open>The same update on an LRU hash map: inserting may evict other entries.\<close>

definition lru_update_elem :: "kenv \<Rightarrow> (file_classification_key \<rightharpoonup> u8) \<Rightarrow> file_classification_key \<Rightarrow> u8 \<Rightarrow>
    update_flag \<Rightarrow> (file_classification_key \<rightharpoonup> u8) option" where
  "lru_update_elem env m k v flag =
     bpf_map_update_elem env (\<lambda>k'. if k' \<noteq> k \<and> lru_victim env k' then None else m k') k v flag"

section \<open>Ring buffer helpers\<close>

definition bpf_ringbuf_reserve :: "kenv \<Rightarrow> nat \<Rightarrow> bpf_state \<Rightarrow> bpf_state option" where
  "bpf_ringbuf_reserve env sz s =
     (if ringbuf_space env sz then Some (s\<lparr>reserved := reserved s + 1\<rparr>) else None)"

definition bpf_ringbuf_submit :: "sample \<Rightarrow> bpf_state \<Rightarrow> bpf_state" where
  "bpf_ringbuf_submit x s = s\<lparr>events := events s @ [x], reserved := reserved s - 1\<rparr>"

definition bpf_ringbuf_discard :: "bpf_state \<Rightarrow> bpf_state" where
  "bpf_ringbuf_discard s = s\<lparr>reserved := reserved s - 1\<rparr>"

section \<open>Laws of the hash map helpers\<close>

text \<open>
  What the hooks rely on when they use a hash map as a set of keys: a lookup after a
  successful update or a delete, and that a refused update is visible as such.
\<close>

locale key_set =
  fixes upd :: "'m \<Rightarrow> 'k \<Rightarrow> 'm option"
    and del :: "'m \<Rightarrow> 'k \<Rightarrow> 'm"
    and mem :: "'m \<Rightarrow> 'k \<Rightarrow> bool"
    and keeps :: "'k \<Rightarrow> bool"
  assumes upd_mem: "upd m k = Some m' \<Longrightarrow> mem m' k"
    and upd_other: "upd m k = Some m' \<Longrightarrow> j \<noteq> k \<Longrightarrow> keeps j \<Longrightarrow> mem m' j = mem m j"
    and upd_new: "upd m k = Some m' \<Longrightarrow> j \<noteq> k \<Longrightarrow> mem m' j \<Longrightarrow> mem m j"
    and del_mem: "mem (del m k) j = (mem m j \<and> j \<noteq> k)"
begin

lemma upd_then_del: "upd m k = Some m' \<Longrightarrow> mem (del m' k) j \<Longrightarrow> mem m j"
  using upd_new del_mem by blast

lemma upd_mono: "upd m k = Some m' \<Longrightarrow> keeps j \<Longrightarrow> mem m j \<Longrightarrow> mem m' j"
  by (cases "j = k") (auto dest: upd_mem upd_other)

lemma upd_subset: "upd m k = Some m' \<Longrightarrow> mem m' j \<Longrightarrow> j = k \<or> mem m j"
  using upd_new by blast

end

interpretation hash_map: key_set
  "\<lambda>m k. bpf_map_update_elem env m k v BPF_ANY" bpf_map_delete_elem "\<lambda>m k. m k \<noteq> None" "\<lambda>_. True"
  by unfold_locales (auto simp: bpf_map_update_elem_def bpf_map_delete_elem_def split: if_splits)

interpretation lru_map: key_set
  "\<lambda>m k. lru_update_elem env m k v BPF_NOEXIST" bpf_map_delete_elem "\<lambda>m k. m k \<noteq> None"
  "\<lambda>k. \<not> lru_victim env k"
  by unfold_locales
    (auto simp: lru_update_elem_def bpf_map_update_elem_def bpf_map_delete_elem_def split: if_splits)

lemma percpu_lookup_Some:
  "percpu_lookup env m key = Some v \<longleftrightarrow> key < length (m (cpu env)) \<and> v = m (cpu env) ! key"
  by (auto simp: percpu_lookup_def)

lemma percpu_store_other [simp]: "c \<noteq> cpu env \<Longrightarrow> percpu_store env m key v c = m c"
  by (simp add: percpu_store_def)

lemma percpu_lookup_store [simp]:
  "key < length (m (cpu env)) \<Longrightarrow> percpu_lookup env (percpu_store env m key v) key = Some v"
  by (simp add: percpu_lookup_def percpu_store_def)

lemma set_percpu_store:
  "x \<in> set (percpu_store env m key v c) \<Longrightarrow> x = v \<or> x \<in> set (m c)"
  by (auto simp: percpu_store_def dest: set_update_subset_insert [THEN subsetD] split: if_splits)

end
