(* ===== verification/Common_Helpers.thy ===== *)
theory Common_Helpers
  imports Bpf_Maps
begin

text \<open>
  The primitives shared by the hook files, after \<open>common_helpers.bpf.h\<close>: the drop counter,
  the buffer clearing loops, the \<open>RESERVE_SAMPLE\<close> and \<open>SET_TASK_HEADER\<close> macros and the
  identity of the current task.
\<close>

definition AGENT_AF_INET :: u16 where [simp]: "AGENT_AF_INET = 2"
definition AGENT_AF_INET6 :: u16 where [simp]: "AGENT_AF_INET6 = 10"
definition AGENT_AF_UNIX :: u16 where [simp]: "AGENT_AF_UNIX = 1"

definition note_ringbuf_drop :: "kenv \<Rightarrow> bpf_state \<Rightarrow> bpf_state" where
  "note_ringbuf_drop env s =
     (case percpu_lookup env (ringbuf_drop_count s) 0 of
        None \<Rightarrow> s
      | Some count \<Rightarrow> s\<lparr>ringbuf_drop_count := percpu_store env (ringbuf_drop_count s) 0 (count + 1)\<rparr>)"

definition zero_path_bytes :: "bytes \<Rightarrow> bytes" where
  "zero_path_bytes buf = zero_words (FILE_PATH_LEN div 8) buf"

definition zero_exec_path_bytes :: "bytes \<Rightarrow> bytes" where
  "zero_exec_path_bytes buf = zero_words (EXEC_PATH_LEN div 8) buf"

definition zero_argv_blob_bytes :: "bytes \<Rightarrow> bytes" where
  "zero_argv_blob_bytes buf = zero_words (ARGV_BLOB_LEN div 8) buf"

text \<open>
  \<open>RESERVE_SAMPLE(var, type, fail_stmt)\<close>: the rest of the hook is \<open>body\<close>, and \<open>fail\<close> is the
  value \<open>fail_stmt\<close> returns from it.
\<close>

definition RESERVE_SAMPLE :: "kenv \<Rightarrow> agent_sample_kind \<Rightarrow> int \<Rightarrow> (bpf_state \<Rightarrow> int \<times> bpf_state) \<Rightarrow>
    bpf_state \<Rightarrow> int \<times> bpf_state" where
  "RESERVE_SAMPLE env k fail body s =
     (case bpf_ringbuf_reserve env (sizeof_sample k) s of
        None \<Rightarrow> (fail, note_ringbuf_drop env s)
      | Some s' \<Rightarrow> body s')"

definition current_start_boottime :: "kenv \<Rightarrow> u64" where
  "current_start_boottime env =
     (let task = cur_task env in
      if task = NULL then 0
      else BPF_CORE_READ env h_task (BPF_CORE_READ env h_task task t_group_leader) t_start_boottime)"

definition current_tgid :: "kenv \<Rightarrow> s32" where
  "current_tgid env = ucast (drop_bit 32 (pid_tgid env))"

definition current_cgroup_id :: "kenv \<Rightarrow> u64" where
  "current_cgroup_id env = cur_cgroup env"

definition SET_TASK_HEADER :: "kenv \<Rightarrow> u64 \<Rightarrow> 'a task_sample_scheme \<Rightarrow> 'a task_sample_scheme" where
  "SET_TASK_HEADER env cg x =
     x\<lparr>ts_ns := ktime_ns env, cgroup_id := cg, start_boottime := current_start_boottime env,
       tgid := current_tgid env\<rparr>"

section \<open>Lemmas\<close>

lemma zero_path_bytes_whole [simp]:
  "length buf = FILE_PATH_LEN \<Longrightarrow> zero_path_bytes buf = replicate FILE_PATH_LEN 0"
  by (simp add: zero_path_bytes_def)

lemma length_zero_path_bytes [simp]:
  "FILE_PATH_LEN \<le> length buf \<Longrightarrow> length (zero_path_bytes buf) = length buf"
  by (simp add: zero_path_bytes_def)

lemma zero_path_bytes_scratch:
  "FILE_PATH_LEN \<le> length buf \<Longrightarrow>
   zero_path_bytes buf = replicate FILE_PATH_LEN 0 @ drop FILE_PATH_LEN buf"
  by (simp add: zero_path_bytes_def zero_words_eq)

lemma zero_exec_path_bytes_whole [simp]:
  "length buf = EXEC_PATH_LEN \<Longrightarrow> zero_exec_path_bytes buf = replicate EXEC_PATH_LEN 0"
  by (simp add: zero_exec_path_bytes_def)

lemma zero_argv_blob_bytes_whole [simp]:
  "length buf = ARGV_BLOB_LEN \<Longrightarrow> zero_argv_blob_bytes buf = replicate ARGV_BLOB_LEN 0"
  by (simp add: zero_argv_blob_bytes_def)

lemma note_ringbuf_drop_frame [frame_simps, simp]:
  "events (note_ringbuf_drop env s) = events s"
  "reserved (note_ringbuf_drop env s) = reserved s"
  "tracked_cgroups (note_ringbuf_drop env s) = tracked_cgroups s"
  "staging_map (note_ringbuf_drop env s) = staging_map s"
  "path_scratch (note_ringbuf_drop env s) = path_scratch s"
  "http_scratch (note_ringbuf_drop env s) = http_scratch s"
  "http_stages (note_ringbuf_drop env s) = http_stages s"
  "http_uprobe_stages (note_ringbuf_drop env s) = http_uprobe_stages s"
  "http_uprobe_discovery_cache (note_ringbuf_drop env s) = http_uprobe_discovery_cache s"
  by (auto simp: note_ringbuf_drop_def split: option.split)

lemma note_ringbuf_drop_other_cpu [simp]:
  "c \<noteq> cpu env \<Longrightarrow> ringbuf_drop_count (note_ringbuf_drop env s) c = ringbuf_drop_count s c"
  by (auto simp: note_ringbuf_drop_def split: option.split)

lemma set_task_header_simps [simp]:
  "ts_ns (SET_TASK_HEADER env cg x) = ktime_ns env"
  "cgroup_id (SET_TASK_HEADER env cg x) = cg"
  "start_boottime (SET_TASK_HEADER env cg x) = current_start_boottime env"
  "tgid (SET_TASK_HEADER env cg x) = current_tgid env"
  "kind (SET_TASK_HEADER env cg x) = kind x"
  "task_sample.more (SET_TASK_HEADER env cg x) = task_sample.more x"
  by (simp_all add: SET_TASK_HEADER_def)

text \<open>
  The two outcomes of a reservation, as the case split the hook proofs use.
\<close>

lemma RESERVE_SAMPLE_cases:
  "RESERVE_SAMPLE env k fail body s =
     (if ringbuf_space env (sizeof_sample k) then body (s\<lparr>reserved := reserved s + 1\<rparr>)
      else (fail, note_ringbuf_drop env s))"
  by (simp add: RESERVE_SAMPLE_def bpf_ringbuf_reserve_def)

end
