(* ===== verification/Hook_Contract.thy ===== *)
theory Hook_Contract
  imports Common_Helpers
begin

text \<open>
  The contract every attached program keeps, stated once as locales and interpreted for each
  hook in the theory that models it.

  \<open>hook_effect\<close> is what any program may do to the maps: submit at most one well-tagged
  sample or count one drop, leave no reservation open, leave the tail-call tables alone, and
  touch only the per-CPU slots of the CPU it runs on. \<open>observes\<close> is the stronger promise of
  the programs that only observe: the tracking, staging and discovery maps stay as they are,
  nothing happens outside a tracked cgroup, and a submitted sample carries the cgroup it was
  gated on.
\<close>

section \<open>Effects\<close>

definition emission :: "kenv \<Rightarrow> bpf_state \<Rightarrow> bpf_state \<Rightarrow> bool" where
  "emission env s s' \<longleftrightarrow>
     (events s' = events s \<and> ringbuf_drop_count s' = ringbuf_drop_count s) \<or>
     (events s' = events s \<and> ringbuf_drop_count s' = ringbuf_drop_count (note_ringbuf_drop env s)) \<or>
     (\<exists>x. events s' = events s @ [x] \<and> ringbuf_drop_count s' = ringbuf_drop_count s \<and>
          stored_kind x = kind_value (struct_kind x) \<and> lengths_ok x)"

definition same_other_cpus :: "kenv \<Rightarrow> bpf_state \<Rightarrow> bpf_state \<Rightarrow> bool" where
  "same_other_cpus env s s' \<longleftrightarrow>
     (\<forall>c. c \<noteq> cpu env \<longrightarrow>
        path_scratch s' c = path_scratch s c \<and> http_scratch s' c = http_scratch s c \<and>
        ringbuf_drop_count s' c = ringbuf_drop_count s c)"

definition hook_effect :: "kenv \<Rightarrow> bpf_state \<Rightarrow> bpf_state \<Rightarrow> bool" where
  "hook_effect env s s' \<longleftrightarrow>
     emission env s s' \<and> reserved s' = reserved s \<and> same_other_cpus env s s' \<and>
     http_stages s' = http_stages s \<and> http_uprobe_stages s' = http_uprobe_stages s"

definition observes :: "kenv \<Rightarrow> bpf_state \<Rightarrow> bpf_state \<Rightarrow> bool" where
  "observes env s s' \<longleftrightarrow>
     tracked_cgroups s' = tracked_cgroups s \<and> staging_map s' = staging_map s \<and>
     http_uprobe_discovery_cache s' = http_uprobe_discovery_cache s \<and>
     (tracked_cgroups s (current_cgroup_id env) = None \<longrightarrow>
        events s' = events s \<and> ringbuf_drop_count s' = ringbuf_drop_count s) \<and>
     (\<forall>x. events s' = events s @ [x] \<longrightarrow> sample_cgroup x = Some (current_cgroup_id env))"

lemmas contract_defs = hook_effect_def emission_def same_other_cpus_def observes_def

text \<open>A run of one program over a sequence of invocations.\<close>

primrec run_hook :: "(kenv \<Rightarrow> 'a \<Rightarrow> bpf_state \<Rightarrow> int \<times> bpf_state) \<Rightarrow> (kenv \<times> 'a) list \<Rightarrow> bpf_state \<Rightarrow> bpf_state" where
  "run_hook hook [] s = s"
| "run_hook hook (c # cs) s = run_hook hook cs (snd (hook (fst c) (snd c) s))"

section \<open>The contract of a program\<close>

locale bpf_hook =
  fixes hook :: "kenv \<Rightarrow> 'a \<Rightarrow> bpf_state \<Rightarrow> int \<times> bpf_state"
    and verdict :: int
  assumes returns: "fst (hook env a s) = verdict"
    and effect: "hook_effect env s (snd (hook env a s))"
    and keeps_wf: "env_wf env \<Longrightarrow> state_wf s \<Longrightarrow> state_wf (snd (hook env a s))"
begin

lemma no_open_reservation: "reserved (snd (hook env a s)) = reserved s"
  using effect by (simp add: hook_effect_def)

lemma at_most_one_event:
  "\<exists>xs. events (snd (hook env a s)) = events s @ xs \<and> length xs \<le> 1"
  using effect [of env s a] unfolding hook_effect_def emission_def by fastforce

lemma run_reserved: "reserved (run_hook hook cs s) = reserved s"
  by (induction cs arbitrary: s) (simp_all add: no_open_reservation)

lemma run_events: "\<exists>xs. events (run_hook hook cs s) = events s @ xs \<and> length xs \<le> length cs"
proof (induction cs arbitrary: s)
  case Nil
  then show ?case by simp
next
  case (Cons c cs)
  obtain xs where xs: "events (snd (hook (fst c) (snd c) s)) = events s @ xs" "length xs \<le> 1"
    using at_most_one_event by blast
  obtain ys where ys: "events (run_hook hook (c # cs) s) =
      events (snd (hook (fst c) (snd c) s)) @ ys" "length ys \<le> length cs"
    using Cons.IH [of "snd (hook (fst c) (snd c) s)"] by auto
  from xs ys show ?case by (intro exI [of _ "xs @ ys"]) simp
qed

lemma run_wf: "(\<And>c. c \<in> set cs \<Longrightarrow> env_wf (fst c)) \<Longrightarrow> state_wf s \<Longrightarrow> state_wf (run_hook hook cs s)"
  by (induction cs arbitrary: s) (simp_all add: keeps_wf)

end

section \<open>The contract of an observing program\<close>

locale observer_hook = bpf_hook +
  assumes gated: "observes env s (snd (hook env a s))"
begin

lemma maps_unchanged:
  "tracked_cgroups (snd (hook env a s)) = tracked_cgroups s"
  "staging_map (snd (hook env a s)) = staging_map s"
  "http_uprobe_discovery_cache (snd (hook env a s)) = http_uprobe_discovery_cache s"
  using gated [of env s a] by (simp_all add: observes_def)

lemma run_tracked: "tracked_cgroups (run_hook hook cs s) = tracked_cgroups s"
  by (induction cs arbitrary: s) (simp_all add: maps_unchanged)

lemma untracked_silent:
  assumes "tracked_cgroups s (current_cgroup_id env) = None"
  shows "events (snd (hook env a s)) = events s"
  using assms gated [of env s a] by (simp add: observes_def)

lemma event_attributed:
  assumes "events (snd (hook env a s)) = events s @ [x]"
  shows "sample_cgroup x = Some (current_cgroup_id env) \<and>
         tracked_cgroups s (current_cgroup_id env) \<noteq> None"
  using assms gated [of env s a] by (auto simp: observes_def)

lemma new_event_attributed:
  assumes "events (snd (hook env a s)) = events s @ xs" "x \<in> set xs"
  shows "\<exists>c. sample_cgroup x = Some c \<and> tracked_cgroups s c \<noteq> None"
proof -
  from at_most_one_event [of env a s] assms(1) have "length xs \<le> 1" by fastforce
  with assms(2) have "xs = [x]" by (cases xs) auto
  with assms(1) event_attributed show ?thesis by blast
qed

lemma run_attributed:
  assumes "events (run_hook hook cs s) = events s @ xs" "x \<in> set xs"
  shows "\<exists>c. sample_cgroup x = Some c \<and> tracked_cgroups s c \<noteq> None"
  using assms
proof (induction cs arbitrary: s xs)
  case Nil
  then show ?case by simp
next
  case (Cons c cs)
  let ?s = "snd (hook (fst c) (snd c) s)"
  obtain ys where ys: "events ?s = events s @ ys" using at_most_one_event by blast
  obtain zs where zs: "events (run_hook hook cs ?s) = events ?s @ zs" using run_events by blast
  with ys Cons.prems have "xs = ys @ zs" by simp
  with Cons.prems(2) consider "x \<in> set ys" | "x \<in> set zs" by auto
  then show ?case
  proof cases
    case 1
    with ys show ?thesis by (rule new_event_attributed)
  next
    case 2
    with Cons.IH [OF zs] show ?thesis by (simp add: maps_unchanged)
  qed
qed

end

section \<open>Building blocks of the contract proofs\<close>

lemma state_wf_events_append:
  "state_wf s \<Longrightarrow> sample_wf x \<Longrightarrow> path_scratch s' = path_scratch s \<Longrightarrow>
   http_scratch s' = http_scratch s \<Longrightarrow> events s' = events s @ [x] \<Longrightarrow> state_wf s'"
  by (auto simp: state_wf_def)

lemma state_wf_cong:
  "state_wf s \<Longrightarrow> path_scratch s' = path_scratch s \<Longrightarrow>
   http_scratch s' = http_scratch s \<Longrightarrow> events s' = events s \<Longrightarrow> state_wf s'"
  by (simp add: state_wf_def)

lemma state_wf_note_drop [simp]: "state_wf (note_ringbuf_drop env s) = state_wf s"
  by (simp add: state_wf_def)

lemma state_wf_path_scratch:
  "state_wf s \<Longrightarrow> v \<in> set (path_scratch s c) \<Longrightarrow>
   length (ps_buf v) = FILE_PATH_LEN + DENTRY_NAME_BUF_LEN"
  by (auto simp: state_wf_def)

lemma state_wf_http_scratch:
  "state_wf s \<Longrightarrow> v \<in> set (http_scratch s c) \<Longrightarrow> length (prefix v) = HTTP1_PREFIX_LEN"
  by (auto simp: state_wf_def)

lemma state_wf_reserved [simp]: "state_wf (s\<lparr>reserved := n\<rparr>) = state_wf s"
  by (simp add: state_wf_def)

lemma state_wf_submit [simp]:
  "state_wf (bpf_ringbuf_submit x s) \<longleftrightarrow> state_wf s \<and> sample_wf x"
  by (auto simp: state_wf_def bpf_ringbuf_submit_def)

lemma state_wf_discard [simp]: "state_wf (bpf_ringbuf_discard s) = state_wf s"
  by (simp add: bpf_ringbuf_discard_def)

lemma state_wf_tracked [simp]: "state_wf (s\<lparr>tracked_cgroups := m\<rparr>) = state_wf s"
  by (simp add: state_wf_def)

lemma state_wf_staging [simp]: "state_wf (s\<lparr>staging_map := m\<rparr>) = state_wf s"
  by (simp add: state_wf_def)

lemma state_wf_cache [simp]: "state_wf (s\<lparr>http_uprobe_discovery_cache := m\<rparr>) = state_wf s"
  by (simp add: state_wf_def)

text \<open>The fields of a submitted and of a discarded state.\<close>

lemma submit_simps [simp]:
  "events (bpf_ringbuf_submit x s) = events s @ [x]"
  "reserved (bpf_ringbuf_submit x s) = reserved s - 1"
  "tracked_cgroups (bpf_ringbuf_submit x s) = tracked_cgroups s"
  "staging_map (bpf_ringbuf_submit x s) = staging_map s"
  "path_scratch (bpf_ringbuf_submit x s) = path_scratch s"
  "http_scratch (bpf_ringbuf_submit x s) = http_scratch s"
  "ringbuf_drop_count (bpf_ringbuf_submit x s) = ringbuf_drop_count s"
  "http_stages (bpf_ringbuf_submit x s) = http_stages s"
  "http_uprobe_stages (bpf_ringbuf_submit x s) = http_uprobe_stages s"
  "http_uprobe_discovery_cache (bpf_ringbuf_submit x s) = http_uprobe_discovery_cache s"
  by (simp_all add: bpf_ringbuf_submit_def)

lemma discard_simps [simp]:
  "events (bpf_ringbuf_discard s) = events s"
  "reserved (bpf_ringbuf_discard s) = reserved s - 1"
  "tracked_cgroups (bpf_ringbuf_discard s) = tracked_cgroups s"
  "staging_map (bpf_ringbuf_discard s) = staging_map s"
  "path_scratch (bpf_ringbuf_discard s) = path_scratch s"
  "http_scratch (bpf_ringbuf_discard s) = http_scratch s"
  "ringbuf_drop_count (bpf_ringbuf_discard s) = ringbuf_drop_count s"
  "http_stages (bpf_ringbuf_discard s) = http_stages s"
  "http_uprobe_stages (bpf_ringbuf_discard s) = http_uprobe_stages s"
  "http_uprobe_discovery_cache (bpf_ringbuf_discard s) = http_uprobe_discovery_cache s"
  by (simp_all add: bpf_ringbuf_discard_def)

lemma drop_count_cong:
  "ringbuf_drop_count s' = ringbuf_drop_count s \<Longrightarrow>
   ringbuf_drop_count (note_ringbuf_drop env s') = ringbuf_drop_count (note_ringbuf_drop env s)"
  by (cases "percpu_lookup env (ringbuf_drop_count s) 0") (simp_all add: note_ringbuf_drop_def)

lemma hook_effect_refl [simp]: "hook_effect env s s"
  by (simp add: contract_defs)

lemma observes_refl [simp]: "observes env s s"
  by (simp add: contract_defs)

lemma storage_wfD:
  assumes "env_wf env"
  shows "length (cm_path (st_mkdir (storage env))) = CGROUP_PATH_LEN"
    "length (ex_pad2 (st_exec (storage env))) = 3"
    "length (exec_path (st_exec (storage env))) = EXEC_PATH_LEN"
    "length (argv_blob (st_exec (storage env))) = ARGV_BLOB_LEN"
    "length (n4_remote_ip (st_net_v4 (storage env))) = 4"
    "length (n6_remote_ip (st_net_v6 (storage env))) = 16"
    "length (fo_path (st_file_open (storage env))) = FILE_PATH_LEN"
    "length (fr_path (st_file_remove (storage env))) = FILE_PATH_LEN"
    "length (from_path (st_file_move (storage env))) = FILE_PATH_LEN"
    "length (to_path (st_file_move (storage env))) = FILE_PATH_LEN"
    "length (created_path (st_file_link (storage env))) = FILE_PATH_LEN"
    "length (existing_path (st_file_link (storage env))) = FILE_PATH_LEN"
    "length (daddr_v4 (st_dns (storage env))) = 4"
    "length (daddr_v6 (st_dns (storage env))) = 16"
    "length (payload (st_dns (storage env))) = DNS_PAYLOAD_LEN"
    "length (sun_path (st_unix (storage env))) = UNIX_SOCKET_SUN_PATH_LEN"
    "length (cwd (st_unix (storage env))) = FILE_PATH_LEN"
    "length (source_path (st_mount (storage env))) = FILE_PATH_LEN"
    "length (target_path (st_mount (storage env))) = FILE_PATH_LEN"
    "length (hr_pad0 (st_http (storage env))) = 3"
    "length (hr_method (st_http (storage env))) = HTTP_METHOD_LEN"
    "length (hr_path (st_http (storage env))) = HTTP_PATH_LEN"
    "length (hr_host (st_http (storage env))) = HTTP_HOST_LEN"
proof -
  have "storage_wf (storage env)" using assms unfolding env_wf_def by blast
  note wf = this [unfolded storage_wf_def sample_wf.simps]
  show "length (cm_path (st_mkdir (storage env))) = CGROUP_PATH_LEN"
    "length (ex_pad2 (st_exec (storage env))) = 3"
    "length (exec_path (st_exec (storage env))) = EXEC_PATH_LEN"
    "length (argv_blob (st_exec (storage env))) = ARGV_BLOB_LEN"
    "length (n4_remote_ip (st_net_v4 (storage env))) = 4"
    "length (n6_remote_ip (st_net_v6 (storage env))) = 16"
    "length (fo_path (st_file_open (storage env))) = FILE_PATH_LEN"
    "length (fr_path (st_file_remove (storage env))) = FILE_PATH_LEN"
    "length (from_path (st_file_move (storage env))) = FILE_PATH_LEN"
    "length (to_path (st_file_move (storage env))) = FILE_PATH_LEN"
    "length (created_path (st_file_link (storage env))) = FILE_PATH_LEN"
    "length (existing_path (st_file_link (storage env))) = FILE_PATH_LEN"
    "length (daddr_v4 (st_dns (storage env))) = 4"
    "length (daddr_v6 (st_dns (storage env))) = 16"
    "length (payload (st_dns (storage env))) = DNS_PAYLOAD_LEN"
    "length (sun_path (st_unix (storage env))) = UNIX_SOCKET_SUN_PATH_LEN"
    "length (cwd (st_unix (storage env))) = FILE_PATH_LEN"
    "length (source_path (st_mount (storage env))) = FILE_PATH_LEN"
    "length (target_path (st_mount (storage env))) = FILE_PATH_LEN"
    "length (hr_pad0 (st_http (storage env))) = 3"
    "length (hr_method (st_http (storage env))) = HTTP_METHOD_LEN"
    "length (hr_path (st_http (storage env))) = HTTP_PATH_LEN"
    "length (hr_host (st_http (storage env))) = HTTP_HOST_LEN"
    by (simp_all only: wf)
qed

section \<open>The shapes of a hook body\<close>

text \<open>
  \<open>scratch_only\<close>: nothing changed but the scratch slots of this CPU. \<open>kind_ok\<close>: the sample
  carries the kind of its struct and announces lengths within its buffers.
\<close>

definition scratch_only :: "kenv \<Rightarrow> bpf_state \<Rightarrow> bpf_state \<Rightarrow> bool" where
  "scratch_only env s s' \<longleftrightarrow>
     same_other_cpus env s s' \<and> events s' = events s \<and> reserved s' = reserved s \<and>
     tracked_cgroups s' = tracked_cgroups s \<and> staging_map s' = staging_map s \<and>
     ringbuf_drop_count s' = ringbuf_drop_count s \<and> http_stages s' = http_stages s \<and>
     http_uprobe_stages s' = http_uprobe_stages s \<and>
     http_uprobe_discovery_cache s' = http_uprobe_discovery_cache s"

definition kind_ok :: "sample \<Rightarrow> bool" where
  "kind_ok x \<longleftrightarrow> stored_kind x = kind_value (struct_kind x) \<and> lengths_ok x"

lemma scratch_only_refl [simp]: "scratch_only env s s"
  by (simp add: scratch_only_def same_other_cpus_def)

lemma scratch_only_trans: "scratch_only env s s' \<Longrightarrow> scratch_only env s' s'' \<Longrightarrow> scratch_only env s s''"
  by (simp add: scratch_only_def same_other_cpus_def)

lemma scratch_only_path [simp]:
  "scratch_only env s (s\<lparr>path_scratch := percpu_store env (path_scratch s) i v\<rparr>)"
  by (simp add: scratch_only_def same_other_cpus_def)

lemma scratch_only_http [simp]:
  "scratch_only env s (s\<lparr>http_scratch := percpu_store env (http_scratch s) i v\<rparr>)"
  by (simp add: scratch_only_def same_other_cpus_def)

lemma state_wf_path_store:
  "state_wf s \<Longrightarrow> length (ps_buf v) = FILE_PATH_LEN + DENTRY_NAME_BUF_LEN \<Longrightarrow>
   state_wf (s\<lparr>path_scratch := percpu_store env (path_scratch s) i v\<rparr>)"
  by (auto simp: state_wf_def dest!: set_percpu_store)

lemma state_wf_http_store:
  "state_wf s \<Longrightarrow> length (prefix v) = HTTP1_PREFIX_LEN \<Longrightarrow>
   state_wf (s\<lparr>http_scratch := percpu_store env (http_scratch s) i v\<rparr>)"
  by (auto simp: state_wf_def dest!: set_percpu_store)

text \<open>
  \<open>sample_body\<close>: after the reservation, the body works in the scratch slots only and then
  submits a well-tagged sample of the gating cgroup or discards the reservation. The buffers
  keep their sizes under the condition \<open>ok\<close> on the run.
\<close>

definition submits :: "kenv \<Rightarrow> bool \<Rightarrow> int \<Rightarrow> bpf_state \<Rightarrow> int \<times> bpf_state \<Rightarrow> bool" where
  "submits env ok v s r \<longleftrightarrow>
     (\<exists>x s3. r = (v, bpf_ringbuf_submit x s3) \<and> scratch_only env s s3 \<and> kind_ok x \<and>
        sample_cgroup x = Some (current_cgroup_id env) \<and>
        (ok \<longrightarrow> state_wf s \<longrightarrow> state_wf s3 \<and> sample_wf x))"

definition discards :: "kenv \<Rightarrow> bool \<Rightarrow> int \<Rightarrow> bpf_state \<Rightarrow> int \<times> bpf_state \<Rightarrow> bool" where
  "discards env ok v s r \<longleftrightarrow>
     (\<exists>s3. r = (v, bpf_ringbuf_discard s3) \<and> scratch_only env s s3 \<and>
        (ok \<longrightarrow> state_wf s \<longrightarrow> state_wf s3))"

definition sample_body :: "kenv \<Rightarrow> bool \<Rightarrow> int \<Rightarrow> (bpf_state \<Rightarrow> int \<times> bpf_state) \<Rightarrow> bool" where
  "sample_body env ok v body \<longleftrightarrow> (\<forall>s. submits env ok v s (body s) \<or> discards env ok v s (body s))"

lemma submits_plain:
  assumes "kind_ok x" "sample_cgroup x = Some (current_cgroup_id env)" "ok \<Longrightarrow> sample_wf x"
  shows "submits env ok v s (v, bpf_ringbuf_submit x s)"
  using assms unfolding submits_def by (intro exI [of _ x] exI [of _ s]) simp

lemma submits_scratch:
  assumes "scratch_only env s s3" "kind_ok x" "sample_cgroup x = Some (current_cgroup_id env)"
    and "ok \<Longrightarrow> state_wf s \<Longrightarrow> state_wf s3 \<and> sample_wf x"
  shows "submits env ok v s (v, bpf_ringbuf_submit x s3)"
  using assms unfolding submits_def by (intro exI [of _ x] exI [of _ s3]) simp

lemma discards_plain: "discards env ok v s (v, bpf_ringbuf_discard s)"
  unfolding discards_def by (intro exI [of _ s]) simp

lemma sample_body_plain:
  assumes "kind_ok x" "sample_cgroup x = Some (current_cgroup_id env)" "ok \<Longrightarrow> sample_wf x"
  shows "sample_body env ok v (\<lambda>s. (v, bpf_ringbuf_submit x s))"
  using assms by (simp add: sample_body_def submits_plain)

text \<open>The three ways an observing program ends.\<close>

inductive gated_form :: "kenv \<Rightarrow> int \<Rightarrow> bpf_state \<Rightarrow> int \<times> bpf_state \<Rightarrow> bool" for env v s where
  pass: "gated_form env v s (v, s)"
| scratch: "scratch_only env s s1 \<Longrightarrow> (env_wf env \<longrightarrow> state_wf s \<longrightarrow> state_wf s1) \<Longrightarrow>
    gated_form env v s (v, s1)"
| reserve: "scratch_only env s s1 \<Longrightarrow> (env_wf env \<longrightarrow> state_wf s \<longrightarrow> state_wf s1) \<Longrightarrow>
    tracked_cgroups s (current_cgroup_id env) \<noteq> None \<Longrightarrow>
    sample_body env (env_wf env \<and> state_wf s) v body \<Longrightarrow>
    gated_form env v s (RESERVE_SAMPLE env k v body s1)"

lemma gated_form_reserve_now:
  assumes "tracked_cgroups s (current_cgroup_id env) \<noteq> None" "sample_body env (env_wf env \<and> state_wf s) v body"
  shows "gated_form env v s (RESERVE_SAMPLE env k v body s)"
  using assms by (intro gated_form.reserve) simp_all

lemma scratch_only_drop:
  assumes "scratch_only env s s1"
  shows "hook_effect env s (note_ringbuf_drop env s1)"
  using assms drop_count_cong [of s1 s env]
  by (auto simp: scratch_only_def contract_defs)

lemma submits_effect:
  assumes "scratch_only env s s1" "submits env ok v (s1\<lparr>reserved := reserved s1 + 1\<rparr>) r"
    and "tracked_cgroups s (current_cgroup_id env) \<noteq> None"
  shows "fst r = v \<and> hook_effect env s (snd r) \<and> observes env s (snd r)"
  using assms by (auto simp: submits_def scratch_only_def contract_defs kind_ok_def)

lemma discards_effect:
  assumes "scratch_only env s s1" "discards env ok v (s1\<lparr>reserved := reserved s1 + 1\<rparr>) r"
  shows "fst r = v \<and> hook_effect env s (snd r) \<and> observes env s (snd r)"
  using assms by (auto simp: discards_def scratch_only_def contract_defs)

lemma gated_form_contract:
  assumes "gated_form env v s r"
  shows "fst r = v \<and> hook_effect env s (snd r) \<and> observes env s (snd r)"
  using assms
proof cases
  case pass
  then show ?thesis by simp
next
  case (scratch s1)
  then show ?thesis by (auto simp: scratch_only_def contract_defs)
next
  case (reserve s1 body k)
  show ?thesis
  proof (cases "ringbuf_space env (sizeof_sample k)")
    case True
    with reserve have r: "r = body (s1\<lparr>reserved := reserved s1 + 1\<rparr>)"
      by (simp add: RESERVE_SAMPLE_cases)
    with reserve(5) have "submits env (env_wf env \<and> state_wf s) v (s1\<lparr>reserved := reserved s1 + 1\<rparr>) r \<or>
        discards env (env_wf env \<and> state_wf s) v (s1\<lparr>reserved := reserved s1 + 1\<rparr>) r"
      by (simp add: sample_body_def)
    with submits_effect [OF reserve(2)] discards_effect [OF reserve(2)] reserve(4)
    show ?thesis by blast
  next
    case False
    with reserve scratch_only_drop [OF reserve(2)] show ?thesis
      by (auto simp: RESERVE_SAMPLE_cases observes_def scratch_only_def)
  qed
qed

lemma gated_form_wf:
  assumes "gated_form env v s r" "env_wf env" "state_wf s"
  shows "state_wf (snd r)"
  using assms(1)
proof cases
  case pass
  with assms show ?thesis by simp
next
  case (scratch s1)
  with assms show ?thesis by simp
next
  case (reserve s1 body k)
  with assms have s1: "state_wf s1" by blast
  have "submits env (env_wf env \<and> state_wf s) v s2 (body s2) \<or> discards env (env_wf env \<and> state_wf s) v s2 (body s2)" for s2
    using reserve(5) by (simp add: sample_body_def)
  then have "state_wf (snd (body s2))" if "state_wf s2" for s2
    using that assms(2,3) by (force simp: submits_def discards_def)
  with s1 reserve(1) show ?thesis by (simp add: RESERVE_SAMPLE_cases)
qed

lemma observer_hookI:
  assumes "\<And>env a s. gated_form env v s (hook env a s)"
  shows "observer_hook hook v"
  using gated_form_contract [OF assms] gated_form_wf [OF assms] by unfold_locales blast+

text \<open>
  A program that extends the tracking maps first and then reports: the contract of the
  reporting part carries over.
\<close>

definition emit_sample :: "kenv \<Rightarrow> agent_sample_kind \<Rightarrow> sample \<Rightarrow> bpf_state \<Rightarrow> bpf_state" where
  "emit_sample env k x s =
     (if ringbuf_space env (sizeof_sample k) then s\<lparr>events := events s @ [x]\<rparr>
      else note_ringbuf_drop env s)"

lemma reserve_submit:
  "RESERVE_SAMPLE env k v (\<lambda>s2. (v, bpf_ringbuf_submit x s2)) s = (v, emit_sample env k x s)"
  by (simp add: RESERVE_SAMPLE_cases emit_sample_def bpf_ringbuf_submit_def)

lemma emit_sample_effect:
  assumes "kind_ok x" "events s1 = events s" "reserved s1 = reserved s"
    "ringbuf_drop_count s1 = ringbuf_drop_count s" "same_other_cpus env s s1"
    "http_stages s1 = http_stages s" "http_uprobe_stages s1 = http_uprobe_stages s"
  shows "hook_effect env s (emit_sample env k x s1)"
  using assms drop_count_cong [of s1 s env]
  by (auto simp: emit_sample_def contract_defs kind_ok_def)

lemma emit_sample_maps [simp]:
  "tracked_cgroups (emit_sample env k x s) = tracked_cgroups s"
  "staging_map (emit_sample env k x s) = staging_map s"
  "http_uprobe_discovery_cache (emit_sample env k x s) = http_uprobe_discovery_cache s"
  "reserved (emit_sample env k x s) = reserved s"
  by (simp_all add: emit_sample_def)

lemma emit_sample_wf: "state_wf s \<Longrightarrow> sample_wf x \<Longrightarrow> state_wf (emit_sample env k x s)"
  by (auto simp: emit_sample_def state_wf_def)

end
