(* ===== verification/Loaded_State.thy ===== *)
theory Loaded_State
  imports Bpf_Maps
begin

text \<open>
  The state the maps have when the programs start to run: freshly created maps are empty or
  zero, and the loader has installed the tail-call targets
  (\<open>NewLinux\<close> in \<open>kernel_io_linux.go\<close>). Beside it a concrete kernel environment, in which
  every reservation and map update succeeds, no object exists and no address is mapped; the
  concrete instances of the properties are built from it by updating single members.
\<close>

definition zeros :: "nat \<Rightarrow> bytes" where
  "zeros n = replicate n 0"

lemma length_zeros [simp]: "length (zeros n) = n"
  by (simp add: zeros_def)

section \<open>The loaded maps\<close>

definition zero_http_scratch :: http_scratch where
  "zero_http_scratch =
     \<lparr>prefix = zeros HTTP1_PREFIX_LEN, data_len = 0, pos = 0, mlen = 0, line_end = 0, path_n = 0,
      host_val = 0, host_n = 0, have_host = 0,
      nghttp2_method = 0, nghttp2_path = 0, nghttp2_authority = 0, nghttp2_method_len = 0,
      nghttp2_path_len = 0, nghttp2_authority_len = 0, nghttp2_method_n = 0, nghttp2_path_n = 0,
      go_http_method = 0, go_http_path = 0, go_http_host = 0, go_http_method_len = 0,
      go_http_path_len = 0, go_http_host_len = 0, go_http_method_n = 0, go_http_path_n = 0\<rparr>"

definition installed_http_stages :: "nat \<rightharpoonup> bpf_prog" where
  "installed_http_stages = [0 \<mapsto> Prog_tcp_sendmsg_http_parse]"

definition installed_http_uprobe_stages :: "nat \<rightharpoonup> bpf_prog" where
  "installed_http_uprobe_stages =
     [0 \<mapsto> Prog_ssl_write_parse, 1 \<mapsto> Prog_nghttp2_required, 2 \<mapsto> Prog_nghttp2_emit,
      3 \<mapsto> Prog_go_net_http_required, 4 \<mapsto> Prog_go_net_http_emit]"

definition loaded_state :: bpf_state where
  "loaded_state =
     \<lparr>http_stages = installed_http_stages, http_uprobe_stages = installed_http_uprobe_stages,
      events = [], reserved = 0, tracked_cgroups = Map.empty,
      path_scratch = (\<lambda>_. [\<lparr>ps_buf = zeros (FILE_PATH_LEN + DENTRY_NAME_BUF_LEN)\<rparr>]),
      http_scratch = (\<lambda>_. [zero_http_scratch]), ringbuf_drop_count = (\<lambda>_. [0]),
      http_uprobe_discovery_cache = Map.empty, staging_map = Map.empty\<rparr>"

lemma loaded_state_wf [simp]: "state_wf loaded_state"
  by (simp add: state_wf_def loaded_state_def zero_http_scratch_def)

lemma loaded_state_simps [simp]:
  "http_stages loaded_state = installed_http_stages"
  "http_uprobe_stages loaded_state = installed_http_uprobe_stages"
  "events loaded_state = []" "reserved loaded_state = 0"
  "tracked_cgroups loaded_state = Map.empty" "staging_map loaded_state = Map.empty"
  "http_uprobe_discovery_cache loaded_state = Map.empty"
  "percpu_lookup env (path_scratch loaded_state) 0 =
     Some \<lparr>ps_buf = zeros (FILE_PATH_LEN + DENTRY_NAME_BUF_LEN)\<rparr>"
  "percpu_lookup env (http_scratch loaded_state) 0 = Some zero_http_scratch"
  "percpu_lookup env (ringbuf_drop_count loaded_state) 0 = Some 0"
  by (simp_all add: loaded_state_def percpu_lookup_def)

section \<open>A concrete environment\<close>

definition empty_heap :: kheap where
  "empty_heap =
     \<lparr>h_task = Map.empty, h_css_set = Map.empty, h_cgroup = Map.empty, h_kernfs = Map.empty,
      h_mm = Map.empty, h_fs = Map.empty, h_dentry = Map.empty, h_path = Map.empty,
      h_super = Map.empty, h_inode = Map.empty, h_file = Map.empty, h_binprm = Map.empty,
      h_vma = Map.empty, h_msghdr = Map.empty, h_sock = Map.empty, h_socket = Map.empty,
      h_unix_address = Map.empty\<rparr>"

text \<open>The layout of a recent kernel: no \<open>ancestor_ids\<close>, \<open>__iov\<close>, \<open>ITER_UBUF\<close>, \<open>i_ctime_sec\<close>.\<close>

definition recent_btf :: btf_info where
  "recent_btf =
     \<lparr>has_ancestor_ids = False, has_uscore_iov = True, has_ITER_UBUF = True, ITER_UBUF = 0,
      ITER_IOVEC = 1, has_i_ctime_sec = True, has_mid_ctime = False\<rparr>"

definition zero_file :: file_classification_key where
  "zero_file = \<lparr>mapped_file = \<lparr>device_major = 0, device_minor = 0, mf_inode = 0\<rparr>,
     ctime_sec = 0, ctime_nsec = 0, fc_pad = 0\<rparr>"

definition zero_storage :: ring_storage where
  "zero_storage =
     \<lparr>st_fork = \<lparr>kind = 0, fk_pad = 0, fk_ts_ns = 0, fk_cgroup_id = 0, child_start_boottime = 0,
        parent_start_boottime = 0, child_tgid = 0, parent_tgid = 0\<rparr>,
      st_mkdir = \<lparr>kind = 0, staging_matched = 0, cm_pad0 = 0, cm_pad1 = 0, cm_cgroup_id = 0,
        parent_cgroup_id = 0, cm_ts_ns = 0, cm_path = zeros CGROUP_PATH_LEN\<rparr>,
      st_attach = \<lparr>kind = 0, ca_pad = 0, ca_ts_ns = 0, source_cgroup_id = 0,
        destination_cgroup_id = 0, ca_tgid = 0, ca_pad2 = 0\<rparr>,
      st_rmdir = \<lparr>kind = 0, cr_pad = 0, cr_cgroup_id = 0, cr_ts_ns = 0\<rparr>,
      st_exec = \<lparr>kind = 0, ts_ns = 0, cgroup_id = 0, start_boottime = 0, tgid = 0,
        argv_truncated = 0, argv_faulted = 0, ex_pad0 = 0, is_memfd = 0, ex_pad2 = zeros 3,
        argc = 0, argv_blob_len = 0, exec_path = zeros EXEC_PATH_LEN,
        argv_blob = zeros ARGV_BLOB_LEN\<rparr>,
      st_net_v4 = \<lparr>kind = 0, ts_ns = 0, cgroup_id = 0, start_boottime = 0, tgid = 0,
        n4_protocol = 0, n4_blocked = 0, n4_pad0 = 0, n4_pad1 = 0, n4_remote_ip = zeros 4,
        n4_remote_port = 0, n4_pad2 = 0\<rparr>,
      st_net_v6 = \<lparr>kind = 0, ts_ns = 0, cgroup_id = 0, start_boottime = 0, tgid = 0,
        n6_protocol = 0, n6_blocked = 0, n6_pad0 = 0, n6_pad1 = 0, n6_remote_ip = zeros 16,
        n6_remote_port = 0, n6_pad2 = 0\<rparr>,
      st_file_open = \<lparr>kind = 0, ts_ns = 0, cgroup_id = 0, start_boottime = 0, tgid = 0,
        is_write = 0, is_read = 0, fo_path_truncated = 0, fo_pad0 = 0, fo_flags = 0,
        fo_path = zeros FILE_PATH_LEN\<rparr>,
      st_file_remove = \<lparr>kind = 0, ts_ns = 0, cgroup_id = 0, start_boottime = 0, tgid = 0,
        is_folder = 0, fr_path_truncated = 0, fr_path_offset = 0, fr_pad = 0,
        fr_path = zeros FILE_PATH_LEN\<rparr>,
      st_file_move = \<lparr>kind = 0, ts_ns = 0, cgroup_id = 0, start_boottime = 0, tgid = 0,
        from_truncated = 0, to_truncated = 0, from_offset = 0, to_offset = 0, fm_pad0 = 0,
        fm_pad1 = 0, fm_pad2 = 0, from_path = zeros FILE_PATH_LEN, to_path = zeros FILE_PATH_LEN\<rparr>,
      st_file_link = \<lparr>kind = 0, ts_ns = 0, cgroup_id = 0, start_boottime = 0, tgid = 0,
        is_hardlink = 0, is_symlink = 0, created_truncated = 0, existing_truncated = 0,
        created_offset = 0, existing_offset = 0, fl_pad0 = 0, fl_pad1 = 0,
        created_path = zeros FILE_PATH_LEN, existing_path = zeros FILE_PATH_LEN\<rparr>,
      st_dns = \<lparr>kind = 0, ts_ns = 0, cgroup_id = 0, start_boottime = 0, tgid = 0,
        dn_source = 0, dn_family = 0, dn_pad0 = 0, dport = 0, dn_pad1 = 0, payload_len = 0,
        dn_pad2 = 0, daddr_v4 = zeros 4, daddr_v6 = zeros 16, payload = zeros DNS_PAYLOAD_LEN\<rparr>,
      st_unix = \<lparr>kind = 0, ts_ns = 0, cgroup_id = 0, start_boottime = 0, tgid = 0,
        sun_path_len = 0, socket_type = 0, is_abstract = 0, sun_path_truncated = 0,
        cwd_truncated = 0, cwd_unavailable = 0, us_pad0 = 0, cwd_offset = 0,
        sun_path = zeros UNIX_SOCKET_SUN_PATH_LEN, cwd = zeros FILE_PATH_LEN\<rparr>,
      st_mount = \<lparr>kind = 0, ts_ns = 0, cgroup_id = 0, start_boottime = 0, tgid = 0,
        source_truncated = 0, target_truncated = 0, source_offset = 0, target_offset = 0,
        pad_offsets = 0, mt_pad0 = 0, mt_pad1 = 0, source_path = zeros FILE_PATH_LEN,
        target_path = zeros FILE_PATH_LEN\<rparr>,
      st_http = \<lparr>kind = 0, ts_ns = 0, cgroup_id = 0, start_boottime = 0, tgid = 0,
        hr_source = 0, hr_pad0 = zeros 3, hr_pad1 = 0, hr_method = zeros HTTP_METHOD_LEN,
        hr_path = zeros HTTP_PATH_LEN, hr_host = zeros HTTP_HOST_LEN\<rparr>,
      st_candidate = \<lparr>kind = 0, ac_tgid = 0, ac_vm_start = 0, ac_vm_end = 0, ac_file = zero_file\<rparr>\<rparr>"

definition quiet_env :: kenv where
  "quiet_env =
     \<lparr>cpu = 0, ktime_ns = 1000, pid_tgid = 0, cur_task = NULL, cur_cgroup = 7,
      umem = Map.empty, kmem = Map.empty, heap = empty_heap, btf = recent_btf,
      fault_word = 0, fault_fill = zeros, d_path = (\<lambda>_ buf. (-1, buf)),
      ringbuf_space = (\<lambda>_. True), map_update_ok = True, lru_victim = (\<lambda>_. False),
      storage = zero_storage\<rparr>"

lemma zero_storage_wf [simp]: "storage_wf zero_storage"
  by (simp add: storage_wf_def zero_storage_def)

lemma quiet_env_wf [simp]: "env_wf quiet_env"
  by (simp add: env_wf_def quiet_env_def empty_heap_def)

text \<open>Environments that differ from it in memory, objects and the decisions of the kernel.\<close>

lemma quiet_env_simps [simp]:
  "cpu quiet_env = 0" "ktime_ns quiet_env = 1000" "pid_tgid quiet_env = 0"
  "cur_task quiet_env = NULL" "cur_cgroup quiet_env = 7" "umem quiet_env = Map.empty"
  "kmem quiet_env = Map.empty" "heap quiet_env = empty_heap" "btf quiet_env = recent_btf"
  "fault_word quiet_env = 0" "fault_fill quiet_env = zeros" "storage quiet_env = zero_storage"
  "d_path quiet_env = (\<lambda>_ buf. (-1, buf))"
  "ringbuf_space quiet_env = (\<lambda>_. True)" "map_update_ok quiet_env"
  "lru_victim quiet_env = (\<lambda>_. False)"
  by (simp_all add: quiet_env_def)

lemma empty_heap_simps [simp]:
  "h_task empty_heap = Map.empty" "h_css_set empty_heap = Map.empty" "h_cgroup empty_heap = Map.empty"
  "h_kernfs empty_heap = Map.empty" "h_mm empty_heap = Map.empty" "h_fs empty_heap = Map.empty"
  "h_dentry empty_heap = Map.empty" "h_path empty_heap = Map.empty" "h_super empty_heap = Map.empty"
  "h_inode empty_heap = Map.empty" "h_file empty_heap = Map.empty" "h_binprm empty_heap = Map.empty"
  "h_vma empty_heap = Map.empty" "h_msghdr empty_heap = Map.empty" "h_sock empty_heap = Map.empty"
  "h_socket empty_heap = Map.empty" "h_unix_address empty_heap = Map.empty"
  by (simp_all add: empty_heap_def)

lemma recent_btf_simps [simp]:
  "\<not> has_ancestor_ids recent_btf" "has_uscore_iov recent_btf" "has_ITER_UBUF recent_btf"
  "ITER_UBUF recent_btf = 0" "ITER_IOVEC recent_btf = 1" "has_i_ctime_sec recent_btf"
  "\<not> has_mid_ctime recent_btf"
  by (simp_all add: recent_btf_def)

text \<open>Raw memory holding one object.\<close>

definition memory_at :: "ptr \<Rightarrow> bytes \<Rightarrow> (ptr \<rightharpoonup> u8)" where
  "memory_at p bs = (\<lambda>a. if unat (a - p) < length bs then Some (bs ! unat (a - p)) else None)"

lemma env_wf_memory [simp]:
  "env_wf (env\<lparr>umem := um\<rparr>) = env_wf env" "env_wf (env\<lparr>kmem := km\<rparr>) = env_wf env"
  "env_wf (env\<lparr>cur_cgroup := c\<rparr>) = env_wf env" "env_wf (env\<lparr>cur_task := t\<rparr>) = env_wf env"
  "env_wf (env\<lparr>ringbuf_space := r\<rparr>) = env_wf env"
  "env_wf (env\<lparr>map_update_ok := u\<rparr>) = env_wf env"
  "h_sock h = Map.empty \<Longrightarrow> h_sock (heap env) = Map.empty \<Longrightarrow> env_wf (env\<lparr>heap := h\<rparr>) = env_wf env"
  by (simp_all add: env_wf_def)

lemma memory_at_nth:
  assumes "i < length bs" "length bs \<le> 2 ^ 63"
  shows "memory_at p bs (p + of_nat i) = Some (bs ! i)"
proof -
  have "unat (of_nat i :: ptr) = i"
    using assms by (simp add: unsigned_of_nat take_bit_nat_eq_self)
  with assms(1) show ?thesis by (simp add: memory_at_def)
qed

lemma read_bytes_memory_at:
  assumes "n \<le> length bs" "length bs \<le> 2 ^ 63"
  shows "read_bytes (memory_at p bs) p n = Some (take n bs)"
  using assms by (intro read_bytes_SomeI) (simp_all add: memory_at_nth)

lemma read_bytes_memory_at_offset:
  assumes "i + n \<le> length bs" "length bs \<le> 2 ^ 63"
  shows "read_bytes (memory_at p bs) (p + of_nat i) n = Some (take n (drop i bs))"
proof (rule read_bytes_SomeI)
  fix j assume "j < n"
  then have "memory_at p bs (p + of_nat (i + j)) = Some (bs ! (i + j))"
    using assms by (intro memory_at_nth) simp_all
  with \<open>j < n\<close> assms(1) show "memory_at p bs (p + of_nat i + of_nat j) = Some (take n (drop i bs) ! j)"
    by (simp add: add.assoc)
qed (use assms(1) in simp)

lemma read_str_at:
  assumes "\<And>i. i \<le> length str \<Longrightarrow> m (p + of_nat i) = Some ((str @ [0]) ! i)"
    and "0 \<notin> set str" "length str < n"
  shows "read_str m p n = Some (str @ [0])"
  using assms
proof (induction str arbitrary: p n)
  case Nil
  then have "m p = Some 0" using Nil(1) [of 0] by simp
  with Nil(3) show ?case by (cases n rule: nat.exhaust; cases "n - 1") simp_all
next
  case (Cons b str)
  then obtain k where n: "n = Suc (Suc k)" by (cases n; cases "n - 1") auto
  have "m p = Some b" using Cons.prems(1) [of 0] by simp
  moreover have "read_str m (p + 1) (Suc k) = Some (str @ [0])"
  proof (rule Cons.IH)
    show "m (p + 1 + of_nat i) = Some ((str @ [0]) ! i)" if "i \<le> length str" for i
      using Cons.prems(1) [of "Suc i"] that by (simp add: add.assoc)
  qed (use Cons.prems n in simp_all)
  ultimately show ?case using n Cons.prems(2) by simp
qed

lemma read_str_memory_at:
  assumes "0 \<notin> set str" "length str < n" "length str < 2 ^ 62"
  shows "read_str (memory_at p (str @ [0])) p n = Some (str @ [0])"
  using assms by (intro read_str_at) (simp_all add: memory_at_nth)

text \<open>A string in memory, read with a bound: the whole string, or the bytes that fit before the NUL.\<close>

lemma read_str_cut:
  assumes "read_bytes m p (Suc (length str)) = Some (str @ [0])" "0 \<notin> set str" "0 < n"
  shows "read_str m p n = Some (take (n - 1) str @ [0])"
  using assms
proof (induction str arbitrary: p n)
  case Nil
  then show ?case by (cases "(m, p, n)" rule: read_str.cases) (simp_all split: option.splits)
next
  case (Cons b str)
  then have b: "m p = Some b" "read_bytes m (p + 1) (Suc (length str)) = Some (str @ [0])"
    by (auto split: option.splits)
  show ?case
  proof (cases "n = 1")
    case False
    then obtain k where "n = Suc (Suc k)" using Cons.prems(3) by (cases n; cases "n - 1") auto
    then show ?thesis using b Cons.IH [OF b(2), of "Suc k"] Cons.prems(2) by simp
  qed simp
qed

end
