(* ===== verification/Cgroup_Tracking.thy ===== *)
theory Cgroup_Tracking
  imports Hook_Contract Loaded_State
begin

text \<open>
  Cgroup identity and cgroup lifecycle, after \<open>cgroup_helpers.bpf.h\<close> and
  \<open>cgroup_hooks.bpf.h\<close>. \<open>tracked_cgroups\<close> is the kernel-side filter of every other hook;
  the programs here are the only ones that extend it: for a child of a tracked cgroup, for a
  cgroup whose basename userspace has staged, and for the destination of a task that leaves a
  tracked cgroup.
\<close>

section \<open>Cgroup helpers\<close>

definition cgroup_is_tracked :: "bpf_state \<Rightarrow> u64 \<Rightarrow> u8" where
  "cgroup_is_tracked s cg = (case tracked_cgroups s cg of Some _ \<Rightarrow> 1 | None \<Rightarrow> 0)"

definition cgroup_id_from_cgroup :: "kenv \<Rightarrow> ptr \<Rightarrow> u64" where
  "cgroup_id_from_cgroup env cgrp =
     BPF_CORE_READ env h_kernfs (BPF_CORE_READ env h_cgroup cgrp cg_kn) kn_id"

text \<open>
  The unrolled selection loop of both layouts: the value of \<open>rd i\<close> for the first \<open>i\<close> with
  \<open>i = level - 1\<close>, the initial 0 when there is none.
\<close>

fun ancestor_select :: "(nat \<Rightarrow> u64) \<Rightarrow> int \<Rightarrow> nat list \<Rightarrow> u64" where
  "ancestor_select rd level [] = 0"
| "ancestor_select rd level (i # is) = (if int i = level - 1 then rd i else ancestor_select rd level is)"

definition parent_cgroup_id_from_cgroup :: "kenv \<Rightarrow> ptr \<Rightarrow> u64" where
  "parent_cgroup_id_from_cgroup env cgrp =
     (let level = sint (BPF_CORE_READ env h_cgroup cgrp cg_level) in
      if level \<le> 0 \<or> level > 15 then 0
      else if has_ancestor_ids (btf env) then
        ancestor_select (\<lambda>i. BPF_CORE_READ env h_cgroup cgrp (\<lambda>c. cg_ancestor_ids c i)) level [0..<16]
      else
        (let parent_cgrp =
               ancestor_select (\<lambda>i. BPF_CORE_READ env h_cgroup cgrp (\<lambda>c. cg_ancestors c i)) level [0..<16]
         in if parent_cgrp = NULL then 0
            else BPF_CORE_READ env h_kernfs (BPF_CORE_READ env h_cgroup parent_cgrp cg_kn) kn_id))"

section \<open>Staging promotion\<close>

text \<open>
  The key of the first lookup: the basename of the cgroup directory in a zeroed buffer,
  unless it is missing, unreadable or empty.
\<close>

definition staging_key :: "kenv \<Rightarrow> ptr \<Rightarrow> bytes option" where
  "staging_key env cgrp =
     (let name = BPF_CORE_READ env h_kernfs (BPF_CORE_READ env h_cgroup cgrp cg_kn) kn_name in
      if name = NULL then None
      else case bpf_probe_read_kernel_str env STAGING_KEY_LEN name of
        None \<Rightarrow> None
      | Some str \<Rightarrow>
          if length str \<le> 1 then None else Some (blit 0 str (replicate STAGING_KEY_LEN 0)))"

definition match_staging_and_track_cgroup :: "kenv \<Rightarrow> ptr \<Rightarrow> u64 \<Rightarrow> bpf_state \<Rightarrow> bool \<times> bpf_state" where
  "match_staging_and_track_cgroup env cgrp cg s =
     (case staging_key env cgrp of
        None \<Rightarrow> (False, s)
      | Some key \<Rightarrow>
          (case staging_map s key of
             None \<Rightarrow> (False, s)
           | Some _ \<Rightarrow>
               (case bpf_map_update_elem env (tracked_cgroups s) cg 1 BPF_ANY of
                  None \<Rightarrow> (False, s)
                | Some tracked \<Rightarrow>
                    (True, s\<lparr>tracked_cgroups := tracked,
                             staging_map := bpf_map_delete_elem (staging_map s) key\<rparr>))))"

section \<open>Hooks\<close>

text \<open>
  The decision part of \<open>handle_cgroup_mkdir\<close> up to the reservation: \<open>None\<close> is the early
  \<open>return 0\<close>, otherwise the value of \<open>staging_matched\<close> and the updated maps.
\<close>

definition mkdir_track :: "kenv \<Rightarrow> ptr \<Rightarrow> bpf_state \<Rightarrow> (u8 \<times> bpf_state) option" where
  "mkdir_track env cgrp s =
     (let cg = cgroup_id_from_cgroup env cgrp;
          parent = parent_cgroup_id_from_cgroup env cgrp in
      if cgroup_is_tracked s parent \<noteq> 0 then
        (case bpf_map_update_elem env (tracked_cgroups s) cg 1 BPF_ANY of
           None \<Rightarrow> None
         | Some tracked \<Rightarrow> Some (0, s\<lparr>tracked_cgroups := tracked\<rparr>))
      else
        (case match_staging_and_track_cgroup env cgrp cg s of
           (matched, s') \<Rightarrow> if matched then Some (1, s') else None))"

text \<open>The sample each hook fills in, starting from the uninitialised reservation.\<close>

definition mkdir_sample :: "kenv \<Rightarrow> ptr \<Rightarrow> ptr \<Rightarrow> u8 \<Rightarrow> cgroup_mkdir_sample" where
  "mkdir_sample env cgrp path matched =
     (let x = (st_mkdir (storage env))
            \<lparr>kind := kind_value SAMPLE_KIND_CGROUP_MKDIR,
             staging_matched := matched,
             cm_pad0 := 0, cm_pad1 := 0,
             cm_cgroup_id := cgroup_id_from_cgroup env cgrp,
             parent_cgroup_id := parent_cgroup_id_from_cgroup env cgrp,
             cm_ts_ns := ktime_ns env\<rparr>;
          buf = (cm_path x)[0 := 0]
      in x\<lparr>cm_path :=
            (if path = NULL then buf
             else read_into env CGROUP_PATH_LEN
                    (bpf_probe_read_kernel_str env CGROUP_PATH_LEN path) 0 buf)\<rparr>)"

definition handle_cgroup_mkdir :: "kenv \<Rightarrow> ptr \<times> ptr \<Rightarrow> bpf_state \<Rightarrow> int \<times> bpf_state" where
  "handle_cgroup_mkdir env args s =
     (let (cgrp, path) = args in
      case mkdir_track env cgrp s of
        None \<Rightarrow> (0, s)
      | Some (matched, s1) \<Rightarrow>
          RESERVE_SAMPLE env SAMPLE_KIND_CGROUP_MKDIR 0
            (\<lambda>s2. (0, bpf_ringbuf_submit (CgroupMkdirSample (mkdir_sample env cgrp path matched)) s2))
            s1)"

definition attach_sample :: "kenv \<Rightarrow> ptr \<Rightarrow> u64 \<Rightarrow> u64 \<Rightarrow> cgroup_attach_sample" where
  "attach_sample env leader source destination =
     (st_attach (storage env))
       \<lparr>kind := kind_value SAMPLE_KIND_CGROUP_ATTACH,
        ca_pad := 0,
        ca_ts_ns := ktime_ns env,
        source_cgroup_id := source,
        destination_cgroup_id := destination,
        ca_tgid := BPF_CORE_READ env h_task leader t_tgid,
        ca_pad2 := 0\<rparr>"

definition handle_cgroup_attach_task :: "kenv \<Rightarrow> ptr \<times> ptr \<times> bool \<Rightarrow> bpf_state \<Rightarrow> int \<times> bpf_state" where
  "handle_cgroup_attach_task env args s =
     (let (dst_cgrp, leader, threadgroup) = args in
      if dst_cgrp = NULL \<or> leader = NULL then (0, s)
      else
        (let old_cgrp = BPF_CORE_READ env h_css_set (BPF_CORE_READ env h_task leader t_cgroups) dfl_cgrp;
             source = cgroup_id_from_cgroup env old_cgrp in
         case tracked_cgroups s source of
           None \<Rightarrow> (0, s)
         | Some _ \<Rightarrow>
             (let destination = cgroup_id_from_cgroup env dst_cgrp;
                  emit = RESERVE_SAMPLE env SAMPLE_KIND_CGROUP_ATTACH 0
                    (\<lambda>s2. (0, bpf_ringbuf_submit
                                (CgroupAttachSample (attach_sample env leader source destination)) s2)) in
              case tracked_cgroups s destination of
                Some _ \<Rightarrow> emit s
              | None \<Rightarrow>
                  (case bpf_map_update_elem env (tracked_cgroups s) destination 1 BPF_ANY of
                     None \<Rightarrow> (0, s)
                   | Some tracked \<Rightarrow> emit (s\<lparr>tracked_cgroups := tracked\<rparr>)))))"

definition rmdir_sample :: "kenv \<Rightarrow> u64 \<Rightarrow> cgroup_rmdir_sample" where
  "rmdir_sample env cg =
     (st_rmdir (storage env))
       \<lparr>kind := kind_value SAMPLE_KIND_CGROUP_RMDIR, cr_pad := 0,
        cr_cgroup_id := cg, cr_ts_ns := ktime_ns env\<rparr>"

definition handle_cgroup_rmdir :: "kenv \<Rightarrow> ptr \<times> ptr \<Rightarrow> bpf_state \<Rightarrow> int \<times> bpf_state" where
  "handle_cgroup_rmdir env args s =
     (let (cgrp, path) = args;
          cg = cgroup_id_from_cgroup env cgrp in
      if cgroup_is_tracked s cg = 0 then (0, s)
      else
        RESERVE_SAMPLE env SAMPLE_KIND_CGROUP_RMDIR 0
          (\<lambda>s2. (0, bpf_ringbuf_submit (CgroupRmdirSample (rmdir_sample env cg)) s2))
          s)"

section \<open>Lemmas on the helpers\<close>

lemma cgroup_is_tracked_0 [simp]: "cgroup_is_tracked s cg = 0 \<longleftrightarrow> tracked_cgroups s cg = None"
  by (auto simp: cgroup_is_tracked_def split: option.splits)

lemma ancestor_select_upt:
  assumes "0 < level" "level \<le> int n" "m \<le> nat (level - 1)"
  shows "ancestor_select rd level [m..<n] = rd (nat (level - 1))"
  using assms
proof (induction "n - m" arbitrary: m)
  case 0
  then show ?case by linarith
next
  case (Suc k)
  then have "m < n" by linarith
  then have "[m..<n] = m # [Suc m..<n]" by (simp add: upt_conv_Cons)
  moreover have "m = nat (level - 1)" if "int m = level - 1"
    using that by simp
  moreover have "Suc m \<le> nat (level - 1)" if "int m \<noteq> level - 1"
    using that Suc.prems by linarith
  ultimately show ?case using Suc by auto
qed

text \<open>
  The parent id both kernel layouts are meant to give: the id of the ancestor one level up,
  for the levels the loop covers.
\<close>

lemma parent_cgroup_id_legacy:
  assumes "h_cgroup (heap env) cgrp = Some c" "has_ancestor_ids (btf env)"
    and "0 < sint (cg_level c)" "sint (cg_level c) \<le> 15"
  shows "parent_cgroup_id_from_cgroup env cgrp = cg_ancestor_ids c (nat (sint (cg_level c) - 1))"
  using assms by (simp add: parent_cgroup_id_from_cgroup_def ancestor_select_upt)

lemma parent_cgroup_id_modern:
  assumes "h_cgroup (heap env) cgrp = Some c" "\<not> has_ancestor_ids (btf env)"
    and "0 < sint (cg_level c)" "sint (cg_level c) \<le> 15"
    and "cg_ancestors c (nat (sint (cg_level c) - 1)) = p" "p \<noteq> NULL"
    and "h_cgroup (heap env) p = Some pc" "h_kernfs (heap env) (cg_kn pc) = Some kn"
  shows "parent_cgroup_id_from_cgroup env cgrp = kn_id kn"
  using assms by (simp add: parent_cgroup_id_from_cgroup_def ancestor_select_upt)

lemma parent_cgroup_id_out_of_range:
  assumes "h_cgroup (heap env) cgrp = Some c" "sint (cg_level c) \<le> 0 \<or> sint (cg_level c) > 15"
  shows "parent_cgroup_id_from_cgroup env cgrp = 0"
  using assms by (auto simp: parent_cgroup_id_from_cgroup_def)

text \<open>The maps after the tracking part of \<open>mkdir\<close>, on every branch.\<close>

lemma match_staging_cases:
  obtains
    (no) "match_staging_and_track_cgroup env cgrp cg s = (False, s)"
  | (hit) key v where "match_staging_and_track_cgroup env cgrp cg s =
        (True, s\<lparr>tracked_cgroups := (tracked_cgroups s)(cg \<mapsto> 1),
                 staging_map := (staging_map s)(key := None)\<rparr>)"
      "staging_key env cgrp = Some key" "staging_map s key = Some v" "map_update_ok env"
proof (cases "staging_key env cgrp")
  case None
  then show ?thesis by (intro that(1)) (simp add: match_staging_and_track_cgroup_def)
next
  case (Some key)
  show ?thesis
  proof (cases "staging_map s key = None \<or> \<not> map_update_ok env")
    case True
    with Some show ?thesis
      by (intro that(1))
        (auto simp: match_staging_and_track_cgroup_def bpf_map_update_elem_def split: option.split)
  next
    case False
    then obtain v where v: "staging_map s key = Some v" and ok: "map_update_ok env" by auto
    show ?thesis
      by (rule that(2) [OF _ Some v ok])
        (simp add: match_staging_and_track_cgroup_def bpf_map_update_elem_def
          bpf_map_delete_elem_def Some v ok)
  qed
qed

lemma mkdir_track_cases:
  obtains
    (no) "mkdir_track env cgrp s = None"
  | (child) "mkdir_track env cgrp s =
        Some (0, s\<lparr>tracked_cgroups := (tracked_cgroups s)(cgroup_id_from_cgroup env cgrp \<mapsto> 1)\<rparr>)"
      "tracked_cgroups s (parent_cgroup_id_from_cgroup env cgrp) \<noteq> None" "map_update_ok env"
  | (staged) key v where "mkdir_track env cgrp s =
        Some (1, s\<lparr>tracked_cgroups := (tracked_cgroups s)(cgroup_id_from_cgroup env cgrp \<mapsto> 1),
                   staging_map := (staging_map s)(key := None)\<rparr>)"
      "staging_key env cgrp = Some key" "staging_map s key = Some v" "map_update_ok env"
      "tracked_cgroups s (parent_cgroup_id_from_cgroup env cgrp) = None"
proof (cases "tracked_cgroups s (parent_cgroup_id_from_cgroup env cgrp) = None")
  case True
  show ?thesis
  proof (cases rule: match_staging_cases [of env cgrp "cgroup_id_from_cgroup env cgrp" s])
    case no
    with True show ?thesis by (intro that(1)) (simp add: mkdir_track_def Let_def)
  next
    case (hit key v)
    show ?thesis
      by (rule that(3) [OF _ hit(2-4) True]) (simp add: mkdir_track_def Let_def True hit(1))
  qed
next
  case False
  show ?thesis
  proof (cases "map_update_ok env")
    case True
    with False show ?thesis
      by (intro that(2)) (simp_all add: mkdir_track_def Let_def bpf_map_update_elem_def)
  next
    case nok: False
    with False show ?thesis
      by (intro that(1)) (simp add: mkdir_track_def Let_def bpf_map_update_elem_def)
  qed
qed

section \<open>The hook contract\<close>

lemma mkdir_track_frame:
  assumes "mkdir_track env cgrp s = Some (m, s1)"
  shows "events s1 = events s" "reserved s1 = reserved s"
    "path_scratch s1 = path_scratch s" "http_scratch s1 = http_scratch s"
    "ringbuf_drop_count s1 = ringbuf_drop_count s" "http_stages s1 = http_stages s"
    "http_uprobe_stages s1 = http_uprobe_stages s"
    "http_uprobe_discovery_cache s1 = http_uprobe_discovery_cache s"
  using assms by (cases rule: mkdir_track_cases [of env cgrp s]; auto)+

lemma mkdir_sample_kind [simp]: "kind_ok (CgroupMkdirSample (mkdir_sample env cgrp path m))"
  by (simp add: kind_ok_def mkdir_sample_def Let_def)

lemma mkdir_sample_wf: "env_wf env \<Longrightarrow> sample_wf (CgroupMkdirSample (mkdir_sample env cgrp path m))"
  by (simp add: mkdir_sample_def Let_def storage_wfD length_read_into length_probe_read_kernel_str)

lemma attach_sample_kind [simp]: "kind_ok (CgroupAttachSample (attach_sample env leader src dst))"
  by (simp add: kind_ok_def attach_sample_def)

lemma rmdir_sample_kind [simp]: "kind_ok (CgroupRmdirSample (rmdir_sample env cg))"
  by (simp add: kind_ok_def rmdir_sample_def)

lemma same_other_cpus_tracked [simp]:
  "same_other_cpus env s (s\<lparr>tracked_cgroups := m\<rparr>)"
  "same_other_cpus env s (s\<lparr>tracked_cgroups := m, staging_map := m'\<rparr>)"
  by (simp_all add: same_other_cpus_def)

text \<open>The three hooks in closed form.\<close>

lemma handle_cgroup_mkdir_eq:
  "handle_cgroup_mkdir env (cgrp, path) s =
     (case mkdir_track env cgrp s of
        None \<Rightarrow> (0, s)
      | Some (m, s1) \<Rightarrow>
          (0, emit_sample env SAMPLE_KIND_CGROUP_MKDIR (CgroupMkdirSample (mkdir_sample env cgrp path m)) s1))"
  by (simp add: handle_cgroup_mkdir_def reserve_submit split: option.split)

definition attach_source :: "kenv \<Rightarrow> ptr \<Rightarrow> u64" where
  "attach_source env leader = cgroup_id_from_cgroup env
     (BPF_CORE_READ env h_css_set (BPF_CORE_READ env h_task leader t_cgroups) dfl_cgrp)"

lemma handle_cgroup_attach_task_eq:
  "handle_cgroup_attach_task env (dst, leader, tg) s =
     (let src = attach_source env leader; d = cgroup_id_from_cgroup env dst;
          x = CgroupAttachSample (attach_sample env leader src d) in
      if dst = NULL \<or> leader = NULL \<or> tracked_cgroups s src = None then (0, s)
      else if tracked_cgroups s d \<noteq> None then (0, emit_sample env SAMPLE_KIND_CGROUP_ATTACH x s)
      else if map_update_ok env
      then (0, emit_sample env SAMPLE_KIND_CGROUP_ATTACH x
                 (s\<lparr>tracked_cgroups := (tracked_cgroups s)(d \<mapsto> 1)\<rparr>))
      else (0, s))"
  by (simp add: handle_cgroup_attach_task_def attach_source_def Let_def reserve_submit
      bpf_map_update_elem_def split: option.split)

lemma handle_cgroup_rmdir_eq:
  "handle_cgroup_rmdir env (cgrp, path) s =
     (let cg = cgroup_id_from_cgroup env cgrp in
      if tracked_cgroups s cg = None then (0, s)
      else (0, emit_sample env SAMPLE_KIND_CGROUP_RMDIR (CgroupRmdirSample (rmdir_sample env cg)) s))"
  by (simp add: handle_cgroup_rmdir_def reserve_submit Let_def)

lemma mkdir_effect: "hook_effect env s (snd (handle_cgroup_mkdir env (cgrp, path) s))"
  by (cases rule: mkdir_track_cases [of env cgrp s])
    (simp_all add: handle_cgroup_mkdir_eq emit_sample_effect)

lemma mkdir_wf:
  "env_wf env \<Longrightarrow> state_wf s \<Longrightarrow> state_wf (snd (handle_cgroup_mkdir env (cgrp, path) s))"
  by (cases rule: mkdir_track_cases [of env cgrp s])
    (simp_all add: handle_cgroup_mkdir_eq emit_sample_wf mkdir_sample_wf del: sample_wf.simps)

lemma attach_effect: "hook_effect env s (snd (handle_cgroup_attach_task env (dst, leader, tg) s))"
  by (simp add: handle_cgroup_attach_task_eq Let_def emit_sample_effect same_other_cpus_def)

lemma rmdir_effect: "hook_effect env s (snd (handle_cgroup_rmdir env (cgrp, path) s))"
  by (simp add: handle_cgroup_rmdir_eq Let_def emit_sample_effect same_other_cpus_def)

interpretation cgroup_mkdir: bpf_hook handle_cgroup_mkdir 0
proof
  fix env :: kenv and a :: "ptr \<times> ptr" and s :: bpf_state
  show "fst (handle_cgroup_mkdir env a s) = 0"
    by (cases a) (simp add: handle_cgroup_mkdir_eq split: option.split)
  show "hook_effect env s (snd (handle_cgroup_mkdir env a s))"
    by (cases a) (simp add: mkdir_effect)
  show "env_wf env \<Longrightarrow> state_wf s \<Longrightarrow> state_wf (snd (handle_cgroup_mkdir env a s))"
    by (cases a) (simp add: mkdir_wf)
qed

interpretation cgroup_attach: bpf_hook handle_cgroup_attach_task 0
proof
  fix env :: kenv and a :: "ptr \<times> ptr \<times> bool" and s :: bpf_state
  show "fst (handle_cgroup_attach_task env a s) = 0"
    by (cases a) (simp add: handle_cgroup_attach_task_eq Let_def)
  show "hook_effect env s (snd (handle_cgroup_attach_task env a s))"
    by (cases a) (simp add: attach_effect)
  show "env_wf env \<Longrightarrow> state_wf s \<Longrightarrow> state_wf (snd (handle_cgroup_attach_task env a s))"
    by (cases a) (simp add: handle_cgroup_attach_task_eq Let_def emit_sample_wf)
qed

interpretation cgroup_rmdir: bpf_hook handle_cgroup_rmdir 0
proof
  fix env :: kenv and a :: "ptr \<times> ptr" and s :: bpf_state
  show "fst (handle_cgroup_rmdir env a s) = 0"
    by (cases a) (simp add: handle_cgroup_rmdir_eq Let_def)
  show "hook_effect env s (snd (handle_cgroup_rmdir env a s))"
    by (cases a) (simp add: rmdir_effect)
  show "env_wf env \<Longrightarrow> state_wf s \<Longrightarrow> state_wf (snd (handle_cgroup_rmdir env a s))"
    by (cases a) (simp add: handle_cgroup_rmdir_eq Let_def emit_sample_wf)
qed

section \<open>The abstract tracker\<close>

text \<open>
  What the three programs promise together, as operations on the set of tracked cgroups and
  the set of staged basenames: a child joins its tracked parent, a staged basename is
  consumed by the cgroup it names, and the destination of a task that leaves a tracked cgroup
  joins. Removal changes nothing (userspace purges the maps later).
\<close>

datatype lifecycle =
    Mkdir kenv ptr ptr
  | Attach kenv ptr ptr bool
  | Rmdir kenv ptr ptr

fun lifecycle_env :: "lifecycle \<Rightarrow> kenv" where
  "lifecycle_env (Mkdir env _ _) = env"
| "lifecycle_env (Attach env _ _ _) = env"
| "lifecycle_env (Rmdir env _ _) = env"

fun lifecycle_step :: "lifecycle \<Rightarrow> bpf_state \<Rightarrow> bpf_state" where
  "lifecycle_step (Mkdir env cgrp path) s = snd (handle_cgroup_mkdir env (cgrp, path) s)"
| "lifecycle_step (Attach env dst leader tg) s = snd (handle_cgroup_attach_task env (dst, leader, tg) s)"
| "lifecycle_step (Rmdir env cgrp path) s = snd (handle_cgroup_rmdir env (cgrp, path) s)"

type_synonym tracker = "u64 set \<times> bytes set"

definition tracker_of :: "bpf_state \<Rightarrow> tracker" where
  "tracker_of s = (dom (tracked_cgroups s), dom (staging_map s))"

fun tracker_step :: "lifecycle \<Rightarrow> tracker \<Rightarrow> tracker" where
  "tracker_step (Mkdir env cgrp path) (T, S) =
     (if parent_cgroup_id_from_cgroup env cgrp \<in> T then (insert (cgroup_id_from_cgroup env cgrp) T, S)
      else case staging_key env cgrp of
        None \<Rightarrow> (T, S)
      | Some k \<Rightarrow> if k \<in> S then (insert (cgroup_id_from_cgroup env cgrp) T, S - {k}) else (T, S))"
| "tracker_step (Attach env dst leader tg) (T, S) =
     (if dst \<noteq> NULL \<and> leader \<noteq> NULL \<and> attach_source env leader \<in> T
      then (insert (cgroup_id_from_cgroup env dst) T, S) else (T, S))"
| "tracker_step (Rmdir env cgrp path) (T, S) = (T, S)"

lemma mkdir_maps:
  "tracker_of (snd (handle_cgroup_mkdir env (cgrp, path) s)) =
     (if map_update_ok env then tracker_step (Mkdir env cgrp path) (tracker_of s) else tracker_of s)"
proof (cases rule: mkdir_track_cases [of env cgrp s])
  case no
  then show ?thesis
    by (auto simp: handle_cgroup_mkdir_eq tracker_of_def mkdir_track_def Let_def
        match_staging_and_track_cgroup_def bpf_map_update_elem_def domIff split: option.splits if_splits)
next
  case child
  then show ?thesis by (auto simp: handle_cgroup_mkdir_eq tracker_of_def)
next
  case (staged key v)
  then show ?thesis by (auto simp: handle_cgroup_mkdir_eq tracker_of_def domIff)
qed

lemma attach_maps:
  "tracker_of (snd (handle_cgroup_attach_task env (dst, leader, tg) s)) =
     (if map_update_ok env then tracker_step (Attach env dst leader tg) (tracker_of s)
      else tracker_of s)"
  by (auto simp: handle_cgroup_attach_task_eq Let_def tracker_of_def domIff insert_absorb)

lemma rmdir_maps:
  "tracker_of (snd (handle_cgroup_rmdir env (cgrp, path) s)) = tracker_of s"
  by (simp add: handle_cgroup_rmdir_eq Let_def tracker_of_def)

lemma lifecycle_step_tracker:
  "tracker_of (lifecycle_step e s) =
     (if map_update_ok (lifecycle_env e) then tracker_step e (tracker_of s) else tracker_of s)"
proof (cases e)
  case (Rmdir env cgrp path)
  then show ?thesis by (cases "tracker_of s") (simp add: rmdir_maps)
qed (simp_all add: mkdir_maps attach_maps)

lemma tracker_step_grows: "fst tr \<subseteq> fst (tracker_step e tr)"
  by (cases e; cases tr) (auto split: option.splits)

section \<open>Properties\<close>

text \<open>C1: The kernel-side tracking maps refine the abstract tracker: over any sequence of cgroup
  creations, task migrations and removals for which the kernel accepts the map updates, the keys
  of \<open>tracked_cgroups\<close> and of \<open>staging_map\<close> are exactly what the abstract tracker computes.\<close>

theorem tracking_refines_tracker:
  assumes "\<forall>e \<in> set es. map_update_ok (lifecycle_env e)"
  shows "tracker_of (fold lifecycle_step es s) = fold tracker_step es (tracker_of s)"
  using assms by (induction es arbitrary: s) (simp_all add: lifecycle_step_tracker)

text \<open>
  A concrete hierarchy: the cgroup object at 100 (id 8) is the child of the one at 101 (id 7),
  which is tracked.
\<close>

definition nested_env :: kenv where
  "nested_env = quiet_env\<lparr>heap := empty_heap\<lparr>
     h_cgroup := [100 \<mapsto> \<lparr>cg_kn = 200, cg_level = 1, cg_ancestor_ids = (\<lambda>_. 0), cg_ancestors = (\<lambda>_. 101)\<rparr>,
                  101 \<mapsto> \<lparr>cg_kn = 201, cg_level = 0, cg_ancestor_ids = (\<lambda>_. 0), cg_ancestors = (\<lambda>_. 101)\<rparr>],
     h_kernfs := [200 \<mapsto> \<lparr>kn_id = 8, kn_name = NULL\<rparr>, 201 \<mapsto> \<lparr>kn_id = 7, kn_name = NULL\<rparr>]\<rparr>\<rparr>"

definition one_tracked :: bpf_state where
  "one_tracked = loaded_state\<lparr>tracked_cgroups := [7 \<mapsto> 1]\<rparr>"

lemma nested_ids [simp]:
  "cgroup_id_from_cgroup nested_env 100 = 8" "parent_cgroup_id_from_cgroup nested_env 100 = 7"
  "map_update_ok nested_env"
  by (simp_all add: cgroup_id_from_cgroup_def parent_cgroup_id_from_cgroup_def nested_env_def
      upt_conv_Cons)

lemma tracker_of_one_tracked [simp]: "tracker_of one_tracked = ({7}, {})"
  by (simp add: tracker_of_def one_tracked_def)

theorem tracking_refines_tracker_witness:
  "tracker_of (fold lifecycle_step [Mkdir nested_env 100 NULL, Rmdir nested_env 100 NULL] one_tracked) =
     ({8, 7}, {})"
  using tracking_refines_tracker [of "[Mkdir nested_env 100 NULL, Rmdir nested_env 100 NULL]" one_tracked]
  by simp

text \<open>The events that may make a cgroup tracked, and the state each of them needs.\<close>

fun tracks :: "lifecycle \<Rightarrow> bpf_state \<Rightarrow> u64 \<Rightarrow> bool" where
  "tracks (Mkdir env cgrp path) s c \<longleftrightarrow> c = cgroup_id_from_cgroup env cgrp \<and>
    (tracked_cgroups s (parent_cgroup_id_from_cgroup env cgrp) \<noteq> None \<or>
     (\<exists>k. staging_key env cgrp = Some k \<and> staging_map s k \<noteq> None \<and>
        staging_map (lifecycle_step (Mkdir env cgrp path) s) k = None))"
| "tracks (Attach env dst leader tg) s c \<longleftrightarrow> c = cgroup_id_from_cgroup env dst \<and>
    tracked_cgroups s (attach_source env leader) \<noteq> None"
| "tracks (Rmdir env cgrp path) s c \<longleftrightarrow> False"

lemma tracker_of_iff:
  "c \<in> fst (tracker_of s) \<longleftrightarrow> tracked_cgroups s c \<noteq> None" "k \<in> snd (tracker_of s) \<longleftrightarrow> staging_map s k \<noteq> None"
  by (simp_all add: tracker_of_def domIff)

lemma lifecycle_step_grows: "tracked_cgroups s c \<noteq> None \<Longrightarrow> tracked_cgroups (lifecycle_step e s) c \<noteq> None"
proof -
  assume "tracked_cgroups s c \<noteq> None"
  then have "c \<in> fst (tracker_of (lifecycle_step e s))"
    using tracker_step_grows [of "tracker_of s" e] by (auto simp: lifecycle_step_tracker tracker_of_iff subset_iff)
  then show ?thesis by (simp add: tracker_of_iff)
qed

lemma lifecycle_step_tracks:
  assumes "tracked_cgroups s c = None" "tracked_cgroups (lifecycle_step e s) c \<noteq> None"
  shows "tracks e s c"
proof -
  have c: "c \<in> fst (tracker_of (lifecycle_step e s)) - fst (tracker_of s)" using assms by (simp add: tracker_of_iff)
  then have "map_update_ok (lifecycle_env e)"
    by (auto simp: lifecycle_step_tracker split: if_splits)
  then have st: "tracker_of (lifecycle_step e s) = tracker_step e (tracker_of s)"
    by (simp add: lifecycle_step_tracker)
  obtain T S where tr: "tracker_of s = (T, S)" by (cases "tracker_of s")
  have in_s: "tracked_cgroups s d \<noteq> None \<longleftrightarrow> d \<in> T" "staging_map s k \<noteq> None \<longleftrightarrow> k \<in> S"
    "staging_map (lifecycle_step e s) k \<noteq> None \<longleftrightarrow> k \<in> snd (tracker_step e (T, S))" for d k
    using tracker_of_iff(1) [of d s] tracker_of_iff(2) [of k s] tracker_of_iff(2) [of k "lifecycle_step e s"]
    by (simp_all only: tr st fst_conv snd_conv)
  have staged: "staging_map (lifecycle_step e s) k = None" if "k \<notin> snd (tracker_step e (T, S))" for k
    using in_s(3) [of k] that by blast
  show ?thesis
    using c in_s(1,2) staged unfolding st tr by (cases e) (auto split: if_splits option.splits)
qed

text \<open>C5: Tracking only grows, and always for a reason.  Over any sequence of lifecycle events,
  whatever the kernel answers to the map updates, no tracked cgroup is ever untracked; and a cgroup
  tracked at the end was tracked at the start, or one event of the history made it so: it was created
  below a cgroup tracked at that moment, it was created under a basename staged at that moment, whose
  entry the event consumed, or a task moved into it from a cgroup tracked at that moment.\<close>

theorem lifecycle_tracking_justified:
  "(\<forall>c. tracked_cgroups s c \<noteq> None \<longrightarrow> tracked_cgroups (fold lifecycle_step es s) c \<noteq> None) \<and>
   (\<forall>c. tracked_cgroups (fold lifecycle_step es s) c \<noteq> None \<longrightarrow>
      tracked_cgroups s c \<noteq> None \<or>
      (\<exists>before e after. es = before @ e # after \<and> tracks e (fold lifecycle_step before s) c \<and>
        tracked_cgroups (fold lifecycle_step before s) c = None))"
proof (induction es rule: rev_induct)
  case (snoc e es)
  let ?s = "fold lifecycle_step es s"
  have "tracked_cgroups s c \<noteq> None \<or>
      (\<exists>before e' after. es @ [e] = before @ e' # after \<and> tracks e' (fold lifecycle_step before s) c \<and>
        tracked_cgroups (fold lifecycle_step before s) c = None)"
    if c: "tracked_cgroups (lifecycle_step e ?s) c \<noteq> None" for c
  proof (cases "tracked_cgroups ?s c = None")
    case True
    then show ?thesis using lifecycle_step_tracks [OF True c] by blast
  next
    case False
    then show ?thesis using snoc.IH by (metis append_Cons append_assoc)
  qed
  then show ?case using snoc.IH lifecycle_step_grows by simp
qed simp

theorem lifecycle_tracking_justified_witness:
  "tracked_cgroups (fold lifecycle_step [Mkdir nested_env 100 NULL, Rmdir nested_env 100 NULL] one_tracked) 8 \<noteq> None \<and>
   (\<exists>before e after. [Mkdir nested_env 100 NULL, Rmdir nested_env 100 NULL] = before @ e # after \<and>
     tracks e (fold lifecycle_step before one_tracked) 8)"
proof -
  let ?es = "[Mkdir nested_env 100 NULL, Rmdir nested_env 100 NULL]"
  have "tracker_of (fold lifecycle_step ?es one_tracked) = ({8, 7}, {})"
    by (simp add: mkdir_maps rmdir_maps)
  then have "tracked_cgroups (fold lifecycle_step ?es one_tracked) 8 \<noteq> None"
    using tracker_of_iff(1) [of 8 "fold lifecycle_step ?es one_tracked"] by (metis fst_conv insertI1)
  moreover have "tracked_cgroups one_tracked 8 = None" by (simp add: one_tracked_def)
  ultimately show ?thesis
    using lifecycle_tracking_justified [of one_tracked ?es] by blast
qed

end
