(* ===== verification/Decode_Helpers.thy ===== *)
theory Decode_Helpers
  imports Bpf_Prelude
begin

text \<open>
  How userspace reads the byte arrays of a sample, after \<open>kernel_sample_decode_linux.go\<close>:
  \<open>cString\<close> (the prelude's \<open>c_string\<close>), the length-prefixed \<open>cBytes\<close> with its range check, and
  \<open>pathFromBuffer\<close>.
\<close>

definition cBytes :: "bytes \<Rightarrow> u32 \<Rightarrow> bytes option" where
  "cBytes data len = (if unat len > length data then None else Some (take (unat len) data))"

definition pathFromBuffer :: "bytes \<Rightarrow> u16 \<Rightarrow> bytes" where
  "pathFromBuffer buf offset = (if unat offset \<ge> length buf then [] else c_string (drop (unat offset) buf))"

lemma unat_u32_of_nat: "n < 2 ^ 32 \<Longrightarrow> unat (of_nat n :: u32) = n"
  by (simp add: unsigned_of_nat take_bit_nat_eq_self)

lemma cBytes_prefix: "n < 2 ^ 32 \<Longrightarrow> length bs = n \<Longrightarrow> cBytes (bs @ rest) (of_nat n) = Some bs"
  by (simp add: cBytes_def unat_u32_of_nat)

end
