(* ===== verification/Path_Helpers.thy ===== *)
theory Path_Helpers
  imports Hook_Contract Loaded_State Decode_Helpers
begin

text \<open>
  Bounded path resolution, after \<open>path_helpers.bpf.h\<close>: the \<open>bpf_d_path\<close> copy for hooks that
  may call it, and the dentry walk that prepends one component per level into the per-CPU
  scratch buffer. The walk is compared with a recursive specification of the path of a
  dentry: it reports success exactly when the whole path was captured.
\<close>

definition DENTRY_WALK_DEPTH :: nat where [simp]: "DENTRY_WALK_DEPTH = 64"

abbreviation SLASH :: u8 where "SLASH \<equiv> 47"

section \<open>Operations\<close>

definition copy_bpf_d_path_to_scratch :: "kenv \<Rightarrow> ptr \<Rightarrow> bpf_state \<Rightarrow> path_scratch option \<times> bpf_state" where
  "copy_bpf_d_path_to_scratch env path s =
     (if path = NULL then (None, s)
      else case percpu_lookup env (path_scratch s) 0 of
        None \<Rightarrow> (None, s)
      | Some scratch \<Rightarrow>
          (let buf = zero_path_bytes (ps_buf scratch);
               (written, out) = d_path env path (take FILE_PATH_LEN buf);
               scratch' = scratch\<lparr>ps_buf := blit 0 out buf\<rparr>;
               s' = s\<lparr>path_scratch := percpu_store env (path_scratch s) 0 scratch'\<rparr>
           in if written \<le> 0 then (None, s') else (Some scratch', s')))"

text \<open>The local variables of the walk; \<open>w_buf\<close> is \<open>scratch->buf\<close>, path bytes and component area.\<close>

record walk =
  w_dentry :: ptr
  w_offset :: int
  w_truncated :: bool
  w_reached_root :: bool
  w_buf :: bytes

text \<open>One iteration of the unrolled loop.\<close>

definition dentry_step :: "kenv \<Rightarrow> walk \<Rightarrow> walk" where
  "dentry_step env w =
     (if w_reached_root w \<or> w_truncated w then w
      else if w_dentry w = NULL then w\<lparr>w_truncated := True\<rparr>
      else
        (let parent = BPF_CORE_READ env h_dentry (w_dentry w) d_parent in
         if w_dentry w = parent then
           (let w' = (if w_offset w = int FILE_PATH_LEN - 1 \<and> w_offset w > 0
                      then w\<lparr>w_offset := w_offset w - 1,
                             w_buf := (w_buf w)[nat (w_offset w - 1) mod FILE_PATH_LEN := SLASH]\<rparr>
                      else w)
            in w'\<lparr>w_reached_root := True\<rparr>)
         else
           (let name_ptr = BPF_CORE_READ env h_dentry (w_dentry w) d_name in
            if name_ptr = NULL then w\<lparr>w_dentry := parent\<rparr>
            else case bpf_probe_read_kernel_str env DENTRY_NAME_BUF_LEN name_ptr of
              None \<Rightarrow> w\<lparr>w_truncated := True,
                        w_buf := blit FILE_PATH_LEN (fault_fill env DENTRY_NAME_BUF_LEN) (w_buf w)\<rparr>
            | Some str \<Rightarrow>
                (let buf = blit FILE_PATH_LEN str (w_buf w) in
                 if length str \<le> 1 then w\<lparr>w_dentry := parent, w_buf := buf\<rparr>
                 else
                   (let namelen = (if length str - 1 \<ge> DENTRY_NAME_BUF_LEN
                                   then DENTRY_NAME_BUF_LEN - 1 else length str - 1) in
                    if w_offset w < int (namelen + 1) then w\<lparr>w_truncated := True, w_buf := buf\<rparr>
                    else
                      (let offset = w_offset w - int (namelen + 1);
                           sep_idx = nat offset mod FILE_PATH_LEN;
                           dst_off = nat (offset + 1) mod FILE_PATH_LEN;
                           buf1 = buf[sep_idx := SLASH];
                           buf2 = blit dst_off (take namelen (drop FILE_PATH_LEN buf1)) buf1
                       in w\<lparr>w_dentry := parent, w_offset := offset, w_buf := buf2\<rparr>))))))"

definition dentry_walk :: "kenv \<Rightarrow> walk \<Rightarrow> walk" where
  "dentry_walk env w = ((dentry_step env) ^^ DENTRY_WALK_DEPTH) w"

text \<open>
  The return value, the value stored through \<open>offset_out\<close> (none when the walk is refused) and
  the scratch slot afterwards.
\<close>

definition resolve_dentry_fallback_path_to_scratch ::
    "kenv \<Rightarrow> ptr \<Rightarrow> path_scratch option \<Rightarrow> int \<times> u16 option \<times> path_scratch option" where
  "resolve_dentry_fallback_path_to_scratch env dentry scratch =
     (case scratch of
        None \<Rightarrow> (-1, None, None)
      | Some sc \<Rightarrow>
          if dentry = NULL then (-1, None, Some sc)
          else
            (let w = dentry_walk env
                   \<lparr>w_dentry = dentry, w_offset = int FILE_PATH_LEN - 1, w_truncated = False,
                    w_reached_root = False, w_buf = zero_path_bytes (ps_buf sc)\<rparr>;
                 truncated = (w_truncated w \<or> \<not> w_reached_root w);
                 offset = (if w_offset w < 0 then 0
                           else if w_offset w > int FILE_PATH_LEN - 1 then int FILE_PATH_LEN - 1
                           else w_offset w)
             in (if truncated then 1 else 0, Some (word_of_int offset), Some (sc\<lparr>ps_buf := w_buf w\<rparr>))))"

text \<open>What the caller gets: the destination buffer, the offset and the truncation flag.\<close>

record captured_path =
  cp_path :: bytes
  cp_offset :: u16
  cp_truncated :: u8

definition copy_dentry_fallback_path_to_sample ::
    "kenv \<Rightarrow> bytes \<Rightarrow> ptr \<Rightarrow> bpf_state \<Rightarrow> captured_path \<times> bpf_state" where
  "copy_dentry_fallback_path_to_sample env dst dentry s =
     (case resolve_dentry_fallback_path_to_scratch env dentry (percpu_lookup env (path_scratch s) 0) of
        (rc, off, scratch) \<Rightarrow>
          if rc < 0 then
            (\<lparr>cp_path = dst[0 := 0], cp_offset = 0, cp_truncated = 1\<rparr>, s)
          else case scratch of
            None \<Rightarrow> (\<lparr>cp_path = dst, cp_offset = 0, cp_truncated = 0\<rparr>, s)
          | Some sc \<Rightarrow>
            (\<lparr>cp_path = blit 0 (take FILE_PATH_LEN (ps_buf sc)) dst,
              cp_offset = (case off of None \<Rightarrow> 0 | Some v \<Rightarrow> v),
              cp_truncated = (if rc = 1 then 1 else 0)\<rparr>,
             s\<lparr>path_scratch := percpu_store env (path_scratch s) 0 sc\<rparr>))"

definition copy_current_cwd_fallback_path_to_sample ::
    "kenv \<Rightarrow> unix_socket_connect_sample \<Rightarrow> bpf_state \<Rightarrow> bool \<times> unix_socket_connect_sample \<times> bpf_state" where
  "copy_current_cwd_fallback_path_to_sample env x s =
     (let task = cur_task env in
      if task = NULL then (False, x, s)
      else
        (let fs = BPF_CORE_READ env h_task task t_fs in
         if fs = NULL then (False, x, s)
         else
           (let cwd_dentry = BPF_CORE_READ env h_fs fs pwd_dentry in
            if cwd_dentry = NULL then (False, x, s)
            else if percpu_lookup env (path_scratch s) 0 = None then (False, x, s)
            else
              (let (cp, s') = copy_dentry_fallback_path_to_sample env (cwd x) cwd_dentry s
               in (True, x\<lparr>cwd := cp_path cp, cwd_offset := cp_offset cp,
                            cwd_truncated := cp_truncated cp\<rparr>, s')))))"

section \<open>The path of a dentry\<close>

text \<open>
  The specification: follow \<open>d_parent\<close> to the dentry that is its own parent, collecting the
  names on the way. A dentry without a name contributes no component; an unreadable name or a
  chain of \<open>n\<close> dentries that has not met its root has no path.
\<close>

definition dentry_component :: "kenv \<Rightarrow> ptr \<Rightarrow> bytes option" where
  "dentry_component env d =
     (let name_ptr = BPF_CORE_READ env h_dentry d d_name in
      if name_ptr = NULL then Some []
      else map_option butlast (bpf_probe_read_kernel_str env DENTRY_NAME_BUF_LEN name_ptr))"

fun dentry_components :: "kenv \<Rightarrow> nat \<Rightarrow> ptr \<Rightarrow> bytes list option" where
  "dentry_components env 0 d = None"
| "dentry_components env (Suc n) d =
     (let parent = BPF_CORE_READ env h_dentry d d_parent in
      if d = NULL then None
      else if d = parent then Some []
      else case dentry_component env d of
        None \<Rightarrow> None
      | Some c \<Rightarrow> map_option (\<lambda>comps. comps @ (if c = [] then [] else [c])) (dentry_components env n parent))"

definition join_components :: "bytes list \<Rightarrow> bytes" where
  "join_components comps = concat (map (\<lambda>c. SLASH # c) comps)"

definition path_string :: "bytes list \<Rightarrow> bytes" where
  "path_string comps = (if comps = [] then [SLASH] else join_components comps)"

lemma join_components_simps [simp]:
  "join_components [] = []"
  "join_components (xs @ ys) = join_components xs @ join_components ys"
  "join_components [c] = SLASH # c"
  by (simp_all add: join_components_def)

section \<open>The walk against the specification\<close>

text \<open>
  The state of the walk between iterations: the bytes from \<open>w_offset\<close> to the end of the path
  buffer are the path assembled so far and the NUL that is never overwritten.
\<close>

definition walk_inv :: "walk \<Rightarrow> bytes \<Rightarrow> bool" where
  "walk_inv w acc \<longleftrightarrow>
     length (w_buf w) = FILE_PATH_LEN + DENTRY_NAME_BUF_LEN \<and>
     w_offset w = int (FILE_PATH_LEN - 1) - int (length acc) \<and> length acc < FILE_PATH_LEN \<and>
     drop (FILE_PATH_LEN - 1 - length acc) (take FILE_PATH_LEN (w_buf w)) = acc @ [0] \<and> 0 \<notin> set acc"

lemma dentry_component_shape:
  assumes "dentry_component env d = Some c"
  shows "0 \<notin> set c \<and> length c < DENTRY_NAME_BUF_LEN"
  using assms probe_read_kernel_str_shape
  by (fastforce simp: dentry_component_def Let_def split: if_splits)

definition running :: "walk \<Rightarrow> bool" where
  "running w \<longleftrightarrow> \<not> w_reached_root w \<and> \<not> w_truncated w"

lemma walk_inv_component_area:
  assumes "walk_inv w acc" "length str \<le> DENTRY_NAME_BUF_LEN"
  shows "walk_inv (w\<lparr>w_buf := blit FILE_PATH_LEN str (w_buf w)\<rparr>) acc"
  using assms by (simp add: walk_inv_def)

lemma walk_inv_cong:
  "walk_inv w acc \<Longrightarrow> w_buf w' = w_buf w \<Longrightarrow> w_offset w' = w_offset w \<Longrightarrow> walk_inv w' acc"
  by (simp add: walk_inv_def)

lemma step_stuck: "\<not> running w \<Longrightarrow> dentry_step env w = w"
  by (auto simp: running_def dentry_step_def)

lemma steps_stuck: "\<not> running w \<Longrightarrow> (dentry_step env ^^ n) w = w"
  by (induction n) (simp_all add: step_stuck)

lemma step_null:
  "running w \<Longrightarrow> w_dentry w = NULL \<Longrightarrow> dentry_step env w = w\<lparr>w_truncated := True\<rparr>"
  by (simp add: running_def dentry_step_def)

lemma step_root:
  assumes "running w" "w_dentry w \<noteq> NULL" "walk_inv w acc"
    and "w_dentry w = BPF_CORE_READ env h_dentry (w_dentry w) d_parent"
  shows "w_reached_root (dentry_step env w)" "\<not> w_truncated (dentry_step env w)"
    "walk_inv (dentry_step env w) (if acc = [] then [SLASH] else acc)"
proof -
  let ?w' = "dentry_step env w"
  have step: "?w' = (if w_offset w = 1023
      then w\<lparr>w_offset := 1022, w_buf := (w_buf w)[1022 := SLASH], w_reached_root := True\<rparr>
      else w\<lparr>w_reached_root := True\<rparr>)"
    using assms by (auto simp: running_def dentry_step_def Let_def)
  show "w_reached_root ?w'" using step by simp
  show "\<not> w_truncated ?w'" using step assms(1) by (simp add: running_def)
  have off: "w_offset w = 1023 \<longleftrightarrow> acc = []" using assms(3) by (auto simp: walk_inv_def)
  show "walk_inv ?w' (if acc = [] then [SLASH] else acc)"
  proof (cases "acc = []")
    case True
    with assms(3) have len: "length (w_buf w) = 1280" and last: "drop 1023 (take 1024 (w_buf w)) = [0]"
      by (simp_all add: walk_inv_def)
    have "(w_buf w) ! 1023 = 0"
      using last len by (simp add: list_eq_iff_nth_eq)
    then have "drop 1022 (take 1024 ((w_buf w)[1022 := SLASH])) = [SLASH, 0]"
      using len by (simp add: list_eq_iff_nth_eq nth_Cons' less_2_cases_iff)
    with True off step len show ?thesis by (simp add: walk_inv_def)
  next
    case False
    with off step assms(3) show ?thesis by (simp add: walk_inv_def)
  qed
qed

lemma step_fault:
  assumes "running w" "w_dentry w \<noteq> NULL"
    and "w_dentry w \<noteq> BPF_CORE_READ env h_dentry (w_dentry w) d_parent"
    and "dentry_component env (w_dentry w) = None"
  shows "w_truncated (dentry_step env w) \<and> \<not> w_reached_root (dentry_step env w)"
  using assms
  by (auto simp: running_def dentry_step_def dentry_component_def Let_def split: if_splits)

lemma step_skip:
  assumes "running w" "w_dentry w \<noteq> NULL" "walk_inv w acc"
    and "w_dentry w \<noteq> BPF_CORE_READ env h_dentry (w_dentry w) d_parent"
    and "dentry_component env (w_dentry w) = Some []"
  shows "running (dentry_step env w) \<and> walk_inv (dentry_step env w) acc \<and>
         w_dentry (dentry_step env w) = BPF_CORE_READ env h_dentry (w_dentry w) d_parent"
proof (cases "BPF_CORE_READ env h_dentry (w_dentry w) d_name = NULL")
  case True
  with assms show ?thesis
    by (simp add: running_def dentry_step_def Let_def walk_inv_def)
next
  case False
  with assms(5) obtain str where str: "bpf_probe_read_kernel_str env DENTRY_NAME_BUF_LEN
      (BPF_CORE_READ env h_dentry (w_dentry w) d_name) = Some str" "butlast str = []"
    by (auto simp: dentry_component_def Let_def)
  from probe_read_kernel_str_shape [OF str(1)] str(2) have "length str \<le> 1"
    by (auto simp: butlast_append)
  with False str(1) assms have "dentry_step env w =
      w\<lparr>w_dentry := BPF_CORE_READ env h_dentry (w_dentry w) d_parent,
        w_buf := blit FILE_PATH_LEN str (w_buf w)\<rparr>"
    by (simp add: running_def dentry_step_def Let_def)
  with assms(1,3) walk_inv_component_area [OF assms(3), of str] \<open>length str \<le> 1\<close>
  show ?thesis by (simp add: running_def walk_inv_def)
qed

text \<open>The prepend itself, on the buffer.\<close>

lemma prepend_component:
  fixes buf :: bytes and off :: nat
  assumes len: "length buf = FILE_PATH_LEN + DENTRY_NAME_BUF_LEN"
    and off: "off + (length c + 1) = o0" "o0 \<le> FILE_PATH_LEN - 1"
    and acc: "drop o0 (take FILE_PATH_LEN buf) = acc"
  shows "drop off (take FILE_PATH_LEN (blit (off + 1) c (buf[off := SLASH]))) = SLASH # c @ acc"
    and "length (blit (off + 1) c (buf[off := SLASH])) = length buf"
proof -
  let ?b = "buf[off := SLASH]"
  have o0: "o0 \<le> 1023" using off by simp
  show "length (blit (off + 1) c ?b) = length buf" using off len by simp
  have "take FILE_PATH_LEN (blit (off + 1) c ?b) =
      take (off + 1) ?b @ c @ take (FILE_PATH_LEN - o0) (drop o0 ?b)"
    using off(2) len by (simp add: blit_def flip: off(1))
  also have "take (off + 1) ?b = take off buf @ [SLASH]"
    using off len by (simp add: take_Suc_conv_app_nth)
  also have "take (FILE_PATH_LEN - o0) (drop o0 ?b) = acc"
    using off acc by (simp add: drop_take)
  finally show "drop off (take FILE_PATH_LEN (blit (off + 1) c ?b)) = SLASH # c @ acc"
    using off len by simp
qed

lemma step_component_cases:
  assumes "running w" "w_dentry w \<noteq> NULL"
    and "w_dentry w \<noteq> BPF_CORE_READ env h_dentry (w_dentry w) d_parent"
    and "dentry_component env (w_dentry w) = Some c" "c \<noteq> []"
  shows "dentry_step env w =
    (let buf = blit FILE_PATH_LEN (c @ [0]) (w_buf w);
         offset = w_offset w - int (length c + 1) in
     if w_offset w < int (length c + 1) then w\<lparr>w_truncated := True, w_buf := buf\<rparr>
     else w\<lparr>w_dentry := BPF_CORE_READ env h_dentry (w_dentry w) d_parent, w_offset := offset,
            w_buf := blit (nat (offset + 1) mod FILE_PATH_LEN)
              (take (length c) (drop FILE_PATH_LEN (buf[nat offset mod FILE_PATH_LEN := SLASH])))
              (buf[nat offset mod FILE_PATH_LEN := SLASH])\<rparr>)"
proof -
  let ?name = "BPF_CORE_READ env h_dentry (w_dentry w) d_name"
  from assms(4,5) have nn: "?name \<noteq> NULL"
    by (auto simp: dentry_component_def Let_def split: if_splits)
  with assms(4) obtain str where str: "bpf_probe_read_kernel_str env DENTRY_NAME_BUF_LEN ?name = Some str"
      "c = butlast str"
    by (auto simp: dentry_component_def Let_def)
  from probe_read_kernel_str_shape [OF str(1)] str(2) have s: "str = c @ [0]" "length c < 256"
    by (auto simp: butlast_append)
  have "length str - 1 = length c" "\<not> length str \<le> 1" using s assms(5) by (cases c; simp)+
  with assms(1-3) nn str(1) s show ?thesis
    by (simp add: running_def dentry_step_def Let_def)
qed

lemma step_component:
  assumes "running w" "w_dentry w \<noteq> NULL" "walk_inv w acc"
    and "w_dentry w \<noteq> BPF_CORE_READ env h_dentry (w_dentry w) d_parent"
    and "dentry_component env (w_dentry w) = Some c" "c \<noteq> []"
    and fits: "int (length c + 1) \<le> w_offset w"
  shows "running (dentry_step env w) \<and> walk_inv (dentry_step env w) (SLASH # c @ acc) \<and>
         w_dentry (dentry_step env w) = BPF_CORE_READ env h_dentry (w_dentry w) d_parent"
proof -
  let ?buf = "blit FILE_PATH_LEN (c @ [0]) (w_buf w)"
  define off where "off = 1023 - length acc - (length c + 1)"
  have c: "0 \<notin> set c" "length c < 256"
    using dentry_component_shape [OF assms(5)] by simp_all
  have inv: "length (w_buf w) = 1280" "w_offset w = 1023 - int (length acc)" "length acc < 1024"
      "drop (1023 - length acc) (take 1024 (w_buf w)) = acc @ [0]" "0 \<notin> set acc"
    using assms(3) by (simp_all add: walk_inv_def)
  have off: "w_offset w - int (length c + 1) = int off" "off + (length c + 1) = 1023 - length acc"
      "off + 1 < 1024" "int off = 1023 - int (length (SLASH # c @ acc))"
    using fits inv(2,3) by (auto simp: off_def)
  have next_off: "nat (int off + 1) = off + 1" by simp
  have area: "take (length c) (drop 1024 (?buf[off := SLASH])) = c"
    using off inv(1) c(2) by (simp add: drop_update_swap drop_blit_at)
  have step: "dentry_step env w =
      w\<lparr>w_dentry := BPF_CORE_READ env h_dentry (w_dentry w) d_parent, w_offset := int off,
        w_buf := blit (off + 1) c (?buf[off := SLASH])\<rparr>"
    using fits off(3) area
    by (simp only: step_component_cases [OF assms(1,2,4-6)] Let_def off(1) nat_int next_off not_less if_False)
      simp
  have buf: "length ?buf = 1280" using inv(1) c(2) by simp
  have acc: "drop (1023 - length acc) (take 1024 ?buf) = acc @ [0]"
    using inv by simp
  from prepend_component [of ?buf off c "1023 - length acc" "acc @ [0]"] buf off acc
  have "drop off (take 1024 (blit (off + 1) c (?buf[off := SLASH]))) = SLASH # c @ acc @ [0]"
      "length (blit (off + 1) c (?buf[off := SLASH])) = 1280"
    by simp_all
  moreover have "1022 - (length c + length acc) = off" using off(2) by arith
  ultimately show ?thesis using step assms(1) inv(2,3,5) off c
    by (auto simp: running_def walk_inv_def)
qed

lemma step_full:
  assumes "running w" "w_dentry w \<noteq> NULL"
    and "w_dentry w \<noteq> BPF_CORE_READ env h_dentry (w_dentry w) d_parent"
    and "dentry_component env (w_dentry w) = Some c" "c \<noteq> []"
    and "w_offset w < int (length c + 1)"
  shows "w_truncated (dentry_step env w) \<and> \<not> w_reached_root (dentry_step env w)"
  using assms(1,6) by (simp add: step_component_cases [OF assms(1-5)] Let_def running_def)

text \<open>
  What \<open>n\<close> iterations from a running state do: they reach the root with the whole path in
  place when the specification has a path that fits before the offset, and otherwise stop
  short of the root.
\<close>

lemma join_components_eq_Nil [simp]: "join_components comps = [] \<longleftrightarrow> comps = []"
  by (cases comps) (simp_all add: join_components_def)

lemma walk_complete:
  assumes "running w" "walk_inv w acc"
    and "dentry_components env n (w_dentry w) = Some comps"
    and "int (length (join_components comps)) \<le> w_offset w"
  shows "w_reached_root ((dentry_step env ^^ n) w) \<and> \<not> w_truncated ((dentry_step env ^^ n) w) \<and>
         walk_inv ((dentry_step env ^^ n) w)
           (if comps = [] \<and> acc = [] then [SLASH] else join_components comps @ acc)"
  using assms
proof (induction n arbitrary: w acc comps)
  case 0
  then show ?case by simp
next
  case (Suc n)
  let ?d = "w_dentry w"
  let ?p = "BPF_CORE_READ env h_dentry ?d d_parent"
  let ?w = "dentry_step env w"
  have steps: "(dentry_step env ^^ Suc n) w = (dentry_step env ^^ n) ?w"
    by (simp add: funpow_swap1)
  have nn: "?d \<noteq> NULL" using Suc.prems(3) by (auto simp: Let_def)
  show ?case
  proof (cases "?d = ?p")
    case True
    with Suc.prems(3) have "comps = []" by (auto simp: Let_def split: if_splits)
    moreover have "\<not> running ?w"
      using step_root(1) [OF Suc.prems(1) nn Suc.prems(2) True] by (simp add: running_def)
    ultimately show ?thesis
      using step_root [OF Suc.prems(1) nn Suc.prems(2) True] steps
      by (simp add: steps_stuck split: if_splits)
  next
    case False
    with Suc.prems(3) nn obtain c rest where c: "dentry_component env ?d = Some c"
      and rest: "dentry_components env n ?p = Some rest"
      and comps: "comps = rest @ (if c = [] then [] else [c])"
      by (auto simp: Let_def split: option.splits)
    show ?thesis
    proof (cases "c = []")
      case True
      with step_skip [OF Suc.prems(1) nn Suc.prems(2) False] c
      have w: "running ?w" "walk_inv ?w acc" "w_dentry ?w = ?p" by simp_all
      have "w_offset ?w = w_offset w" using w(2) Suc.prems(2) by (simp add: walk_inv_def)
      with Suc.IH [OF w(1,2), of rest] w(3) rest comps True Suc.prems(4) steps
      show ?thesis by (auto split: if_splits)
    next
      case nonempty: False
      have fits: "int (length c + 1) \<le> w_offset w"
        using Suc.prems(4) comps nonempty by simp
      from step_component [OF Suc.prems(1) nn Suc.prems(2) False c nonempty fits]
      have w: "running ?w" "walk_inv ?w (SLASH # c @ acc)" "w_dentry ?w = ?p" by simp_all
      have "w_offset ?w = w_offset w - int (length c + 1)"
        using w(2) Suc.prems(2) by (simp add: walk_inv_def)
      with Suc.IH [OF w(1,2), of rest] w(3) rest comps nonempty Suc.prems(4) steps
      show ?thesis by simp
    qed
  qed
qed

lemma walk_sound:
  assumes "running w" "walk_inv w acc"
    and "w_reached_root ((dentry_step env ^^ n) w)" "\<not> w_truncated ((dentry_step env ^^ n) w)"
  shows "\<exists>comps. dentry_components env n (w_dentry w) = Some comps \<and>
           int (length (join_components comps)) \<le> w_offset w"
  using assms
proof (induction n arbitrary: w acc)
  case 0
  then show ?case by (simp add: running_def)
next
  case (Suc n)
  let ?d = "w_dentry w"
  let ?p = "BPF_CORE_READ env h_dentry ?d d_parent"
  let ?w = "dentry_step env w"
  have steps: "(dentry_step env ^^ Suc n) w = (dentry_step env ^^ n) ?w"
    by (simp add: funpow_swap1)
  have not_trunc: "\<not> w_truncated ?w"
    using Suc.prems(4) steps steps_stuck [of ?w n env] by (auto simp: running_def)
  have nn: "?d \<noteq> NULL"
    using not_trunc step_null [OF Suc.prems(1)] by auto
  show ?case
  proof (cases "?d = ?p")
    case True
    have "0 \<le> w_offset w" using Suc.prems(2) by (simp add: walk_inv_def)
    with True nn show ?thesis by (simp add: Let_def)
  next
    case False
    obtain c where c: "dentry_component env ?d = Some c"
      using step_fault [OF Suc.prems(1) nn False] not_trunc by auto
    show ?thesis
    proof (cases "c = []")
      case True
      with step_skip [OF Suc.prems(1) nn Suc.prems(2) False] c
      have w: "running ?w" "walk_inv ?w acc" "w_dentry ?w = ?p" by simp_all
      have "w_offset ?w = w_offset w" using w(2) Suc.prems(2) by (simp add: walk_inv_def)
      with Suc.IH [OF w(1,2)] w(3) Suc.prems(3,4) steps c True False nn
      show ?thesis by (auto simp: Let_def)
    next
      case nonempty: False
      have fits: "int (length c + 1) \<le> w_offset w"
        using step_full [OF Suc.prems(1) nn False c nonempty] not_trunc by force
      from step_component [OF Suc.prems(1) nn Suc.prems(2) False c nonempty fits]
      have w: "running ?w" "walk_inv ?w (SLASH # c @ acc)" "w_dentry ?w = ?p" by simp_all
      have "w_offset ?w = w_offset w - int (length c + 1)"
        using w(2) Suc.prems(2) by (simp add: walk_inv_def)
      with Suc.IH [OF w(1,2)] w(3) Suc.prems(3,4) steps c nonempty False nn
      show ?thesis by (auto simp: Let_def)
    qed
  qed
qed

text \<open>However the walk ends, the bytes behind the offset are one NUL-terminated string.\<close>

lemma step_keeps_inv:
  assumes "env_wf env" "walk_inv w acc"
  shows "\<exists>acc'. walk_inv (dentry_step env w) (acc' @ acc)"
proof (cases "running w \<and> w_dentry w \<noteq> NULL")
  case False
  then have "dentry_step env w = w \<or> dentry_step env w = w\<lparr>w_truncated := True\<rparr>"
    using step_stuck [of w env] step_null [of w env] by blast
  then show ?thesis
    using assms(2) by (intro exI [of _ "[]"]) (auto simp: walk_inv_def)
next
  case True
  then have r: "running w" "w_dentry w \<noteq> NULL" by simp_all
  show ?thesis
  proof (cases "w_dentry w = BPF_CORE_READ env h_dentry (w_dentry w) d_parent")
    case root: True
    show ?thesis
      using step_root(3) [OF r assms(2) root]
      by (intro exI [of _ "if acc = [] then [SLASH] else []"]) (simp split: if_splits)
  next
    case inner: False
    show ?thesis
    proof (cases "dentry_component env (w_dentry w)")
      case None
      then have "dentry_step env w = w\<lparr>w_truncated := True,
          w_buf := blit FILE_PATH_LEN (fault_fill env DENTRY_NAME_BUF_LEN) (w_buf w)\<rparr>"
        using r inner by (simp add: dentry_component_def dentry_step_def running_def Let_def split: if_splits)
      then show ?thesis using assms
        by (intro exI [of _ "[]"]) (simp add: walk_inv_def env_wf_fault)
    next
      case (Some c)
      note c = dentry_component_shape [OF Some]
      show ?thesis
      proof (cases "c = []")
        case True
        then show ?thesis using step_skip [OF r assms(2) inner] Some
          by (intro exI [of _ "[]"]) simp
      next
        case nonempty: False
        show ?thesis
        proof (cases "w_offset w < int (length c + 1)")
          case True
          then show ?thesis using c assms(2) step_component_cases [OF r inner Some nonempty]
            by (intro exI [of _ "[]"]) (simp add: walk_inv_def)
        next
          case False
          then show ?thesis using step_component [OF r assms(2) inner Some nonempty]
            by (intro exI [of _ "SLASH # c"]) simp
        qed
      qed
    qed
  qed
qed

lemma walk_keeps_inv:
  assumes "env_wf env" "walk_inv w acc"
  shows "\<exists>acc'. walk_inv ((dentry_step env ^^ n) w) acc'"
proof (induction n)
  case 0
  show ?case using assms(2) by auto
next
  case (Suc n)
  then show ?case using step_keeps_inv [OF assms(1)] by fastforce
qed

section \<open>The captured path\<close>

definition walk_start :: "ptr \<Rightarrow> bytes \<Rightarrow> walk" where
  "walk_start d buf = \<lparr>w_dentry = d, w_offset = int FILE_PATH_LEN - 1, w_truncated = False,
     w_reached_root = False, w_buf = zero_path_bytes buf\<rparr>"

lemma walk_start_running: "running (walk_start d buf)"
  by (simp add: walk_start_def running_def)

lemma walk_start_inv:
  "length buf = FILE_PATH_LEN + DENTRY_NAME_BUF_LEN \<Longrightarrow> walk_inv (walk_start d buf) []"
  by (simp add: walk_start_def walk_inv_def zero_path_bytes_scratch)

text \<open>The result of the resolution in terms of the final walk state.\<close>

lemma resolve_eq:
  assumes "d \<noteq> NULL" "walk_inv (dentry_walk env (walk_start d (ps_buf sc))) acc"
  shows "resolve_dentry_fallback_path_to_scratch env d (Some sc) =
     (let w = dentry_walk env (walk_start d (ps_buf sc)) in
      (if w_truncated w \<or> \<not> w_reached_root w then 1 else 0,
       Some (word_of_int (w_offset w)), Some (sc\<lparr>ps_buf := w_buf w\<rparr>)))"
  using assms
  by (simp add: resolve_dentry_fallback_path_to_scratch_def walk_start_def Let_def walk_inv_def)

lemma unat_u16_of_int: "n < 65536 \<Longrightarrow> unat (word_of_int (int n) :: u16) = n"
  by (simp add: unsigned_of_nat take_bit_nat_eq_self)

lemma pathFromBuffer_walk:
  assumes "walk_inv w acc"
  shows "pathFromBuffer (take FILE_PATH_LEN (w_buf w)) (word_of_int (w_offset w)) = acc"
proof -
  have off: "w_offset w = int (1023 - length acc)" and acc: "length acc < 1024" "0 \<notin> set acc"
    using assms by (simp_all add: walk_inv_def)
  have "unat (word_of_int (int (1023 - length acc)) :: u16) = 1023 - length acc"
    by (rule unat_u16_of_int) simp
  moreover have "\<not> 1024 \<le> 1023 - length acc" by arith
  ultimately show ?thesis using assms off acc
    by (simp add: pathFromBuffer_def walk_inv_def)
qed

lemma dentry_walk_inv:
  assumes "env_wf env" "length buf = FILE_PATH_LEN + DENTRY_NAME_BUF_LEN"
  obtains acc where "walk_inv (dentry_walk env (walk_start d buf)) acc"
  using walk_keeps_inv [OF assms(1) walk_start_inv [OF assms(2)]] by (auto simp: dentry_walk_def)

lemma dentry_walk_reaches_root:
  assumes "length buf = FILE_PATH_LEN + DENTRY_NAME_BUF_LEN"
    and w_def: "w = dentry_walk env (walk_start d buf)"
  shows "w_reached_root w \<and> \<not> w_truncated w \<longleftrightarrow>
    (\<exists>comps. dentry_components env DENTRY_WALK_DEPTH d = Some comps \<and>
             length (join_components comps) < FILE_PATH_LEN)" (is "?l \<longleftrightarrow> ?r")
    and "\<lbrakk>dentry_components env DENTRY_WALK_DEPTH d = Some comps;
          length (join_components comps) < FILE_PATH_LEN\<rbrakk> \<Longrightarrow> walk_inv w (path_string comps)"
proof -
  note start = walk_start_running [of d buf] walk_start_inv [OF assms(1), of d]
  have sd: "w_dentry (walk_start d buf) = d" "w_offset (walk_start d buf) = 1023"
    by (simp_all add: walk_start_def)
  have complete: "w_reached_root w \<and> \<not> w_truncated w \<and> walk_inv w (path_string comps)"
    if "dentry_components env DENTRY_WALK_DEPTH d = Some comps"
       "length (join_components comps) < FILE_PATH_LEN" for comps
    using walk_complete [OF start, where env = env and n = DENTRY_WALK_DEPTH and comps = comps] that sd
    by (auto simp: w_def dentry_walk_def path_string_def)
  then show "\<lbrakk>dentry_components env DENTRY_WALK_DEPTH d = Some comps;
      length (join_components comps) < FILE_PATH_LEN\<rbrakk> \<Longrightarrow> walk_inv w (path_string comps)"
    by blast
  show "?l \<longleftrightarrow> ?r"
  proof
    assume ?l
    then show ?r using walk_sound [OF start, where env = env and n = DENTRY_WALK_DEPTH] sd
      by (auto simp: w_def dentry_walk_def)
  next
    assume ?r
    with complete show ?l by blast
  qed
qed

text \<open>What \<open>copy_dentry_fallback_path_to_sample\<close> gives its caller.\<close>

lemma copy_dentry_fallback_frame:
  "scratch_only env s (snd (copy_dentry_fallback_path_to_sample env dst d s))"
  by (simp add: copy_dentry_fallback_path_to_sample_def split: prod.split option.split)

lemma scratch_slot_wf:
  "state_wf s \<Longrightarrow> percpu_lookup env (path_scratch s) i = Some sc \<Longrightarrow>
   length (ps_buf sc) = FILE_PATH_LEN + DENTRY_NAME_BUF_LEN"
  by (auto simp: state_wf_def percpu_lookup_def split: if_splits dest: nth_mem)

lemma copy_dentry_fallback_eq:
  assumes "env_wf env" "state_wf s" "d \<noteq> NULL" "percpu_lookup env (path_scratch s) 0 = Some sc"
    and "length dst = FILE_PATH_LEN"
  shows "copy_dentry_fallback_path_to_sample env dst d s =
    (let w = dentry_walk env (walk_start d (ps_buf sc)) in
     (\<lparr>cp_path = take FILE_PATH_LEN (w_buf w), cp_offset = word_of_int (w_offset w),
       cp_truncated = (if w_truncated w \<or> \<not> w_reached_root w then 1 else 0)\<rparr>,
      s\<lparr>path_scratch := percpu_store env (path_scratch s) 0 (sc\<lparr>ps_buf := w_buf w\<rparr>)\<rparr>))"
proof -
  obtain acc where inv: "walk_inv (dentry_walk env (walk_start d (ps_buf sc))) acc"
    using dentry_walk_inv [OF assms(1) scratch_slot_wf [OF assms(2,4)]] .
  then have "length (w_buf (dentry_walk env (walk_start d (ps_buf sc)))) = 1280"
    by (simp add: walk_inv_def)
  with assms(4,5) show ?thesis
    by (simp add: copy_dentry_fallback_path_to_sample_def resolve_eq [OF assms(3) inv] Let_def)
qed

lemma copy_dentry_fallback_refused:
  "d = NULL \<or> percpu_lookup env (path_scratch s) 0 = None \<Longrightarrow>
   copy_dentry_fallback_path_to_sample env dst d s =
     (\<lparr>cp_path = dst[0 := 0], cp_offset = 0, cp_truncated = 1\<rparr>, s)"
  by (auto simp: copy_dentry_fallback_path_to_sample_def resolve_dentry_fallback_path_to_scratch_def
           split: option.split)

lemma copy_dentry_fallback_wf:
  assumes "env_wf env" "state_wf s" "length dst = FILE_PATH_LEN"
    and r: "copy_dentry_fallback_path_to_sample env dst d s = (cp, s')"
  shows "state_wf s'" "length (cp_path cp) = FILE_PATH_LEN" "unat (cp_offset cp) < FILE_PATH_LEN"
    "scratch_only env s s'"
proof -
  have "state_wf s' \<and> length (cp_path cp) = FILE_PATH_LEN \<and> unat (cp_offset cp) < FILE_PATH_LEN"
  proof (cases "d = NULL \<or> percpu_lookup env (path_scratch s) 0 = None")
    case True
    with r assms show ?thesis by (auto simp: copy_dentry_fallback_refused)
  next
    case False
    then obtain sc where sc: "d \<noteq> NULL" "percpu_lookup env (path_scratch s) 0 = Some sc" by auto
    obtain acc where inv: "walk_inv (dentry_walk env (walk_start d (ps_buf sc))) acc"
      using dentry_walk_inv [OF assms(1) scratch_slot_wf [OF assms(2) sc(2)]] .
    then have "w_offset (dentry_walk env (walk_start d (ps_buf sc))) = int (1023 - length acc)"
      "length (w_buf (dentry_walk env (walk_start d (ps_buf sc)))) = 1280"
      by (simp_all add: walk_inv_def)
    moreover have "unat (word_of_int (int (1023 - length acc)) :: u16) < 1024"
      by (subst unat_u16_of_int) simp_all
    ultimately show ?thesis
      using r assms(2) by (auto simp: copy_dentry_fallback_eq [OF assms(1,2) sc assms(3)] Let_def
          intro!: state_wf_path_store)
  qed
  then show "state_wf s'" "length (cp_path cp) = FILE_PATH_LEN" "unat (cp_offset cp) < FILE_PATH_LEN"
    by simp_all
  show "scratch_only env s s'" using copy_dentry_fallback_frame [of env s dst d] r by simp
qed

lemma copy_cwd_cases:
  assumes "copy_current_cwd_fallback_path_to_sample env x s = (ok, x', s')"
  obtains "x' = x" "s' = s" "\<not> ok"
  | d cp where "ok" "x' = x\<lparr>cwd := cp_path cp, cwd_offset := cp_offset cp, cwd_truncated := cp_truncated cp\<rparr>"
      "copy_dentry_fallback_path_to_sample env (cwd x) d s = (cp, s')"
  using assms
  by (auto simp: copy_current_cwd_fallback_path_to_sample_def Let_def split: if_splits prod.splits)

lemma capture_exact:
  assumes "env_wf env" "state_wf s" "d \<noteq> NULL" "percpu_lookup env (path_scratch s) 0 = Some sc"
    and "length dst = FILE_PATH_LEN"
    and "copy_dentry_fallback_path_to_sample env dst d s = (cp, s')"
  shows "(cp_truncated cp = 0 \<longleftrightarrow>
      (\<exists>comps. dentry_components env DENTRY_WALK_DEPTH d = Some comps \<and>
               length (join_components comps) < FILE_PATH_LEN)) \<and>
    (\<forall>comps. dentry_components env DENTRY_WALK_DEPTH d = Some comps \<longrightarrow> cp_truncated cp = 0 \<longrightarrow>
               pathFromBuffer (cp_path cp) (cp_offset cp) = path_string comps) \<and>
    length (pathFromBuffer (cp_path cp) (cp_offset cp)) + unat (cp_offset cp) = FILE_PATH_LEN - 1"
proof -
  let ?w = "dentry_walk env (walk_start d (ps_buf sc))"
  note len = scratch_slot_wf [OF assms(2,4)]
  note root = dentry_walk_reaches_root [OF len refl, where env = env and d = d]
  have cp: "cp_path cp = take FILE_PATH_LEN (w_buf ?w)" "cp_offset cp = word_of_int (w_offset ?w)"
      "cp_truncated cp = 0 \<longleftrightarrow> w_reached_root ?w \<and> \<not> w_truncated ?w"
    using assms(6) by (auto simp: copy_dentry_fallback_eq [OF assms(1-5)] Let_def split: if_splits)
  have exact: "cp_truncated cp = 0 \<longleftrightarrow>
      (\<exists>comps. dentry_components env DENTRY_WALK_DEPTH d = Some comps \<and>
               length (join_components comps) < FILE_PATH_LEN)"
    using cp(3) root(1) by simp
  have path: "\<forall>comps. dentry_components env DENTRY_WALK_DEPTH d = Some comps \<longrightarrow> cp_truncated cp = 0 \<longrightarrow>
      pathFromBuffer (cp_path cp) (cp_offset cp) = path_string comps"
    using exact cp(1,2) root(2) pathFromBuffer_walk by fastforce
  obtain acc where inv: "walk_inv ?w acc" using dentry_walk_inv [OF assms(1) len] .
  then have "w_offset ?w = int (1023 - length acc)" "length acc < 1024" by (simp_all add: walk_inv_def)
  then have "length (pathFromBuffer (cp_path cp) (cp_offset cp)) + unat (cp_offset cp) = FILE_PATH_LEN - 1"
    using pathFromBuffer_walk [OF inv] cp unat_u16_of_int [of "1023 - length acc"] by simp
  with exact path show ?thesis by blast
qed

lemma capture_path:
  assumes "env_wf env" "state_wf s" "d \<noteq> NULL" "percpu_lookup env (path_scratch s) 0 \<noteq> None"
    and "length dst = FILE_PATH_LEN"
    and "copy_dentry_fallback_path_to_sample env dst d s = (cp, s')"
    and "dentry_components env DENTRY_WALK_DEPTH d = Some comps" "length (join_components comps) < FILE_PATH_LEN"
  shows "cp_truncated cp = 0 \<and> pathFromBuffer (cp_path cp) (cp_offset cp) = path_string comps"
proof -
  obtain sc where "percpu_lookup env (path_scratch s) 0 = Some sc" using assms(4) by auto
  from capture_exact [OF assms(1-3) this assms(5,6)] assms(7,8) show ?thesis by auto
qed

lemma copy_dentry_keeps_slot:
  assumes "copy_dentry_fallback_path_to_sample env dst d s = (cp, s')"
  shows "percpu_lookup env (path_scratch s') 0 = None \<longleftrightarrow> percpu_lookup env (path_scratch s) 0 = None"
  using assms
  by (auto simp: copy_dentry_fallback_path_to_sample_def percpu_lookup_def percpu_store_def
      split: prod.splits option.splits if_splits)

section \<open>Hook bodies that capture paths\<close>

lemma sample_body_capture:
  assumes "ok \<Longrightarrow> env_wf env" "env_wf env \<Longrightarrow> length dst = FILE_PATH_LEN"
    and "\<And>cp. kind_ok (mk cp)" "\<And>cp. sample_cgroup (mk cp) = Some (current_cgroup_id env)"
    and "\<And>cp. env_wf env \<Longrightarrow> length (cp_path cp) = FILE_PATH_LEN \<Longrightarrow> sample_wf (mk cp)"
  shows "sample_body env ok v (\<lambda>s. case copy_dentry_fallback_path_to_sample env dst d s of
           (cp, s') \<Rightarrow> (v, bpf_ringbuf_submit (mk cp) s'))"
proof -
  have "submits env ok v s (case copy_dentry_fallback_path_to_sample env dst d s of
           (cp, s') \<Rightarrow> (v, bpf_ringbuf_submit (mk cp) s'))" for s
  proof -
    obtain cp s' where r: "copy_dentry_fallback_path_to_sample env dst d s = (cp, s')" by fastforce
    have "scratch_only env s s'" using copy_dentry_fallback_frame [of env s dst d] r by simp
    then show ?thesis
      using assms copy_dentry_fallback_wf [OF _ _ _ r] by (auto simp: r intro!: submits_scratch)
  qed
  then show ?thesis by (simp add: sample_body_def)
qed

lemma sample_body_capture2:
  assumes "ok \<Longrightarrow> env_wf env" "env_wf env \<Longrightarrow> length dst = FILE_PATH_LEN" "env_wf env \<Longrightarrow> length dst2 = FILE_PATH_LEN"
    and "\<And>cp cp2. kind_ok (mk cp cp2)"
    and "\<And>cp cp2. sample_cgroup (mk cp cp2) = Some (current_cgroup_id env)"
    and "\<And>cp cp2. env_wf env \<Longrightarrow> length (cp_path cp) = FILE_PATH_LEN \<Longrightarrow>
           length (cp_path cp2) = FILE_PATH_LEN \<Longrightarrow> sample_wf (mk cp cp2)"
  shows "sample_body env ok v (\<lambda>s. case copy_dentry_fallback_path_to_sample env dst d s of
           (cp, s1) \<Rightarrow> (case copy_dentry_fallback_path_to_sample env dst2 d2 s1 of
             (cp2, s') \<Rightarrow> (v, bpf_ringbuf_submit (mk cp cp2) s')))"
proof -
  have "submits env ok v s (case copy_dentry_fallback_path_to_sample env dst d s of
           (cp, s1) \<Rightarrow> (case copy_dentry_fallback_path_to_sample env dst2 d2 s1 of
             (cp2, s') \<Rightarrow> (v, bpf_ringbuf_submit (mk cp cp2) s')))" for s
  proof -
    obtain cp s1 where r: "copy_dentry_fallback_path_to_sample env dst d s = (cp, s1)" by fastforce
    obtain cp2 s' where r2: "copy_dentry_fallback_path_to_sample env dst2 d2 s1 = (cp2, s')" by fastforce
    have "scratch_only env s s1" "scratch_only env s1 s'"
      using copy_dentry_fallback_frame [of env s dst d] copy_dentry_fallback_frame [of env s1 dst2 d2] r r2
      by simp_all
    then have "scratch_only env s s'" by (rule scratch_only_trans)
    then show ?thesis
      using assms copy_dentry_fallback_wf [OF _ _ _ r] copy_dentry_fallback_wf [OF _ _ _ r2]
      by (auto simp: r r2 intro!: submits_scratch)
  qed
  then show ?thesis by (simp add: sample_body_def)
qed

lemma copy_bpf_d_path_frame:
  assumes "copy_bpf_d_path_to_scratch env p s = (sc, s')"
  shows "scratch_only env s s'"
    and "\<lbrakk>env_wf env; state_wf s\<rbrakk> \<Longrightarrow> state_wf s' \<and>
          (\<forall>v. sc = Some v \<longrightarrow> length (ps_buf v) = FILE_PATH_LEN + DENTRY_NAME_BUF_LEN)"
proof -
  show "scratch_only env s s'"
    using assms by (auto simp: copy_bpf_d_path_to_scratch_def Let_def split: if_splits option.splits prod.splits)
  assume wf: "env_wf env" "state_wf s"
  have out: "length (snd (d_path env p buf)) = length buf" for buf
    using wf(1) by (simp add: env_wf_def)
  show "state_wf s' \<and> (\<forall>v. sc = Some v \<longrightarrow> length (ps_buf v) = FILE_PATH_LEN + DENTRY_NAME_BUF_LEN)"
  proof (cases "p = NULL \<or> percpu_lookup env (path_scratch s) 0 = None")
    case True
    then have "copy_bpf_d_path_to_scratch env p s = (None, s)"
      by (auto simp: copy_bpf_d_path_to_scratch_def)
    with assms wf(2) show ?thesis by simp
  next
    case False
    then obtain v where v: "percpu_lookup env (path_scratch s) 0 = Some v" "p \<noteq> NULL" by auto
    obtain written bs where d: "d_path env p (take FILE_PATH_LEN (zero_path_bytes (ps_buf v))) = (written, bs)"
      by fastforce
    have len: "length (ps_buf v) = FILE_PATH_LEN + DENTRY_NAME_BUF_LEN"
      using scratch_slot_wf [OF wf(2) v(1)] .
    then have "length bs = FILE_PATH_LEN" using out [of "take FILE_PATH_LEN (zero_path_bytes (ps_buf v))"] d by simp
    with len v d assms wf(2) show ?thesis
      by (auto simp: copy_bpf_d_path_to_scratch_def Let_def split: if_splits intro!: state_wf_path_store)
  qed
qed

section \<open>Properties\<close>

text \<open>
  C6. A file path is captured exactly. With its scratch slot present, the dentry walk reports a
  complete path exactly when the chain of parents meets the root within 64 dentries, every name
  is readable and the joined path fits the buffer with its terminator; the path userspace then
  reads from the sample is the path of the dentry. In every case the string behind the reported
  offset runs to the terminator in the last byte, whatever the destination held before.
\<close>

theorem dentry_path_exact:
  assumes "env_wf env" "state_wf s" "d \<noteq> NULL" "percpu_lookup env (path_scratch s) 0 = Some sc"
    and "length dst = FILE_PATH_LEN"
    and "copy_dentry_fallback_path_to_sample env dst d s = (cp, s')"
  shows "(cp_truncated cp = 0 \<longleftrightarrow>
      (\<exists>comps. dentry_components env DENTRY_WALK_DEPTH d = Some comps \<and>
               length (join_components comps) < FILE_PATH_LEN)) \<and>
    (\<forall>comps. dentry_components env DENTRY_WALK_DEPTH d = Some comps \<longrightarrow> cp_truncated cp = 0 \<longrightarrow>
               pathFromBuffer (cp_path cp) (cp_offset cp) = path_string comps) \<and>
    length (pathFromBuffer (cp_path cp) (cp_offset cp)) + unat (cp_offset cp) = FILE_PATH_LEN - 1"
  using capture_exact [OF assms] .

text \<open>A directory \<open>tmp\<close> under the root dentry, and a \<open>struct path\<close> that names it.\<close>

definition tmp_env :: kenv where
  "tmp_env = quiet_env\<lparr>kmem := memory_at 100 (c_lit ''tmp'' @ [0]),
     heap := empty_heap\<lparr>h_dentry := [1 \<mapsto> \<lparr>d_parent = 1, d_name = NULL\<rparr>,
                                     2 \<mapsto> \<lparr>d_parent = 1, d_name = 100\<rparr>],
                       h_path := [6 \<mapsto> \<lparr>p_dentry = 2\<rparr>]\<rparr>\<rparr>"

lemma tmp_env_wf [simp]: "env_wf tmp_env"
  by (simp add: tmp_env_def)

lemma tmp_components: "dentry_components tmp_env DENTRY_WALK_DEPTH 2 = Some [c_lit ''tmp'']"
proof -
  have "dentry_component tmp_env 2 = Some (c_lit ''tmp'')"
    using read_str_memory_at [of "c_lit ''tmp''" 256 100]
    by (simp add: dentry_component_def tmp_env_def bpf_probe_read_kernel_str_def c_lit_def)
  moreover have "BPF_CORE_READ tmp_env h_dentry 2 d_parent = 1" "BPF_CORE_READ tmp_env h_dentry 1 d_parent = 1"
    by (simp_all add: tmp_env_def)
  ultimately have "dentry_components tmp_env (Suc (Suc n)) 2 = Some [c_lit ''tmp'']" for n
    by (simp add: Let_def c_lit_def)
  from this [of 62] show ?thesis by simp
qed

lemma tmp_root: "dentry_components tmp_env DENTRY_WALK_DEPTH 1 = Some []"
proof -
  have "dentry_components tmp_env (Suc n) 1 = Some []" for n
    by (simp add: Let_def tmp_env_def)
  from this [of 63] show ?thesis by simp
qed

theorem dentry_path_exact_witness:
  "pathFromBuffer
     (cp_path (fst (copy_dentry_fallback_path_to_sample tmp_env (zeros FILE_PATH_LEN) 2 loaded_state)))
     (cp_offset (fst (copy_dentry_fallback_path_to_sample tmp_env (zeros FILE_PATH_LEN) 2 loaded_state)))
   = c_lit ''/tmp''"
  using dentry_path_exact [of tmp_env loaded_state 2 "\<lparr>ps_buf = zeros (FILE_PATH_LEN + DENTRY_NAME_BUF_LEN)\<rparr>"
      "zeros FILE_PATH_LEN", OF _ _ _ _ _ prod.collapse [symmetric]] tmp_components
  by (simp add: path_string_def c_lit_def)

end
