(* ===== verification/Process_Hooks.thy ===== *)
theory Process_Hooks
  imports Cgroup_Tracking Decode_Helpers
begin

text \<open>
  The fork and exec hooks of \<open>process_hooks.bpf.h\<close>: the argv capture from the user stack of the
  new program, the memfd test, the two samples and the two handlers. The lemmas say what an
  exec record holds on every branch (complete, cut, unreadable) in terms of user memory, and
  that both handlers observe only tracked cgroups.
\<close>

definition TMPFS_MAGIC :: u64 where [simp]: "TMPFS_MAGIC = 0x01021994"
definition MEMFD_DENTRY_PREFIX_LEN :: nat where [simp]: "MEMFD_DENTRY_PREFIX_LEN = 6"

section \<open>Operations\<close>

definition fill_exec_argv :: "kenv \<Rightarrow> exec_sample \<Rightarrow> ptr \<Rightarrow> ptr \<Rightarrow> exec_sample" where
  "fill_exec_argv env x task bprm =
     (let mm = BPF_CORE_READ env h_task task t_mm;
          x1 = (if bprm \<noteq> NULL then x\<lparr>argc := BPF_CORE_READ env h_binprm bprm bprm_argc\<rparr> else x)
      in if mm = NULL then x1
         else
           (let start = BPF_CORE_READ env h_mm mm arg_start;
                stop = BPF_CORE_READ env h_mm mm arg_end
            in if stop \<le> start then x1
               else
                 (let total = unat (stop - start);
                      x2 = (if total > ARGV_BLOB_LEN then x1\<lparr>argv_truncated := 1\<rparr> else x1);
                      to_copy = (if total > ARGV_BLOB_LEN then ARGV_BLOB_LEN else total)
                  in if to_copy = 0 then x2
                     else case bpf_probe_read_user env to_copy start of
                       None \<Rightarrow> x2\<lparr>argv_blob := read_into env to_copy None 0 (argv_blob x2),
                                   argv_faulted := 1, argv_blob_len := 0\<rparr>
                     | Some bs \<Rightarrow> x2\<lparr>argv_blob := read_into env to_copy (Some bs) 0 (argv_blob x2),
                                      argv_blob_len := of_nat to_copy\<rparr>)))"

definition is_memfd_backed_exec :: "kenv \<Rightarrow> ptr \<Rightarrow> u8" where
  "is_memfd_backed_exec env bprm =
     (if bprm = NULL then 0
      else
        (let file = BPF_CORE_READ env h_binprm bprm bprm_file;
             sb_magic = BPF_CORE_READ env h_super
               (BPF_CORE_READ env h_inode (BPF_CORE_READ env h_file file f_inode) i_sb) s_magic
         in if sb_magic \<noteq> TMPFS_MAGIC then 0
            else
              (let name_ptr = BPF_CORE_READ env h_dentry (BPF_CORE_READ env h_file file f_path_dentry) d_name
               in if name_ptr = NULL then 0
                  else case bpf_probe_read_kernel env MEMFD_DENTRY_PREFIX_LEN name_ptr of
                    None \<Rightarrow> 0
                  | Some pre \<Rightarrow>
                      u8_of_bool (pre ! 0 = 0x6D \<and> pre ! 1 = 0x65 \<and> pre ! 2 = 0x6D \<and>
                                  pre ! 3 = 0x66 \<and> pre ! 4 = 0x64 \<and> pre ! 5 = 0x3A))))"

definition fork_sample_of :: "kenv \<Rightarrow> ptr \<Rightarrow> ptr \<Rightarrow> fork_sample" where
  "fork_sample_of env parent child =
     (st_fork (storage env))
       \<lparr>kind := kind_value SAMPLE_KIND_FORK, fk_pad := 0, fk_ts_ns := ktime_ns env,
        fk_cgroup_id := current_cgroup_id env,
        child_start_boottime := BPF_CORE_READ env h_task child t_start_boottime,
        parent_start_boottime := BPF_CORE_READ env h_task
          (BPF_CORE_READ env h_task parent t_group_leader) t_start_boottime,
        child_tgid := BPF_CORE_READ env h_task child t_tgid,
        parent_tgid := BPF_CORE_READ env h_task parent t_tgid\<rparr>"

definition handle_sched_process_fork :: "kenv \<Rightarrow> ptr \<times> ptr \<Rightarrow> bpf_state \<Rightarrow> int \<times> bpf_state" where
  "handle_sched_process_fork env = (\<lambda>(parent, child) s.
     if BPF_CORE_READ env h_task child t_pid \<noteq> BPF_CORE_READ env h_task child t_tgid then (0, s)
     else if cgroup_is_tracked s (current_cgroup_id env) = 0 then (0, s)
     else RESERVE_SAMPLE env SAMPLE_KIND_FORK 0
            (\<lambda>s2. (0, bpf_ringbuf_submit (ForkSample (fork_sample_of env parent child)) s2)) s)"

definition exec_header :: "kenv \<Rightarrow> ptr \<Rightarrow> exec_sample" where
  "exec_header env task =
     (let x = st_exec (storage env) in
      x\<lparr>kind := kind_value SAMPLE_KIND_EXEC, argv_truncated := 0, argv_faulted := 0, ex_pad0 := 0,
        ts_ns := ktime_ns env, cgroup_id := current_cgroup_id env,
        start_boottime := BPF_CORE_READ env h_task task t_start_boottime,
        tgid := BPF_CORE_READ env h_task task t_tgid,
        is_memfd := 0, ex_pad2 := [0, 0, 0], argc := 0, argv_blob_len := 0,
        exec_path := zero_exec_path_bytes (exec_path x),
        argv_blob := zero_argv_blob_bytes (argv_blob x)\<rparr>)"

definition exec_sample_of :: "kenv \<Rightarrow> ptr \<Rightarrow> ptr \<Rightarrow> exec_sample" where
  "exec_sample_of env task bprm =
     (let x = exec_header env task;
          filename = BPF_CORE_READ env h_binprm bprm bprm_filename;
          x1 = (if filename \<noteq> NULL
                then x\<lparr>exec_path := read_into env EXEC_PATH_LEN
                         (bpf_probe_read_kernel_str env EXEC_PATH_LEN filename) 0 (exec_path x)\<rparr>
                else x);
          x2 = x1\<lparr>is_memfd := is_memfd_backed_exec env bprm\<rparr>
      in fill_exec_argv env x2 task bprm)"

definition handle_sched_process_exec :: "kenv \<Rightarrow> ptr \<times> s32 \<times> ptr \<Rightarrow> bpf_state \<Rightarrow> int \<times> bpf_state" where
  "handle_sched_process_exec env = (\<lambda>(task, old_pid, bprm) s.
     if cgroup_is_tracked s (current_cgroup_id env) = 0 then (0, s)
     else RESERVE_SAMPLE env SAMPLE_KIND_EXEC 0
            (\<lambda>s2. (0, bpf_ringbuf_submit (ExecSample (exec_sample_of env task bprm)) s2)) s)"

section \<open>The argument area\<close>

text \<open>
  The argument area of the new program, and what userspace should learn of it: its bytes up to
  the blob size, whether it was longer, and whether it could not be read.
\<close>

definition argv_area :: "kenv \<Rightarrow> ptr \<Rightarrow> (ptr \<times> nat) option" where
  "argv_area env task =
     (let mm = BPF_CORE_READ env h_task task t_mm;
          start = BPF_CORE_READ env h_mm mm arg_start; stop = BPF_CORE_READ env h_mm mm arg_end
      in if mm = NULL \<or> stop \<le> start then None else Some (start, unat (stop - start)))"

definition argv_report :: "kenv \<Rightarrow> ptr \<Rightarrow> bytes \<times> bool \<times> bool" where
  "argv_report env task =
     (case argv_area env task of
        None \<Rightarrow> ([], False, False)
      | Some (start, n) \<Rightarrow>
          (case read_bytes (umem env) start (min n ARGV_BLOB_LEN) of
             None \<Rightarrow> ([], n > ARGV_BLOB_LEN, True)
           | Some bs \<Rightarrow> (bs, n > ARGV_BLOB_LEN, False)))"

lemma fill_exec_argv_cases:
  "fill_exec_argv env x task bprm =
     (let x1 = (if bprm \<noteq> NULL then x\<lparr>argc := BPF_CORE_READ env h_binprm bprm bprm_argc\<rparr> else x)
      in case argv_area env task of
        None \<Rightarrow> x1
      | Some (start, n) \<Rightarrow>
          (let k = min n ARGV_BLOB_LEN;
               x2 = (if n > ARGV_BLOB_LEN then x1\<lparr>argv_truncated := 1\<rparr> else x1)
           in case read_bytes (umem env) start k of
             None \<Rightarrow> x2\<lparr>argv_blob := blit 0 (fault_fill env k) (argv_blob x), argv_faulted := 1,
                          argv_blob_len := 0\<rparr>
           | Some bs \<Rightarrow> x2\<lparr>argv_blob := blit 0 bs (argv_blob x), argv_blob_len := of_nat k\<rparr>))"
proof (cases "argv_area env task")
  case None
  then show ?thesis by (auto simp: fill_exec_argv_def argv_area_def Let_def split: if_splits)
next
  case (Some a)
  then obtain start n where a: "argv_area env task = Some (start, n)" by (cases a) auto
  obtain mm stop where mm: "BPF_CORE_READ env h_task task t_mm = mm" and
      stop: "BPF_CORE_READ env h_mm mm arg_end = stop" by simp
  from a have area: "mm \<noteq> NULL" "BPF_CORE_READ env h_mm mm arg_start = start"
      "\<not> stop \<le> start" "unat (stop - start) = n"
    unfolding argv_area_def Let_def mm stop by (auto split: if_splits)
  from area(3) have "stop - start \<noteq> 0" by auto
  then have n: "n \<noteq> 0" using area(4) unat_eq_0 by metis
  have k: "(if n > ARGV_BLOB_LEN then ARGV_BLOB_LEN else n) = min n ARGV_BLOB_LEN" by simp
  have "min n ARGV_BLOB_LEN \<noteq> 0" using n by simp
  then show ?thesis
    unfolding fill_exec_argv_def a Let_def mm stop area(2,4) k bpf_probe_read_user_def read_into_def
    using area(1,3) by (simp only: if_False if_cancel option.case prod.case not_False_eq_True)
      (simp split: option.split)
qed

section \<open>The samples\<close>

lemma fork_sample_of_facts [simp]:
  "kind (fork_sample_of env parent child) = 1"
  "fk_cgroup_id (fork_sample_of env parent child) = current_cgroup_id env"
  by (simp_all add: fork_sample_of_def)

lemma exec_header_facts [simp]:
  "kind (exec_header env task) = 5" "cgroup_id (exec_header env task) = current_cgroup_id env"
  "argv_truncated (exec_header env task) = 0" "argv_faulted (exec_header env task) = 0"
  "argv_blob_len (exec_header env task) = 0" "length (ex_pad2 (exec_header env task)) = 3"
  "env_wf env \<Longrightarrow> exec_path (exec_header env task) = replicate EXEC_PATH_LEN 0"
  "env_wf env \<Longrightarrow> argv_blob (exec_header env task) = replicate ARGV_BLOB_LEN 0"
  by (simp_all add: exec_header_def Let_def storage_wfD)

lemma fill_exec_argv_frame [simp]:
  "kind (fill_exec_argv env x task bprm) = kind x"
  "cgroup_id (fill_exec_argv env x task bprm) = cgroup_id x"
  "exec_path (fill_exec_argv env x task bprm) = exec_path x"
  "ex_pad2 (fill_exec_argv env x task bprm) = ex_pad2 x"
  "is_memfd (fill_exec_argv env x task bprm) = is_memfd x"
  by (simp_all add: fill_exec_argv_def Let_def split: option.split)

lemma fill_exec_argv_length [simp]:
  assumes "env_wf env" "length (argv_blob x) = ARGV_BLOB_LEN"
  shows "length (argv_blob (fill_exec_argv env x task bprm)) = ARGV_BLOB_LEN"
proof (cases "argv_area env task")
  case None
  with assms show ?thesis by (simp add: fill_exec_argv_cases Let_def)
next
  case (Some a)
  obtain start n where "a = (start, n)" by (cases a)
  with assms Some show ?thesis
    by (cases "read_bytes (umem env) start (min n ARGV_BLOB_LEN)")
      (simp_all add: fill_exec_argv_cases Let_def length_read_bytes)
qed

lemma exec_sample_of_facts [simp]:
  "kind (exec_sample_of env task bprm) = 5"
  "cgroup_id (exec_sample_of env task bprm) = current_cgroup_id env"
  by (simp_all add: exec_sample_of_def Let_def)

lemma unat_of_nat_le: "n \<le> m \<Longrightarrow> unat (of_nat n :: u32) \<le> m"
  by (simp add: unsigned_of_nat le_trans [OF take_bit_nat_less_eq_self])

lemma fill_exec_argv_len:
  "unat (argv_blob_len x) \<le> 2048 \<Longrightarrow> unat (argv_blob_len (fill_exec_argv env x task bprm)) \<le> 2048"
proof (cases "argv_area env task")
  case (Some a)
  obtain start n where a: "a = (start, n)" by (cases a)
  assume "unat (argv_blob_len x) \<le> 2048"
  with Some a show ?thesis
    by (cases "read_bytes (umem env) start (min n ARGV_BLOB_LEN)")
      (simp_all add: fill_exec_argv_cases Let_def unat_of_nat_le)
qed (simp add: fill_exec_argv_cases Let_def)

lemma exec_sample_of_len [simp]: "unat (argv_blob_len (exec_sample_of env task bprm)) \<le> 2048"
  by (simp add: exec_sample_of_def Let_def fill_exec_argv_len)

lemma exec_sample_of_wf [simp]:
  assumes "env_wf env"
  shows "sample_wf (ExecSample (exec_sample_of env task bprm))"
  using assms
  by (simp add: exec_sample_of_def Let_def length_read_into length_probe_read_kernel_str)

interpretation process_fork: observer_hook handle_sched_process_fork 0
  by (rule observer_hookI)
    (auto simp: handle_sched_process_fork_def kind_ok_def
      intro!: gated_form.pass gated_form_reserve_now sample_body_plain)

interpretation process_exec: observer_hook handle_sched_process_exec 0
  by (rule observer_hookI)
    (auto simp: handle_sched_process_exec_def kind_ok_def simp del: sample_wf.simps
      intro!: gated_form.pass gated_form_reserve_now sample_body_plain)

section \<open>What an exec record reports\<close>

lemma exec_path_string:
  assumes "env_wf env" "BPF_CORE_READ env h_binprm bprm bprm_filename = p" "p \<noteq> NULL"
    and "bpf_probe_read_kernel_str env EXEC_PATH_LEN p = Some (str @ [0])" "0 \<notin> set str"
  shows "c_string (exec_path (exec_sample_of env task bprm)) = str"
  using assms by (simp add: exec_sample_of_def Let_def read_into_def blit_0)

lemma exec_path_none:
  assumes "env_wf env" "BPF_CORE_READ env h_binprm bprm bprm_filename = p" "p = NULL"
  shows "c_string (exec_path (exec_sample_of env task bprm)) = []"
  using assms by (simp add: exec_sample_of_def Let_def c_string_def)

lemma exec_path_name:
  assumes "env_wf env" "BPF_CORE_READ env h_binprm bprm bprm_filename = p" "p \<noteq> NULL"
    and "read_bytes (kmem env) p (Suc (length name)) = Some (name @ [0])" "0 \<notin> set name"
  shows "c_string (exec_path (exec_sample_of env task bprm)) = take 511 name"
proof (rule exec_path_string [OF assms(1-3)])
  show "bpf_probe_read_kernel_str env EXEC_PATH_LEN p = Some (take 511 name @ [0])"
    using read_str_cut [OF assms(4,5), of EXEC_PATH_LEN] by (simp add: bpf_probe_read_kernel_str_def)
  show "0 \<notin> set (take 511 name)" using assms(5) by (meson in_set_takeD)
qed

definition memfd_backed :: "kenv \<Rightarrow> ptr \<Rightarrow> bool" where
  "memfd_backed env bprm \<longleftrightarrow>
     (let file = BPF_CORE_READ env h_binprm bprm bprm_file;
          name = BPF_CORE_READ env h_dentry (BPF_CORE_READ env h_file file f_path_dentry) d_name
      in bprm \<noteq> NULL \<and>
         BPF_CORE_READ env h_super
           (BPF_CORE_READ env h_inode (BPF_CORE_READ env h_file file f_inode) i_sb) s_magic = TMPFS_MAGIC \<and>
         name \<noteq> NULL \<and> bpf_probe_read_kernel env 6 name = Some (c_lit ''memfd:''))"

lemma six_bytes_eq:
  assumes "length bs = 6"
  shows "bs = [a, b, c, d, e, f] \<longleftrightarrow>
    bs ! 0 = a \<and> bs ! 1 = b \<and> bs ! 2 = c \<and> bs ! 3 = d \<and> bs ! 4 = e \<and> bs ! 5 = f"
  using assms by (auto simp: length_Suc_conv eval_nat_numeral)

lemma is_memfd_backed_exec_iff: "is_memfd_backed_exec env bprm \<noteq> 0 \<longleftrightarrow> memfd_backed env bprm"
proof (cases "bpf_probe_read_kernel env 6 (BPF_CORE_READ env h_dentry (BPF_CORE_READ env h_file
    (BPF_CORE_READ env h_binprm bprm bprm_file) f_path_dentry) d_name)")
  case None
  then show ?thesis by (simp add: is_memfd_backed_exec_def memfd_backed_def Let_def)
next
  case (Some bs)
  have "bs = c_lit ''memfd:'' \<longleftrightarrow> bs ! 0 = 0x6D \<and> bs ! 1 = 0x65 \<and> bs ! 2 = 0x6D \<and>
      bs ! 3 = 0x66 \<and> bs ! 4 = 0x64 \<and> bs ! 5 = 0x3A"
    using six_bytes_eq [OF length_probe_read_kernel [OF Some]] by (simp add: c_lit_def)
  with Some show ?thesis
    by (simp add: is_memfd_backed_exec_def memfd_backed_def Let_def u8_of_bool_def)
qed

lemma fill_exec_argv_report:
  assumes "env_wf env" "argv_blob x = replicate ARGV_BLOB_LEN 0" "argv_truncated x = 0"
    "argv_faulted x = 0" "argv_blob_len x = 0"
  shows "(let y = fill_exec_argv env x task bprm in
      (cBytes (argv_blob y) (argv_blob_len y), argv_truncated y \<noteq> 0, argv_faulted y \<noteq> 0)) =
    (case argv_report env task of (blob, longer, faulted) \<Rightarrow> (Some blob, longer, faulted))"
proof (cases "argv_area env task")
  case None
  with assms show ?thesis by (simp add: fill_exec_argv_cases argv_report_def cBytes_def Let_def)
next
  case (Some a)
  obtain start n where a: "a = (start, n)" by (cases a)
  show ?thesis
  proof (cases "read_bytes (umem env) start (min n ARGV_BLOB_LEN)")
    case None
    with Some a assms show ?thesis
      by (simp add: fill_exec_argv_cases argv_report_def cBytes_def Let_def)
  next
    case read: (Some bs)
    have "cBytes (blit 0 bs (argv_blob x)) (of_nat (min n ARGV_BLOB_LEN)) = Some bs"
      unfolding blit_0 using length_read_bytes [OF read]
      by (intro cBytes_prefix) simp_all
    with Some a read assms show ?thesis
      by (simp add: fill_exec_argv_cases argv_report_def Let_def)
  qed
qed

lemma exec_sample_argv:
  assumes "env_wf env" "exec_sample_of env task bprm = x"
  shows "(cBytes (argv_blob x) (argv_blob_len x), argv_truncated x \<noteq> 0, argv_faulted x \<noteq> 0) =
      (case argv_report env task of (blob, longer, faulted) \<Rightarrow> (Some blob, longer, faulted))"
    "is_memfd x \<noteq> 0 \<longleftrightarrow> memfd_backed env bprm"
    "bprm \<noteq> NULL \<Longrightarrow> argc x = BPF_CORE_READ env h_binprm bprm bprm_argc"
proof -
  let ?x2 = "(let h = exec_header env task;
       filename = BPF_CORE_READ env h_binprm bprm bprm_filename in
     (if filename \<noteq> NULL then h\<lparr>exec_path := read_into env EXEC_PATH_LEN
         (bpf_probe_read_kernel_str env EXEC_PATH_LEN filename) 0 (exec_path h)\<rparr> else h)
     \<lparr>is_memfd := is_memfd_backed_exec env bprm\<rparr>)"
  have x: "x = fill_exec_argv env ?x2 task bprm"
    using assms(2) by (simp add: exec_sample_of_def Let_def)
  show "(cBytes (argv_blob x) (argv_blob_len x), argv_truncated x \<noteq> 0, argv_faulted x \<noteq> 0) =
      (case argv_report env task of (blob, longer, faulted) \<Rightarrow> (Some blob, longer, faulted))"
    using fill_exec_argv_report [OF assms(1), of ?x2 task bprm] assms(1)
    unfolding x by (simp add: Let_def)
  show "is_memfd x \<noteq> 0 \<longleftrightarrow> memfd_backed env bprm"
    unfolding x by (simp add: Let_def is_memfd_backed_exec_iff)
  show "argc x = BPF_CORE_READ env h_binprm bprm bprm_argc" if "bprm \<noteq> NULL"
    using that unfolding x by (simp add: fill_exec_argv_cases Let_def split: option.split prod.split)
qed

text \<open>
  C7: An exec record reports the program that was started.  The argument blob userspace extracts is
  the argument area of the new program up to 2,048 bytes, and its two flags say whether the area is
  longer and whether it could not be read.  The executable path is the first 511 bytes of the
  NUL-terminated file name in the kernel's memory: a name of up to 511 bytes is reported whole, a
  longer one is cut, and no flag of the sample says so; without a file name the path is empty.  The
  memfd flag is set exactly for a tmpfs file whose name starts with \<open>memfd:\<close>.
\<close>

theorem exec_record_exact:
  assumes "env_wf env" "exec_sample_of env task bprm = x" "BPF_CORE_READ env h_binprm bprm bprm_filename = p"
  shows "(cBytes (argv_blob x) (argv_blob_len x), argv_truncated x \<noteq> 0, argv_faulted x \<noteq> 0) =
           (case argv_report env task of (blob, longer, faulted) \<Rightarrow> (Some blob, longer, faulted)) \<and>
         (p = NULL \<longrightarrow> c_string (exec_path x) = []) \<and>
         (\<forall>name. p \<noteq> NULL \<longrightarrow> read_bytes (kmem env) p (Suc (length name)) = Some (name @ [0]) \<longrightarrow> 0 \<notin> set name \<longrightarrow>
            c_string (exec_path x) = take 511 name) \<and>
         (is_memfd x \<noteq> 0 \<longleftrightarrow> memfd_backed env bprm)"
  using exec_sample_argv(1,2) [OF assms(1,2)] exec_path_name [OF assms(1,3)] exec_path_none [OF assms(1,3)] assms(2)
  by blast

text \<open>An exec of \<open>/bin/ls -l\<close>.\<close>

definition ls_env :: kenv where
  "ls_env = quiet_env\<lparr>umem := memory_at 5000 [0x6C, 0x73, 0, 0x2D, 0x6C],
     kmem := memory_at 6000 (c_lit ''/bin/ls'' @ [0]),
     heap := empty_heap\<lparr>
       h_task := [1 \<mapsto> \<lparr>t_pid = 9, t_tgid = 9, t_start_boottime = 5, t_group_leader = 1, t_mm = 2,
                          t_fs = NULL, t_cgroups = NULL\<rparr>],
       h_mm := [2 \<mapsto> \<lparr>arg_start = 5000, arg_end = 5005\<rparr>],
       h_binprm := [3 \<mapsto> \<lparr>bprm_argc = 2, bprm_file = NULL, bprm_filename = 6000\<rparr>]\<rparr>\<rparr>"

lemma ls_env_wf [simp]: "env_wf ls_env"
  by (simp add: ls_env_def)

lemma ls_argv: "argv_report ls_env 1 = ([0x6C, 0x73, 0, 0x2D, 0x6C], False, False)"
proof -
  have "argv_area ls_env 1 = Some (5000, 5)"
    by (simp add: argv_area_def ls_env_def)
  moreover have "read_bytes (umem ls_env) 5000 5 = Some [0x6C, 0x73, 0, 0x2D, 0x6C]"
    using read_bytes_memory_at [of 5 "[0x6C, 0x73, 0, 0x2D, 0x6C]" 5000] by (simp add: ls_env_def)
  ultimately show ?thesis by (simp add: argv_report_def)
qed

lemma ls_filename:
  "BPF_CORE_READ ls_env h_binprm 3 bprm_filename = 6000"
  "bpf_probe_read_kernel_str ls_env EXEC_PATH_LEN 6000 = Some (c_lit ''/bin/ls'' @ [0])"
  using read_str_memory_at [of "c_lit ''/bin/ls''" 512 6000]
  by (simp_all add: ls_env_def bpf_probe_read_kernel_str_def c_lit_def)

lemma ls_filename_bytes: "read_bytes (kmem ls_env) 6000 (Suc (length (c_lit ''/bin/ls''))) = Some (c_lit ''/bin/ls'' @ [0])"
proof -
  have "Suc (length (c_lit ''/bin/ls'')) = length (c_lit ''/bin/ls'' @ [0])" by simp
  then show ?thesis
    using read_bytes_memory_at [OF order_refl, of "c_lit ''/bin/ls'' @ [0]" 6000]
    by (simp only: ls_env_def) (simp add: c_lit_def del: read_bytes.simps)
qed

theorem exec_record_exact_witness:
  "cBytes (argv_blob (exec_sample_of ls_env 1 3)) (argv_blob_len (exec_sample_of ls_env 1 3)) =
     Some [0x6C, 0x73, 0, 0x2D, 0x6C] \<and>
   c_string (exec_path (exec_sample_of ls_env 1 3)) = c_lit ''/bin/ls''"
proof -
  note exact = exec_record_exact [of ls_env 1 3, OF ls_env_wf refl ls_filename(1)]
  have name: "(6000 :: ptr) \<noteq> NULL" "0 \<notin> set (c_lit ''/bin/ls'')" by (simp_all add: c_lit_def)
  have "c_string (exec_path (exec_sample_of ls_env 1 3)) = take 511 (c_lit ''/bin/ls'')"
    using exact name ls_filename_bytes by blast
  moreover have "cBytes (argv_blob (exec_sample_of ls_env 1 3)) (argv_blob_len (exec_sample_of ls_env 1 3)) =
      Some [0x6C, 0x73, 0, 0x2D, 0x6C]"
    using conjunct1 [OF exact] ls_argv by simp
  ultimately show ?thesis by (simp add: c_lit_def)
qed

end
