(* ===== verification/File_Hooks.thy ===== *)
theory File_Hooks
  imports Process_Hooks Path_Helpers
begin

text \<open>
  The file hooks of \<open>file_hooks.bpf.h\<close>: opens with the \<open>bpf_d_path\<close> result, removals, renames
  and links with paths from the dentry walk. Every hook is an observer in the sense of
  \<open>Hook_Contract\<close>; the properties say which paths a rename reports and how an open classifies
  its access mode.
\<close>

definition OPEN_FLAG_ACCMODE :: u32 where [simp]: "OPEN_FLAG_ACCMODE = 3"
definition OPEN_FLAG_RDONLY :: u32 where [simp]: "OPEN_FLAG_RDONLY = 0"
definition OPEN_FLAG_WRONLY :: u32 where [simp]: "OPEN_FLAG_WRONLY = 1"
definition OPEN_FLAG_RDWR :: u32 where [simp]: "OPEN_FLAG_RDWR = 2"

unbundle bit_operations_syntax

section \<open>Operations\<close>

definition file_is_write :: "u32 \<Rightarrow> bool" where
  "file_is_write flags =
     (let mode = flags AND OPEN_FLAG_ACCMODE in
      if mode = OPEN_FLAG_WRONLY then True else if mode = OPEN_FLAG_RDWR then True else False)"

definition file_is_read :: "u32 \<Rightarrow> bool" where
  "file_is_read flags =
     (let mode = flags AND OPEN_FLAG_ACCMODE in
      if mode = OPEN_FLAG_RDONLY then True else if mode = OPEN_FLAG_RDWR then True else False)"

definition file_open_sample_of :: "kenv \<Rightarrow> path_scratch option \<Rightarrow> u32 \<Rightarrow> file_open_sample" where
  "file_open_sample_of env scratch flags =
     (let x = st_file_open (storage env);
          x1 = SET_TASK_HEADER env (current_cgroup_id env)
            (x\<lparr>kind := kind_value SAMPLE_KIND_FILE_OPEN, is_write := 0, is_read := 0,
               fo_path_truncated := 0, fo_pad0 := 0\<rparr>);
          x2 = x1\<lparr>fo_flags := flags, is_write := u8_of_bool (file_is_write flags),
                  is_read := u8_of_bool (file_is_read flags)\<rparr>
      in case scratch of
           Some sc \<Rightarrow> x2\<lparr>fo_path := blit 0 (take FILE_PATH_LEN (ps_buf sc)) (fo_path x2)\<rparr>
         | None \<Rightarrow> x2\<lparr>fo_path := zero_path_bytes (fo_path x2), fo_path_truncated := 1\<rparr>)"

definition handle_security_file_open :: "kenv \<Rightarrow> ptr \<Rightarrow> bpf_state \<Rightarrow> int \<times> bpf_state" where
  "handle_security_file_open env file s =
     (if file = NULL \<or> cgroup_is_tracked s (current_cgroup_id env) = 0 then (0, s)
      else
        (case copy_bpf_d_path_to_scratch env (BPF_CORE_READ env h_file file f_path) s of
           (scratch, s1) \<Rightarrow>
             (let flags = BPF_CORE_READ env h_file file f_flags in
              RESERVE_SAMPLE env SAMPLE_KIND_FILE_OPEN 0
                (\<lambda>s2. (0, bpf_ringbuf_submit (FileOpenSample (file_open_sample_of env scratch flags)) s2))
                s1)))"

definition file_remove_header :: "kenv \<Rightarrow> u8 \<Rightarrow> file_remove_sample" where
  "file_remove_header env folder =
     (SET_TASK_HEADER env (current_cgroup_id env)
        ((st_file_remove (storage env))
           \<lparr>kind := kind_value SAMPLE_KIND_FILE_REMOVE, is_folder := folder, fr_path_truncated := 0,
            fr_path_offset := 0\<rparr>))\<lparr>fr_pad := 0\<rparr>"

definition submit_file_remove :: "kenv \<Rightarrow> ptr \<Rightarrow> u8 \<Rightarrow> bpf_state \<Rightarrow> int \<times> bpf_state" where
  "submit_file_remove env dentry folder s =
     (if dentry = NULL \<or> cgroup_is_tracked s (current_cgroup_id env) = 0 then (0, s)
      else case percpu_lookup env (path_scratch s) 0 of
        None \<Rightarrow> (0, s)
      | Some _ \<Rightarrow>
          RESERVE_SAMPLE env SAMPLE_KIND_FILE_REMOVE 0
            (\<lambda>s2. let x = file_remove_header env folder in
               case copy_dentry_fallback_path_to_sample env (fr_path x) dentry s2 of
                 (cp, s3) \<Rightarrow>
                   (0, bpf_ringbuf_submit (FileRemoveSample
                         (x\<lparr>fr_path := cp_path cp, fr_path_offset := cp_offset cp,
                            fr_path_truncated := cp_truncated cp\<rparr>)) s3))
            s)"

definition handle_security_inode_unlink :: "kenv \<Rightarrow> ptr \<times> ptr \<Rightarrow> bpf_state \<Rightarrow> int \<times> bpf_state" where
  "handle_security_inode_unlink env = (\<lambda>(dir, dentry) s. (0, snd (submit_file_remove env dentry 0 s)))"

definition handle_security_inode_rmdir :: "kenv \<Rightarrow> ptr \<times> ptr \<Rightarrow> bpf_state \<Rightarrow> int \<times> bpf_state" where
  "handle_security_inode_rmdir env = (\<lambda>(dir, dentry) s. (0, snd (submit_file_remove env dentry 1 s)))"

definition file_move_header :: "kenv \<Rightarrow> file_move_sample" where
  "file_move_header env =
     (SET_TASK_HEADER env (current_cgroup_id env)
        ((st_file_move (storage env))
           \<lparr>kind := kind_value SAMPLE_KIND_FILE_MOVE, from_truncated := 0, to_truncated := 0,
            from_offset := 0, to_offset := 0, fm_pad0 := 0, fm_pad1 := 0\<rparr>))\<lparr>fm_pad2 := 0\<rparr>"

definition file_move_sample_of :: "kenv \<Rightarrow> captured_path \<Rightarrow> captured_path \<Rightarrow> file_move_sample" where
  "file_move_sample_of env src dst =
     (file_move_header env)
       \<lparr>from_path := cp_path src, from_offset := cp_offset src, from_truncated := cp_truncated src,
        to_path := cp_path dst, to_offset := cp_offset dst, to_truncated := cp_truncated dst\<rparr>"

definition handle_security_inode_rename ::
    "kenv \<Rightarrow> ptr \<times> ptr \<times> ptr \<times> ptr \<times> u32 \<Rightarrow> bpf_state \<Rightarrow> int \<times> bpf_state" where
  "handle_security_inode_rename env = (\<lambda>(old_dir, old_dentry, new_dir, new_dentry, flags) s.
     if old_dentry = NULL \<or> new_dentry = NULL \<or> cgroup_is_tracked s (current_cgroup_id env) = 0 then (0, s)
     else case percpu_lookup env (path_scratch s) 0 of
       None \<Rightarrow> (0, s)
     | Some _ \<Rightarrow>
         RESERVE_SAMPLE env SAMPLE_KIND_FILE_MOVE 0
           (\<lambda>s2. case copy_dentry_fallback_path_to_sample env (from_path (file_move_header env)) old_dentry s2 of
              (cp, s3) \<Rightarrow>
                (case copy_dentry_fallback_path_to_sample env (to_path (file_move_header env)) new_dentry s3 of
                   (cp2, s4) \<Rightarrow>
                     (0, bpf_ringbuf_submit (FileMoveSample (file_move_sample_of env cp cp2)) s4)))
           s)"

definition file_link_header :: "kenv \<Rightarrow> u8 \<Rightarrow> u8 \<Rightarrow> file_link_sample" where
  "file_link_header env hard soft =
     (SET_TASK_HEADER env (current_cgroup_id env)
        ((st_file_link (storage env))
           \<lparr>kind := kind_value SAMPLE_KIND_FILE_LINK, is_hardlink := hard, is_symlink := soft,
            created_truncated := 0, existing_truncated := 0, created_offset := 0,
            existing_offset := 0, fl_pad0 := 0\<rparr>))\<lparr>fl_pad1 := 0\<rparr>"

definition hard_link_sample_of :: "kenv \<Rightarrow> captured_path \<Rightarrow> captured_path \<Rightarrow> file_link_sample" where
  "hard_link_sample_of env created existing =
     (file_link_header env 1 0)
       \<lparr>created_path := cp_path created, created_offset := cp_offset created,
        created_truncated := cp_truncated created,
        existing_path := cp_path existing, existing_offset := cp_offset existing,
        existing_truncated := cp_truncated existing\<rparr>"

definition handle_security_inode_link :: "kenv \<Rightarrow> ptr \<times> ptr \<times> ptr \<Rightarrow> bpf_state \<Rightarrow> int \<times> bpf_state" where
  "handle_security_inode_link env = (\<lambda>(old_dentry, dir, new_dentry) s.
     if old_dentry = NULL \<or> new_dentry = NULL \<or> cgroup_is_tracked s (current_cgroup_id env) = 0 then (0, s)
     else case percpu_lookup env (path_scratch s) 0 of
       None \<Rightarrow> (0, s)
     | Some _ \<Rightarrow>
         RESERVE_SAMPLE env SAMPLE_KIND_FILE_LINK 0
           (\<lambda>s2. case copy_dentry_fallback_path_to_sample env (created_path (file_link_header env 1 0)) new_dentry s2 of
              (cp, s3) \<Rightarrow>
                (case copy_dentry_fallback_path_to_sample env (existing_path (file_link_header env 1 0)) old_dentry s3 of
                   (cp2, s4) \<Rightarrow>
                     (0, bpf_ringbuf_submit (FileLinkSample (hard_link_sample_of env cp cp2)) s4)))
           s)"

text \<open>\<open>n \<le> 0\<close> after \<open>bpf_probe_read_kernel_str\<close> is its failure: a string with its NUL has at
  least one byte.\<close>

definition symlink_sample_of :: "kenv \<Rightarrow> ptr \<Rightarrow> captured_path \<Rightarrow> file_link_sample" where
  "symlink_sample_of env old_name cp =
     (let x = (file_link_header env 0 1)
            \<lparr>created_path := cp_path cp, created_offset := cp_offset cp, created_truncated := cp_truncated cp\<rparr>;
          r = bpf_probe_read_kernel_str env FILE_PATH_LEN old_name;
          x1 = x\<lparr>existing_path := read_into env FILE_PATH_LEN r 0 (zero_path_bytes (existing_path x))\<rparr>
      in case r of
           None \<Rightarrow> x1\<lparr>existing_truncated := 1\<rparr>
         | Some str \<Rightarrow> if length str = 0 then x1\<lparr>existing_truncated := 1\<rparr> else x1)"

definition handle_security_inode_symlink :: "kenv \<Rightarrow> ptr \<times> ptr \<times> ptr \<Rightarrow> bpf_state \<Rightarrow> int \<times> bpf_state" where
  "handle_security_inode_symlink env = (\<lambda>(dir, dentry, old_name) s.
     if dentry = NULL \<or> old_name = NULL \<or> cgroup_is_tracked s (current_cgroup_id env) = 0 then (0, s)
     else case percpu_lookup env (path_scratch s) 0 of
       None \<Rightarrow> (0, s)
     | Some _ \<Rightarrow>
         RESERVE_SAMPLE env SAMPLE_KIND_FILE_LINK 0
           (\<lambda>s2. case copy_dentry_fallback_path_to_sample env (created_path (file_link_header env 0 1)) dentry s2 of
              (cp, s3) \<Rightarrow> (0, bpf_ringbuf_submit (FileLinkSample (symlink_sample_of env old_name cp)) s3))
           s)"

section \<open>Samples\<close>

lemma header_facts [simp]:
  "kind (file_remove_header env f) = 9" "cgroup_id (file_remove_header env f) = current_cgroup_id env"
  "env_wf env \<Longrightarrow> length (fr_path (file_remove_header env f)) = 1024"
  "kind (file_move_header env) = 10" "cgroup_id (file_move_header env) = current_cgroup_id env"
  "env_wf env \<Longrightarrow> length (from_path (file_move_header env)) = 1024"
  "env_wf env \<Longrightarrow> length (to_path (file_move_header env)) = 1024"
  "kind (file_link_header env h y) = 11" "cgroup_id (file_link_header env h y) = current_cgroup_id env"
  "env_wf env \<Longrightarrow> length (created_path (file_link_header env h y)) = 1024"
  "env_wf env \<Longrightarrow> length (existing_path (file_link_header env h y)) = 1024"
  by (simp_all add: file_remove_header_def file_move_header_def file_link_header_def SET_TASK_HEADER_def
      storage_wfD)

lemma file_open_sample_facts [simp]:
  "kind (file_open_sample_of env scratch flags) = 8"
  "cgroup_id (file_open_sample_of env scratch flags) = current_cgroup_id env"
  by (simp_all add: file_open_sample_of_def Let_def SET_TASK_HEADER_def split: option.split)

lemma file_open_sample_wf:
  assumes "env_wf env" "\<And>v. scratch = Some v \<Longrightarrow> length (ps_buf v) = FILE_PATH_LEN + DENTRY_NAME_BUF_LEN"
  shows "sample_wf (FileOpenSample (file_open_sample_of env scratch flags))"
  using assms
  by (cases scratch) (simp_all add: file_open_sample_of_def Let_def SET_TASK_HEADER_def storage_wfD)

lemma file_move_sample_facts [simp]:
  "kind (file_move_sample_of env a b) = 10" "cgroup_id (file_move_sample_of env a b) = current_cgroup_id env"
  by (simp_all add: file_move_sample_of_def)

lemma hard_link_sample_facts [simp]:
  "kind (hard_link_sample_of env a b) = 11" "cgroup_id (hard_link_sample_of env a b) = current_cgroup_id env"
  by (simp_all add: hard_link_sample_of_def)

lemma symlink_sample_facts [simp]:
  "kind (symlink_sample_of env p a) = 11" "cgroup_id (symlink_sample_of env p a) = current_cgroup_id env"
  "created_path (symlink_sample_of env p a) = cp_path a"
  by (simp_all add: symlink_sample_of_def Let_def split: option.split)

lemma symlink_sample_existing_length:
  "env_wf env \<Longrightarrow> length (existing_path (symlink_sample_of env p a)) = 1024"
  using length_probe_read_kernel_str [of env 1024 p]
  by (cases "bpf_probe_read_kernel_str env 1024 p")
    (simp_all add: symlink_sample_of_def Let_def read_into_def)

section \<open>The hooks observe\<close>

interpretation file_open: observer_hook handle_security_file_open 0
proof (rule observer_hookI)
  fix env :: kenv and f :: ptr and s :: bpf_state
  obtain scratch s1 where d: "copy_bpf_d_path_to_scratch env (BPF_CORE_READ env h_file f f_path) s = (scratch, s1)"
    by fastforce
  let ?x = "FileOpenSample (file_open_sample_of env scratch (BPF_CORE_READ env h_file f f_flags))"
  note frame = copy_bpf_d_path_frame [OF d]
  show "gated_form env 0 s (handle_security_file_open env f s)"
  proof (cases "f = NULL \<or> tracked_cgroups s (current_cgroup_id env) = None")
    case True
    then show ?thesis by (auto simp: handle_security_file_open_def intro: gated_form.pass)
  next
    case False
    have "env_wf env \<and> state_wf s \<Longrightarrow> sample_wf ?x"
      using frame(2) by (intro file_open_sample_wf) auto
    then have "sample_body env (env_wf env \<and> state_wf s) 0 (\<lambda>s2. (0, bpf_ringbuf_submit ?x s2))"
      by (intro sample_body_plain) (simp_all add: kind_ok_def del: sample_wf.simps)
    with False d frame show ?thesis
      by (auto simp: handle_security_file_open_def intro!: gated_form.reserve)
  qed
qed

lemma submit_file_remove_gated: "gated_form env 0 s (submit_file_remove env d f s)"
  by (auto simp: submit_file_remove_def kind_ok_def Let_def split: option.split
      intro!: gated_form.pass gated_form_reserve_now sample_body_capture)

lemma submit_file_remove_returns: "(0, snd (submit_file_remove env d f s)) = submit_file_remove env d f s"
  using gated_form_contract [OF submit_file_remove_gated [of env s d f]] by (simp add: prod_eq_iff)

interpretation inode_unlink: observer_hook handle_security_inode_unlink 0
  by (rule observer_hookI)
    (auto simp: handle_security_inode_unlink_def submit_file_remove_returns submit_file_remove_gated)

interpretation inode_rmdir: observer_hook handle_security_inode_rmdir 0
  by (rule observer_hookI)
    (auto simp: handle_security_inode_rmdir_def submit_file_remove_returns submit_file_remove_gated)

interpretation inode_rename: observer_hook handle_security_inode_rename 0
  by (rule observer_hookI)
    (auto simp: handle_security_inode_rename_def kind_ok_def file_move_sample_of_def split: option.split
      intro!: gated_form.pass gated_form_reserve_now sample_body_capture2)

interpretation inode_link: observer_hook handle_security_inode_link 0
  by (rule observer_hookI)
    (auto simp: handle_security_inode_link_def kind_ok_def hard_link_sample_of_def split: option.split
      intro!: gated_form.pass gated_form_reserve_now sample_body_capture2)

interpretation inode_symlink: observer_hook handle_security_inode_symlink 0
  by (rule observer_hookI)
    (auto simp: handle_security_inode_symlink_def kind_ok_def symlink_sample_existing_length split: option.split
      intro!: gated_form.pass gated_form_reserve_now sample_body_capture)

section \<open>Properties\<close>

text \<open>
  C8: A rename reports both paths exactly although the two walks share one scratch buffer: when
  the rename is observed and both dentries have a path within the bounds, the record userspace
  reads holds the old path and the new path, neither marked as truncated.
\<close>

theorem rename_paths_exact:
  assumes wf: "env_wf env" "state_wf s"
    and observed: "tracked_cgroups s (current_cgroup_id env) \<noteq> None"
      "ringbuf_space env (sizeof_sample SAMPLE_KIND_FILE_MOVE)" "percpu_lookup env (path_scratch s) 0 \<noteq> None"
    and old: "old \<noteq> NULL" "dentry_components env DENTRY_WALK_DEPTH old = Some old_comps"
      "length (join_components old_comps) < FILE_PATH_LEN"
    and new: "new \<noteq> NULL" "dentry_components env DENTRY_WALK_DEPTH new = Some new_comps"
      "length (join_components new_comps) < FILE_PATH_LEN"
  shows "\<exists>x. events (snd (handle_security_inode_rename env (od, old, nd, new, flags) s)) =
             events s @ [FileMoveSample x] \<and>
           from_truncated x = 0 \<and> pathFromBuffer (from_path x) (from_offset x) = path_string old_comps \<and>
           to_truncated x = 0 \<and> pathFromBuffer (to_path x) (to_offset x) = path_string new_comps"
proof -
  let ?s2 = "s\<lparr>reserved := reserved s + 1\<rparr>"
  obtain cp s3 where r: "copy_dentry_fallback_path_to_sample env (from_path (file_move_header env)) old ?s2 = (cp, s3)"
    by fastforce
  obtain cp2 s4 where r2: "copy_dentry_fallback_path_to_sample env (to_path (file_move_header env)) new s3 = (cp2, s4)"
    by fastforce
  have len: "length (from_path (file_move_header env)) = FILE_PATH_LEN"
      "length (to_path (file_move_header env)) = FILE_PATH_LEN" using wf(1) by simp_all
  have s2: "state_wf ?s2" "percpu_lookup env (path_scratch ?s2) 0 \<noteq> None" using wf(2) observed(3) by simp_all
  note w1 = copy_dentry_fallback_wf [OF wf(1) s2(1) len(1) r]
  have slot: "percpu_lookup env (path_scratch s3) 0 \<noteq> None" using copy_dentry_keeps_slot [OF r] s2(2) by simp
  have p1: "cp_truncated cp = 0 \<and> pathFromBuffer (cp_path cp) (cp_offset cp) = path_string old_comps"
    using capture_path [OF wf(1) s2(1) old(1) s2(2) len(1) r old(2,3)] .
  have p2: "cp_truncated cp2 = 0 \<and> pathFromBuffer (cp_path cp2) (cp_offset cp2) = path_string new_comps"
    using capture_path [OF wf(1) w1(1) new(1) slot len(2) r2 new(2,3)] .
  have "events s4 = events s"
    using w1(4) copy_dentry_fallback_wf(4) [OF wf(1) w1(1) len(2) r2] by (simp add: scratch_only_def)
  moreover have "handle_security_inode_rename env (od, old, nd, new, flags) s =
      (0, bpf_ringbuf_submit (FileMoveSample (file_move_sample_of env cp cp2)) s4)"
    using observed old(1) new(1) r r2
    by (auto simp: handle_security_inode_rename_def RESERVE_SAMPLE_cases)
  ultimately show ?thesis using p1 p2
    by (auto simp: bpf_ringbuf_submit_def file_move_sample_of_def)
qed

lemma access_mode: "flags AND 3 = of_nat (unat flags mod 4)" for flags :: u32
proof -
  have "flags AND 3 = take_bit 2 flags" by (simp add: take_bit_eq_mask mask_numeral)
  moreover have "unat (take_bit 2 flags) = unat flags mod 4"
    by (simp only: unsigned_take_bit_eq) (simp add: take_bit_eq_mod)
  moreover have "of_nat (unat (take_bit 2 flags)) = take_bit 2 flags" by simp
  ultimately show ?thesis by metis
qed

lemma access_mode_cases:
  fixes flags :: u32
  obtains "unat flags mod 4 = 0" "flags AND 3 = 0" | "unat flags mod 4 = 1" "flags AND 3 = 1"
  | "unat flags mod 4 = 2" "flags AND 3 = 2" | "unat flags mod 4 = 3" "flags AND 3 = 3"
proof -
  have "unat flags mod 4 < 4" by simp
  then consider "unat flags mod 4 = 0" | "unat flags mod 4 = 1" | "unat flags mod 4 = 2" | "unat flags mod 4 = 3"
    by linarith
  then show thesis by cases (use that access_mode [of flags] in auto)
qed

lemma file_access_modes:
  "file_is_write flags \<longleftrightarrow> unat flags mod 4 \<in> {1, 2}" "file_is_read flags \<longleftrightarrow> unat flags mod 4 \<in> {0, 2}"
  by (cases flags rule: access_mode_cases; simp add: file_is_write_def file_is_read_def)+

lemma file_open_sample_fields:
  "fo_flags (file_open_sample_of env scratch flags) = flags"
  "is_write (file_open_sample_of env scratch flags) = u8_of_bool (file_is_write flags)"
  "is_read (file_open_sample_of env scratch flags) = u8_of_bool (file_is_read flags)"
  "fo_path_truncated (file_open_sample_of env scratch flags) = u8_of_bool (scratch = None)"
  "env_wf env \<Longrightarrow> length (ps_buf v) = FILE_PATH_LEN + DENTRY_NAME_BUF_LEN \<Longrightarrow>
     fo_path (file_open_sample_of env (Some v) flags) = take FILE_PATH_LEN (ps_buf v)"
  "env_wf env \<Longrightarrow> fo_path (file_open_sample_of env None flags) = replicate FILE_PATH_LEN 0"
  by (simp_all add: file_open_sample_of_def Let_def SET_TASK_HEADER_def storage_wfD u8_of_bool_def
      split: option.split)

text \<open>
  C9: An open is reported with its access mode and with exactly what \<open>bpf_d_path\<close> produced on a
  cleared buffer: a path that could not be resolved is all zero and marked as truncated, a
  resolved one carries nothing of earlier paths in the scratch slot, and the write and read
  flags are those of the two access-mode bits.
\<close>

theorem open_record_exact:
  assumes wf: "env_wf env" "state_wf s"
    and observed: "tracked_cgroups s (current_cgroup_id env) \<noteq> None" "f \<noteq> NULL"
      "ringbuf_space env (sizeof_sample SAMPLE_KIND_FILE_OPEN)" "percpu_lookup env (path_scratch s) 0 \<noteq> None"
    and path: "BPF_CORE_READ env h_file f f_path = p" "p \<noteq> NULL"
      "d_path env p (replicate FILE_PATH_LEN 0) = (n, out)"
  shows "\<exists>x. events (snd (handle_security_file_open env f s)) = events s @ [FileOpenSample x] \<and>
           fo_path x = (if n > 0 then out else replicate FILE_PATH_LEN 0) \<and>
           fo_path_truncated x = (if n > 0 then 0 else 1) \<and>
           fo_flags x = BPF_CORE_READ env h_file f f_flags \<and>
           (is_write x = 1 \<longleftrightarrow> unat (fo_flags x) mod 4 \<in> {1, 2}) \<and>
           (is_read x = 1 \<longleftrightarrow> unat (fo_flags x) mod 4 \<in> {0, 2})"
proof -
  obtain v where v: "percpu_lookup env (path_scratch s) 0 = Some v" using observed(4) by auto
  let ?scratch = "if n > 0 then Some (v\<lparr>ps_buf := out @ drop FILE_PATH_LEN (ps_buf v)\<rparr>) else None"
  let ?s1 = "s\<lparr>path_scratch := percpu_store env (path_scratch s) 0
                 (v\<lparr>ps_buf := out @ drop FILE_PATH_LEN (ps_buf v)\<rparr>)\<rparr>"
  let ?x = "file_open_sample_of env ?scratch (BPF_CORE_READ env h_file f f_flags)"
  have len: "length (ps_buf v) = 1280" using scratch_slot_wf [OF wf(2) v] by simp
  have out: "length out = 1024" using wf(1) path(3) by (metis env_wf_def snd_conv length_replicate FILE_PATH_LEN_def)
  have d: "copy_bpf_d_path_to_scratch env p s = (?scratch, ?s1)"
    using path(2,3) v len out
    by (simp add: copy_bpf_d_path_to_scratch_def zero_path_bytes_scratch Let_def blit_0)
  have run: "handle_security_file_open env f s = (0, bpf_ringbuf_submit (FileOpenSample ?x) (?s1\<lparr>reserved := reserved s + 1\<rparr>))"
    using observed path(1) by (auto simp: handle_security_file_open_def d RESERVE_SAMPLE_cases)
  have "fo_path ?x = (if n > 0 then out else replicate FILE_PATH_LEN 0)"
    using wf(1) len out by (simp add: file_open_sample_fields)
  then show ?thesis
    by (intro exI [of _ ?x])
      (simp add: run bpf_ringbuf_submit_def file_open_sample_fields file_access_modes u8_of_bool_def)
qed

text \<open>Renaming and opening \<open>/tmp\<close> in a tracked cgroup.\<close>

lemma one_tracked_facts [simp]:
  "state_wf one_tracked" "tracked_cgroups one_tracked = [7 \<mapsto> 1]" "events one_tracked = []"
  "percpu_lookup env (path_scratch one_tracked) 0 =
     Some \<lparr>ps_buf = zeros (FILE_PATH_LEN + DENTRY_NAME_BUF_LEN)\<rparr>"
  by (simp_all add: one_tracked_def)

lemma tmp_env_facts [simp]:
  "current_cgroup_id tmp_env = 7" "ringbuf_space tmp_env n" "map_update_ok tmp_env"
  by (simp_all add: tmp_env_def current_cgroup_id_def)

theorem rename_paths_exact_witness:
  "\<exists>x. events (snd (handle_security_inode_rename tmp_env (0, 2, 0, 1, 0) one_tracked)) = [FileMoveSample x] \<and>
       pathFromBuffer (from_path x) (from_offset x) = c_lit ''/tmp'' \<and>
       pathFromBuffer (to_path x) (to_offset x) = c_lit ''/''"
  using rename_paths_exact [of tmp_env one_tracked 2 "[c_lit ''tmp'']" 1 "[]" 0 0 0] tmp_components tmp_root
  by (auto simp: path_string_def c_lit_def)

definition open_env :: kenv where
  "open_env = quiet_env\<lparr>d_path := (\<lambda>_ buf. if buf = [] then (-1, buf) else (2, buf[0 := 47])),
     heap := empty_heap\<lparr>h_file := [4 \<mapsto> \<lparr>f_inode = NULL, f_path_dentry = NULL, f_path = 5, f_flags = 0x8001\<rparr>]\<rparr>\<rparr>"

lemma open_env_facts [simp]:
  "env_wf open_env" "current_cgroup_id open_env = 7" "ringbuf_space open_env n"
  "BPF_CORE_READ open_env h_file 4 f_path = 5" "BPF_CORE_READ open_env h_file 4 f_flags = 0x8001"
  "d_path open_env p (replicate 1024 0) = (2, (replicate 1024 0)[0 := 47])"
  by (simp_all add: open_env_def current_cgroup_id_def env_wf_def)

lemma open_path: "c_string ((replicate 1024 0)[0 := 47]) = [47]"
proof -
  have "replicate 1024 (0 :: u8) = 0 # replicate 1023 0" using replicate_Suc [of 1023 "0 :: u8"] by simp
  then show ?thesis by (simp add: c_string_def)
qed

theorem open_record_exact_witness:
  "\<exists>x. events (snd (handle_security_file_open open_env 4 one_tracked)) = [FileOpenSample x] \<and>
       c_string (fo_path x) = c_lit ''/'' \<and> is_write x = 1 \<and> is_read x \<noteq> 1"
  using open_record_exact [of open_env one_tracked 4 5 2 "(replicate FILE_PATH_LEN 0)[0 := 47]"]
  by (auto simp: c_lit_def open_path)

end
