(* ===== verification/Mount_Hooks.thy ===== *)
theory Mount_Hooks
  imports File_Hooks
begin

text \<open>
  The mount hooks of \<open>mount_hooks.bpf.h\<close>: which \<open>mount(2)\<close> operations are reported, the raw
  source string and the resolved target, and the \<open>move_mount\<close> hook with two resolved paths.
\<close>

unbundle bit_operations_syntax

definition AGENT_MS_REMOUNT :: u64 where "AGENT_MS_REMOUNT = 32"
definition AGENT_MS_BIND :: u64 where "AGENT_MS_BIND = 4096"
definition AGENT_MS_MOVE :: u64 where "AGENT_MS_MOVE = 8192"
definition AGENT_MS_UNBINDABLE :: u64 where "AGENT_MS_UNBINDABLE = push_bit 17 1"
definition AGENT_MS_PRIVATE :: u64 where "AGENT_MS_PRIVATE = push_bit 18 1"
definition AGENT_MS_SLAVE :: u64 where "AGENT_MS_SLAVE = push_bit 19 1"
definition AGENT_MS_SHARED :: u64 where "AGENT_MS_SHARED = push_bit 20 1"
definition AGENT_MS_PROPAGATION_MASK :: u64 where
  "AGENT_MS_PROPAGATION_MASK = AGENT_MS_UNBINDABLE OR AGENT_MS_PRIVATE OR AGENT_MS_SLAVE OR AGENT_MS_SHARED"

section \<open>Operations\<close>

definition copy_raw_mount_string_to_sample :: "kenv \<Rightarrow> ptr \<Rightarrow> bytes \<Rightarrow> captured_path" where
  "copy_raw_mount_string_to_sample env src dst =
     (let cleared = zero_path_bytes dst in
      if src = NULL then \<lparr>cp_path = cleared, cp_offset = 0, cp_truncated = 1\<rparr>
      else
        (let r = bpf_probe_read_kernel_str env FILE_PATH_LEN src;
             copied = (case r of None \<Rightarrow> -1 | Some str \<Rightarrow> int (length str));
             buf = read_into env FILE_PATH_LEN r 0 cleared
         in if copied \<le> 0 then \<lparr>cp_path = buf, cp_offset = 0, cp_truncated = 1\<rparr>
            else if copied = int FILE_PATH_LEN then \<lparr>cp_path = buf, cp_offset = 0, cp_truncated = 1\<rparr>
            else \<lparr>cp_path = buf, cp_offset = 0, cp_truncated = 0\<rparr>))"

definition mount_header :: "kenv \<Rightarrow> mount_sample" where
  "mount_header env =
     (SET_TASK_HEADER env (current_cgroup_id env)
        ((st_mount (storage env))
           \<lparr>kind := kind_value SAMPLE_KIND_MOUNT, source_truncated := 0, target_truncated := 0,
            source_offset := 0, target_offset := 0, pad_offsets := 0, mt_pad0 := 0\<rparr>))\<lparr>mt_pad1 := 0\<rparr>"

definition mount_sample_of :: "kenv \<Rightarrow> captured_path \<Rightarrow> captured_path \<Rightarrow> mount_sample" where
  "mount_sample_of env src dst =
     (mount_header env)
       \<lparr>source_path := cp_path src, source_offset := cp_offset src, source_truncated := cp_truncated src,
        target_path := cp_path dst, target_offset := cp_offset dst, target_truncated := cp_truncated dst\<rparr>"

definition handle_security_sb_mount ::
    "kenv \<Rightarrow> ptr \<times> ptr \<times> ptr \<times> u64 \<times> ptr \<Rightarrow> bpf_state \<Rightarrow> int \<times> bpf_state" where
  "handle_security_sb_mount env = (\<lambda>(dev_name, path, type, flags, data) s.
     if flags AND AGENT_MS_REMOUNT \<noteq> 0 then (0, s)
     else if flags AND AGENT_MS_BIND = 0 \<and> flags AND AGENT_MS_PROPAGATION_MASK \<noteq> 0 then (0, s)
     else if flags AND (AGENT_MS_BIND OR AGENT_MS_MOVE) = 0 then (0, s)
     else if path = NULL \<or> cgroup_is_tracked s (current_cgroup_id env) = 0 then (0, s)
     else case percpu_lookup env (path_scratch s) 0 of
       None \<Rightarrow> (0, s)
     | Some _ \<Rightarrow>
         RESERVE_SAMPLE env SAMPLE_KIND_MOUNT 0
           (\<lambda>s2. let src = copy_raw_mount_string_to_sample env dev_name (source_path (mount_header env));
                     target_dentry = BPF_CORE_READ env h_path path p_dentry
                 in case copy_dentry_fallback_path_to_sample env (target_path (mount_header env)) target_dentry s2 of
                   (cp, s3) \<Rightarrow> (0, bpf_ringbuf_submit (MountSample (mount_sample_of env src cp)) s3))
           s)"

definition handle_security_move_mount :: "kenv \<Rightarrow> ptr \<times> ptr \<Rightarrow> bpf_state \<Rightarrow> int \<times> bpf_state" where
  "handle_security_move_mount env = (\<lambda>(from_path, to_path) s.
     if from_path = NULL \<or> to_path = NULL \<or> cgroup_is_tracked s (current_cgroup_id env) = 0 then (0, s)
     else case percpu_lookup env (path_scratch s) 0 of
       None \<Rightarrow> (0, s)
     | Some _ \<Rightarrow>
         RESERVE_SAMPLE env SAMPLE_KIND_MOUNT 0
           (\<lambda>s2. case copy_dentry_fallback_path_to_sample env (source_path (mount_header env))
                        (BPF_CORE_READ env h_path from_path p_dentry) s2 of
              (cp, s3) \<Rightarrow>
                (case copy_dentry_fallback_path_to_sample env (target_path (mount_header env))
                        (BPF_CORE_READ env h_path to_path p_dentry) s3 of
                   (cp2, s4) \<Rightarrow> (0, bpf_ringbuf_submit (MountSample (mount_sample_of env cp cp2)) s4)))
           s)"

section \<open>The hooks observe\<close>

lemma mount_sample_facts [simp]:
  "env_wf env \<Longrightarrow> length (source_path (mount_header env)) = 1024"
  "env_wf env \<Longrightarrow> length (target_path (mount_header env)) = 1024"
  "kind (mount_sample_of env a b) = 14" "cgroup_id (mount_sample_of env a b) = current_cgroup_id env"
  "source_path (mount_sample_of env a b) = cp_path a" "target_path (mount_sample_of env a b) = cp_path b"
  by (simp_all add: mount_sample_of_def mount_header_def SET_TASK_HEADER_def storage_wfD)

lemma raw_mount_string_length [simp]:
  assumes "env_wf env" "length dst = FILE_PATH_LEN"
  shows "length (cp_path (copy_raw_mount_string_to_sample env src dst)) = 1024"
  using assms length_probe_read_kernel_str [of env 1024 src]
  by (cases "bpf_probe_read_kernel_str env 1024 src")
    (simp_all add: copy_raw_mount_string_to_sample_def Let_def read_into_def)

interpretation sb_mount: observer_hook handle_security_sb_mount 0
  by (rule observer_hookI)
    (auto simp: handle_security_sb_mount_def kind_ok_def Let_def split: option.split
      intro!: gated_form.pass gated_form_reserve_now sample_body_capture)

interpretation move_mount: observer_hook handle_security_move_mount 0
  by (rule observer_hookI)
    (auto simp: handle_security_move_mount_def kind_ok_def split: option.split
      intro!: gated_form.pass gated_form_reserve_now sample_body_capture2)

section \<open>Which mounts are reported\<close>

text \<open>
  The dispatch order of \<open>path_mount\<close> that the source follows: remounts before bind mounts,
  bind mounts before propagation changes, those before moves, and new mounts last.
\<close>

datatype mount_op = Mount_Remount | Mount_Bind | Mount_Propagation | Mount_Move | Mount_New

definition path_mount_dispatch :: "u64 \<Rightarrow> mount_op" where
  "path_mount_dispatch flags =
     (if bit flags 5 then Mount_Remount
      else if bit flags 12 then Mount_Bind
      else if bit flags 17 \<or> bit flags 18 \<or> bit flags 19 \<or> bit flags 20 then Mount_Propagation
      else if bit flags 13 then Mount_Move
      else Mount_New)"

lemma and_flag: "flags AND push_bit n 1 = 0 \<longleftrightarrow> \<not> bit flags n" for flags :: u64
  by (simp add: and_exp_eq_0_iff_not_bit push_bit_eq_mult)

lemma and_flags: "flags AND (a OR b) = 0 \<longleftrightarrow> flags AND a = 0 \<and> flags AND b = 0" for flags :: u64
  by (simp add: bit.conj_disj_distrib or_eq_0_iff)

lemma flag_bits:
  "flags AND AGENT_MS_REMOUNT = 0 \<longleftrightarrow> \<not> bit flags 5" "flags AND AGENT_MS_BIND = 0 \<longleftrightarrow> \<not> bit flags 12"
  "flags AND AGENT_MS_MOVE = 0 \<longleftrightarrow> \<not> bit flags 13"
  "flags AND AGENT_MS_PROPAGATION_MASK = 0 \<longleftrightarrow>
     \<not> bit flags 17 \<and> \<not> bit flags 18 \<and> \<not> bit flags 19 \<and> \<not> bit flags 20"
proof -
  have "(32 :: u64) = push_bit 5 1" "(4096 :: u64) = push_bit 12 1" "(8192 :: u64) = push_bit 13 1"
    by (simp_all add: push_bit_eq_mult)
  then show "flags AND AGENT_MS_REMOUNT = 0 \<longleftrightarrow> \<not> bit flags 5" "flags AND AGENT_MS_BIND = 0 \<longleftrightarrow> \<not> bit flags 12"
      "flags AND AGENT_MS_MOVE = 0 \<longleftrightarrow> \<not> bit flags 13"
    by (simp_all only: AGENT_MS_REMOUNT_def AGENT_MS_BIND_def AGENT_MS_MOVE_def and_flag)
  show "flags AND AGENT_MS_PROPAGATION_MASK = 0 \<longleftrightarrow>
     \<not> bit flags 17 \<and> \<not> bit flags 18 \<and> \<not> bit flags 19 \<and> \<not> bit flags 20"
    unfolding AGENT_MS_PROPAGATION_MASK_def AGENT_MS_UNBINDABLE_def AGENT_MS_PRIVATE_def
      AGENT_MS_SLAVE_def AGENT_MS_SHARED_def and_flags and_flag by blast
qed

text \<open>The three guards of the hook together are the dispatch.\<close>

lemma sb_mount_guards:
  "\<not> flags AND AGENT_MS_REMOUNT \<noteq> 0 \<and>
   \<not> (flags AND AGENT_MS_BIND = 0 \<and> flags AND AGENT_MS_PROPAGATION_MASK \<noteq> 0) \<and>
   flags AND (AGENT_MS_BIND OR AGENT_MS_MOVE) \<noteq> 0 \<longleftrightarrow>
   path_mount_dispatch flags \<in> {Mount_Bind, Mount_Move}"
  unfolding and_flags flag_bits by (auto simp: path_mount_dispatch_def)

lemma raw_mount_string:
  assumes "env_wf env" "length dst = FILE_PATH_LEN" "src \<noteq> NULL"
    and "bpf_probe_read_kernel_str env FILE_PATH_LEN src = Some (str @ [0])" "0 \<notin> set str"
  shows "cp_truncated (copy_raw_mount_string_to_sample env src dst) = (if length str = FILE_PATH_LEN - 1 then 1 else 0)"
    "pathFromBuffer (cp_path (copy_raw_mount_string_to_sample env src dst))
       (cp_offset (copy_raw_mount_string_to_sample env src dst)) = str"
proof -
  have "length str < 1024" using probe_read_kernel_str_shape [OF assms(4)] by auto
  with assms show "cp_truncated (copy_raw_mount_string_to_sample env src dst) = (if length str = FILE_PATH_LEN - 1 then 1 else 0)"
    "pathFromBuffer (cp_path (copy_raw_mount_string_to_sample env src dst))
       (cp_offset (copy_raw_mount_string_to_sample env src dst)) = str"
    by (auto simp: copy_raw_mount_string_to_sample_def Let_def read_into_def pathFromBuffer_def blit_0)
qed

text \<open>
  C10: Exactly the bind mounts and the moves of the kernel's dispatch order are reported, remounts,
  propagation changes and new mounts are not. A reported mount carries the source string as the
  caller gave it, marked as truncated when it fills the buffer, and the exact path of the target.
\<close>

theorem mount_reports_exposures:
  assumes wf: "env_wf env" "state_wf s"
    and observed: "tracked_cgroups s (current_cgroup_id env) \<noteq> None" "path \<noteq> NULL"
      "ringbuf_space env (sizeof_sample SAMPLE_KIND_MOUNT)" "percpu_lookup env (path_scratch s) 0 \<noteq> None"
    and source: "dev \<noteq> NULL" "bpf_probe_read_kernel_str env FILE_PATH_LEN dev = Some (str @ [0])" "0 \<notin> set str"
    and target: "BPF_CORE_READ env h_path path p_dentry = d" "d \<noteq> NULL"
      "dentry_components env DENTRY_WALK_DEPTH d = Some comps" "length (join_components comps) < FILE_PATH_LEN"
  shows "if path_mount_dispatch flags \<in> {Mount_Bind, Mount_Move}
    then \<exists>x. events (snd (handle_security_sb_mount env (dev, path, ty, flags, dat) s)) = events s @ [MountSample x] \<and>
           pathFromBuffer (source_path x) (source_offset x) = str \<and>
           (source_truncated x = 0 \<longleftrightarrow> length str \<noteq> FILE_PATH_LEN - 1) \<and>
           target_truncated x = 0 \<and> pathFromBuffer (target_path x) (target_offset x) = path_string comps
    else handle_security_sb_mount env (dev, path, ty, flags, dat) s = (0, s)"
proof (cases "path_mount_dispatch flags \<in> {Mount_Bind, Mount_Move}")
  case False
  then have "handle_security_sb_mount env (dev, path, ty, flags, dat) s = (0, s)"
    unfolding handle_security_sb_mount_def sb_mount_guards [symmetric] prod.case by argo
  with False show ?thesis by simp
next
  case True
  let ?s2 = "s\<lparr>reserved := reserved s + 1\<rparr>"
  let ?src = "copy_raw_mount_string_to_sample env dev (source_path (mount_header env))"
  obtain cp s3 where r: "copy_dentry_fallback_path_to_sample env (target_path (mount_header env)) d ?s2 = (cp, s3)"
    by fastforce
  have len: "length (source_path (mount_header env)) = FILE_PATH_LEN"
      "length (target_path (mount_header env)) = FILE_PATH_LEN" using wf(1) by simp_all
  have s2: "state_wf ?s2" "percpu_lookup env (path_scratch ?s2) 0 \<noteq> None" using wf(2) observed(4) by simp_all
  have path: "cp_truncated cp = 0 \<and> pathFromBuffer (cp_path cp) (cp_offset cp) = path_string comps"
    using capture_path [OF wf(1) s2(1) target(2) s2(2) len(2) r target(3,4)] .
  have "events s3 = events s"
    using copy_dentry_fallback_wf(4) [OF wf(1) s2(1) len(2) r] by (simp add: scratch_only_def)
  moreover have "handle_security_sb_mount env (dev, path, ty, flags, dat) s =
      (0, bpf_ringbuf_submit (MountSample (mount_sample_of env ?src cp)) s3)"
    using True observed r target(1) unfolding handle_security_sb_mount_def sb_mount_guards [symmetric]
    by (auto simp: RESERVE_SAMPLE_cases Let_def)
  ultimately show ?thesis
    using True path raw_mount_string [OF wf(1) len(1) source]
    by (auto simp: bpf_ringbuf_submit_def mount_sample_of_def)
qed

text \<open>A bind mount of \<open>tmp\<close> on \<open>/tmp\<close>.\<close>

lemma tmp_mount_facts:
  "BPF_CORE_READ tmp_env h_path 6 p_dentry = 2"
  "bpf_probe_read_kernel_str tmp_env FILE_PATH_LEN 100 = Some (c_lit ''tmp'' @ [0])"
  using read_str_memory_at [of "c_lit ''tmp''" 1024 100]
  by (simp_all add: tmp_env_def bpf_probe_read_kernel_str_def c_lit_def)

lemma bind_dispatch: "path_mount_dispatch 4096 = Mount_Bind"
  by (simp add: path_mount_dispatch_def bit_numeral_rec(1) flip: flag_bits)

theorem mount_reports_exposures_witness:
  "\<exists>x. events (snd (handle_security_sb_mount tmp_env (100, 6, 0, 4096, 0) one_tracked)) = [MountSample x] \<and>
       pathFromBuffer (source_path x) (source_offset x) = c_lit ''tmp'' \<and>
       pathFromBuffer (target_path x) (target_offset x) = c_lit ''/tmp''"
  using mount_reports_exposures [of tmp_env one_tracked 6 100 "c_lit ''tmp''" 2 "[c_lit ''tmp'']" 4096 0 0]
    tmp_components tmp_mount_facts bind_dispatch
  by (auto simp: path_string_def c_lit_def)

end
