(* ===== verification/Network_Hooks.thy ===== *)
theory Network_Hooks
  imports File_Hooks
begin

text \<open>
  The connect hooks of \<open>network_hooks.bpf.h\<close>: the cgroup hooks for IPv4 and IPv6, which must
  let every connect pass, and the AF_UNIX hooks with the three forms of a socket address. The
  socket address and the context of the cgroup hooks are what the kernel passes in.
\<close>

definition NETWORK_PROTOCOL_TCP :: u8 where [simp]: "NETWORK_PROTOCOL_TCP = 6"
definition NETWORK_PROTOCOL_UDP :: u8 where [simp]: "NETWORK_PROTOCOL_UDP = 17"

record bpf_sock_addr =
  user_ip4 :: u32
  user_ip6 :: "u32 \<times> u32 \<times> u32 \<times> u32"
  user_port :: u32
  sa_protocol :: u32

section \<open>Operations\<close>

definition is_tcp_or_udp :: "u8 \<Rightarrow> bool" where
  "is_tcp_or_udp protocol \<longleftrightarrow> protocol = NETWORK_PROTOCOL_TCP \<or> protocol = NETWORK_PROTOCOL_UDP"

definition sockaddr_user_port :: "bpf_sock_addr \<Rightarrow> u16" where
  "sockaddr_user_port ctx = bpf_ntohs (ucast (user_port ctx))"

definition net_v4_sample_of :: "kenv \<Rightarrow> bpf_sock_addr \<Rightarrow> net_v4_sample" where
  "net_v4_sample_of env ctx =
     (SET_TASK_HEADER env (current_cgroup_id env)
        ((st_net_v4 (storage env))
           \<lparr>kind := kind_value SAMPLE_KIND_NETWORK_CONNECT_V4, n4_protocol := ucast (sa_protocol ctx),
            n4_blocked := 0, n4_pad0 := 0\<rparr>))
       \<lparr>n4_pad1 := 0, n4_remote_ip := bytes_of_u32 (user_ip4 ctx),
        n4_remote_port := sockaddr_user_port ctx, n4_pad2 := 0\<rparr>"

definition handle_cgroup_connect4 :: "kenv \<Rightarrow> bpf_sock_addr \<Rightarrow> bpf_state \<Rightarrow> int \<times> bpf_state" where
  "handle_cgroup_connect4 env ctx s =
     (if cgroup_is_tracked s (current_cgroup_id env) = 0 then (1, s)
      else if \<not> is_tcp_or_udp (ucast (sa_protocol ctx)) then (1, s)
      else if sockaddr_user_port ctx = 0 then (1, s)
      else RESERVE_SAMPLE env SAMPLE_KIND_NETWORK_CONNECT_V4 1
             (\<lambda>s2. (1, bpf_ringbuf_submit (NetV4Sample (net_v4_sample_of env ctx)) s2)) s)"

definition bytes_of_ip6 :: "u32 \<times> u32 \<times> u32 \<times> u32 \<Rightarrow> bytes" where
  "bytes_of_ip6 = (\<lambda>(a, b, c, d). bytes_of_u32 a @ bytes_of_u32 b @ bytes_of_u32 c @ bytes_of_u32 d)"

definition net_v6_sample_of :: "kenv \<Rightarrow> bpf_sock_addr \<Rightarrow> net_v6_sample" where
  "net_v6_sample_of env ctx =
     (SET_TASK_HEADER env (current_cgroup_id env)
        ((st_net_v6 (storage env))
           \<lparr>kind := kind_value SAMPLE_KIND_NETWORK_CONNECT_V6, n6_protocol := ucast (sa_protocol ctx),
            n6_blocked := 0, n6_pad0 := 0\<rparr>))
       \<lparr>n6_pad1 := 0, n6_remote_ip := bytes_of_ip6 (user_ip6 ctx),
        n6_remote_port := sockaddr_user_port ctx, n6_pad2 := 0\<rparr>"

definition handle_cgroup_connect6 :: "kenv \<Rightarrow> bpf_sock_addr \<Rightarrow> bpf_state \<Rightarrow> int \<times> bpf_state" where
  "handle_cgroup_connect6 env ctx s =
     (if cgroup_is_tracked s (current_cgroup_id env) = 0 then (1, s)
      else if \<not> is_tcp_or_udp (ucast (sa_protocol ctx)) then (1, s)
      else if sockaddr_user_port ctx = 0 then (1, s)
      else RESERVE_SAMPLE env SAMPLE_KIND_NETWORK_CONNECT_V6 1
             (\<lambda>s2. (1, bpf_ringbuf_submit (NetV6Sample (net_v6_sample_of env ctx)) s2)) s)"

text \<open>\<open>BPF_CORE_READ(address, sa_family)\<close>: the first two bytes of the kernel's copy.\<close>

definition sa_family :: "kenv \<Rightarrow> ptr \<Rightarrow> u16" where
  "sa_family env address =
     (case bpf_probe_read_kernel env 2 address of
        Some bs \<Rightarrow> le_word bs
      | None \<Rightarrow> ucast (fault_word env))"

definition unix_header :: "kenv \<Rightarrow> ptr \<Rightarrow> nat \<Rightarrow> bool \<Rightarrow> unix_socket_connect_sample" where
  "unix_header env sk path_len longer =
     (SET_TASK_HEADER env (current_cgroup_id env)
        ((st_unix (storage env))\<lparr>kind := kind_value SAMPLE_KIND_UNIX_SOCKET_CONNECT\<rparr>))
       \<lparr>socket_type := ucast (BPF_CORE_READ env h_socket sk so_type),
        sun_path_len := of_nat path_len, sun_path_truncated := u8_of_bool longer,
        cwd_truncated := 0, cwd_unavailable := 0, us_pad0 := 0, cwd_offset := 0,
        sun_path := replicate UNIX_SOCKET_SUN_PATH_LEN 0\<rparr>"

text \<open>The body after the reservation: the address read, and the working directory of a relative path.\<close>

definition unix_body :: "kenv \<Rightarrow> ptr \<Rightarrow> ptr \<Rightarrow> nat \<Rightarrow> bool \<Rightarrow> bpf_state \<Rightarrow> int \<times> bpf_state" where
  "unix_body env sk address path_len longer s =
     (let x = unix_header env sk path_len longer in
      case bpf_probe_read_kernel env path_len (address + 2) of
        None \<Rightarrow> (0, bpf_ringbuf_discard s)
      | Some bs \<Rightarrow>
          (let x1 = x\<lparr>sun_path := read_into env path_len (Some bs) 0 (sun_path x),
                      cwd := zero_path_bytes (cwd x)\<rparr>;
               first_byte = sun_path x1 ! 0;
               x2 = x1\<lparr>is_abstract := (if first_byte = 0 then 1 else 0)\<rparr>
           in if first_byte \<noteq> 0 \<and> first_byte \<noteq> SLASH
              then (case copy_current_cwd_fallback_path_to_sample env x2 s of
                      (found, x3, s') \<Rightarrow>
                        (0, bpf_ringbuf_submit (UnixSocketConnectSample
                              (if found then x3 else x3\<lparr>cwd_unavailable := 1\<rparr>)) s'))
              else (0, bpf_ringbuf_submit (UnixSocketConnectSample x2) s)))"

definition submit_unix_socket_connect :: "kenv \<Rightarrow> ptr \<Rightarrow> ptr \<Rightarrow> s32 \<Rightarrow> bpf_state \<Rightarrow> int \<times> bpf_state" where
  "submit_unix_socket_connect env sk address addrlen s =
     (if address = NULL then (0, s)
      else if sint addrlen < 2 then (0, s)
      else if cgroup_is_tracked s (current_cgroup_id env) = 0 then (0, s)
      else if sa_family env address \<noteq> AGENT_AF_UNIX then (0, s)
      else if BPF_CORE_READ env h_sock (BPF_CORE_READ env h_socket sk so_sk) skc_family \<noteq> AGENT_AF_UNIX then (0, s)
      else
        (let claimed = sint addrlen - 2 in
         if claimed \<le> 0 then (0, s)
         else
           (let longer = claimed > int UNIX_SOCKET_SUN_PATH_LEN;
                path_len = (if longer then UNIX_SOCKET_SUN_PATH_LEN else nat claimed)
            in RESERVE_SAMPLE env SAMPLE_KIND_UNIX_SOCKET_CONNECT 0
                 (unix_body env sk address path_len longer) s)))"

definition handle_unix_stream_connect ::
    "kenv \<Rightarrow> ptr \<times> ptr \<times> s32 \<times> s32 \<Rightarrow> bpf_state \<Rightarrow> int \<times> bpf_state" where
  "handle_unix_stream_connect env = (\<lambda>(sk, uaddr, addr_len, flags) s.
     submit_unix_socket_connect env sk uaddr addr_len s)"

definition handle_unix_dgram_connect ::
    "kenv \<Rightarrow> ptr \<times> ptr \<times> s32 \<times> s32 \<Rightarrow> bpf_state \<Rightarrow> int \<times> bpf_state" where
  "handle_unix_dgram_connect env = (\<lambda>(sk, addr, alen, flags) s.
     submit_unix_socket_connect env sk addr alen s)"

section \<open>The cgroup hooks observe and allow\<close>

lemma length_bytes_of_ip6 [simp]: "length (bytes_of_ip6 a) = 16"
  by (cases a) (simp add: bytes_of_ip6_def)

lemma net_sample_facts [simp]:
  "kind (net_v4_sample_of env ctx) = 6" "cgroup_id (net_v4_sample_of env ctx) = current_cgroup_id env"
  "n4_remote_ip (net_v4_sample_of env ctx) = bytes_of_u32 (user_ip4 ctx)"
  "n4_remote_port (net_v4_sample_of env ctx) = sockaddr_user_port ctx"
  "n4_protocol (net_v4_sample_of env ctx) = ucast (sa_protocol ctx)"
  "kind (net_v6_sample_of env ctx) = 7" "cgroup_id (net_v6_sample_of env ctx) = current_cgroup_id env"
  "n6_remote_ip (net_v6_sample_of env ctx) = bytes_of_ip6 (user_ip6 ctx)"
  "n6_remote_port (net_v6_sample_of env ctx) = sockaddr_user_port ctx"
  "n6_protocol (net_v6_sample_of env ctx) = ucast (sa_protocol ctx)"
  by (simp_all add: net_v4_sample_of_def net_v6_sample_of_def SET_TASK_HEADER_def)

interpretation connect4: observer_hook handle_cgroup_connect4 1
  by (rule observer_hookI)
    (auto simp: handle_cgroup_connect4_def kind_ok_def
      intro!: gated_form.pass gated_form_reserve_now sample_body_plain)

interpretation connect6: observer_hook handle_cgroup_connect6 1
  by (rule observer_hookI)
    (auto simp: handle_cgroup_connect6_def kind_ok_def
      intro!: gated_form.pass gated_form_reserve_now sample_body_plain)

section \<open>The AF_UNIX hooks observe\<close>

lemma unix_header_facts [simp]:
  "kind (unix_header env sk n t) = 13" "cgroup_id (unix_header env sk n t) = current_cgroup_id env"
  "sun_path (unix_header env sk n t) = replicate 108 0" "sun_path_len (unix_header env sk n t) = of_nat n"
  "sun_path_truncated (unix_header env sk n t) = u8_of_bool t" "cwd_unavailable (unix_header env sk n t) = 0"
  "cwd_truncated (unix_header env sk n t) = 0"
  "env_wf env \<Longrightarrow> length (cwd (unix_header env sk n t)) = 1024"
  by (simp_all add: unix_header_def SET_TASK_HEADER_def storage_wfD)

text \<open>The sample before the working directory is added.\<close>

definition unix_address_sample :: "kenv \<Rightarrow> ptr \<Rightarrow> nat \<Rightarrow> bool \<Rightarrow> bytes \<Rightarrow> unix_socket_connect_sample" where
  "unix_address_sample env sk path_len longer bs =
     (let x = unix_header env sk path_len longer;
          x1 = x\<lparr>sun_path := bs @ replicate (108 - path_len) 0, cwd := zero_path_bytes (cwd x)\<rparr>
      in x1\<lparr>is_abstract := (if bs ! 0 = 0 then 1 else 0)\<rparr>)"

lemma unix_body_eq:
  assumes "0 < path_len" "path_len \<le> 108"
  shows "unix_body env sk address path_len longer s =
    (case bpf_probe_read_kernel env path_len (address + 2) of
       None \<Rightarrow> (0, bpf_ringbuf_discard s)
     | Some bs \<Rightarrow>
         if bs ! 0 \<noteq> 0 \<and> bs ! 0 \<noteq> SLASH
         then (case copy_current_cwd_fallback_path_to_sample env (unix_address_sample env sk path_len longer bs) s of
                 (found, x, s') \<Rightarrow> (0, bpf_ringbuf_submit (UnixSocketConnectSample
                    (if found then x else x\<lparr>cwd_unavailable := 1\<rparr>)) s'))
         else (0, bpf_ringbuf_submit (UnixSocketConnectSample (unix_address_sample env sk path_len longer bs)) s))"
proof (cases "bpf_probe_read_kernel env path_len (address + 2)")
  case None
  then show ?thesis by (simp add: unix_body_def)
next
  case (Some bs)
  then have len: "length bs = path_len" by simp
  with assms have "read_into env path_len (Some bs) 0 (replicate 108 0) = bs @ replicate (108 - path_len) 0"
    by (simp add: read_into_def blit_0)
  moreover have "(bs @ replicate (108 - path_len) 0) ! 0 = bs ! 0"
    using len assms by (simp add: nth_append)
  ultimately show ?thesis
    by (simp add: unix_body_def Some unix_address_sample_def Let_def)
qed

lemma unix_address_sample_facts [simp]:
  "kind (unix_address_sample env sk n t bs) = 13"
  "cgroup_id (unix_address_sample env sk n t bs) = current_cgroup_id env"
  "sun_path (unix_address_sample env sk n t bs) = bs @ replicate (108 - n) 0"
  "sun_path_len (unix_address_sample env sk n t bs) = of_nat n"
  "sun_path_truncated (unix_address_sample env sk n t bs) = u8_of_bool t"
  "is_abstract (unix_address_sample env sk n t bs) = u8_of_bool (bs ! 0 = 0)"
  "cwd_unavailable (unix_address_sample env sk n t bs) = 0"
  "cwd_truncated (unix_address_sample env sk n t bs) = 0"
  "env_wf env \<Longrightarrow> cwd (unix_address_sample env sk n t bs) = replicate 1024 0"
  by (simp_all add: unix_address_sample_def Let_def u8_of_bool_def)

lemma unix_address_len: "n \<le> 108 \<Longrightarrow> unat (of_nat n :: u32) \<le> 108"
  by (simp add: unsigned_of_nat le_trans [OF take_bit_nat_less_eq_self])

lemma cwd_sample_facts:
  assumes "copy_current_cwd_fallback_path_to_sample env x s = (found, x', s')"
  shows "scratch_only env s s' \<and> kind x' = kind x \<and> cgroup_id x' = cgroup_id x \<and> sun_path x' = sun_path x \<and>
    sun_path_len x' = sun_path_len x \<and>
    (env_wf env \<longrightarrow> state_wf s \<longrightarrow> length (cwd x) = 1024 \<longrightarrow> state_wf s' \<and> length (cwd x') = 1024)"
  using assms
proof (cases rule: copy_cwd_cases)
  case 1
  then show ?thesis by simp
next
  case (2 d cp)
  have "scratch_only env s s'" using copy_dentry_fallback_frame [of env s "cwd x" d] 2(3) by simp
  moreover have "env_wf env \<longrightarrow> state_wf s \<longrightarrow> length (cwd x) = 1024 \<longrightarrow>
      state_wf s' \<and> length (cp_path cp) = 1024"
    using copy_dentry_fallback_wf [OF _ _ _ 2(3)] by simp
  ultimately show ?thesis by (simp add: 2(2))
qed

lemma unix_body_sample:
  assumes "0 < path_len" "path_len \<le> 108" "ok \<Longrightarrow> env_wf env"
  shows "sample_body env ok 0 (unix_body env sk address path_len longer)"
  unfolding sample_body_def
proof
  fix s
  show "submits env ok 0 s (unix_body env sk address path_len longer s) \<or>
      discards env ok 0 s (unix_body env sk address path_len longer s)"
  proof (cases "bpf_probe_read_kernel env path_len (address + 2)")
    case None
    then show ?thesis using discards_plain [of env ok 0 s] by (simp add: unix_body_eq assms)
  next
    case (Some bs)
    let ?x = "unix_address_sample env sk path_len longer bs"
    obtain found x s' where c: "copy_current_cwd_fallback_path_to_sample env ?x s = (found, x, s')"
      by (metis prod_cases3)
    have len: "length bs = path_len" using Some by simp
    show ?thesis
    proof (cases "bs ! 0 \<noteq> 0 \<and> bs ! 0 \<noteq> SLASH")
      case True
      let ?y = "UnixSocketConnectSample (if found then x else x\<lparr>cwd_unavailable := 1\<rparr>)"
      have "submits env ok 0 s (0, bpf_ringbuf_submit ?y s')"
        using cwd_sample_facts [OF c] assms len
        by (intro submits_scratch) (simp_all add: kind_ok_def unix_address_len)
      with True show ?thesis by (simp add: unix_body_eq [OF assms(1,2)] Some c)
    next
      case False
      have "submits env ok 0 s (0, bpf_ringbuf_submit (UnixSocketConnectSample ?x) s)"
        using assms len by (intro submits_plain) (simp_all add: kind_ok_def unix_address_len)
      with False show ?thesis by (auto simp: unix_body_eq [OF assms(1,2)] Some)
    qed
  qed
qed

lemma submit_unix_gated: "gated_form env 0 s (submit_unix_socket_connect env sk address addrlen s)"
  by (auto simp: submit_unix_socket_connect_def Let_def
      intro!: gated_form.pass gated_form_reserve_now unix_body_sample)

interpretation unix_stream_connect: observer_hook handle_unix_stream_connect 0
  by (rule observer_hookI) (auto simp: handle_unix_stream_connect_def submit_unix_gated)

interpretation unix_dgram_connect: observer_hook handle_unix_dgram_connect 0
  by (rule observer_hookI) (auto simp: handle_unix_dgram_connect_def submit_unix_gated)

section \<open>Properties\<close>

lemma unat_u32_less: "unat (x :: u32) < 4294967296"
proof -
  have "unat x < 2 ^ LENGTH(32)" by (rule unsigned_less)
  then show ?thesis by simp
qed

lemma bpf_ntohs_bytes:
  "unat (bpf_ntohs (ucast (w :: u32))) = 256 * unat (ucast w :: u8) + unat (ucast (drop_bit 8 w) :: u8)"
proof -
  have "unat (ucast w :: u16) = unat w mod 65536" by (simp only: unsigned_ucast_eq) (simp add: take_bit_eq_mod)
  moreover have "unat (ucast w :: u8) = unat w mod 256" by (simp only: unsigned_ucast_eq) (simp add: take_bit_eq_mod)
  moreover have "unat (ucast (drop_bit 8 w) :: u8) = unat w div 256 mod 256"
    using unat_u32_less [of w]
    by (simp only: unsigned_ucast_eq unsigned_drop_bit_eq) (simp add: take_bit_eq_mod drop_bit_eq_div mod_less)
  moreover have "unat w mod 65536 mod 256 = unat w mod 256" by (simp add: mod_mod_cancel)
  moreover have "unat w mod 65536 div 256 = unat w div 256 mod 256"
    using mod_mult2_eq [of "unat w" 256 256] by simp
  ultimately show ?thesis by (simp add: ntohs_value)
qed
text \<open>The dentry of the working directory of the current task.\<close>

definition cwd_dentry :: "kenv \<Rightarrow> ptr option" where
  "cwd_dentry env =
     (let fs = BPF_CORE_READ env h_task (cur_task env) t_fs;
          d = BPF_CORE_READ env h_fs fs pwd_dentry
      in if cur_task env = NULL \<or> fs = NULL \<or> d = NULL then None else Some d)"

lemma copy_cwd_eq:
  "copy_current_cwd_fallback_path_to_sample env x s =
     (case cwd_dentry env of
        None \<Rightarrow> (False, x, s)
      | Some d \<Rightarrow>
          if percpu_lookup env (path_scratch s) 0 = None then (False, x, s)
          else (case copy_dentry_fallback_path_to_sample env (cwd x) d s of
            (cp, s') \<Rightarrow> (True, x\<lparr>cwd := cp_path cp, cwd_offset := cp_offset cp,
                             cwd_truncated := cp_truncated cp\<rparr>, s')))"
  by (simp add: copy_current_cwd_fallback_path_to_sample_def cwd_dentry_def Let_def)

lemma cwd_sample_keeps:
  assumes "copy_current_cwd_fallback_path_to_sample env x s = (found, x', s')"
  shows "sun_path x' = sun_path x" "sun_path_len x' = sun_path_len x"
    "sun_path_truncated x' = sun_path_truncated x" "is_abstract x' = is_abstract x"
    "cwd_unavailable x' = cwd_unavailable x"
  using assms by (cases rule: copy_cwd_cases; simp)+

lemma cwd_sample_path:
  assumes "copy_current_cwd_fallback_path_to_sample env (unix_address_sample env sk n t bs)
      (s\<lparr>reserved := r\<rparr>) = (found, x', s')" "env_wf env" "state_wf s"
  shows "cwd_dentry env = None \<Longrightarrow> \<not> found"
    and "\<lbrakk>cwd_dentry env = Some d; percpu_lookup env (path_scratch s) 0 \<noteq> None;
          dentry_components env DENTRY_WALK_DEPTH d = Some comps; length (join_components comps) < FILE_PATH_LEN\<rbrakk> \<Longrightarrow>
         found \<and> cwd_unavailable x' = 0 \<and> cwd_truncated x' = 0 \<and>
         pathFromBuffer (cwd x') (cwd_offset x') = path_string comps"
proof -
  let ?x = "unix_address_sample env sk n t bs" and ?s = "s\<lparr>reserved := r\<rparr>"
  show "\<not> found" if "cwd_dentry env = None" using assms(1) that by (simp add: copy_cwd_eq)
  assume d: "cwd_dentry env = Some d" and slot: "percpu_lookup env (path_scratch s) 0 \<noteq> None"
    and comps: "dentry_components env DENTRY_WALK_DEPTH d = Some comps" "length (join_components comps) < FILE_PATH_LEN"
  have nn: "d \<noteq> NULL" using d by (auto simp: cwd_dentry_def Let_def split: if_splits)
  obtain cp s1 where r: "copy_dentry_fallback_path_to_sample env (cwd ?x) d ?s = (cp, s1)" by fastforce
  have "cp_truncated cp = 0 \<and> pathFromBuffer (cp_path cp) (cp_offset cp) = path_string comps"
    using capture_path [OF assms(2) _ nn _ _ r comps] assms(2,3) slot by simp
  with assms(1) d slot r show "found \<and> cwd_unavailable x' = 0 \<and> cwd_truncated x' = 0 \<and>
      pathFromBuffer (cwd x') (cwd_offset x') = path_string comps"
    by (auto simp: copy_cwd_eq)
qed

text \<open>
  C11: The inet connect hooks only observe. Whatever the call and the kernel's decisions, both
  return 1, which lets the connect pass. In a tracked cgroup with ring buffer space a connect is
  reported exactly when it is TCP or UDP to a port other than 0, with the address bytes in wire
  order and the port as the number the two wire bytes stand for.
\<close>

theorem connect_allows_and_reports:
  assumes "tracked_cgroups s (current_cgroup_id env) \<noteq> None"
    and "\<forall>n. ringbuf_space env n"
  shows "(\<forall>s' env'. fst (handle_cgroup_connect4 env' ctx s') = 1 \<and> fst (handle_cgroup_connect6 env' ctx s') = 1) \<and>
    (let reported = (ucast (sa_protocol ctx) \<in> {6, 17 :: u8} \<and> sockaddr_user_port ctx \<noteq> 0) in
     events (snd (handle_cgroup_connect4 env ctx s)) =
       events s @ (if reported then [NetV4Sample (net_v4_sample_of env ctx)] else []) \<and>
     events (snd (handle_cgroup_connect6 env ctx s)) =
       events s @ (if reported then [NetV6Sample (net_v6_sample_of env ctx)] else [])) \<and>
    n4_remote_ip (net_v4_sample_of env ctx) = bytes_of_u32 (user_ip4 ctx) \<and>
    n6_remote_ip (net_v6_sample_of env ctx) = bytes_of_ip6 (user_ip6 ctx) \<and>
    unat (n4_remote_port (net_v4_sample_of env ctx)) =
      256 * unat (bytes_of_u32 (user_port ctx) ! 0) + unat (bytes_of_u32 (user_port ctx) ! 1) \<and>
    n6_remote_port (net_v6_sample_of env ctx) = n4_remote_port (net_v4_sample_of env ctx)"
proof -
  have "events (snd (handle_cgroup_connect4 env ctx s)) =
      events s @ (if is_tcp_or_udp (ucast (sa_protocol ctx)) \<and> sockaddr_user_port ctx \<noteq> 0
                  then [NetV4Sample (net_v4_sample_of env ctx)] else [])"
    "events (snd (handle_cgroup_connect6 env ctx s)) =
      events s @ (if is_tcp_or_udp (ucast (sa_protocol ctx)) \<and> sockaddr_user_port ctx \<noteq> 0
                  then [NetV6Sample (net_v6_sample_of env ctx)] else [])"
    using assms by (auto simp: handle_cgroup_connect4_def handle_cgroup_connect6_def RESERVE_SAMPLE_cases
        bpf_ringbuf_submit_def)
  then show ?thesis
    using connect4.returns connect6.returns
    by (simp add: is_tcp_or_udp_def bpf_ntohs_bytes sockaddr_user_port_def bytes_of_u32_def Let_def)
qed

text \<open>
  C12: An AF_UNIX connect record describes the address it was given. For an observed connect with
  a readable address of at least one byte, the reported bytes are the address bytes up to 108,
  the rest of the field is zero, the length and the truncation flag say how many and whether
  there were more, and the record is marked abstract exactly when the first byte is zero. The
  working directory is left empty for abstract and absolute addresses; for a relative one it
  is captured or marked as unavailable.
\<close>

theorem unix_connect_record_exact:
  assumes wf: "env_wf env" "state_wf s"
    and observed: "tracked_cgroups s (current_cgroup_id env) \<noteq> None" "address \<noteq> NULL"
      "ringbuf_space env (sizeof_sample SAMPLE_KIND_UNIX_SOCKET_CONNECT)"
      "sa_family env address = AGENT_AF_UNIX"
      "BPF_CORE_READ env h_sock (BPF_CORE_READ env h_socket sk so_sk) skc_family = AGENT_AF_UNIX"
    and addr: "sint addrlen - 2 = int n" "0 < n"
      "bpf_probe_read_kernel env (min n 108) (address + 2) = Some bs"
  shows "\<exists>x. events (snd (submit_unix_socket_connect env sk address addrlen s)) =
             events s @ [UnixSocketConnectSample x] \<and>
           sun_path x = bs @ replicate (108 - min n 108) 0 \<and>
           cBytes (sun_path x) (sun_path_len x) = Some bs \<and>
           (sun_path_truncated x \<noteq> 0 \<longleftrightarrow> n > 108) \<and> (is_abstract x \<noteq> 0 \<longleftrightarrow> bs ! 0 = 0) \<and>
           (if bs ! 0 = 0 \<or> bs ! 0 = SLASH
            then cwd x = replicate FILE_PATH_LEN 0 \<and> cwd_unavailable x = 0 \<and> cwd_truncated x = 0
            else case cwd_dentry env of
              None \<Rightarrow> cwd_unavailable x = 1
            | Some d \<Rightarrow> \<forall>comps. percpu_lookup env (path_scratch s) 0 \<noteq> None \<longrightarrow>
                dentry_components env DENTRY_WALK_DEPTH d = Some comps \<longrightarrow>
                length (join_components comps) < FILE_PATH_LEN \<longrightarrow>
                cwd_unavailable x = 0 \<and> cwd_truncated x = 0 \<and>
                pathFromBuffer (cwd x) (cwd_offset x) = path_string comps)"
proof -
  let ?k = "min n 108" and ?s2 = "s\<lparr>reserved := reserved s + 1\<rparr>"
  let ?x = "unix_address_sample env sk ?k (n > 108) bs"
  have k: "0 < ?k" "?k \<le> 108" using addr(2) by simp_all
  have len: "length bs = ?k" using addr(3) by simp
  have claim: "\<not> sint addrlen < 2" "sint addrlen - 2 = int n" using addr by linarith+
  have "submit_unix_socket_connect env sk address addrlen s = unix_body env sk address ?k (n > 108) ?s2"
    using observed claim k(1)
    by (auto simp: submit_unix_socket_connect_def RESERVE_SAMPLE_cases Let_def min_def)
  then have run: "submit_unix_socket_connect env sk address addrlen s =
      (if bs ! 0 \<noteq> 0 \<and> bs ! 0 \<noteq> SLASH
       then (case copy_current_cwd_fallback_path_to_sample env ?x ?s2 of
               (found, x, s') \<Rightarrow> (0, bpf_ringbuf_submit (UnixSocketConnectSample
                  (if found then x else x\<lparr>cwd_unavailable := 1\<rparr>)) s'))
       else (0, bpf_ringbuf_submit (UnixSocketConnectSample ?x) ?s2))"
    by (simp add: unix_body_eq [OF k] addr(3))
  have bytes: "cBytes (bs @ replicate (108 - ?k) 0) (of_nat ?k) = Some bs"
    using len by (intro cBytes_prefix) simp_all
  show ?thesis
  proof (cases "bs ! 0 = 0 \<or> bs ! 0 = SLASH")
    case True
    then show ?thesis using run bytes wf(1)
      by (intro exI [of _ ?x]) (auto simp: bpf_ringbuf_submit_def u8_of_bool_def)
  next
    case False
    obtain found x s' where c: "copy_current_cwd_fallback_path_to_sample env ?x ?s2 = (found, x, s')"
      by (metis prod_cases3)
    let ?y = "if found then x else x\<lparr>cwd_unavailable := 1\<rparr>"
    have ev: "events s' = events s" using cwd_sample_facts [OF c] by (simp add: scratch_only_def)
    have sp: "sun_path ?y = bs @ replicate (108 - ?k) 0" "sun_path_len ?y = of_nat ?k"
        "sun_path_truncated ?y = u8_of_bool (n > 108)" "is_abstract ?y = u8_of_bool (bs ! 0 = 0)"
      using cwd_sample_keeps [OF c] by simp_all
    have "case cwd_dentry env of None \<Rightarrow> cwd_unavailable ?y = 1
        | Some d \<Rightarrow> \<forall>comps. percpu_lookup env (path_scratch s) 0 \<noteq> None \<longrightarrow>
            dentry_components env DENTRY_WALK_DEPTH d = Some comps \<longrightarrow>
            length (join_components comps) < FILE_PATH_LEN \<longrightarrow>
            cwd_unavailable ?y = 0 \<and> cwd_truncated ?y = 0 \<and>
            pathFromBuffer (cwd ?y) (cwd_offset ?y) = path_string comps"
      using cwd_sample_path [OF c] wf by (auto split: option.split)
    with False run c ev sp bytes show ?thesis
      by (intro exI [of _ ?y]) (simp add: bpf_ringbuf_submit_def u8_of_bool_def)
  qed
qed

text \<open>A TCP connect to port 443, and a stream connect to the socket \<open>/x\<close>.\<close>

definition https_ctx :: bpf_sock_addr where
  "https_ctx = \<lparr>user_ip4 = 0x0100007F, user_ip6 = (0, 0, 0, 0x01000000), user_port = 0xBB01, sa_protocol = 6\<rparr>"

theorem connect_allows_and_reports_witness:
  "events (snd (handle_cgroup_connect4 tmp_env https_ctx one_tracked)) =
     [NetV4Sample (net_v4_sample_of tmp_env https_ctx)] \<and>
   unat (n4_remote_port (net_v4_sample_of tmp_env https_ctx)) = 443 \<and>
   n4_remote_ip (net_v4_sample_of tmp_env https_ctx) = [127, 0, 0, 1]"
proof -
  have "sockaddr_user_port https_ctx \<noteq> 0" by (simp add: sockaddr_user_port_def https_ctx_def bpf_ntohs_def)
  then show ?thesis
    using connect_allows_and_reports [of one_tracked tmp_env https_ctx]
    by (simp add: https_ctx_def bytes_of_u32_def)
qed

definition unix_env :: kenv where
  "unix_env = quiet_env\<lparr>kmem := memory_at 300 [1, 0, SLASH, 0x78],
     heap := empty_heap\<lparr>h_socket := [8 \<mapsto> \<lparr>so_sk = 9, so_type = 1\<rparr>],
       h_sock := [9 \<mapsto> \<lparr>skc_family = 1, skc_dport = 0, skc_daddr = zeros 4, skc_v6_daddr = zeros 16,
                         unix_peer = NULL, unix_addr = NULL\<rparr>]\<rparr>\<rparr>"

lemma unix_env_facts [simp]:
  "env_wf unix_env" "current_cgroup_id unix_env = 7" "ringbuf_space unix_env n"
  "sa_family unix_env 300 = AGENT_AF_UNIX"
  "BPF_CORE_READ unix_env h_sock (BPF_CORE_READ unix_env h_socket 8 so_sk) skc_family = AGENT_AF_UNIX"
  "bpf_probe_read_kernel unix_env 2 302 = Some [SLASH, 0x78]"
  using read_bytes_memory_at [of 2 "[1, 0, SLASH, 0x78]" 300]
    read_bytes_memory_at_offset [of 2 2 "[1, 0, SLASH, 0x78]" 300]
  by (simp_all add: unix_env_def current_cgroup_id_def env_wf_def sa_family_def bpf_probe_read_kernel_def)

theorem unix_connect_record_exact_witness:
  "\<exists>x. events (snd (submit_unix_socket_connect unix_env 8 300 4 one_tracked)) = [UnixSocketConnectSample x] \<and>
       cBytes (sun_path x) (sun_path_len x) = Some [SLASH, 0x78] \<and> is_abstract x = 0 \<and>
       sun_path_truncated x = 0"
proof -
  have "sint (4 :: s32) - 2 = int 2" by simp
  from unix_connect_record_exact [of unix_env one_tracked 300 8 4 2 "[SLASH, 0x78]", OF _ _ _ _ _ _ _ this]
  show ?thesis by auto
qed

end
