(* ===== verification/Dns.thy ===== *)
theory Dns
  imports File_Hooks
begin

text \<open>
  DNS observation, after \<open>dns_helpers.bpf.h\<close> and \<open>dns_hooks.bpf.h\<close>: the payload readers for the
  two iterator kinds, the destination of a send, and the four sendmsg hooks. The payload of a
  record is compared with a specification of what a bounded gather of the segments yields.
\<close>

definition DNS_PORT :: u16 where [simp]: "DNS_PORT = 53"
definition DNS_SOURCE_UDP :: u8 where [simp]: "DNS_SOURCE_UDP = 0"
definition DNS_SOURCE_TCP :: u8 where [simp]: "DNS_SOURCE_TCP = 1"
definition DNS_SOURCE_SYSTEMD_RESOLVED :: u8 where [simp]: "DNS_SOURCE_SYSTEMD_RESOLVED = 2"
definition DNS_MAX_IOVEC_ENTRIES :: nat where [simp]: "DNS_MAX_IOVEC_ENTRIES = 8"
definition DNS_PER_IOV_MAX :: nat where [simp]: "DNS_PER_IOV_MAX = 256"

definition systemd_resolved_target_path :: bytes where
  "systemd_resolved_target_path = c_lit ''/run/systemd/resolve/io.systemd.Resolve''"

definition SYSTEMD_RESOLVED_VARLINK_PATH_LEN :: nat where
  [simp]: "SYSTEMD_RESOLVED_VARLINK_PATH_LEN = 39"

lemma target_path_length: "length systemd_resolved_target_path = SYSTEMD_RESOLVED_VARLINK_PATH_LEN"
  by (simp add: systemd_resolved_target_path_def c_lit_def)

section \<open>Reading the payload\<close>

text \<open>A payload reader takes the sample's buffer and gives \<open>out_len\<close> and the buffer afterwards.\<close>

definition fill_dns_payload_from_ubuf :: "kenv \<Rightarrow> ptr \<Rightarrow> bytes \<Rightarrow> nat \<times> bytes" where
  "fill_dns_payload_from_ubuf env msg out_buf =
     (let base = BPF_CORE_READ env h_msghdr msg (\<lambda>m. ubuf (msg_iter m));
          count = BPF_CORE_READ env h_msghdr msg (\<lambda>m. it_count (msg_iter m))
      in if base = NULL \<or> count = 0 then (0, out_buf)
         else
           (let to_read = (if unat count < DNS_PAYLOAD_LEN then unat count else DNS_PAYLOAD_LEN);
                r = bpf_probe_read_user env to_read base
            in (if r \<noteq> None then to_read else 0, read_into env to_read r 0 out_buf)))"

text \<open>
  The unrolled loop over the iovec array; a break returns, a continue goes on with the next
  index. The 16-byte descriptor holds the base and the length.
\<close>

fun dns_iov_loop :: "kenv \<Rightarrow> ptr \<Rightarrow> int \<Rightarrow> nat list \<Rightarrow> nat \<Rightarrow> bytes \<Rightarrow> nat \<times> bytes" where
  "dns_iov_loop env iov nsegs [] written buf = (written, buf)"
| "dns_iov_loop env iov nsegs (i # is) written buf =
     (if int i \<ge> nsegs then (written, buf)
      else if written \<ge> DNS_PAYLOAD_LEN then (written, buf)
      else case bpf_probe_read_kernel env 16 (iov + of_nat (16 * i)) of
        None \<Rightarrow> (written, buf)
      | Some one \<Rightarrow>
          (let iov_base = le_word (take 8 one) :: ptr; iov_len = le_word (drop 8 one) :: u64 in
           if iov_base = NULL \<or> iov_len = 0 then dns_iov_loop env iov nsegs is written buf
           else
             (let offset = written mod DNS_PAYLOAD_LEN in
              if offset > DNS_PAYLOAD_LEN - DNS_PER_IOV_MAX then (written, buf)
              else
                (let r = bpf_probe_read_user env DNS_PER_IOV_MAX iov_base;
                     buf' = read_into env DNS_PER_IOV_MAX r offset buf
                 in case r of
                      None \<Rightarrow> dns_iov_loop env iov nsegs is written buf'
                    | Some _ \<Rightarrow>
                        (let credit = (if unat iov_len < DNS_PER_IOV_MAX then unat iov_len else DNS_PER_IOV_MAX)
                         in dns_iov_loop env iov nsegs is (written + credit) buf')))))"

definition fill_dns_payload_from_iov_array :: "kenv \<Rightarrow> ptr \<Rightarrow> u64 \<Rightarrow> bytes \<Rightarrow> nat \<times> bytes" where
  "fill_dns_payload_from_iov_array env iov nsegs out_buf =
     dns_iov_loop env iov (sint (ucast nsegs :: s32)) [0..<DNS_MAX_IOVEC_ENTRIES] 0 out_buf"

definition fill_dns_payload_from_iovec_current :: "kenv \<Rightarrow> ptr \<Rightarrow> bytes \<Rightarrow> nat \<times> bytes" where
  "fill_dns_payload_from_iovec_current env msg out_buf =
     fill_dns_payload_from_iov_array env (BPF_CORE_READ env h_msghdr msg (\<lambda>m. uscore_iov (msg_iter m)))
       (BPF_CORE_READ env h_msghdr msg (\<lambda>m. nr_segs (msg_iter m))) out_buf"

definition fill_dns_payload_from_iovec_legacy :: "kenv \<Rightarrow> ptr \<Rightarrow> bytes \<Rightarrow> nat \<times> bytes" where
  "fill_dns_payload_from_iovec_legacy env msg out_buf =
     fill_dns_payload_from_iov_array env (BPF_CORE_READ env h_msghdr msg (\<lambda>m. legacy_iov (msg_iter m)))
       (BPF_CORE_READ env h_msghdr msg (\<lambda>m. nr_segs (msg_iter m))) out_buf"

text \<open>\<open>None\<close> is the return value -1.\<close>

definition fill_dns_payload :: "kenv \<Rightarrow> ptr \<Rightarrow> bytes \<Rightarrow> (nat \<times> bytes) option" where
  "fill_dns_payload env msg out_buf =
     (let type = BPF_CORE_READ env h_msghdr msg (\<lambda>m. iter_type (msg_iter m)) in
      if has_ITER_UBUF (btf env) \<and> type = ITER_UBUF (btf env)
      then Some (fill_dns_payload_from_ubuf env msg out_buf)
      else if type \<noteq> ITER_IOVEC (btf env) then None
      else if has_uscore_iov (btf env) then Some (fill_dns_payload_from_iovec_current env msg out_buf)
      else Some (fill_dns_payload_from_iovec_legacy env msg out_buf))"

section \<open>The destination\<close>

text \<open>A \<open>BPF_CORE_READ\<close> of an address member: its bytes in memory order.\<close>

definition core_read_bytes :: "kenv \<Rightarrow> nat \<Rightarrow> (kheap \<Rightarrow> ptr \<rightharpoonup> 'o) \<Rightarrow> ptr \<Rightarrow> ('o \<Rightarrow> bytes) \<Rightarrow> bytes" where
  "core_read_bytes env n h p member =
     (case h (heap env) p of None \<Rightarrow> fault_fill env n | Some obj \<Rightarrow> member obj)"

text \<open>
  The port in host order and the bytes left in \<open>daddr\<close>. A \<open>sockaddr_in\<close> has 16 bytes with the
  port at 2 and the address at 4, a \<open>sockaddr_in6\<close> 28 bytes with the address at 8.
\<close>

definition dns_msg_dport_v4 :: "kenv \<Rightarrow> ptr \<Rightarrow> ptr \<Rightarrow> bytes \<Rightarrow> u16 \<times> bytes" where
  "dns_msg_dport_v4 env sk msg daddr =
     (let name = BPF_CORE_READ env h_msghdr msg msg_name in
      if name \<noteq> NULL then
        (case bpf_probe_read_kernel env 16 name of
           Some sin \<Rightarrow> if le_word (slice 0 2 sin) = AGENT_AF_INET
                       then (bpf_ntohs (le_word (slice 2 2 sin)), slice 4 4 sin) else (0, daddr)
         | None \<Rightarrow> (0, daddr))
      else (bpf_ntohs (BPF_CORE_READ env h_sock sk skc_dport), core_read_bytes env 4 h_sock sk skc_daddr))"

definition dns_msg_dport_v6 :: "kenv \<Rightarrow> ptr \<Rightarrow> ptr \<Rightarrow> bytes \<Rightarrow> u16 \<times> bytes" where
  "dns_msg_dport_v6 env sk msg daddr =
     (let name = BPF_CORE_READ env h_msghdr msg msg_name in
      if name \<noteq> NULL then
        (case bpf_probe_read_kernel env 28 name of
           Some sin6 \<Rightarrow> if le_word (slice 0 2 sin6) = AGENT_AF_INET6
                        then (bpf_ntohs (le_word (slice 2 2 sin6)), slice 8 16 sin6) else (0, daddr)
         | None \<Rightarrow> (0, daddr))
      else (bpf_ntohs (BPF_CORE_READ env h_sock sk skc_dport), core_read_bytes env 16 h_sock sk skc_v6_daddr))"

section \<open>The samples and the hooks\<close>

definition dns_header :: "kenv \<Rightarrow> u8 \<Rightarrow> u8 \<Rightarrow> u16 \<Rightarrow> u64 \<Rightarrow> dns_sample" where
  "dns_header env source family port cg =
     (st_dns (storage env))
       \<lparr>kind := kind_value SAMPLE_KIND_DNS, dn_source := source, dn_family := family, dn_pad0 := 0,
        dport := port, dn_pad1 := 0, payload_len := 0, ts_ns := ktime_ns env, cgroup_id := cg,
        start_boottime := current_start_boottime env, tgid := current_tgid env, dn_pad2 := 0,
        daddr_v4 := replicate 4 0, daddr_v6 := replicate 16 0\<rparr>"

text \<open>\<open>reserve_dns_sample\<close> with the rest of its caller as continuation, which returns 0 for NULL.\<close>

definition reserve_dns_sample ::
    "kenv \<Rightarrow> u8 \<Rightarrow> u8 \<Rightarrow> u16 \<Rightarrow> u64 \<Rightarrow> (dns_sample \<Rightarrow> bpf_state \<Rightarrow> int \<times> bpf_state) \<Rightarrow> bpf_state \<Rightarrow> int \<times> bpf_state" where
  "reserve_dns_sample env source family port cg rest s =
     (case bpf_ringbuf_reserve env (sizeof_sample SAMPLE_KIND_DNS) s of
        None \<Rightarrow> (0, note_ringbuf_drop env s)
      | Some s' \<Rightarrow> rest (dns_header env source family port cg) s')"

definition finish_dns_sample :: "kenv \<Rightarrow> ptr \<Rightarrow> dns_sample \<Rightarrow> bpf_state \<Rightarrow> int \<times> bpf_state" where
  "finish_dns_sample env msg x s =
     (case fill_dns_payload env msg (payload x) of
        None \<Rightarrow> (0, bpf_ringbuf_discard s)
      | Some (written, buf) \<Rightarrow>
          (0, bpf_ringbuf_submit (DnsSample (x\<lparr>payload := buf, payload_len := of_nat written\<rparr>)) s))"

definition submit_dns_query_v4 :: "kenv \<Rightarrow> u8 \<Rightarrow> ptr \<Rightarrow> ptr \<Rightarrow> u64 \<Rightarrow> bpf_state \<Rightarrow> int \<times> bpf_state" where
  "submit_dns_query_v4 env source sk msg cg s =
     (case dns_msg_dport_v4 env sk msg (replicate 4 0) of
        (port, daddr) \<Rightarrow>
          if port \<noteq> DNS_PORT then (0, s)
          else reserve_dns_sample env source (ucast AGENT_AF_INET) port cg
                 (\<lambda>x. finish_dns_sample env msg (x\<lparr>daddr_v4 := daddr\<rparr>)) s)"

definition submit_dns_query_v6 :: "kenv \<Rightarrow> u8 \<Rightarrow> ptr \<Rightarrow> ptr \<Rightarrow> u64 \<Rightarrow> bpf_state \<Rightarrow> int \<times> bpf_state" where
  "submit_dns_query_v6 env source sk msg cg s =
     (case dns_msg_dport_v6 env sk msg (replicate 16 0) of
        (port, daddr) \<Rightarrow>
          if port \<noteq> DNS_PORT then (0, s)
          else reserve_dns_sample env source (ucast AGENT_AF_INET6) port cg
                 (\<lambda>x. finish_dns_sample env msg (x\<lparr>daddr_v6 := daddr\<rparr>)) s)"

definition handle_udp_sendmsg :: "kenv \<Rightarrow> ptr \<times> ptr \<times> u64 \<Rightarrow> bpf_state \<Rightarrow> int \<times> bpf_state" where
  "handle_udp_sendmsg env = (\<lambda>(sk, msg, len) s.
     if cgroup_is_tracked s (current_cgroup_id env) = 0 then (0, s)
     else submit_dns_query_v4 env DNS_SOURCE_UDP sk msg (current_cgroup_id env) s)"

definition handle_udpv6_sendmsg :: "kenv \<Rightarrow> ptr \<times> ptr \<times> u64 \<Rightarrow> bpf_state \<Rightarrow> int \<times> bpf_state" where
  "handle_udpv6_sendmsg env = (\<lambda>(sk, msg, len) s.
     if cgroup_is_tracked s (current_cgroup_id env) = 0 then (0, s)
     else submit_dns_query_v6 env DNS_SOURCE_UDP sk msg (current_cgroup_id env) s)"

definition handle_tcp_sendmsg :: "kenv \<Rightarrow> ptr \<times> ptr \<times> u64 \<Rightarrow> bpf_state \<Rightarrow> int \<times> bpf_state" where
  "handle_tcp_sendmsg env = (\<lambda>(sk, msg, len) s.
     if cgroup_is_tracked s (current_cgroup_id env) = 0 then (0, s)
     else
       (let family = BPF_CORE_READ env h_sock sk skc_family in
        if family = AGENT_AF_INET then submit_dns_query_v4 env DNS_SOURCE_TCP sk msg (current_cgroup_id env) s
        else if family = AGENT_AF_INET6 then submit_dns_query_v6 env DNS_SOURCE_TCP sk msg (current_cgroup_id env) s
        else (0, s)))"

definition handle_unix_stream_sendmsg :: "kenv \<Rightarrow> ptr \<times> ptr \<times> u64 \<Rightarrow> bpf_state \<Rightarrow> int \<times> bpf_state" where
  "handle_unix_stream_sendmsg env = (\<lambda>(sk0, msg, sz) s.
     if cgroup_is_tracked s (current_cgroup_id env) = 0 then (0, s)
     else
       (let sk = BPF_CORE_READ env h_socket sk0 so_sk in
        if sk = NULL then (0, s)
        else
          (let peer = BPF_CORE_READ env h_sock sk unix_peer in
           if peer = NULL then (0, s)
           else
             (let addr = BPF_CORE_READ env h_sock peer unix_addr in
              if addr = NULL then (0, s)
              else if sint (BPF_CORE_READ env h_unix_address addr ua_len) < 2 + int SYSTEMD_RESOLVED_VARLINK_PATH_LEN
              then (0, s)
              else case bpf_probe_read_kernel env SYSTEMD_RESOLVED_VARLINK_PATH_LEN
                          (BPF_CORE_READ env h_unix_address addr ua_name + 2) of
                None \<Rightarrow> (0, s)
              | Some path_buf \<Rightarrow>
                  if \<exists>i \<in> set [0..<SYSTEMD_RESOLVED_VARLINK_PATH_LEN].
                       path_buf ! i \<noteq> systemd_resolved_target_path ! i
                  then (0, s)
                  else reserve_dns_sample env DNS_SOURCE_SYSTEMD_RESOLVED 0 0 (current_cgroup_id env)
                         (finish_dns_sample env msg) s))))"

section \<open>The payload\<close>

text \<open>
  The specification of the gather. The segments of a send are the non-empty entries before the
  first unreadable descriptor, each with its length and the 256 bytes at its base, if those can
  be read. A gather appends up to 256 bytes of each readable segment and stops once more than
  256 bytes are there, since the next chunk might not fit.
\<close>

fun dns_segments :: "kenv \<Rightarrow> ptr \<Rightarrow> int \<Rightarrow> nat list \<Rightarrow> (nat \<times> bytes option) list" where
  "dns_segments env iov nsegs [] = []"
| "dns_segments env iov nsegs (i # is) =
     (if int i \<ge> nsegs then []
      else case bpf_probe_read_kernel env 16 (iov + of_nat (16 * i)) of
        None \<Rightarrow> []
      | Some one \<Rightarrow>
          (if le_word (take 8 one) = NULL \<or> le_word (drop 8 one) = (0 :: u64)
           then dns_segments env iov nsegs is
           else (unat (le_word (drop 8 one) :: u64), bpf_probe_read_user env 256 (le_word (take 8 one)))
                # dns_segments env iov nsegs is))"

fun dns_gather :: "bytes \<Rightarrow> (nat \<times> bytes option) list \<Rightarrow> bytes" where
  "dns_gather acc [] = acc"
| "dns_gather acc ((n, chunk) # segs) =
     (if length acc > 256 then acc
      else case chunk of
        None \<Rightarrow> dns_gather acc segs
      | Some bs \<Rightarrow> dns_gather (acc @ take n bs) segs)"

lemma dns_gather_full: "length acc > 256 \<Longrightarrow> dns_gather acc segs = acc"
  by (cases segs) auto

lemma dns_gather_bound:
  assumes "length acc \<le> 512" "\<forall>(n, chunk) \<in> set segs. \<forall>bs. chunk = Some bs \<longrightarrow> length bs = 256"
  shows "length (dns_gather acc segs) \<le> 512"
  using assms
proof (induction segs arbitrary: acc)
  case (Cons seg segs)
  obtain n chunk where seg: "seg = (n, chunk)" by (cases seg)
  show ?case
  proof (cases "length acc > 256")
    case True
    with Cons.prems(1) show ?thesis by (simp add: dns_gather_full)
  next
    case False
    show ?thesis
    proof (cases chunk)
      case None
      with False seg Cons show ?thesis by simp
    next
      case (Some bs)
      then have "length bs = 256" using Cons.prems(2) seg by simp
      then have "length (dns_gather (acc @ take n bs) segs) \<le> 512"
        using False Cons.prems by (intro Cons.IH) simp_all
      with False seg Some show ?thesis by simp
    qed
  qed
qed simp

lemma dns_segments_chunks:
  "\<forall>(n, chunk) \<in> set (dns_segments env iov nsegs is). \<forall>bs. chunk = Some bs \<longrightarrow> length bs = 256"
proof (induction "is")
  case (Cons i "is")
  then show ?case
    by (cases "bpf_probe_read_kernel env 16 (iov + of_nat (16 * i))") auto
qed simp

lemma take_blit_append:
  assumes "off + length src \<le> length dst" "k \<le> length src"
  shows "take (off + k) (blit off src dst) = take off dst @ take k src"
  using assms by (simp add: blit_def)

lemma dns_iov_loop_gather:
  assumes "env_wf env" "length buf = 512" "written \<le> 512"
  shows "\<exists>buf'. dns_iov_loop env iov nsegs is written buf =
             (length (dns_gather (take written buf) (dns_segments env iov nsegs is)), buf') \<and>
           length buf' = 512 \<and>
           take (length (dns_gather (take written buf) (dns_segments env iov nsegs is))) buf' =
             dns_gather (take written buf) (dns_segments env iov nsegs is)"
  using assms(2,3)
proof (induction "is" arbitrary: written buf)
  case Nil
  then show ?case by simp
next
  case (Cons i "is")
  show ?case
  proof (cases "int i \<ge> nsegs \<or> bpf_probe_read_kernel env 16 (iov + of_nat (16 * i)) = None \<or> written \<ge> 512")
    case True
    then show ?thesis using Cons.prems by (auto simp: dns_gather_full)
  next
    case False
    then obtain one where one: "bpf_probe_read_kernel env 16 (iov + of_nat (16 * i)) = Some one" by auto
    let ?base = "le_word (take 8 one) :: ptr" and ?len = "le_word (drop 8 one) :: u64"
    show ?thesis
    proof (cases "?base = NULL \<or> ?len = 0")
      case True
      with False one Cons.IH [OF Cons.prems] show ?thesis by (auto simp: Let_def)
    next
      case nonempty: False
      let ?chunk = "bpf_probe_read_user env 256 ?base"
      let ?buf = "read_into env 256 ?chunk written buf"
      show ?thesis
      proof (cases "written > 256")
        case True
        with False one nonempty Cons.prems show ?thesis by (auto simp: Let_def dns_gather_full)
      next
        case fits: False
        show ?thesis
        proof (cases ?chunk)
          case None
          have "length ?buf = 512" "take written ?buf = take written buf"
            using fits Cons.prems assms(1) None by (simp_all add: read_into_def)
          with Cons.IH [of ?buf written] False one nonempty fits None Cons.prems show ?thesis
            by (simp add: Let_def)
        next
          case (Some bs)
          let ?credit = "if unat ?len < 256 then unat ?len else 256"
          have len: "length bs = 256" using Some by simp
          have buf: "length ?buf = 512" "take (written + ?credit) ?buf = take written buf @ take (unat ?len) bs"
            using fits Cons.prems Some len by (auto simp: read_into_def take_blit_append)
          have loop: "dns_iov_loop env iov nsegs (i # is) written buf =
              dns_iov_loop env iov nsegs is (written + ?credit) ?buf"
            using False one nonempty fits Some by (simp add: Let_def)
          have gather: "dns_gather (take written buf) (dns_segments env iov nsegs (i # is)) =
              dns_gather (take (written + ?credit) ?buf) (dns_segments env iov nsegs is)"
            unfolding buf(2) using False one nonempty fits Some Cons.prems by simp
          have "written + ?credit \<le> 512" using fits by simp
          from Cons.IH [OF buf(1) this] show ?thesis unfolding loop gather .
        qed
      qed
    qed
  qed
qed

text \<open>What a payload reader must deliver: the bytes userspace will see.\<close>

definition dns_payload_spec :: "kenv \<Rightarrow> ptr \<Rightarrow> bytes option" where
  "dns_payload_spec env msg =
     (let rd = (\<lambda>f. BPF_CORE_READ env h_msghdr msg (\<lambda>m. f (msg_iter m)));
          type = BPF_CORE_READ env h_msghdr msg (\<lambda>m. iter_type (msg_iter m));
          iov = (if has_uscore_iov (btf env) then rd uscore_iov else rd legacy_iov)
      in if has_ITER_UBUF (btf env) \<and> type = ITER_UBUF (btf env)
         then Some (if rd ubuf = NULL then []
                    else case bpf_probe_read_user env (min (unat (rd it_count)) 512) (rd ubuf) of
                      None \<Rightarrow> [] | Some bs \<Rightarrow> bs)
         else if type = ITER_IOVEC (btf env)
         then Some (dns_gather [] (dns_segments env iov (sint (ucast (rd nr_segs) :: s32)) [0..<8]))
         else None)"

lemma dns_iov_array_payload:
  assumes "env_wf env" "length buf = 512"
  shows "\<exists>buf'. fill_dns_payload_from_iov_array env iov nsegs buf =
           (length (dns_gather [] (dns_segments env iov (sint (ucast nsegs :: s32)) [0..<8])), buf') \<and>
         length buf' = 512 \<and>
         take (length (dns_gather [] (dns_segments env iov (sint (ucast nsegs :: s32)) [0..<8]))) buf' =
           dns_gather [] (dns_segments env iov (sint (ucast nsegs :: s32)) [0..<8])"
  using dns_iov_loop_gather [OF assms, of 0 iov "sint (ucast nsegs :: s32)" "[0..<8]"]
  by (simp add: fill_dns_payload_from_iov_array_def)

lemma dns_ubuf_payload:
  assumes "env_wf env" "length buf = 512"
    and base: "BPF_CORE_READ env h_msghdr msg (\<lambda>m. ubuf (msg_iter m)) = base"
    and count: "BPF_CORE_READ env h_msghdr msg (\<lambda>m. it_count (msg_iter m)) = count"
    and bs: "bs = (if base = NULL then []
        else case bpf_probe_read_user env (min (unat count) 512) base of None \<Rightarrow> [] | Some bs \<Rightarrow> bs)"
  shows "\<exists>buf'. fill_dns_payload_from_ubuf env msg buf = (length bs, buf') \<and> length buf' = 512 \<and>
           take (length bs) buf' = bs \<and> length bs \<le> 512"
proof (cases "base = NULL \<or> count = 0")
  case True
  then have "bs = []" using bs by (auto simp: bpf_probe_read_user_def)
  with True assms(2) show ?thesis
    by (auto simp: fill_dns_payload_from_ubuf_def base count)
next
  case False
  let ?n = "min (unat count) 512"
  have fill: "fill_dns_payload_from_ubuf env msg buf =
      (if bpf_probe_read_user env ?n base \<noteq> None then ?n else 0,
       read_into env ?n (bpf_probe_read_user env ?n base) 0 buf)"
    using False unfolding fill_dns_payload_from_ubuf_def base count Let_def
    by (auto simp: min_def not_less)
  show ?thesis
  proof (cases "bpf_probe_read_user env ?n base")
    case None
    with False bs assms(1,2) show ?thesis unfolding fill by (auto simp: read_into_def)
  next
    case (Some x)
    then have "length x = ?n" by simp
    with Some False bs assms(2) show ?thesis unfolding fill by (simp add: read_into_def blit_0)
  qed
qed

lemma fill_dns_payload_spec:
  assumes "env_wf env" "length buf = 512"
  shows "case dns_payload_spec env msg of
      None \<Rightarrow> fill_dns_payload env msg buf = None
    | Some bs \<Rightarrow> \<exists>buf'. fill_dns_payload env msg buf = Some (length bs, buf') \<and> length buf' = 512 \<and>
        take (length bs) buf' = bs \<and> length bs \<le> 512"
proof -
  have iov: "\<exists>buf'. fill_dns_payload_from_iov_array env iov nsegs buf = (length bs, buf') \<and> length buf' = 512 \<and>
      take (length bs) buf' = bs \<and> length bs \<le> 512"
    if "bs = dns_gather [] (dns_segments env iov (sint (ucast nsegs :: s32)) [0..<8])" for iov nsegs bs
    using dns_iov_array_payload [OF assms, of iov nsegs] dns_gather_bound [of "[]", OF _ dns_segments_chunks] that
    by auto
  show ?thesis
    using dns_ubuf_payload [OF assms refl refl refl] iov
    by (simp add: dns_payload_spec_def fill_dns_payload_def fill_dns_payload_from_iovec_current_def
        fill_dns_payload_from_iovec_legacy_def Let_def)
qed

section \<open>The hooks observe\<close>

lemma dns_header_facts [simp]:
  "kind (dns_header env src fam port cg) = 12" "cgroup_id (dns_header env src fam port cg) = cg"
  "env_wf env \<Longrightarrow> length (payload (dns_header env src fam port cg)) = 512"
  "daddr_v4 (dns_header env src fam port cg) = replicate 4 0"
  "daddr_v6 (dns_header env src fam port cg) = replicate 16 0"
  "dn_source (dns_header env src fam port cg) = src" "dn_family (dns_header env src fam port cg) = fam" "dport (dns_header env src fam port cg) = port"
  by (simp_all add: dns_header_def storage_wfD)

lemma dns_iov_loop_written: "written \<le> 512 \<Longrightarrow> fst (dns_iov_loop env iov nsegs is written buf) \<le> 512"
proof (induction "is" arbitrary: written buf)
  case (Cons i "is")
  then show ?case by (auto simp: Let_def split: option.split)
qed simp

lemma fill_dns_payload_written: "fill_dns_payload env msg buf = Some (written, buf') \<Longrightarrow> written \<le> 512"
  using dns_iov_loop_written [of 0 env _ _ "[0..<8]" buf]
  by (auto simp: fill_dns_payload_def fill_dns_payload_from_ubuf_def fill_dns_payload_from_iovec_current_def
      fill_dns_payload_from_iovec_legacy_def fill_dns_payload_from_iov_array_def Let_def split: if_splits)
    (metis fst_conv)+

lemma finish_dns_body:
  assumes "kind x = 12" "cgroup_id x = current_cgroup_id env"
    and "ok \<Longrightarrow> env_wf env" "ok \<Longrightarrow> length (payload x) = 512" "ok \<Longrightarrow> length (daddr_v4 x) = 4"
      "ok \<Longrightarrow> length (daddr_v6 x) = 16"
  shows "sample_body env ok 0 (finish_dns_sample env msg x)"
  unfolding sample_body_def
proof
  fix s
  show "submits env ok 0 s (finish_dns_sample env msg x s) \<or> discards env ok 0 s (finish_dns_sample env msg x s)"
  proof (cases "fill_dns_payload env msg (payload x)")
    case None
    then show ?thesis by (simp add: finish_dns_sample_def discards_plain)
  next
    case (Some r)
    obtain written buf where r: "r = (written, buf)" by (cases r)
    have "unat (of_nat written :: u32) \<le> 512"
      using fill_dns_payload_written Some r by (simp add: unat_of_nat_le)
    moreover have "ok \<Longrightarrow> length buf = 512"
      using fill_dns_payload_spec [OF assms(3,4), of msg] Some r by (auto split: option.splits)
    ultimately have "submits env ok 0 s
        (0, bpf_ringbuf_submit (DnsSample (x\<lparr>payload := buf, payload_len := of_nat written\<rparr>)) s)"
      using assms by (intro submits_plain) (simp_all add: kind_ok_def)
    with Some r show ?thesis by (simp add: finish_dns_sample_def)
  qed
qed

lemma reserve_dns_eq:
  "reserve_dns_sample env src fam port cg rest s =
     RESERVE_SAMPLE env SAMPLE_KIND_DNS 0 (rest (dns_header env src fam port cg)) s"
  by (simp add: reserve_dns_sample_def RESERVE_SAMPLE_def)

lemma core_read_bytes_length:
  "env_wf env \<Longrightarrow> length (core_read_bytes env 4 h_sock sk skc_daddr) = 4"
  "env_wf env \<Longrightarrow> length (core_read_bytes env 16 h_sock sk skc_v6_daddr) = 16"
  by (auto simp: core_read_bytes_def env_wf_def split: option.split)

lemma dport_v4_length:
  "env_wf env \<Longrightarrow> dns_msg_dport_v4 env sk msg (replicate 4 0) = (port, daddr) \<Longrightarrow> length daddr = 4"
  by (auto simp: dns_msg_dport_v4_def Let_def core_read_bytes_length split: if_splits option.splits)

lemma dport_v6_length:
  "env_wf env \<Longrightarrow> dns_msg_dport_v6 env sk msg (replicate 16 0) = (port, daddr) \<Longrightarrow> length daddr = 16"
  by (auto simp: dns_msg_dport_v6_def Let_def core_read_bytes_length split: if_splits option.splits)

lemma dns_query_gated:
  assumes "tracked_cgroups s (current_cgroup_id env) \<noteq> None"
  shows "gated_form env 0 s (submit_dns_query_v4 env src sk msg (current_cgroup_id env) s)"
    and "gated_form env 0 s (submit_dns_query_v6 env src sk msg (current_cgroup_id env) s)"
  using assms
  by (auto simp: submit_dns_query_v4_def submit_dns_query_v6_def reserve_dns_eq split: prod.split
      dest: dport_v4_length dport_v6_length
      intro!: gated_form.pass gated_form_reserve_now finish_dns_body)

interpretation udp_sendmsg: observer_hook handle_udp_sendmsg 0
  by (rule observer_hookI) (auto simp: handle_udp_sendmsg_def intro!: gated_form.pass dns_query_gated)

interpretation udpv6_sendmsg: observer_hook handle_udpv6_sendmsg 0
  by (rule observer_hookI) (auto simp: handle_udpv6_sendmsg_def intro!: gated_form.pass dns_query_gated)

interpretation tcp_sendmsg: observer_hook handle_tcp_sendmsg 0
  by (rule observer_hookI) (auto simp: handle_tcp_sendmsg_def Let_def intro!: gated_form.pass dns_query_gated)

interpretation unix_stream_sendmsg: observer_hook handle_unix_stream_sendmsg 0
  by (rule observer_hookI)
    (auto simp: handle_unix_stream_sendmsg_def Let_def reserve_dns_eq split: option.split
      intro!: gated_form.pass gated_form_reserve_now finish_dns_body)

section \<open>Properties\<close>

lemma finish_dns_reports:
  assumes "env_wf env" "length (payload x) = 512" "dns_payload_spec env msg = Some bs"
  shows "\<exists>y. finish_dns_sample env msg x s = (0, bpf_ringbuf_submit (DnsSample y) s) \<and>
           cBytes (payload y) (payload_len y) = Some bs \<and> daddr_v4 y = daddr_v4 x \<and> daddr_v6 y = daddr_v6 x \<and>
           dport y = dport x \<and> dn_source y = dn_source x \<and> dn_family y = dn_family x"
proof -
  obtain buf where buf: "fill_dns_payload env msg (payload x) = Some (length bs, buf)"
      "length buf = 512" "take (length bs) buf = bs" "length bs \<le> 512"
    using fill_dns_payload_spec [OF assms(1,2), of msg] assms(3) by auto
  let ?y = "x\<lparr>payload := buf, payload_len := of_nat (length bs)\<rparr>"
  have "cBytes (payload ?y) (payload_len ?y) = Some bs"
    using buf(2-4) by (simp add: cBytes_def unat_u32_of_nat)
  then show ?thesis by (intro exI [of _ ?y]) (simp add: finish_dns_sample_def buf(1))
qed

text \<open>
  Where a send goes, in terms of the kernel's objects: the socket address the caller gave, which
  starts with the family and the port in network order, or else the peer of the connected socket.
\<close>

definition sent_to_v4 :: "kenv \<Rightarrow> ptr \<Rightarrow> ptr \<Rightarrow> nat \<Rightarrow> bytes \<Rightarrow> bool" where
  "sent_to_v4 env sk msg port addr \<longleftrightarrow>
     (\<exists>m hi lo. h_msghdr (heap env) msg = Some m \<and> port = 256 * unat hi + unat lo \<and> length addr = 4 \<and>
       (if msg_name m \<noteq> NULL
        then \<exists>pad. length pad = 8 \<and> read_bytes (kmem env) (msg_name m) 16 = Some ([2, 0, hi, lo] @ addr @ pad)
        else \<exists>k. h_sock (heap env) sk = Some k \<and> skc_dport k = le_word [hi, lo] \<and> skc_daddr k = addr))"

definition sent_to_v6 :: "kenv \<Rightarrow> ptr \<Rightarrow> ptr \<Rightarrow> nat \<Rightarrow> bytes \<Rightarrow> bool" where
  "sent_to_v6 env sk msg port addr \<longleftrightarrow>
     (\<exists>m hi lo. h_msghdr (heap env) msg = Some m \<and> port = 256 * unat hi + unat lo \<and> length addr = 16 \<and>
       (if msg_name m \<noteq> NULL
        then \<exists>flow scope. length flow = 4 \<and> length scope = 4 \<and>
          read_bytes (kmem env) (msg_name m) 28 = Some ([10, 0, hi, lo] @ flow @ addr @ scope)
        else \<exists>k. h_sock (heap env) sk = Some k \<and> skc_dport k = le_word [hi, lo] \<and> skc_v6_daddr k = addr))"

lemma sent_to_v4_dport:
  assumes "sent_to_v4 env sk msg port addr"
  obtains w where "dns_msg_dport_v4 env sk msg d = (w, addr)" "unat w = port"
proof -
  obtain m hi lo where m: "h_msghdr (heap env) msg = Some m" "port = 256 * unat hi + unat lo" "length addr = 4" and
    dest: "if msg_name m \<noteq> NULL
      then \<exists>pad. length pad = 8 \<and> read_bytes (kmem env) (msg_name m) 16 = Some ([2, 0, hi, lo] @ addr @ pad)
      else \<exists>k. h_sock (heap env) sk = Some k \<and> skc_dport k = le_word [hi, lo] \<and> skc_daddr k = addr"
    using assms unfolding sent_to_v4_def by blast
  have "dns_msg_dport_v4 env sk msg d = (bpf_ntohs (le_word [hi, lo]), addr)"
    using m dest by (auto simp: dns_msg_dport_v4_def bpf_probe_read_kernel_def slice_def core_read_bytes_def Let_def
        split: if_splits)
  then show thesis using that m(2) ntohs_le_word by metis
qed

lemma sent_to_v6_dport:
  assumes "sent_to_v6 env sk msg port addr"
  obtains w where "dns_msg_dport_v6 env sk msg d = (w, addr)" "unat w = port"
proof -
  obtain m hi lo where m: "h_msghdr (heap env) msg = Some m" "port = 256 * unat hi + unat lo" "length addr = 16" and
    dest: "if msg_name m \<noteq> NULL
      then \<exists>flow scope. length flow = 4 \<and> length scope = 4 \<and>
        read_bytes (kmem env) (msg_name m) 28 = Some ([10, 0, hi, lo] @ flow @ addr @ scope)
      else \<exists>k. h_sock (heap env) sk = Some k \<and> skc_dport k = le_word [hi, lo] \<and> skc_v6_daddr k = addr"
    using assms unfolding sent_to_v6_def by blast
  have "dns_msg_dport_v6 env sk msg d = (bpf_ntohs (le_word [hi, lo]), addr)"
    using m dest by (auto simp: dns_msg_dport_v6_def bpf_probe_read_kernel_def slice_def core_read_bytes_def Let_def
        split: if_splits)
  then show thesis using that m(2) ntohs_le_word by metis
qed

text \<open>
  What a program must have done with a send: nothing unless the port is 53, and then one record with
  the transport, the address family, the port, the address and the payload.
\<close>

definition query_reported :: "u8 \<Rightarrow> u8 \<Rightarrow> (dns_sample \<Rightarrow> bytes) \<Rightarrow> nat \<Rightarrow> bytes \<Rightarrow> bytes \<Rightarrow> bpf_state \<Rightarrow> int \<times> bpf_state \<Rightarrow> bool" where
  "query_reported source family daddr port addr bs s r \<longleftrightarrow>
     (if port = 53
      then \<exists>x. events (snd r) = events s @ [DnsSample x] \<and> fst r = 0 \<and> dn_source x = source \<and> dn_family x = family \<and>
             dport x = 53 \<and> daddr x = addr \<and> cBytes (payload x) (payload_len x) = Some bs
      else r = (0, s))"

lemma submit_query_v4:
  assumes "env_wf env" "ringbuf_space env (sizeof_sample SAMPLE_KIND_DNS)" "sent_to_v4 env sk msg port addr"
    "dns_payload_spec env msg = Some bs"
  shows "query_reported source 2 daddr_v4 port addr bs s (submit_dns_query_v4 env source sk msg cg s)"
proof -
  obtain w where w: "dns_msg_dport_v4 env sk msg (replicate 4 0) = (w, addr)" "unat w = port"
    using sent_to_v4_dport [OF assms(3)] by blast
  have port: "port = 53 \<longleftrightarrow> w = 53" using w(2) by (auto simp: word_unat_eq_iff)
  let ?x = "(dns_header env source (ucast AGENT_AF_INET) 53 cg)\<lparr>daddr_v4 := addr\<rparr>"
  have "length (payload ?x) = 512" using assms(1) by simp
  from finish_dns_reports [OF assms(1) this assms(4), of "s\<lparr>reserved := reserved s + 1\<rparr>"] show ?thesis
    using w(1) port assms(2) by (cases "w = 53") (auto simp: query_reported_def submit_dns_query_v4_def reserve_dns_eq
        RESERVE_SAMPLE_cases bpf_ringbuf_submit_def)
qed

lemma submit_query_v6:
  assumes "env_wf env" "ringbuf_space env (sizeof_sample SAMPLE_KIND_DNS)" "sent_to_v6 env sk msg port addr"
    "dns_payload_spec env msg = Some bs"
  shows "query_reported source 10 daddr_v6 port addr bs s (submit_dns_query_v6 env source sk msg cg s)"
proof -
  obtain w where w: "dns_msg_dport_v6 env sk msg (replicate 16 0) = (w, addr)" "unat w = port"
    using sent_to_v6_dport [OF assms(3)] by blast
  have port: "port = 53 \<longleftrightarrow> w = 53" using w(2) by (auto simp: word_unat_eq_iff)
  let ?x = "(dns_header env source (ucast AGENT_AF_INET6) 53 cg)\<lparr>daddr_v6 := addr\<rparr>"
  have "length (payload ?x) = 512" using assms(1) by simp
  from finish_dns_reports [OF assms(1) this assms(4), of "s\<lparr>reserved := reserved s + 1\<rparr>"] show ?thesis
    using w(1) port assms(2) by (cases "w = 53") (auto simp: query_reported_def submit_dns_query_v6_def reserve_dns_eq
        RESERVE_SAMPLE_cases bpf_ringbuf_submit_def)
qed

text \<open>
  C13: DNS queries are reported, over UDP and TCP, IPv4 and IPv6.  When a task of a tracked cgroup
  sends to port 53, to the address it passed or to the peer of its connected socket, one record is
  submitted with the transport, the family, that address and, as payload, the bytes of the bounded
  gather: of a plain user buffer its first 512 bytes; of up to eight iovec entries the first 256 bytes
  of each one after the other, skipping an entry whose 256-byte window cannot be read, until more than
  256 bytes are there.  So an entry longer than 256 bytes is cut and the next one follows directly.
  The payload never exceeds the 512-byte field, and a send to any other port leaves no record.
\<close>

theorem dns_query_reported:
  assumes "env_wf env" "tracked_cgroups s (current_cgroup_id env) \<noteq> None" "ringbuf_space env (sizeof_sample SAMPLE_KIND_DNS)"
    and "dns_payload_spec env msg = Some bs"
  shows "length bs \<le> 512 \<and>
    (\<forall>port addr. sent_to_v4 env sk msg port addr \<longrightarrow>
      query_reported 0 2 daddr_v4 port addr bs s (handle_udp_sendmsg env (sk, msg, len) s) \<and>
      (BPF_CORE_READ env h_sock sk skc_family = 2 \<longrightarrow>
        query_reported 1 2 daddr_v4 port addr bs s (handle_tcp_sendmsg env (sk, msg, len) s))) \<and>
    (\<forall>port addr. sent_to_v6 env sk msg port addr \<longrightarrow>
      query_reported 0 10 daddr_v6 port addr bs s (handle_udpv6_sendmsg env (sk, msg, len) s) \<and>
      (BPF_CORE_READ env h_sock sk skc_family = 10 \<longrightarrow>
        query_reported 1 10 daddr_v6 port addr bs s (handle_tcp_sendmsg env (sk, msg, len) s)))"
proof -
  have "length bs \<le> 512"
    using fill_dns_payload_spec [OF assms(1), of "zeros 512" msg] assms(4) by auto
  moreover have "handle_udp_sendmsg env (sk, msg, len) s = submit_dns_query_v4 env 0 sk msg (current_cgroup_id env) s"
    "handle_udpv6_sendmsg env (sk, msg, len) s = submit_dns_query_v6 env 0 sk msg (current_cgroup_id env) s"
    "BPF_CORE_READ env h_sock sk skc_family = 2 \<Longrightarrow>
      handle_tcp_sendmsg env (sk, msg, len) s = submit_dns_query_v4 env 1 sk msg (current_cgroup_id env) s"
    "BPF_CORE_READ env h_sock sk skc_family = 10 \<Longrightarrow>
      handle_tcp_sendmsg env (sk, msg, len) s = submit_dns_query_v6 env 1 sk msg (current_cgroup_id env) s"
    using assms(2) by (auto simp: handle_udp_sendmsg_def handle_udpv6_sendmsg_def handle_tcp_sendmsg_def)
  ultimately show ?thesis
    using submit_query_v4 [OF assms(1,3) _ assms(4)] submit_query_v6 [OF assms(1,3) _ assms(4)] by simp
qed

text \<open>
  A send as an iovec array of at most eight entries, each with between one and 256 readable bytes, of
  which all but the last have at most 256 bytes together.
\<close>

definition iov_of :: "kenv \<Rightarrow> ptr \<Rightarrow> ptr" where
  "iov_of env msg = (if has_uscore_iov (btf env) then BPF_CORE_READ env h_msghdr msg (\<lambda>m. uscore_iov (msg_iter m))
     else BPF_CORE_READ env h_msghdr msg (\<lambda>m. legacy_iov (msg_iter m)))"

definition short_iov_send :: "kenv \<Rightarrow> ptr \<Rightarrow> (ptr \<times> bytes) list \<Rightarrow> bool" where
  "short_iov_send env msg parts \<longleftrightarrow>
     length parts \<le> 8 \<and> BPF_CORE_READ env h_msghdr msg (\<lambda>m. nr_segs (msg_iter m)) = of_nat (length parts) \<and>
     (\<forall>i < length parts. \<exists>one. read_bytes (kmem env) (iov_of env msg + of_nat (16 * i)) 16 = Some one \<and>
        le_word (take 8 one) = fst (parts ! i) \<and> unat (le_word (drop 8 one) :: u64) = length (snd (parts ! i))) \<and>
     (\<forall>(base, bs) \<in> set parts. base \<noteq> NULL \<and> bs \<noteq> [] \<and> length bs \<le> 256 \<and>
        read_bytes (umem env) base (length bs) = Some bs) \<and>
     length (concat (map snd (butlast parts))) \<le> 256"

lemma short_iov_length: "short_iov_send env msg parts \<Longrightarrow> length parts \<le> 8"
  unfolding short_iov_send_def by (elim conjE)

lemma short_iov_part:
  assumes "short_iov_send env msg parts" "(base, bs) \<in> set parts"
  shows "base \<noteq> NULL" "bs \<noteq> []" "length bs \<le> 256" "read_bytes (umem env) base (length bs) = Some bs"
proof -
  have "\<forall>(base, bs) \<in> set parts. base \<noteq> NULL \<and> bs \<noteq> [] \<and> length bs \<le> 256 \<and>
      read_bytes (umem env) base (length bs) = Some bs"
    using assms(1) unfolding short_iov_send_def by (elim conjE)
  from bspec [OF this assms(2)]
  show "base \<noteq> NULL" "bs \<noteq> []" "length bs \<le> 256" "read_bytes (umem env) base (length bs) = Some bs"
    by (simp_all del: length_read_bytes)
qed

text \<open>The parts whose whole 256-byte window is readable memory.\<close>

definition captured_parts :: "kenv \<Rightarrow> (ptr \<times> bytes) list \<Rightarrow> bytes" where
  "captured_parts env parts = concat (map snd (filter (\<lambda>(base, bs). read_bytes (umem env) base 256 \<noteq> None) parts))"

lemma short_iov_segments:
  assumes "short_iov_send env msg parts" "j \<le> length parts"
  shows "dns_segments env (iov_of env msg) (int (length parts)) [j..<8] =
    map (\<lambda>(base, bs). (length bs, read_bytes (umem env) base 256)) (drop j parts)"
  using assms(2)
proof (induction "length parts - j" arbitrary: j)
  case 0
  then show ?case by (cases "j < 8") (simp_all add: upt_conv_Cons)
next
  case (Suc d)
  obtain base bs where part: "parts ! j = (base, bs)" by (cases "parts ! j")
  have j: "j < length parts" using Suc.hyps(2) by simp
  then have "(base, bs) \<in> set parts" using part by (metis nth_mem)
  then have nonempty: "base \<noteq> NULL" "bs \<noteq> []" using short_iov_part [OF assms(1)] by blast+
  obtain one where one: "read_bytes (kmem env) (iov_of env msg + of_nat (16 * j)) 16 = Some one"
    "le_word (take 8 one) = base" "unat (le_word (drop 8 one) :: u64) = length bs"
  proof -
    have "\<forall>i < length parts. \<exists>one. read_bytes (kmem env) (iov_of env msg + of_nat (16 * i)) 16 = Some one \<and>
        le_word (take 8 one) = fst (parts ! i) \<and> unat (le_word (drop 8 one) :: u64) = length (snd (parts ! i))"
      using assms(1) unfolding short_iov_send_def by (elim conjE)
    then show thesis using that j part by fastforce
  qed
  then have len: "le_word (drop 8 one) \<noteq> (0 :: u64)" using nonempty(2) by (metis length_0_conv unat_eq_0)
  have "[j..<8] = j # [Suc j..<8]" using short_iov_length [OF assms(1)] j by (simp add: upt_conv_Cons)
  moreover have "dns_segments env (iov_of env msg) (int (length parts)) [Suc j..<8] =
      map (\<lambda>(base, bs). (length bs, read_bytes (umem env) base 256)) (drop (Suc j) parts)"
    using Suc by (intro Suc.hyps(1)) simp_all
  ultimately show ?case
    using one len nonempty j part
    by (simp add: bpf_probe_read_kernel_def bpf_probe_read_user_def Cons_nth_drop_Suc [symmetric])
qed

lemma gather_short_parts:
  assumes "\<forall>(base, bs) \<in> set parts. length bs \<le> 256 \<and> read_bytes (umem env) base (length bs) = Some bs"
    "length acc + length (concat (map snd (butlast parts))) \<le> 256"
  shows "dns_gather acc (map (\<lambda>(base, bs). (length bs, read_bytes (umem env) base 256)) parts) = acc @ captured_parts env parts"
  using assms
proof (induction parts arbitrary: acc)
  case (Cons part parts)
  obtain base bs where part: "part = (base, bs)" by (cases part)
  let ?segs = "map (\<lambda>(base, bs). (length bs, read_bytes (umem env) base 256)) parts"
  have acc: "length acc \<le> 256" using Cons.prems(2) by simp
  have part_ok: "length bs \<le> 256" "read_bytes (umem env) base (length bs) = Some bs"
    and parts_ok: "\<forall>(base, bs) \<in> set parts. length bs \<le> 256 \<and> read_bytes (umem env) base (length bs) = Some bs"
    using Cons.prems(1) by (simp_all add: part del: length_read_bytes)
  have IH: "dns_gather a ?segs = a @ captured_parts env parts" if "length a \<le> length acc + length bs" for a
  proof (cases "parts = []")
    case True
    then show ?thesis by (simp add: captured_parts_def)
  next
    case False
    then have "length a + length (concat (map snd (butlast parts))) \<le> 256" using Cons.prems(2) part that by simp
    from Cons.IH [OF parts_ok this] show ?thesis .
  qed
  show ?case
  proof (cases "read_bytes (umem env) base 256")
    case None
    then show ?thesis using IH [of acc] acc by (simp add: captured_parts_def part)
  next
    case (Some window)
    have "take (length bs) window = bs" using read_bytes_prefix [OF Some part_ok(1)] part_ok(2) by (metis option.inject)
    then show ?thesis using IH [of "acc @ bs"] acc Some by (simp add: captured_parts_def part)
  qed
qed (simp add: captured_parts_def)

lemma short_iov_payload:
  assumes "short_iov_send env msg parts" "ITER_IOVEC (btf env) \<noteq> ITER_UBUF (btf env)"
    "BPF_CORE_READ env h_msghdr msg (\<lambda>m. iter_type (msg_iter m)) = ITER_IOVEC (btf env)"
  shows "dns_payload_spec env msg = Some (captured_parts env parts)"
proof -
  have n: "BPF_CORE_READ env h_msghdr msg (\<lambda>m. nr_segs (msg_iter m)) = of_nat (length parts)" "length parts \<le> 8"
    using assms(1) short_iov_length unfolding short_iov_send_def by blast+
  have "sint (ucast (of_nat k :: u64) :: s32) = int k" if "k \<in> set [0..<9]" for k
    using that by (simp add: upt_conv_Cons) (elim disjE; simp)
  then have "sint (ucast (of_nat (length parts) :: u64) :: s32) = int (length parts)" using n(2) by simp
  moreover have "dns_gather [] (dns_segments env (iov_of env msg) (int (length parts)) [0..<8]) = captured_parts env parts"
  proof -
    have "\<forall>(base, bs) \<in> set parts. length bs \<le> 256 \<and> read_bytes (umem env) base (length bs) = Some bs"
      using short_iov_part [OF assms(1)] by blast
    moreover have "length [] + length (concat (map snd (butlast parts))) \<le> 256"
      using assms(1) unfolding short_iov_send_def by (elim conjE) simp
    ultimately show ?thesis
      using short_iov_segments [OF assms(1), of 0] gather_short_parts [of parts env "[]"] by simp
  qed
  ultimately show ?thesis using assms(2,3) n(1) by (simp add: dns_payload_spec_def Let_def iov_of_def)
qed

lemma ubuf_payload:
  assumes "has_ITER_UBUF (btf env)" "BPF_CORE_READ env h_msghdr msg (\<lambda>m. iter_type (msg_iter m)) = ITER_UBUF (btf env)"
    "BPF_CORE_READ env h_msghdr msg (\<lambda>m. ubuf (msg_iter m)) = base" "base \<noteq> NULL"
    "BPF_CORE_READ env h_msghdr msg (\<lambda>m. it_count (msg_iter m)) = n" "read_bytes (umem env) base (unat n) = Some sent"
  shows "dns_payload_spec env msg = Some (take 512 sent)"
proof -
  have "read_bytes (umem env) base (min (unat n) 512) = Some (take (min (unat n) 512) sent)"
    by (rule read_bytes_prefix [OF assms(6)]) simp
  moreover have "take (min (unat n) 512) sent = take 512 sent" using length_read_bytes [OF assms(6)] by (auto simp: min_def)
  ultimately show ?thesis using assms by (simp add: dns_payload_spec_def Let_def bpf_probe_read_user_def)
qed

lemma short_iov_complete:
  assumes "short_iov_send env msg parts"
  shows "concat (map snd (filter (\<lambda>(base, bs). read_bytes (umem env) base 256 \<noteq> None) parts)) = concat (map snd parts) \<longleftrightarrow>
    (\<forall>(base, bs) \<in> set parts. read_bytes (umem env) base 256 \<noteq> None)"
proof -
  have shorter: "length (concat (map snd (filter P ps))) < length (concat (map snd ps))"
    if "\<forall>(base, bs) \<in> set ps. bs \<noteq> []" "p \<in> set ps" "\<not> P p" for P and ps :: "(ptr \<times> bytes) list" and p
    using that
  proof (induction ps)
    case (Cons q ps)
    have le: "length (concat (map snd (filter P ps))) \<le> length (concat (map snd ps))" by (induction ps) auto
    show ?case
    proof (cases "P q")
      case True
      then show ?thesis using Cons by auto
    next
      case False
      have "snd q \<noteq> []" using Cons.prems(1) by (cases q) simp
      then have "length (concat (map snd ps)) < length (concat (map snd (q # ps)))" by simp
      with le False show ?thesis by (simp only: filter.simps if_False)
    qed
  qed simp
  have "\<forall>(base, bs) \<in> set parts. bs \<noteq> []" using short_iov_part [OF assms] by blast
  then show ?thesis using shorter [of parts _ "\<lambda>(base, bs). read_bytes (umem env) base 256 \<noteq> None"]
    by (metis (mono_tags, lifting) filter_True less_irrefl)
qed

text \<open>
  C14: Ordinary queries are captured.  A send as one readable user buffer leaves its first 512 bytes, and
  their number, in the payload.  A send as at most eight iovec entries of one to 256 readable bytes, all
  but the last with at most 256 bytes together, leaves exactly the bytes of those entries whose whole
  256-byte window is readable: the program always reads 256 bytes at an entry's base, so a query that
  ends close to the end of its mapping is lost, and a complete query is captured exactly when
  every entry has its window.
\<close>

theorem short_dns_send_complete:
  assumes "env_wf env" "length buf = DNS_PAYLOAD_LEN" "ITER_IOVEC (btf env) \<noteq> ITER_UBUF (btf env)"
    and "BPF_CORE_READ env h_msghdr msg (\<lambda>m. iter_type (msg_iter m)) = ty"
    and "has_ITER_UBUF (btf env) \<and> ty = ITER_UBUF (btf env) \<and>
      BPF_CORE_READ env h_msghdr msg (\<lambda>m. ubuf (msg_iter m)) = base \<and> base \<noteq> NULL \<and>
      BPF_CORE_READ env h_msghdr msg (\<lambda>m. it_count (msg_iter m)) = n \<and>
      read_bytes (umem env) base (unat n) = Some sent \<and> got = take 512 sent \<or>
     ty = ITER_IOVEC (btf env) \<and> short_iov_send env msg parts \<and> sent = concat (map snd parts) \<and>
      got = concat (map snd (filter (\<lambda>(base, bs). read_bytes (umem env) base 256 \<noteq> None) parts))"
  shows "(\<exists>buf'. fill_dns_payload env msg buf = Some (length got, buf') \<and> take (length got) buf' = got) \<and>
    (ty = ITER_IOVEC (btf env) \<longrightarrow>
      (got = sent \<longleftrightarrow> (\<forall>(base, bs) \<in> set parts. read_bytes (umem env) base 256 \<noteq> None)))"
proof -
  have spec: "dns_payload_spec env msg = Some got"
    using assms(5)
  proof (elim disjE conjE)
    assume "ty = ITER_IOVEC (btf env)" "short_iov_send env msg parts"
      "got = concat (map snd (filter (\<lambda>(base, bs). read_bytes (umem env) base 256 \<noteq> None) parts))"
    then show ?thesis using short_iov_payload [of env msg parts] assms(3,4) by (simp add: captured_parts_def)
  qed (use ubuf_payload [of env msg base n sent] assms(4) in simp)
  have "got = sent \<longleftrightarrow> (\<forall>(base, bs) \<in> set parts. read_bytes (umem env) base 256 \<noteq> None)" if "ty = ITER_IOVEC (btf env)"
  proof -
    from assms(3,5) that have parts: "short_iov_send env msg parts" "sent = concat (map snd parts)"
      "got = concat (map snd (filter (\<lambda>(base, bs). read_bytes (umem env) base 256 \<noteq> None) parts))" by metis+
    show ?thesis unfolding parts(2,3) by (rule short_iov_complete [OF parts(1)])
  qed
  with fill_dns_payload_spec [OF assms(1), of buf msg] assms(2) spec show ?thesis by auto
qed

text \<open>
  Beyond that the payload is not a prefix of the send: after a segment of more than 256 bytes the
  next segment follows its first 256 bytes directly.
\<close>

lemma dns_gather_skips_rest_of_long_segment:
  assumes "length a = 256" "length b = 256" "n > 256"
  shows "dns_gather [] [(n, Some a), (m, Some b)] = a @ take m b"
  using assms by simp

text \<open>A five-byte send on a socket connected to port 53 of 10.0.0.1.\<close>

definition dns_env :: kenv where
  "dns_env = quiet_env\<lparr>umem := memory_at 7000 [1, 2, 3, 4, 5],
     heap := empty_heap\<lparr>
       h_msghdr := [20 \<mapsto> \<lparr>msg_name = NULL, msg_iter = \<lparr>iter_type = 0, ubuf = 7000, it_count = 5,
                          nr_segs = 0, uscore_iov = NULL, legacy_iov = NULL\<rparr>\<rparr>],
       h_sock := [9 \<mapsto> \<lparr>skc_family = 2, skc_dport = 0x3500, skc_daddr = [10, 0, 0, 1], skc_v6_daddr = zeros 16,
                         unix_peer = NULL, unix_addr = NULL\<rparr>]\<rparr>\<rparr>"

lemma dns_env_facts [simp]:
  "env_wf dns_env" "current_cgroup_id dns_env = 7" "ringbuf_space dns_env n" "btf dns_env = recent_btf"
  "BPF_CORE_READ dns_env h_msghdr 20 (\<lambda>m. iter_type (msg_iter m)) = 0"
  "BPF_CORE_READ dns_env h_msghdr 20 (\<lambda>m. ubuf (msg_iter m)) = 7000"
  "BPF_CORE_READ dns_env h_msghdr 20 (\<lambda>m. it_count (msg_iter m)) = 5"
  by (simp_all add: dns_env_def current_cgroup_id_def env_wf_def)

lemma dns_env_read: "read_bytes (umem dns_env) 7000 5 = Some [1, 2, 3, 4, 5]"
  using read_bytes_memory_at [of 5 "[1, 2, 3, 4, 5]" 7000] by (simp add: dns_env_def)

lemma dns_env_payload: "dns_payload_spec dns_env 20 = Some [1, 2, 3, 4, 5]"
  by (simp add: dns_payload_spec_def bpf_probe_read_user_def dns_env_read)

lemma dns_env_destination: "sent_to_v4 dns_env 9 20 53 [10, 0, 0, 1]"
  unfolding sent_to_v4_def
  by (rule exI [of _ "the (h_msghdr (heap dns_env) 20)"], rule exI [of _ 0], rule exI [of _ 53]) (simp add: dns_env_def)

theorem dns_query_reported_witness:
  "\<exists>x. events (snd (handle_udp_sendmsg dns_env (9, 20, 5) one_tracked)) = [DnsSample x] \<and>
       cBytes (payload x) (payload_len x) = Some [1, 2, 3, 4, 5] \<and> daddr_v4 x = [10, 0, 0, 1]"
proof -
  have "env_wf dns_env" "tracked_cgroups one_tracked (current_cgroup_id dns_env) \<noteq> None" "events one_tracked = []"
    by (simp_all add: one_tracked_def loaded_state_def)
  then have "query_reported 0 2 daddr_v4 53 [10, 0, 0, 1] [1, 2, 3, 4, 5] one_tracked
      (handle_udp_sendmsg dns_env (9, 20, 5) one_tracked)"
    using dns_query_reported [OF _ _ dns_env_facts(3) dns_env_payload] dns_env_destination by blast
  then show ?thesis using \<open>events one_tracked = []\<close> by (auto simp: query_reported_def)
qed

text \<open>The same five bytes as the only entry of an iovec array, with room behind them and without.\<close>

definition dns_iov_env :: "nat \<Rightarrow> kenv" where
  "dns_iov_env room = dns_env\<lparr>umem := memory_at 7000 ([1, 2, 3, 4, 5] @ zeros room),
     kmem := memory_at 8000 [0x58, 0x1B, 0, 0, 0, 0, 0, 0, 5, 0, 0, 0, 0, 0, 0, 0],
     heap := (heap dns_env)\<lparr>h_msghdr := [20 \<mapsto> \<lparr>msg_name = NULL, msg_iter = \<lparr>iter_type = 1, ubuf = NULL, it_count = 0,
       nr_segs = 1, uscore_iov = 8000, legacy_iov = NULL\<rparr>\<rparr>]\<rparr>\<rparr>"

lemma dns_iov_send: "room < 1000 \<Longrightarrow> short_iov_send (dns_iov_env room) 20 [(7000, [1, 2, 3, 4, 5])]"
proof -
  assume "room < 1000"
  then have bytes: "read_bytes (umem (dns_iov_env room)) 7000 5 = Some [1, 2, 3, 4, 5]"
    using read_bytes_memory_at [of 5 "[1, 2, 3, 4, 5] @ zeros room" 7000] by (simp add: dns_iov_env_def zeros_def)
  have one: "read_bytes (kmem (dns_iov_env room)) 8000 16 = Some [0x58, 0x1B, 0, 0, 0, 0, 0, 0, 5, 0, 0, 0, 0, 0, 0, 0]"
    using read_bytes_memory_at [of 16 "[0x58, 0x1B, 0, 0, 0, 0, 0, 0, 5, 0, 0, 0, 0, 0, 0, 0]" 8000]
    by (simp add: dns_iov_env_def)
  have "BPF_CORE_READ (dns_iov_env room) h_msghdr 20 (\<lambda>m. nr_segs (msg_iter m)) = 1" "iov_of (dns_iov_env room) 20 = 8000"
    by (simp_all add: iov_of_def dns_iov_env_def dns_env_def recent_btf_def)
  moreover have "read_bytes (umem (dns_iov_env room)) 7000 (Suc (Suc (Suc (Suc (Suc 0))))) = Some [1, 2, 3, 4, 5]"
    using bytes by (simp add: eval_nat_numeral del: read_bytes.simps)
  ultimately show ?thesis using one by (simp add: short_iov_send_def del: read_bytes.simps)
qed

theorem short_dns_send_complete_witness:
  "(\<exists>buf'. fill_dns_payload dns_env 20 (zeros 512) = Some (5, buf') \<and> take 5 buf' = [1, 2, 3, 4, 5]) \<and>
   (\<exists>buf'. fill_dns_payload (dns_iov_env 251) 20 (zeros 512) = Some (5, buf') \<and> take 5 buf' = [1, 2, 3, 4, 5]) \<and>
   (\<exists>buf'. fill_dns_payload (dns_iov_env 0) 20 (zeros 512) = Some (0, buf'))"
proof (intro conjI)
  have five: "5 = Suc (Suc (Suc (Suc (Suc 0))))" by simp
  show "\<exists>buf'. fill_dns_payload dns_env 20 (zeros 512) = Some (5, buf') \<and> take 5 buf' = [1, 2, 3, 4, 5]"
    using short_dns_send_complete [of dns_env "zeros 512" 20 0 7000 5 "[1, 2, 3, 4, 5]"] dns_env_read
    by (simp, simp only: five)
  have facts: "env_wf (dns_iov_env room)" "btf (dns_iov_env room) = recent_btf"
    "BPF_CORE_READ (dns_iov_env room) h_msghdr 20 (\<lambda>m. iter_type (msg_iter m)) = 1" for room
    using dns_env_facts(1) by (simp_all add: dns_iov_env_def env_wf_def dns_env_def)
  have "read_bytes (umem (dns_iov_env 251)) 7000 256 \<noteq> None"
    using read_bytes_memory_at [of 256 "[1, 2, 3, 4, 5] @ zeros 251" 7000] by (simp add: dns_iov_env_def zeros_def)
  then show "\<exists>buf'. fill_dns_payload (dns_iov_env 251) 20 (zeros 512) = Some (5, buf') \<and> take 5 buf' = [1, 2, 3, 4, 5]"
    using short_dns_send_complete [OF facts(1) _ _ facts(3), of "zeros 512" 251 _ _ _ "[1, 2, 3, 4, 5]" "[(7000, [1, 2, 3, 4, 5])]"]
      dns_iov_send [of 251] facts(2) by (simp, simp only: five)
  have "umem (dns_iov_env 0) (7000 + of_nat 5) = None"
    by (simp add: dns_iov_env_def memory_at_def zeros_def)
  then have "read_bytes (umem (dns_iov_env 0)) 7000 256 = None"
    using read_bytes_nth [of "umem (dns_iov_env 0)" 7000 256 _ 5] by (cases "read_bytes (umem (dns_iov_env 0)) 7000 256") auto
  then show "\<exists>buf'. fill_dns_payload (dns_iov_env 0) 20 (zeros 512) = Some (0, buf')"
    using short_dns_send_complete [OF facts(1) _ _ facts(3), of "zeros 512" 0 _ _ "[1, 2, 3, 4, 5]" "[]" "[(7000, [1, 2, 3, 4, 5])]"]
      dns_iov_send [of 0] facts(2) by simp
qed

end
