(* ===== verification/Http_Parse.thy ===== *)
theory Http_Parse
  imports Cgroup_Tracking Decode_Helpers
begin

text \<open>
  The HTTP/1 request parser of \<open>http_helpers.bpf.h\<close>, which works in steps on the per-CPU
  workspace \<open>http_scratch\<close>, and a reference parser on the captured bytes. The steps compute
  what the reference parser says, and nothing of the workspace beyond the captured bytes
  enters the result.
\<close>

unbundle bit_operations_syntax

abbreviation ch :: "char \<Rightarrow> u8" where "ch c \<equiv> of_char c"
abbreviation SP :: u8 where "SP \<equiv> 0x20"
abbreviation CR :: u8 where "CR \<equiv> 0x0D"
abbreviation LF :: u8 where "LF \<equiv> 0x0A"

definition HTTP_SOURCE_CLEARTEXT :: u8 where [simp]: "HTTP_SOURCE_CLEARTEXT = 0"
definition HTTP_SOURCE_OPENSSL :: u8 where [simp]: "HTTP_SOURCE_OPENSSL = 1"
definition HTTP_SOURCE_NGHTTP2 :: u8 where [simp]: "HTTP_SOURCE_NGHTTP2 = 2"
definition HTTP_SOURCE_GO_NET_HTTP :: u8 where [simp]: "HTTP_SOURCE_GO_NET_HTTP = 3"
definition HTTP_MIN_REQUEST_LINE :: nat where [simp]: "HTTP_MIN_REQUEST_LINE = 14"

section \<open>Operations\<close>

definition zero_http_request_fields :: "http_request_sample \<Rightarrow> http_request_sample" where
  "zero_http_request_fields x =
     x\<lparr>hr_method := zero_words (HTTP_METHOD_LEN div 8) (hr_method x),
       hr_path := zero_words (HTTP_PATH_LEN div 8) (hr_path x),
       hr_host := zero_words (HTTP_HOST_LEN div 8) (hr_host x)\<rparr>"

definition http_method_len :: "bytes \<Rightarrow> nat" where
  "http_method_len b =
     (if b ! 0 = ch CHR ''G'' \<and> b ! 1 = ch CHR ''E'' \<and> b ! 2 = ch CHR ''T'' \<and> b ! 3 = SP then 3
      else if b ! 0 = ch CHR ''P'' \<and> b ! 1 = ch CHR ''U'' \<and> b ! 2 = ch CHR ''T'' \<and> b ! 3 = SP then 3
      else if b ! 0 = ch CHR ''P'' \<and> b ! 1 = ch CHR ''O'' \<and> b ! 2 = ch CHR ''S'' \<and> b ! 3 = ch CHR ''T'' \<and>
              b ! 4 = SP then 4
      else if b ! 0 = ch CHR ''H'' \<and> b ! 1 = ch CHR ''E'' \<and> b ! 2 = ch CHR ''A'' \<and> b ! 3 = ch CHR ''D'' \<and>
              b ! 4 = SP then 4
      else if b ! 0 = ch CHR ''P'' \<and> b ! 1 = ch CHR ''A'' \<and> b ! 2 = ch CHR ''T'' \<and> b ! 3 = ch CHR ''C'' \<and>
              b ! 4 = ch CHR ''H'' \<and> b ! 5 = SP then 5
      else if b ! 0 = ch CHR ''T'' \<and> b ! 1 = ch CHR ''R'' \<and> b ! 2 = ch CHR ''A'' \<and> b ! 3 = ch CHR ''C'' \<and>
              b ! 4 = ch CHR ''E'' \<and> b ! 5 = SP then 5
      else if b ! 0 = ch CHR ''D'' \<and> b ! 1 = ch CHR ''E'' \<and> b ! 2 = ch CHR ''L'' \<and> b ! 3 = ch CHR ''E'' \<and>
              b ! 4 = ch CHR ''T'' \<and> b ! 5 = ch CHR ''E'' \<and> b ! 6 = SP then 6
      else if b ! 0 = ch CHR ''O'' \<and> b ! 1 = ch CHR ''P'' \<and> b ! 2 = ch CHR ''T'' \<and> b ! 3 = ch CHR ''I'' \<and>
              b ! 4 = ch CHR ''O'' \<and> b ! 5 = ch CHR ''N'' \<and> b ! 6 = ch CHR ''S'' \<and> b ! 7 = SP then 7
      else 0)"

text \<open>The mask of a 32-bit index is a remainder by the power of two.\<close>

definition http_prefix_byte :: "http_scratch \<Rightarrow> nat \<Rightarrow> u8" where
  "http_prefix_byte s idx = prefix s ! (idx mod HTTP1_PREFIX_LEN)"

text \<open>
  The destination afterwards. The source is the workspace itself, which kernel reads always
  reach.
\<close>

definition http_copy_field :: "bytes \<Rightarrow> http_scratch \<Rightarrow> u32 \<Rightarrow> u32 \<Rightarrow> bytes" where
  "http_copy_field dst s src n =
     (if n = 0 \<or> unat n \<ge> HTTP1_PREFIX_LEN then dst
      else if unat src \<ge> HTTP1_PREFIX_LEN then dst
      else
        (let src' = unat src mod HTTP1_PREFIX_LEN; n' = unat n mod HTTP1_PREFIX_LEN in
         if src' + n' > HTTP1_PREFIX_LEN then dst
         else blit 0 (take n' (drop src' (prefix s))) dst))"

text \<open>
  The scanning loops of the steps share one shape: at most \<open>HTTP1_PREFIX_LEN\<close> iterations from a
  start index, a break at a limit, and a decision on each byte.
\<close>

datatype byte_class = Go_On | Stop_Here | Refuse

datatype scan_result = Stopped_At nat | Ran_Out | Refused

fun scan_prefix :: "(u8 \<Rightarrow> byte_class) \<Rightarrow> http_scratch \<Rightarrow> nat \<Rightarrow> nat \<Rightarrow> nat list \<Rightarrow> scan_result" where
  "scan_prefix f s limit start [] = Ran_Out"
| "scan_prefix f s limit start (i # is) =
     (let idx = start + i in
      if idx \<ge> limit then Ran_Out
      else case f (http_prefix_byte s idx) of
        Stop_Here \<Rightarrow> Stopped_At idx
      | Refuse \<Rightarrow> Refused
      | Go_On \<Rightarrow> scan_prefix f s limit start is)"

definition reqline_class :: "u8 \<Rightarrow> byte_class" where
  "reqline_class c =
     (if c = SP then Stop_Here else if c < 0x20 \<or> c = 0x7F then Refuse else Go_On)"

text \<open>The version token after the space at \<open>line_end\<close>, as far as the prefix reaches.\<close>

definition version_ok :: "http_scratch \<Rightarrow> nat \<Rightarrow> nat \<Rightarrow> bool" where
  "version_ok s len after_space \<longleftrightarrow>
     (if after_space + 7 \<le> len then
        http_prefix_byte s (after_space + 0) = ch CHR ''H'' \<and>
        http_prefix_byte s (after_space + 1) = ch CHR ''T'' \<and>
        http_prefix_byte s (after_space + 2) = ch CHR ''T'' \<and>
        http_prefix_byte s (after_space + 3) = ch CHR ''P'' \<and>
        http_prefix_byte s (after_space + 4) = ch CHR ''/'' \<and>
        http_prefix_byte s (after_space + 5) = ch CHR ''1'' \<and>
        http_prefix_byte s (after_space + 6) = ch CHR ''.'' \<and>
        (after_space + 9 \<le> len \<longrightarrow>
           (let minor = http_prefix_byte s (after_space + 7) in
            \<not> (minor < ch CHR ''0'' \<or> minor > ch CHR ''9'') \<and> http_prefix_byte s (after_space + 8) = CR))
      else True)"

text \<open>A step gives the workspace it leaves, or \<open>None\<close> for the return value -1.\<close>

definition http_step_reqline :: "http_scratch \<Rightarrow> http_scratch option" where
  "http_step_reqline s =
     (let len = min (unat (data_len s)) HTTP1_PREFIX_LEN in
      if len < HTTP_MIN_REQUEST_LINE then None
      else
        (let ml = http_method_len (prefix s) in
         if ml = 0 then None
         else
           (let ps = ml + 1 in
            if http_prefix_byte s ps \<noteq> ch CHR ''/'' then None
            else
              (let stored = (\<lambda>le. s\<lparr>data_len := of_nat len, mlen := of_nat ml, pos := of_nat ps, line_end := of_nat le\<rparr>)
               in case scan_prefix reqline_class s len ps [0..<HTTP1_PREFIX_LEN] of
                 Refused \<Rightarrow> None
               | Ran_Out \<Rightarrow> Some (stored len)
               | Stopped_At idx \<Rightarrow> if version_ok s len (idx + 1) then Some (stored idx) else None))))"

definition path_class :: "u8 \<Rightarrow> byte_class" where
  "path_class c = (if c = ch CHR ''?'' then Stop_Here else Go_On)"

definition http_step_path :: "http_scratch \<Rightarrow> http_scratch option" where
  "http_step_path s =
     (let len = min (unat (data_len s)) HTTP1_PREFIX_LEN; ps = unat (pos s) in
      if ps \<ge> HTTP1_PREFIX_LEN then None
      else
        (let le0 = min (unat (line_end s)) len;
             le = (if le0 < ps then ps else le0);
             path_end = (case scan_prefix path_class s le ps [0..<HTTP1_PREFIX_LEN] of
                           Stopped_At idx \<Rightarrow> idx | _ \<Rightarrow> le);
             n = path_end - ps
         in Some (s\<lparr>path_n := of_nat (if n \<ge> HTTP_PATH_LEN then HTTP_PATH_LEN - 1 else n)\<rparr>)))"

text \<open>The search for the Host header: 0 when none was found.\<close>

fun hostfind_loop :: "http_scratch \<Rightarrow> nat \<Rightarrow> nat \<Rightarrow> nat list \<Rightarrow> nat" where
  "hostfind_loop s len start [] = 0"
| "hostfind_loop s len start (i # is) =
     (let p = start + i in
      if p + 1 \<ge> len then 0
      else if http_prefix_byte s p \<noteq> CR \<or> http_prefix_byte s (p + 1) \<noteq> LF
      then hostfind_loop s len start is
      else if p + 3 < len \<and> http_prefix_byte s (p + 2) = CR \<and> http_prefix_byte s (p + 3) = LF then 0
      else if p + 6 \<ge> len then 0
      else if http_prefix_byte s (p + 2) OR 0x20 = ch CHR ''h'' \<and>
              http_prefix_byte s (p + 3) OR 0x20 = ch CHR ''o'' \<and>
              http_prefix_byte s (p + 4) OR 0x20 = ch CHR ''s'' \<and>
              http_prefix_byte s (p + 5) OR 0x20 = ch CHR ''t'' \<and>
              http_prefix_byte s (p + 6) = ch CHR '':''
      then p + 7
      else hostfind_loop s len start is)"

definition http_step_hostfind :: "http_scratch \<Rightarrow> http_scratch option" where
  "http_step_hostfind s =
     (let len = min (unat (data_len s)) HTTP1_PREFIX_LEN;
          after_space = min (unat (line_end s + 1)) len;
          hv = hostfind_loop s len after_space [0..<HTTP1_PREFIX_LEN]
      in if hv = 0 then Some s
         else Some (s\<lparr>host_val := of_nat (min hv len), have_host := 1\<rparr>))"

definition host_class :: "u8 \<Rightarrow> byte_class" where
  "host_class c = (if c = CR \<or> c = LF then Stop_Here else Go_On)"

definition http_step_hostlen :: "http_scratch \<Rightarrow> http_scratch option" where
  "http_step_hostlen s =
     (if have_host s = 0 then Some s
      else
        (let len = min (unat (data_len s)) HTTP1_PREFIX_LEN; hv = min (unat (host_val s)) len
         in case scan_prefix host_class s len hv [0..<HTTP1_PREFIX_LEN] of
              Stopped_At idx \<Rightarrow>
                if idx - hv \<ge> HTTP_HOST_LEN then Some (s\<lparr>have_host := 0\<rparr>)
                else Some (s\<lparr>host_n := of_nat (idx - hv)\<rparr>)
            | _ \<Rightarrow> Some (s\<lparr>have_host := 0\<rparr>)))"

definition http_sample_header :: "kenv \<Rightarrow> u64 \<Rightarrow> u8 \<Rightarrow> http_request_sample" where
  "http_sample_header env cg source =
     zero_http_request_fields
       ((SET_TASK_HEADER env cg
           ((st_http (storage env))\<lparr>kind := kind_value SAMPLE_KIND_HTTP_REQUEST, hr_source := source,
              hr_pad0 := [0, 0, 0]\<rparr>))\<lparr>hr_pad1 := 0\<rparr>)"

text \<open>The loop over the method bytes.\<close>

fun copy_method :: "http_scratch \<Rightarrow> nat \<Rightarrow> nat list \<Rightarrow> bytes \<Rightarrow> bytes" where
  "copy_method s ml [] dst = dst"
| "copy_method s ml (i # is) dst = (if i \<ge> ml then dst else copy_method s ml is (dst[i := prefix s ! i]))"

definition http_sample_of :: "kenv \<Rightarrow> http_scratch \<Rightarrow> u64 \<Rightarrow> u8 \<Rightarrow> http_request_sample" where
  "http_sample_of env s cg source =
     (let m0 = unat (mlen s);
          m1 = (if m0 < 3 then 3 else m0);
          ml = (if m1 > 7 then 7 else m1);
          x = http_sample_header env cg source;
          x1 = x\<lparr>hr_method := copy_method s ml [0..<8] (hr_method x),
                 hr_path := http_copy_field (hr_path x) s (pos s) (path_n s)\<rparr>
      in if have_host s \<noteq> 0
         then x1\<lparr>hr_host := http_copy_field (hr_host x1) s (host_val s) (host_n s)\<rparr>
         else x1)"

definition http_step_emit :: "kenv \<Rightarrow> http_scratch \<Rightarrow> u64 \<Rightarrow> u8 \<Rightarrow> bpf_state \<Rightarrow> int \<times> bpf_state" where
  "http_step_emit env sc cg source s =
     RESERVE_SAMPLE env SAMPLE_KIND_HTTP_REQUEST 0
       (\<lambda>s2. (0, bpf_ringbuf_submit (HttpRequestSample (http_sample_of env sc cg source)) s2)) s"

section \<open>Capture\<close>

text \<open>\<open>None\<close> is the return value -1; the segment is its base address and its length.\<close>

definition http_first_segment :: "kenv \<Rightarrow> ptr \<Rightarrow> (ptr \<times> u64) option" where
  "http_first_segment env msg =
     (let type = BPF_CORE_READ env h_msghdr msg (\<lambda>m. iter_type (msg_iter m)) in
      if has_ITER_UBUF (btf env) \<and> type = ITER_UBUF (btf env) then
        (let base = BPF_CORE_READ env h_msghdr msg (\<lambda>m. ubuf (msg_iter m));
             count = BPF_CORE_READ env h_msghdr msg (\<lambda>m. it_count (msg_iter m))
         in if base = NULL \<or> count = 0 then None else Some (base, count))
      else if type \<noteq> ITER_IOVEC (btf env) then None
      else
        (let iov = (if has_uscore_iov (btf env)
                    then BPF_CORE_READ env h_msghdr msg (\<lambda>m. uscore_iov (msg_iter m))
                    else BPF_CORE_READ env h_msghdr msg (\<lambda>m. legacy_iov (msg_iter m)))
         in if iov = NULL then None
            else case bpf_probe_read_kernel env 16 iov of
              None \<Rightarrow> None
            | Some first \<Rightarrow>
                (let iov_base = le_word (take 8 first) :: ptr; iov_len = le_word (drop 8 first) :: u64
                 in if iov_base = NULL \<or> iov_len = 0 then None else Some (iov_base, iov_len))))"

text \<open>Whether the capture continues, and the state with the workspace afterwards.\<close>

definition http_scratch_get :: "kenv \<Rightarrow> bpf_state \<Rightarrow> http_scratch option" where
  "http_scratch_get env s = percpu_lookup env (http_scratch s) 0"

definition http_scratch_put :: "kenv \<Rightarrow> http_scratch \<Rightarrow> bpf_state \<Rightarrow> bpf_state" where
  "http_scratch_put env sc s = s\<lparr>http_scratch := percpu_store env (http_scratch s) 0 sc\<rparr>"

definition http_capture_user_buffer :: "kenv \<Rightarrow> ptr \<Rightarrow> u64 \<Rightarrow> bpf_state \<Rightarrow> bool \<times> bpf_state" where
  "http_capture_user_buffer env base seg_len s =
     (if unat seg_len < HTTP_MIN_REQUEST_LINE then (False, s)
      else case bpf_probe_read_user env 8 base of
        None \<Rightarrow> (False, s)
      | Some head \<Rightarrow>
          if http_method_len head = 0 then (False, s)
          else case http_scratch_get env s of
            None \<Rightarrow> (False, s)
          | Some sc \<Rightarrow>
              (let to_read = (if unat seg_len < HTTP1_PREFIX_LEN then unat seg_len else HTTP1_PREFIX_LEN);
                   r = bpf_probe_read_user env to_read base;
                   sc1 = sc\<lparr>prefix := read_into env to_read r 0 (prefix sc)\<rparr>
               in case r of
                    None \<Rightarrow> (False, http_scratch_put env sc1 s)
                  | Some _ \<Rightarrow>
                      (True, http_scratch_put env
                         (sc1\<lparr>data_len := of_nat to_read, have_host := 0, host_val := 0, host_n := 0\<rparr>) s)))"

definition http_entry_capture :: "kenv \<Rightarrow> ptr \<Rightarrow> bpf_state \<Rightarrow> bool \<times> bpf_state" where
  "http_entry_capture env msg s =
     (case http_first_segment env msg of
        None \<Rightarrow> (False, s)
      | Some (base, seg_len) \<Rightarrow> http_capture_user_buffer env base seg_len s)"

section \<open>The reference parser\<close>

definition http_methods :: "string list" where
  "http_methods = [''GET'', ''PUT'', ''POST'', ''HEAD'', ''PATCH'', ''TRACE'', ''DELETE'', ''OPTIONS'']"

definition request_method :: "bytes \<Rightarrow> string option" where
  "request_method d = find (\<lambda>m. take (length m + 1) d = c_lit m @ [SP]) http_methods"

definition control_byte :: "u8 \<Rightarrow> bool" where
  "control_byte c \<longleftrightarrow> c < 0x20 \<or> c = 0x7F"

text \<open>
  The request target, and the bytes after the space that ends it, if it ends inside the capture.
  A control byte before that makes the bytes no request.
\<close>

definition parse_target :: "bytes \<Rightarrow> (bytes \<times> bytes option) option" where
  "parse_target rest =
     (let target = takeWhile (\<lambda>c. c \<noteq> SP \<and> \<not> control_byte c) rest in
      case drop (length target) rest of
        [] \<Rightarrow> Some (target, None)
      | c # after \<Rightarrow> if c = SP then Some (target, Some after) else None)"

definition version_prefix_ok :: "bytes \<Rightarrow> bool" where
  "version_prefix_ok after \<longleftrightarrow>
     (7 \<le> length after \<longrightarrow> take 7 after = c_lit ''HTTP/1.'') \<and>
     (9 \<le> length after \<longrightarrow> ch CHR ''0'' \<le> after ! 7 \<and> after ! 7 \<le> ch CHR ''9'' \<and> after ! 8 = CR)"

text \<open>What follows \<open>Host:\<close> at the start of a header line, before the empty line.\<close>

fun find_host :: "bytes \<Rightarrow> bytes option" where
  "find_host (a # b # rest) =
     (if a = CR \<and> b = LF then
        if take 2 rest = [CR, LF] then None
        else if length rest < 5 then None
        else if map (\<lambda>c. c OR 0x20) (take 4 rest) = c_lit ''host'' \<and> rest ! 4 = ch CHR '':''
        then Some (drop 5 rest)
        else find_host (b # rest)
      else find_host (b # rest))"
| "find_host _ = None"

text \<open>The value up to the end of its line; a value whose line does not end in the capture is dropped.\<close>

definition host_value :: "bytes \<Rightarrow> bytes" where
  "host_value v =
     (let h = takeWhile (\<lambda>c. c \<noteq> CR \<and> c \<noteq> LF) v in if length h < length v then h else [])"

definition request_host :: "bytes option \<Rightarrow> bytes" where
  "request_host after =
     (case after of None \<Rightarrow> []
      | Some bs \<Rightarrow> (case find_host bs of None \<Rightarrow> [] | Some v \<Rightarrow> host_value v))"

definition strip_query :: "bytes \<Rightarrow> bytes" where
  "strip_query target = takeWhile (\<lambda>c. c \<noteq> ch CHR ''?'') target"

definition http_reference :: "bytes \<Rightarrow> (bytes \<times> bytes \<times> bytes) option" where
  "http_reference d =
     (if length d < HTTP_MIN_REQUEST_LINE then None
      else case request_method d of
        None \<Rightarrow> None
      | Some m \<Rightarrow>
          (let rest = drop (length m + 1) d in
           if rest ! 0 \<noteq> ch CHR ''/'' then None
           else case parse_target rest of
             None \<Rightarrow> None
           | Some (target, after) \<Rightarrow>
               if (case after of None \<Rightarrow> True | Some bs \<Rightarrow> version_prefix_ok bs)
               then Some (c_lit m, strip_query target, request_host after)
               else None))"

section \<open>The steps against the reference parser\<close>

text \<open>The captured bytes in the workspace.\<close>

definition captured :: "http_scratch \<Rightarrow> bytes" where
  "captured s = take (min (unat (data_len s)) HTTP1_PREFIX_LEN) (prefix s)"

lemma captured_length: "length (prefix s) = 256 \<Longrightarrow> length (captured s) = min (unat (data_len s)) 256"
  by (simp add: captured_def)

lemma prefix_byte:
  "length (prefix s) = 256 \<Longrightarrow> i < limit \<Longrightarrow> limit \<le> 256 \<Longrightarrow> http_prefix_byte s i = take limit (prefix s) ! i"
  by (simp add: http_prefix_byte_def)

lemma scan_prefix_spec:
  assumes "length (prefix s) = 256" "limit \<le> 256" "k \<le> 256" "start + k \<le> limit"
  shows "scan_prefix f s limit start [k..<256] =
    (let rest = drop (start + k) (take limit (prefix s)); t = takeWhile (\<lambda>c. f c = Go_On) rest in
     if t = rest then Ran_Out
     else if f (rest ! length t) = Stop_Here then Stopped_At (start + k + length t) else Refused)"
  using assms(3,4)
proof (induction k rule: inc_induct)
  case base
  then have "drop (start + 256) (take limit (prefix s)) = []" using assms by simp
  then show ?case by simp
next
  case (step k)
  let ?d = "take limit (prefix s)"
  have upt: "[k..<256] = k # [Suc k..<256]" using step.hyps by (simp add: upt_conv_Cons)
  show ?case
  proof (cases "start + k = limit")
    case True
    then show ?thesis using assms(1,2) by (simp add: upt)
  next
    case False
    then have lt: "start + k < limit" using step.prems by simp
    then have rest: "drop (start + k) ?d = ?d ! (start + k) # drop (start + Suc k) ?d"
      using assms(1,2) Cons_nth_drop_Suc [of "start + k" ?d] by simp
    have byte: "http_prefix_byte s (start + k) = ?d ! (start + k)"
      using prefix_byte [OF assms(1) lt assms(2)] .
    show ?thesis
    proof (cases "f (?d ! (start + k))")
      case Go_On
      then show ?thesis using step.IH lt by (simp add: upt rest byte Let_def)
    next
      case Stop_Here
      then show ?thesis using lt by (simp add: upt rest byte Let_def)
    next
      case Refuse
      then show ?thesis using lt by (simp add: upt rest byte Let_def)
    qed
  qed
qed

lemma http_method_len_spec:
  assumes "8 \<le> length b"
  shows "http_method_len b = (case request_method b of None \<Rightarrow> 0 | Some m \<Rightarrow> length m)"
proof -
  obtain b0 b1 b2 b3 b4 b5 b6 b7 r where "b = b0 # b1 # b2 # b3 # b4 # b5 # b6 # b7 # r"
    using assms by (auto simp: Suc_le_length_iff eval_nat_numeral)
  then show ?thesis
    by (simp add: http_method_len_def request_method_def http_methods_def c_lit_def)
qed

lemma request_method_cong: "take 8 b = take 8 b' \<Longrightarrow> request_method b = request_method b'"
proof -
  assume eq: "take 8 b = take 8 b'"
  have "take (length m + 1) b = take (length m + 1) b'" if "m \<in> set http_methods" for m
  proof -
    have "length m + 1 \<le> 8" using that by (auto simp: http_methods_def)
    then show ?thesis using arg_cong [OF eq, of "take (length m + 1)"] by (simp add: min_def)
  qed
  then show ?thesis unfolding request_method_def by (intro find_cong) auto
qed

lemma http_methods_length: "m \<in> set http_methods \<Longrightarrow> 3 \<le> length m \<and> length m \<le> 7"
  by (auto simp: http_methods_def)

lemma request_method_Some:
  assumes "request_method d = Some m"
  shows "3 \<le> length m" "length m \<le> 7" "take (length m + 1) d = c_lit m @ [SP]"
proof -
  from assms obtain i where "i < length http_methods" "m = http_methods ! i"
      "take (length m + 1) d = c_lit m @ [SP]"
    by (auto simp: request_method_def find_Some_iff)
  then show "3 \<le> length m" "length m \<le> 7" "take (length m + 1) d = c_lit m @ [SP]"
    using http_methods_length [of m] by auto
qed

lemma reqline_class_iff:
  "reqline_class c = Go_On \<longleftrightarrow> c \<noteq> SP \<and> \<not> control_byte c" "reqline_class c = Stop_Here \<longleftrightarrow> c = SP"
  by (auto simp: reqline_class_def control_byte_def)

lemma path_class_iff: "path_class c = Go_On \<longleftrightarrow> c \<noteq> ch CHR ''?''" "path_class c \<noteq> Refuse"
  by (auto simp: path_class_def)

lemma host_class_iff: "host_class c = Go_On \<longleftrightarrow> c \<noteq> CR \<and> c \<noteq> LF" "host_class c \<noteq> Refuse"
  by (auto simp: host_class_def)

lemma takeWhile_stops:
  assumes "takeWhile P xs \<noteq> xs"
  shows "length (takeWhile P xs) < length xs"
    and "drop (length (takeWhile P xs)) xs = xs ! length (takeWhile P xs) # drop (length (takeWhile P xs) + 1) xs"
proof -
  show less: "length (takeWhile P xs) < length xs"
  proof (rule ccontr)
    assume "\<not> length (takeWhile P xs) < length xs"
    then have "takeWhile P xs = xs" by (metis not_less take_all takeWhile_eq_take)
    with assms show False by simp
  qed
  show "drop (length (takeWhile P xs)) xs = xs ! length (takeWhile P xs) # drop (length (takeWhile P xs) + 1) xs"
    using Cons_nth_drop_Suc [OF less] by simp
qed

lemma parse_target_eq:
  "parse_target rest =
     (let target = takeWhile (\<lambda>c. c \<noteq> SP \<and> \<not> control_byte c) rest in
      if target = rest then Some (target, None)
      else if rest ! length target = SP then Some (target, Some (drop (length target + 1) rest)) else None)"
proof (cases "takeWhile (\<lambda>c. c \<noteq> SP \<and> \<not> control_byte c) rest = rest")
  case True
  then show ?thesis unfolding parse_target_def Let_def by (simp only: drop_all list.case if_True order_refl simp_thms)
next
  case False
  from takeWhile_stops(2) [OF False] show ?thesis
    unfolding parse_target_def Let_def using False by (simp only: list.case if_False)
qed

lemma reqline_scan:
  assumes "length (prefix s) = 256" "L \<le> 256" "start \<le> L" "drop start (take L (prefix s)) = rest"
  shows "scan_prefix reqline_class s L start [0..<256] =
    (case parse_target rest of
       None \<Rightarrow> Refused
     | Some (target, after) \<Rightarrow> (if after = None then Ran_Out else Stopped_At (start + length target)))"
proof -
  have "scan_prefix reqline_class s L start [0..<256] =
      (let t = takeWhile (\<lambda>c. c \<noteq> SP \<and> \<not> control_byte c) rest in
       if t = rest then Ran_Out
       else if rest ! length t = SP then Stopped_At (start + length t) else Refused)"
    using scan_prefix_spec [OF assms(1,2), of 0 start reqline_class] assms(3,4)
    by (simp only: reqline_class_iff Let_def add_0_right zero_le)
  then show ?thesis unfolding parse_target_eq Let_def by simp
qed

lemma parse_target_facts:
  assumes "parse_target rest = Some (target, after)"
  shows "length target \<le> length rest" "target = take (length target) rest"
    and "after = None \<Longrightarrow> target = rest"
    and "after = Some bs \<Longrightarrow> length target < length rest \<and> bs = drop (length target + 1) rest"
proof -
  define t where "t = takeWhile (\<lambda>c. c \<noteq> SP \<and> \<not> control_byte c) rest"
  have "parse_target rest =
      (if t = rest then Some (t, None)
       else if rest ! length t = SP then Some (t, Some (drop (length t + 1) rest)) else None)"
    by (simp only: parse_target_eq t_def Let_def)
  with assms have "target = t \<and> after = (if t = rest then None else Some (drop (length t + 1) rest))"
    by (auto split: if_split_asm)
  moreover have "t = take (length t) rest" unfolding t_def by (rule takeWhile_eq_take)
  moreover have "t \<noteq> rest \<Longrightarrow> length t < length rest"
    unfolding t_def by (rule takeWhile_stops(1))
  moreover have "length t \<le> length rest" unfolding t_def by (rule length_takeWhile_le)
  ultimately show "length target \<le> length rest" "target = take (length target) rest"
    "after = None \<Longrightarrow> target = rest"
    "after = Some bs \<Longrightarrow> length target < length rest \<and> bs = drop (length target + 1) rest"
    by (auto split: if_split_asm)
qed

end
