(* ===== verification/Http_Equivalence.thy ===== *)
theory Http_Equivalence
  imports Http_Parse
begin

text \<open>
  The parse steps of \<open>http_helpers.bpf.h\<close>, composed the way the entry and the parse target
  compose them, compute what the reference parser says about the captured bytes: the same
  requests are accepted, and the sample carries the reference method, path and host padded with
  zeros. Nothing else of the workspace reaches the sample.
\<close>

section \<open>The parse after the request line\<close>

definition http_parse_target :: "http_scratch \<Rightarrow> http_scratch option" where
  "http_parse_target s =
     (case http_step_path s of
        None \<Rightarrow> None
      | Some s1 \<Rightarrow>
          (case http_step_hostfind s1 of
             None \<Rightarrow> None
           | Some s2 \<Rightarrow> http_step_hostlen s2))"

text \<open>A value in a zeroed field of \<open>n\<close> bytes.\<close>

definition padded :: "nat \<Rightarrow> bytes \<Rightarrow> bytes" where
  "padded n bs = bs @ replicate (n - length bs) 0"

lemma length_padded [simp]: "length bs \<le> n \<Longrightarrow> length (padded n bs) = n"
  by (simp add: padded_def)

lemma c_string_padded: "0 \<notin> set bs \<Longrightarrow> c_string (padded n bs) = bs"
  unfolding padded_def by (cases "n - length bs") (simp_all)

section \<open>The request line\<close>

lemma captured_byte:
  assumes "length (prefix s) = 256" "i < length (captured s)"
  shows "http_prefix_byte s i = captured s ! i"
  using assms prefix_byte [of s i "min (unat (data_len s)) 256"]
  by (simp add: captured_def)

lemma seven_bytes:
  assumes "7 \<le> length xs"
  shows "take 7 xs = [a, b, c, d, e, f, g] \<longleftrightarrow>
    xs ! 0 = a \<and> xs ! 1 = b \<and> xs ! 2 = c \<and> xs ! 3 = d \<and> xs ! 4 = e \<and> xs ! 5 = f \<and> xs ! 6 = g"
proof -
  obtain x0 x1 x2 x3 x4 x5 x6 r where "xs = x0 # x1 # x2 # x3 # x4 # x5 # x6 # r"
    using assms by (auto simp: Suc_le_length_iff eval_nat_numeral)
  then show ?thesis by simp
qed

lemma version_ok_spec:
  assumes "length (prefix s) = 256" "a \<le> length (captured s)"
  shows "version_ok s (length (captured s)) a \<longleftrightarrow> version_prefix_ok (drop a (captured s))"
proof -
  let ?after = "drop a (captured s)"
  have byte: "http_prefix_byte s (a + i) = ?after ! i" if "i < length ?after" for i
    using captured_byte [OF assms(1), of "a + i"] that assms(2) by simp
  have len: "a + n \<le> length (captured s) \<longleftrightarrow> n \<le> length ?after" for n
    using assms(2) by (auto simp: le_diff_conv2)
  have first: "http_prefix_byte s a = ?after ! 0" "http_prefix_byte s (Suc a) = ?after ! 1"
      "http_prefix_byte s (Suc (Suc a)) = ?after ! 2" if "7 \<le> length ?after"
    using byte [of 0] byte [of 1] byte [of 2] that by simp_all
  show ?thesis
  proof (cases "7 \<le> length ?after")
    case True
    note b = byte first [OF True]
    show ?thesis
    proof (cases "9 \<le> length ?after")
      case False
      with True show ?thesis
        unfolding version_ok_def version_prefix_ok_def len
        by (simp add: b seven_bytes c_lit_def)
    next
      case True2: True
      with True show ?thesis
        unfolding version_ok_def version_prefix_ok_def len
        by (auto simp: b seven_bytes c_lit_def not_less Let_def)
    qed
  next
    case False
    then show ?thesis unfolding version_ok_def version_prefix_ok_def len by simp
  qed
qed

text \<open>
  The request line step against the reference: acceptance, and what it stores. A workspace is
  \<open>at_request\<close> when its stored offsets describe method, target and rest of the captured bytes.
\<close>

definition at_request :: "http_scratch \<Rightarrow> bytes \<Rightarrow> nat \<Rightarrow> bytes \<Rightarrow> bool" where
  "at_request s d m target \<longleftrightarrow>
     length (prefix s) = 256 \<and> captured s = d \<and> unat (data_len s) = length d \<and>
     unat (mlen s) = m \<and> unat (pos s) = m + 1 \<and> unat (line_end s) = m + 1 + length target \<and>
     3 \<le> m \<and> m \<le> 7 \<and> take (length target) (drop (m + 1) d) = target \<and>
     m + 1 + length target \<le> length d \<and> have_host s = 0"

lemma captured_update:
  assumes "length (prefix s) = 256" "L = length (captured s)"
  shows "captured (s\<lparr>data_len := of_nat L, mlen := a, pos := b, line_end := c\<rparr>) = captured s"
    "unat (of_nat L :: u32) = L"
  using assms by (simp_all add: captured_def unat_u32_of_nat)

lemma request_method_byte:
  assumes "request_method d = Some m" "length d \<ge> 14" "length (prefix s) = 256" "captured s = d"
  shows "http_prefix_byte s (length m + 1) = drop (length m + 1) d ! 0"
  using captured_byte [of s "length m + 1"] request_method_Some(2) [OF assms(1)] assms by simp

text \<open>The step with the length and the method of the captured bytes put in.\<close>

lemma reqline_unfold:
  assumes "length (prefix s) = 256" "captured s = d"
  shows "length d < 14 \<Longrightarrow> http_step_reqline s = None"
    and "14 \<le> length d \<Longrightarrow> request_method d = None \<Longrightarrow> http_step_reqline s = None"
    and "14 \<le> length d \<Longrightarrow> request_method d = Some m \<Longrightarrow>
      http_step_reqline s =
        (if drop (length m + 1) d ! 0 \<noteq> ch CHR ''/'' then None
         else case parse_target (drop (length m + 1) d) of
           None \<Rightarrow> None
         | Some (target, after) \<Rightarrow>
             if (case after of None \<Rightarrow> True | Some bs \<Rightarrow> version_prefix_ok bs)
             then Some (s\<lparr>data_len := of_nat (length d), mlen := of_nat (length m), pos := of_nat (length m + 1),
                          line_end := of_nat (length m + 1 + length target)\<rparr>)
             else None)"
proof -
  have L: "min (unat (data_len s)) 256 = length d" using captured_length [OF assms(1)] assms(2) by simp
  have L256: "length d \<le> 256" using L by simp
  have step: "http_step_reqline s =
     (if length d < 14 then None
      else if http_method_len (prefix s) = 0 then None
      else if http_prefix_byte s (http_method_len (prefix s) + 1) \<noteq> ch CHR ''/'' then None
      else case scan_prefix reqline_class s (length d) (http_method_len (prefix s) + 1) [0..<256] of
                 Refused \<Rightarrow> None
               | Ran_Out \<Rightarrow> Some (s\<lparr>data_len := of_nat (length d), mlen := of_nat (http_method_len (prefix s)),
                    pos := of_nat (http_method_len (prefix s) + 1), line_end := of_nat (length d)\<rparr>)
               | Stopped_At idx \<Rightarrow> if version_ok s (length d) (idx + 1) then Some
                   (s\<lparr>data_len := of_nat (length d), mlen := of_nat (http_method_len (prefix s)),
                    pos := of_nat (http_method_len (prefix s) + 1), line_end := of_nat idx\<rparr>) else None)"
    unfolding http_step_reqline_def L Let_def HTTP_MIN_REQUEST_LINE_def HTTP1_PREFIX_LEN_def ..
  show "length d < 14 \<Longrightarrow> http_step_reqline s = None" unfolding step by (rule if_P)
  have ml: "http_method_len (prefix s) = (case request_method d of None \<Rightarrow> 0 | Some m \<Rightarrow> length m)" if "14 \<le> length d"
  proof -
    have "d = take (length d) (prefix s)" using L assms(2) unfolding captured_def by simp
    then have "take 8 d = take (min 8 (length d)) (prefix s)" by (metis take_take)
    then have "take 8 (prefix s) = take 8 d" using that by (simp add: min_def)
    then have "request_method (prefix s) = request_method d" by (rule request_method_cong)
    then show ?thesis using http_method_len_spec [of "prefix s"] assms(1) by simp
  qed
  show "14 \<le> length d \<Longrightarrow> request_method d = None \<Longrightarrow> http_step_reqline s = None" using ml unfolding step by simp
  assume long: "14 \<le> length d" and m: "request_method d = Some m"
  note mf = request_method_Some [OF m]
  let ?rest = "drop (length m + 1) d"
  have mlm: "http_method_len (prefix s) = length m" using ml [OF long] m by simp
  have byte: "http_prefix_byte s (length m + 1) = ?rest ! 0"
    using request_method_byte [OF m long assms] .
  have scan: "scan_prefix reqline_class s (length d) (length m + 1) [0..<256] =
      (case parse_target ?rest of None \<Rightarrow> Refused
       | Some (target, after) \<Rightarrow> (if after = None then Ran_Out else Stopped_At (length m + 1 + length target)))"
    using long mf(2) L L256 assms by (intro reqline_scan) (auto simp: captured_def)
  have step_m: "http_step_reqline s =
        (if ?rest ! 0 \<noteq> ch CHR ''/'' then None
         else case parse_target ?rest of
           None \<Rightarrow> None
         | Some (target, after) \<Rightarrow>
             if after = None \<or> version_ok s (length d) (length m + 1 + length target + 1)
             then Some (s\<lparr>data_len := of_nat (length d), mlen := of_nat (length m), pos := of_nat (length m + 1),
                          line_end := of_nat (if after = None then length d else length m + 1 + length target)\<rparr>)
             else None)"
    using long mf(1) unfolding step mlm byte scan by (auto split: option.split)
  show "http_step_reqline s =
        (if ?rest ! 0 \<noteq> ch CHR ''/'' then None
         else case parse_target ?rest of
           None \<Rightarrow> None
         | Some (target, after) \<Rightarrow>
             if (case after of None \<Rightarrow> True | Some bs \<Rightarrow> version_prefix_ok bs)
             then Some (s\<lparr>data_len := of_nat (length d), mlen := of_nat (length m), pos := of_nat (length m + 1),
                          line_end := of_nat (length m + 1 + length target)\<rparr>)
             else None)"
  proof (cases "parse_target ?rest")
    case None
    then show ?thesis unfolding step_m by simp
  next
    case (Some ta)
    then obtain t after where ta: "parse_target ?rest = Some (t, after)" by (cases ta) auto
    note pf = parse_target_facts [OF ta]
    show ?thesis
    proof (cases after)
      case None
      then have "length m + 1 + length t = length d" using pf(3) long mf(2) by simp
      then show ?thesis unfolding step_m ta using None by simp
    next
      case bs: (Some bs)
      from pf(4) [OF bs] have "length t < length ?rest" "bs = drop (length t + 1) ?rest" by blast+
      then have "length m + 1 + length t + 1 \<le> length d" "bs = drop (length m + 1 + length t + 1) d"
        by (simp_all add: ac_simps)
      with version_ok_spec [OF assms(1), of "length m + 1 + length t + 1"] assms(2)
      have "version_ok s (length d) (length m + 1 + length t + 1) = version_prefix_ok bs" by simp
      with bs show ?thesis unfolding step_m ta by simp
    qed
  qed
qed

section \<open>The path\<close>

lemma at_requestD:
  assumes "at_request s d m target"
  shows "length (prefix s) = 256" "captured s = d" "unat (data_len s) = length d" "unat (mlen s) = m"
    "unat (pos s) = m + 1" "unat (line_end s) = m + 1 + length target" "3 \<le> m" "m \<le> 7"
    "take (length target) (drop (m + 1) d) = target" "m + 1 + length target \<le> length d" "have_host s = 0"
    "length d \<le> 256" "take (length d) (prefix s) = d"
proof -
  note a = assms [unfolded at_request_def]
  from a show prefix: "length (prefix s) = 256" "captured s = d" "unat (data_len s) = length d" "unat (mlen s) = m"
    "unat (pos s) = m + 1" "unat (line_end s) = m + 1 + length target" "3 \<le> m" "m \<le> 7"
    "take (length target) (drop (m + 1) d) = target" "m + 1 + length target \<le> length d" "have_host s = 0"
    by blast+
  show len: "length d \<le> 256" using captured_length [OF prefix(1)] unfolding prefix(2) by (simp only: min.cobounded2)
  show "take (length d) (prefix s) = d"
    using prefix(2,3) len unfolding captured_def by (simp add: min_absorb1)
qed

lemma path_scan_end:
  assumes "length (prefix s) = 256" "limit \<le> 256" "start \<le> limit" "drop start (take limit (prefix s)) = rest"
  shows "(case scan_prefix path_class s limit start [0..<256] of Stopped_At idx \<Rightarrow> idx | _ \<Rightarrow> limit) =
    start + length (strip_query rest)"
proof -
  let ?t = "takeWhile (\<lambda>c. path_class c = Go_On) rest"
  have t: "?t = strip_query rest" by (simp add: path_class_iff strip_query_def)
  have len: "length rest = limit - start" using assms by auto
  have "scan_prefix path_class s limit start [0..<256] =
      (if ?t = rest then Ran_Out else if path_class (rest ! length ?t) = Stop_Here
       then Stopped_At (start + length ?t) else Refused)"
    using scan_prefix_spec [OF assms(1,2), of 0 start path_class] assms(3,4) by (simp add: Let_def)
  moreover have "path_class (rest ! length ?t) = Stop_Here" if "?t \<noteq> rest"
    using nth_length_takeWhile [OF takeWhile_stops(1) [OF that]] path_class_iff(2) byte_class.exhaust by metis
  ultimately show ?thesis using len assms(3) unfolding t by auto
qed

lemma strip_query_length: "length (strip_query t) \<le> length t"
  by (simp add: strip_query_def length_takeWhile_le)

lemma http_step_path_spec:
  assumes "at_request s d m target"
  shows "http_step_path s = Some (s\<lparr>path_n := of_nat (length (strip_query target))\<rparr>)"
proof -
  note a = at_requestD [OF assms]
  let ?le = "m + 1 + length target"
  have "take ?le (prefix s) = take ?le d" using a(10,13) by (metis min.absorb1 take_take)
  then have "drop (m + 1) (take ?le (prefix s)) = target" using a(9) by (simp add: drop_take)
  from path_scan_end [OF a(1) _ _ this] a(8,10,12)
  have scan: "(case scan_prefix path_class s ?le (m + 1) [0..<256] of Stopped_At idx \<Rightarrow> idx | _ \<Rightarrow> ?le) =
      m + 1 + length (strip_query target)" by simp
  have len: "min (unat (data_len s)) 256 = length d" using a(3,12) by simp
  have le: "min (unat (line_end s)) (length d) = ?le" using a(6,10) by simp
  have short: "\<not> 256 \<le> length (strip_query target)" using strip_query_length [of target] a(10,12) by simp
  have "http_step_path s =
      (if 256 \<le> m + 1 then None
       else Some (s\<lparr>path_n := of_nat (if 256 \<le> m + 1 + length (strip_query target) - (m + 1) then 256 - 1
         else m + 1 + length (strip_query target) - (m + 1))\<rparr>))"
    unfolding http_step_path_def HTTP1_PREFIX_LEN_def HTTP_PATH_LEN_def len a(5) le Let_def
    using scan by simp
  with a(8) short show ?thesis by simp
qed

section \<open>The Host header\<close>

lemma two_bytes: "take 2 xs = [a, b] \<longleftrightarrow> 2 \<le> length xs \<and> xs ! 0 = a \<and> xs ! 1 = b"
  by (cases xs; cases "tl xs") auto

lemma four_bytes:
  assumes "5 \<le> length xs"
  shows "map f (take 4 xs) = [a, b, c, d] \<longleftrightarrow> f (xs ! 0) = a \<and> f (xs ! 1) = b \<and> f (xs ! 2) = c \<and> f (xs ! 3) = d"
proof -
  obtain x0 x1 x2 x3 r where "xs = x0 # x1 # x2 # x3 # r"
    using assms by (auto simp: Suc_le_length_iff eval_nat_numeral)
  then show ?thesis by simp
qed

text \<open>What is found is a proper suffix.\<close>

lemma find_host_Cons:
  assumes "find_host (a # b # rest) = Some v"
  shows "v = drop 5 rest \<and> 5 \<le> length rest \<or>
    \<not> (a = CR \<and> b = LF \<and> (take 2 rest = [CR, LF] \<or> length rest < 5 \<or>
       map (\<lambda>c. c OR 0x20) (take 4 rest) = c_lit ''host'' \<and> rest ! 4 = ch CHR '':'')) \<and> find_host (b # rest) = Some v"
  using assms unfolding find_host.simps(1) by (metis not_less option.distinct(1) option.inject)

lemma find_host_suffix: "find_host xs = Some v \<Longrightarrow> \<exists>u. xs = u @ v \<and> 7 \<le> length u"
proof (induction xs rule: find_host.induct)
  case (1 a b rest)
  from find_host_Cons [OF 1(3)] show ?case
  proof (elim disjE conjE)
    assume "v = drop 5 rest" "5 \<le> length rest"
    then show ?thesis by (intro exI [of _ "a # b # take 5 rest"]) simp
  next
    assume "\<not> (a = CR \<and> b = LF \<and> (take 2 rest = [CR, LF] \<or> length rest < 5 \<or>
        map (\<lambda>c. c OR 0x20) (take 4 rest) = c_lit ''host'' \<and> rest ! 4 = ch CHR '':''))"
      "find_host (b # rest) = Some v"
    with 1(1,2) obtain u where "b # rest = u @ v" "7 \<le> length u" by blast
    then show ?thesis by (intro exI [of _ "a # u"]) simp
  qed
qed simp_all

lemma find_host_short: "length xs \<le> 1 \<Longrightarrow> find_host xs = None"
  by (cases xs; cases "tl xs") auto

lemma hostfind_loop_spec:
  assumes "length (prefix s) = 256" "captured s = d" "k \<le> 256"
  shows "hostfind_loop s (length d) start [k..<256] =
    (case find_host (drop (start + k) d) of None \<Rightarrow> 0 | Some v \<Rightarrow> length d - length v)"
  using assms(3)
proof (induction k rule: inc_induct)
  case base
  have "length d \<le> 256" using captured_length [OF assms(1)] assms(2) by simp
  then have "find_host (drop (start + 256) d) = None" by (intro find_host_short) simp
  then show ?case by simp
next
  case (step k)
  have upt: "[k..<256] = k # [Suc k..<256]" using step.hyps by (simp add: upt_conv_Cons)
  define p where "p = start + k"
  show ?case
  proof (cases "p + 1 \<ge> length d")
    case True
    then have "find_host (drop p d) = None" by (intro find_host_short) simp
    with True show ?thesis by (simp add: upt p_def)
  next
    case False
    define rest where "rest = drop (p + 2) d"
    have next': "d ! (p + 1) # rest = drop (start + Suc k) d" and here: "drop p d = d ! p # d ! (p + 1) # rest"
      using False Cons_nth_drop_Suc [of p d] Cons_nth_drop_Suc [of "p + 1" d]
      by (simp_all add: rest_def p_def numeral_2_eq_2)
    have len: "length d = p + 2 + length rest" using False by (simp add: rest_def)
    have byte: "http_prefix_byte s i = d ! i" if "i < length d" for i
      using captured_byte [OF assms(1), of i] that assms(2) by simp
    have first: "http_prefix_byte s p = d ! p" "http_prefix_byte s (p + 1) = d ! (p + 1)"
      using byte False by simp_all
    have nth: "http_prefix_byte s (p + (2 + j)) = rest ! j" if "j < length rest" for j
    proof -
      have "p + (2 + j) < length d" using that len by linarith
      then have "http_prefix_byte s (p + (2 + j)) = d ! (p + 2 + j)" using byte by (simp add: add.assoc)
      also have "\<dots> = rest ! j" unfolding rest_def using False by (intro nth_drop [symmetric]) simp
      finally show ?thesis .
    qed
    have blank: "p + 3 < length d \<and> http_prefix_byte s (p + 2) = CR \<and> http_prefix_byte s (p + 3) = LF \<longleftrightarrow>
        take 2 rest = [CR, LF]"
    proof (cases "2 \<le> length rest")
      case True
      then have "0 < length rest" by linarith
      with True show ?thesis unfolding two_bytes using nth [of 0] nth [of 1] len by simp
    next
      case False
      then show ?thesis unfolding two_bytes using len by simp
    qed
    have short: "p + 6 \<ge> length d \<longleftrightarrow> length rest < 5" using len by auto
    have match: "http_prefix_byte s (p + 2) OR 0x20 = ch CHR ''h'' \<and> http_prefix_byte s (p + 3) OR 0x20 = ch CHR ''o'' \<and>
        http_prefix_byte s (p + 4) OR 0x20 = ch CHR ''s'' \<and> http_prefix_byte s (p + 5) OR 0x20 = ch CHR ''t'' \<and>
        http_prefix_byte s (p + 6) = ch CHR '':'' \<longleftrightarrow>
        map (\<lambda>c. c OR 0x20) (take 4 rest) = c_lit ''host'' \<and> rest ! 4 = ch CHR '':''" if "\<not> length rest < 5"
    proof -
      have "0 < length rest" using that by linarith
      with that show ?thesis using nth [of 0] nth [of 1] nth [of 2] nth [of 3] nth [of 4]
        by (simp add: four_bytes not_less c_lit_def)
    qed
    have hit: "p + 7 = length d - length (drop 5 rest)" if "\<not> length rest < 5" using that len by simp
    have "hostfind_loop s (length d) start [k..<256] =
      (if d ! p \<noteq> CR \<or> d ! (p + 1) \<noteq> LF then hostfind_loop s (length d) start [Suc k..<256]
       else if take 2 rest = [CR, LF] then 0
       else if length rest < 5 then 0
       else if map (\<lambda>c. c OR 0x20) (take 4 rest) = c_lit ''host'' \<and> rest ! 4 = ch CHR '':''
       then length d - length (drop 5 rest)
       else hostfind_loop s (length d) start [Suc k..<256])"
    proof (cases "length rest < 5")
      case True
      then show ?thesis
        unfolding upt hostfind_loop.simps(2) Let_def p_def [symmetric] first blank short
        using False by (simp only: if_False if_True simp_thms)
    next
      case long: False
      then show ?thesis
        unfolding upt hostfind_loop.simps(2) Let_def p_def [symmetric] first blank short match [OF long] hit [OF long]
        using False by (simp only: if_False simp_thms)
    qed
    then show ?thesis
      unfolding step.IH p_def [symmetric] here next' [symmetric] find_host.simps(1)
      by (simp only: option.case cong: if_cong) (simp split: if_split)
  qed
qed

definition host_of :: "bytes \<Rightarrow> bytes" where
  "host_of rest = (case find_host rest of None \<Rightarrow> [] | Some v \<Rightarrow> host_value v)"

lemma http_step_hostfind_spec:
  assumes "at_request s d m target"
  shows "http_step_hostfind s = Some
    (case find_host (drop (m + 1 + length target + 1) d) of
       None \<Rightarrow> s
     | Some v \<Rightarrow> s\<lparr>host_val := of_nat (length d - length v), have_host := 1\<rparr>)"
proof -
  note a = at_requestD [OF assms]
  let ?le = "m + 1 + length target"
  have len: "min (unat (data_len s)) HTTP1_PREFIX_LEN = length d" using a(3,12) by simp
  have "unat (line_end s + 1) = ?le + 1"
  proof -
    have "unat (line_end s) + unat (1 :: u32) < 2 ^ LENGTH(32)" using a(6,10,12) by simp
    then show ?thesis using a(6) by (simp add: unat_add_lem [THEN iffD1])
  qed
  then have start: "drop (min (unat (line_end s + 1)) (length d) + 0) d = drop (?le + 1) d" by (simp add: min_def)
  have loop: "hostfind_loop s (length d) (min (unat (line_end s + 1)) (length d)) [0..<256] =
      (case find_host (drop (?le + 1) d) of None \<Rightarrow> 0 | Some v \<Rightarrow> length d - length v)"
    using hostfind_loop_spec [OF a(1,2), of 0 "min (unat (line_end s + 1)) (length d)", unfolded start] by blast
  show ?thesis
  proof (cases "find_host (drop (?le + 1) d)")
    case None
    with loop show ?thesis unfolding http_step_hostfind_def len Let_def by simp
  next
    case (Some v)
    from find_host_suffix [OF this] obtain u where u: "drop (?le + 1) d = u @ v" "7 \<le> length u" by blast
    have "length d - (?le + 1) = length u + length v" using arg_cong [OF u(1), of length] by simp
    with u(2) have "length d - length v \<noteq> 0" by linarith
    with Some loop show ?thesis unfolding http_step_hostfind_def len Let_def by simp
  qed
qed

lemma http_step_hostlen_spec:
  assumes "length (prefix s) = 256" "captured s = d" "have_host s \<noteq> 0"
    and "unat (host_val s) = length d - length v" "drop (length d - length v) d = v"
  shows "http_step_hostlen s = Some
    (let h = takeWhile (\<lambda>c. c \<noteq> CR \<and> c \<noteq> LF) v in
     if length h < length v then s\<lparr>host_n := of_nat (length h)\<rparr> else s\<lparr>have_host := 0\<rparr>)"
proof -
  define h where "h = takeWhile (\<lambda>c. c \<noteq> CR \<and> c \<noteq> LF) v"
  have L: "min (unat (data_len s)) HTTP1_PREFIX_LEN = length d" using captured_length [OF assms(1)] assms(2) by simp
  have L256: "length d \<le> 256" using L by simp
  have d: "take (length d) (prefix s) = d" using assms(2) L unfolding captured_def by simp
  have hv: "min (unat (host_val s)) (length d) = length d - length v" using assms(4) by simp
  have v256: "length v \<le> 256" using assms(5) L256 by (metis diff_le_self le_trans length_drop)
  have hclass: "takeWhile (\<lambda>c. host_class c = Go_On) v = h" by (simp add: h_def host_class_iff)
  have "scan_prefix host_class s (length d) (length d - length v) [0..<256] =
      (if h = v then Ran_Out else if host_class (v ! length h) = Stop_Here
       then Stopped_At (length d - length v + length h) else Refused)"
    using scan_prefix_spec [OF assms(1) L256, of 0 "length d - length v" host_class]
    by (simp only: Let_def d assms(5) hclass add_0_right zero_le diff_le_self)
  moreover have "host_class (v ! length h) = Stop_Here" if "h \<noteq> v"
    using nth_length_takeWhile [of "\<lambda>c. host_class c = Go_On" v] takeWhile_stops(1) [of "\<lambda>c. host_class c = Go_On" v] that
      host_class_iff(2) byte_class.exhaust unfolding hclass by metis
  moreover have less: "h \<noteq> v \<longleftrightarrow> length h < length v"
    using takeWhile_stops(1) [of "\<lambda>c. c \<noteq> CR \<and> c \<noteq> LF" v] unfolding h_def [symmetric] by blast
  ultimately have scan: "scan_prefix host_class s (length d) (length d - length v) [0..<256] =
      (if length h < length v then Stopped_At (length d - length v + length h) else Ran_Out)" by auto
  have n: "\<not> 256 \<le> length h" if "length h < length v" using that v256 by linarith
  show ?thesis
    using assms(3) n scan unfolding http_step_hostlen_def L hv h_def [symmetric] Let_def
    by simp
qed

section \<open>The composed parse\<close>

text \<open>What the parse target leaves for the emit step.\<close>

lemma http_parse_target_spec:
  assumes req: "at_request s d m target" and h: "h = host_of (drop (m + 1 + length target + 1) d)"
  shows "\<exists>s'. http_parse_target s = Some s' \<and> prefix s' = prefix s \<and> mlen s' = mlen s \<and> pos s' = pos s \<and>
    unat (path_n s') = length (strip_query target) \<and>
    (if have_host s' = 0 then h = []
     else unat (host_n s') = length h \<and> unat (host_val s') + length h < 256 \<and>
       take (length h) (drop (unat (host_val s')) (prefix s')) = h)"
proof -
  note a = at_requestD [OF req]
  let ?s1 = "s\<lparr>path_n := of_nat (length (strip_query target))\<rparr>"
  let ?rest = "drop (m + 1 + length target + 1) d"
  have "captured ?s1 = captured s" by (simp add: captured_def)
  then have req1: "at_request ?s1 d m target" using req by (simp add: at_request_def)
  have small: "length (strip_query target) < 2 ^ 32" using strip_query_length [of target] a(10,12) by simp
  note run = http_step_path_spec [OF req] http_step_hostfind_spec [OF req1]
  show ?thesis
  proof (cases "find_host ?rest")
    case None
    then have "h = []" using h by (simp add: host_of_def)
    moreover have "http_step_hostlen ?s1 = Some ?s1" using a(11) by (simp add: http_step_hostlen_def)
    ultimately show ?thesis
      using None run a(11) small by (simp add: http_parse_target_def unat_u32_of_nat)
  next
    case (Some v)
    let ?s2 = "?s1\<lparr>host_val := of_nat (length d - length v), have_host := 1\<rparr>"
    let ?w = "takeWhile (\<lambda>c. c \<noteq> CR \<and> c \<noteq> LF) v"
    from find_host_suffix [OF Some] obtain u where u: "?rest = u @ v" "7 \<le> length u" by blast
    have d: "d = take (m + 1 + length target + 1) d @ u @ v" using u(1) by (metis append_take_drop_id)
    have suffix: "drop (length d - length v) d = v" by (subst d) (subst (2) d, simp)
    have hv: "unat (of_nat (length d - length v) :: u32) = length d - length v"
      using a(12) by (intro unat_u32_of_nat) simp
    have lv: "length v \<le> length d" using suffix by (metis diff_le_self length_drop le_cases diff_diff_cancel)
    have step: "http_step_hostlen ?s2 = Some (let h = ?w in
        if length h < length v then ?s2\<lparr>host_n := of_nat (length h)\<rparr> else ?s2\<lparr>have_host := 0\<rparr>)"
      using a(1,2) hv suffix by (intro http_step_hostlen_spec) (simp_all add: captured_def)
    have hh: "h = host_value v" using h Some by (simp add: host_of_def)
    have parse: "http_parse_target s = http_step_hostlen ?s2"
      using run Some by (simp add: http_parse_target_def)
    show ?thesis
    proof (cases "length ?w < length v")
      case False
      then have "h = []" by (simp add: hh host_value_def Let_def)
      with False step parse small show ?thesis by (simp add: Let_def unat_u32_of_nat)
    next
      case True
      then have w: "h = ?w" by (simp add: hh host_value_def Let_def)
      have lw: "length h < length v" unfolding w by (rule True)
      have "drop (length d - length v) (prefix s) = v @ drop (length d) (prefix s)"
        using a(13) suffix lv by (metis append_take_drop_id drop_append length_take diff_le_self
            min.absorb2 a(1) a(12) diff_is_0_eq drop_0)
      then have "take (length h) (drop (length d - length v) (prefix s)) = h"
        using True w takeWhile_eq_take [of "\<lambda>c. c \<noteq> CR \<and> c \<noteq> LF" v] by simp
      moreover have "length d - length v + length h < 256" using lw lv a(12) by linarith
      moreover have "unat (of_nat (length h) :: u32) = length h"
        using lw lv a(12) by (intro unat_u32_of_nat) simp
      ultimately show ?thesis
        using True w step parse small hv by (simp add: Let_def unat_u32_of_nat)
    qed
  qed
qed

section \<open>The sample\<close>

lemma copy_method_spec:
  assumes "3 \<le> m" "m \<le> 7" "8 \<le> length (prefix s)" "length dst = 16"
  shows "copy_method s m [0..<8] dst = take m (prefix s) @ drop m dst"
proof -
  obtain p0 p1 p2 p3 p4 p5 p6 p7 r where p: "prefix s = p0 # p1 # p2 # p3 # p4 # p5 # p6 # p7 # r"
    using assms(3) by (auto simp: Suc_le_length_iff eval_nat_numeral)
  obtain d0 d1 d2 d3 d4 d5 d6 d7 e where d: "dst = d0 # d1 # d2 # d3 # d4 # d5 # d6 # d7 # e"
    using assms(4) by (auto simp: length_Suc_conv eval_nat_numeral)
  have "m \<in> {3, 4, 5, 6, 7}" using assms(1,2) by auto
  then show ?thesis by (auto simp: p d upt_conv_Cons)
qed

lemma http_copy_field_spec:
  assumes "length (prefix s) = 256" "unat n < 256" "unat src + unat n \<le> 256" "unat src < 256"
  shows "http_copy_field (replicate 256 0) s src n = padded 256 (take (unat n) (drop (unat src) (prefix s)))"
  using assms by (auto simp: http_copy_field_def padded_def blit_0 Let_def)

lemma http_header_fields [simp]:
  assumes "env_wf env"
  shows "hr_method (http_sample_header env cg source) = replicate 16 0"
    "hr_path (http_sample_header env cg source) = replicate 256 0"
    "hr_host (http_sample_header env cg source) = replicate 256 0"
  using storage_wfD [OF assms]
  by (simp_all add: http_sample_header_def zero_http_request_fields_def SET_TASK_HEADER_def)

lemma http_sample_fields:
  assumes env: "env_wf env" and req: "at_request s d m target"
    and parse: "http_parse_target s = Some s'"
  shows "hr_method (http_sample_of env s' cg source) = padded 16 (take m d)"
    "hr_path (http_sample_of env s' cg source) = padded 256 (strip_query target)"
    "hr_host (http_sample_of env s' cg source) = padded 256 (host_of (drop (m + 1 + length target + 1) d))"
proof -
  note a = at_requestD [OF req]
  define h where "h = host_of (drop (m + 1 + length target + 1) d)"
  from http_parse_target_spec [OF req h_def] parse
  have p: "prefix s' = prefix s" "mlen s' = mlen s" "pos s' = pos s" "unat (path_n s') = length (strip_query target)"
    and host: "if have_host s' = 0 then h = [] else unat (host_n s') = length h \<and>
      unat (host_val s') + length h < 256 \<and> take (length h) (drop (unat (host_val s')) (prefix s')) = h"
    by auto
  have len: "length (prefix s') = 256" using p(1) a(1) by simp
  have strip: "length (strip_query target) \<le> length target" by (rule strip_query_length)
  have "take m (prefix s') = take m d"
    using a(8,10,13) p(1) by (metis add_leD1 min.absorb1 take_take)
  with copy_method_spec [OF a(7,8), of s' "replicate 16 0"] len
  have "copy_method s' m [0..<8] (replicate 16 0) = padded 16 (take m d)"
    using a(10) by (simp add: padded_def)
  then show "hr_method (http_sample_of env s' cg source) = padded 16 (take m d)"
    using env a(4,7,8) p(2) by (simp add: http_sample_of_def Let_def)
  have "take (length (strip_query target)) (drop (m + 1) (prefix s)) = strip_query target"
  proof -
    have "target = take (length target) (drop (m + 1) (prefix s))"
      using a(9,10,13) by (metis drop_take add_diff_cancel_left' min.absorb1 take_take)
    moreover have "strip_query target = take (length (strip_query target)) target"
      unfolding strip_query_def by (rule takeWhile_eq_take)
    ultimately show ?thesis using strip by (metis min.absorb1 take_take)
  qed
  then have "http_copy_field (replicate 256 0) s' (pos s') (path_n s') = padded 256 (strip_query target)"
    using http_copy_field_spec [OF len, of "path_n s'" "pos s'"] strip a(5,8,10,12) p by simp
  then show "hr_path (http_sample_of env s' cg source) = padded 256 (strip_query target)"
    using env by (simp add: http_sample_of_def Let_def)
  show "hr_host (http_sample_of env s' cg source) = padded 256 (host_of (drop (m + 1 + length target + 1) d))"
  proof (cases "have_host s' = 0")
    case True
    with host have "h = []" by simp
    with True env show ?thesis unfolding h_def [symmetric] by (simp add: http_sample_of_def Let_def padded_def)
  next
    case False
    with host have "http_copy_field (replicate 256 0) s' (host_val s') (host_n s') = padded 256 h"
      using http_copy_field_spec [OF len, of "host_n s'" "host_val s'"] by auto
    with False env show ?thesis unfolding h_def [symmetric] by (simp add: http_sample_of_def Let_def)
  qed
qed

text \<open>The request line step stores what the rest of the parse relies on.\<close>

lemma reqline_at_request:
  assumes len: "length (prefix s) = 256" and host: "have_host s = 0" and long: "14 \<le> length (captured s)"
    and m: "request_method (captured s) = Some m"
    and t: "parse_target (drop (length m + 1) (captured s)) = Some (target, after)"
  shows "at_request (s\<lparr>data_len := of_nat (length (captured s)), mlen := of_nat (length m), pos := of_nat (length m + 1),
           line_end := of_nat (length m + 1 + length target)\<rparr>) (captured s) (length m) target"
    and "request_host after = host_of (drop (length m + 1 + length target + 1) (captured s))"
    and "take (length m) (captured s) = c_lit m"
proof -
  note mf = request_method_Some [OF m] and pf = parse_target_facts [OF t]
  have L: "length (captured s) \<le> 256" using captured_length [OF len] by simp
  have fit: "length m + 1 + length target \<le> length (captured s)" using pf(1) mf(2) long by simp
  show "at_request (s\<lparr>data_len := of_nat (length (captured s)), mlen := of_nat (length m), pos := of_nat (length m + 1),
           line_end := of_nat (length m + 1 + length target)\<rparr>) (captured s) (length m) target"
    unfolding at_request_def captured_update(1) [OF len refl]
    using len host mf(1,2) fit L pf(2) unat_u32_of_nat by (auto simp flip: of_nat_Suc of_nat_add)
  show "take (length m) (captured s) = c_lit m"
    using arg_cong [OF mf(3), of "take (length m)"] by simp
  show "request_host after = host_of (drop (length m + 1 + length target + 1) (captured s))"
  proof (cases after)
    case None
    with pf(3) have "length m + 1 + length target \<ge> length (captured s)" by simp
    then have "drop (length m + 1 + length target + 1) (captured s) = []" by simp
    with None show ?thesis by (simp add: request_host_def host_of_def)
  next
    case (Some bs)
    with pf(4) have "bs = drop (length m + 1 + length target + 1) (captured s)" by (simp add: ac_simps)
    with Some show ?thesis by (simp add: request_host_def host_of_def)
  qed
qed

section \<open>Equivalence\<close>

text \<open>The three parsed fields of the sample a workspace is emitted as.\<close>

definition emitted_fields :: "kenv \<Rightarrow> u64 \<Rightarrow> u8 \<Rightarrow> http_scratch \<Rightarrow> bytes \<times> bytes \<times> bytes" where
  "emitted_fields env cg source s =
     (let x = http_sample_of env s cg source in (hr_method x, hr_path x, hr_host x))"

definition padded_fields :: "bytes \<times> bytes \<times> bytes \<Rightarrow> bytes \<times> bytes \<times> bytes" where
  "padded_fields = (\<lambda>(m, p, h). (padded HTTP_METHOD_LEN m, padded HTTP_PATH_LEN p, padded HTTP_HOST_LEN h))"

lemma parse_reference:
  assumes env: "env_wf env" and len: "length (prefix s) = HTTP1_PREFIX_LEN" and host: "have_host s = 0"
  shows "map_option (emitted_fields env cg source) (Option.bind (http_step_reqline s) http_parse_target) =
         map_option padded_fields (http_reference (captured s))"
proof -
  let ?d = "captured s"
  have len: "length (prefix s) = 256" using len by simp
  note step = reqline_unfold [OF len refl]
  show ?thesis
  proof (cases "length ?d < 14")
    case True
    then show ?thesis using step(1) by (simp add: http_reference_def)
  next
    case False
    then have long: "14 \<le> length ?d" by simp
    show ?thesis
    proof (cases "request_method ?d")
      case None
      then show ?thesis using step(2) long by (simp add: http_reference_def)
    next
      case (Some m)
      note step_m = step(3) [OF long Some]
      let ?rest = "drop (length m + 1) ?d"
      consider (no) "?rest ! 0 \<noteq> ch CHR ''/'' \<or> parse_target ?rest = None"
        | (target) t after where "?rest ! 0 = ch CHR ''/''" "parse_target ?rest = Some (t, after)" by fastforce
      then show ?thesis
      proof cases
        case no
        then have "http_step_reqline s = None" unfolding step_m by (auto split: option.split)
        moreover have "http_reference ?d = None"
          using no Some long unfolding http_reference_def Let_def by (auto split: option.split)
        ultimately show ?thesis by simp
      next
        case target
        let ?s1 = "s\<lparr>data_len := of_nat (length ?d), mlen := of_nat (length m), pos := of_nat (length m + 1),
          line_end := of_nat (length m + 1 + length t)\<rparr>"
        note req = reqline_at_request [OF len host long Some target(2)]
        have run: "http_step_reqline s =
            (if (case after of None \<Rightarrow> True | Some bs \<Rightarrow> version_prefix_ok bs) then Some ?s1 else None)"
          unfolding step_m target(2) using target(1) by simp
        have ref: "http_reference ?d =
            (if (case after of None \<Rightarrow> True | Some bs \<Rightarrow> version_prefix_ok bs)
             then Some (c_lit m, strip_query t, request_host after) else None)"
          using target Some long unfolding http_reference_def Let_def by simp
        obtain s' where "http_parse_target ?s1 = Some s'"
          using http_parse_target_spec [OF req(1) refl] by blast
        with http_sample_fields [OF env req(1) this] req(2,3)
        have "map_option (emitted_fields env cg source) (http_parse_target ?s1) =
            Some (padded_fields (c_lit m, strip_query t, request_host after))"
          by (simp add: emitted_fields_def padded_fields_def Let_def)
        then show ?thesis unfolding run ref by simp
      qed
    qed
  qed
qed

text \<open>
  C15: The HTTP/1 parser of the kernel programs is the reference parser. From a workspace as the
  capture leaves it, the request line step followed by the path and Host steps accepts exactly
  the captured prefixes the reference parser accepts, and the method, path and host of the sample
  are the reference ones, padded with zeros to the size of their fields. In particular no byte of
  the workspace beyond the captured ones has any influence.
\<close>

theorem http_parse_is_reference:
  assumes "env_wf env" "length (prefix s) = HTTP1_PREFIX_LEN" "have_host s = 0"
  shows "map_option (emitted_fields env cg source) (Option.bind (http_step_reqline s) http_parse_target) =
         map_option padded_fields (http_reference (captured s))"
  using assms by (rule parse_reference)

text \<open>A request with a query, a Host header and a secret, after older bytes in the workspace.\<close>

definition get_request :: bytes where
  "get_request = c_lit ''GET /build?token=1 HTTP/1.1'' @ [CR, LF] @ c_lit ''Host: ci'' @ [CR, LF] @
     c_lit ''Cookie: s'' @ [CR, LF, CR, LF]"

definition get_workspace :: http_scratch where
  "get_workspace = zero_http_scratch\<lparr>prefix := get_request @ replicate 204 0x41, data_len := 52\<rparr>"

lemma get_reference:
  "http_reference get_request = Some (c_lit ''GET'', c_lit ''/build'', c_lit '' ci'')"
  by code_simp

lemma get_captured: "length (prefix get_workspace) = 256" "captured get_workspace = get_request"
  by (simp_all add: get_workspace_def captured_def get_request_def c_lit_def)

theorem http_parse_is_reference_witness:
  "map_option (emitted_fields quiet_env 7 HTTP_SOURCE_CLEARTEXT)
     (Option.bind (http_step_reqline get_workspace) http_parse_target) =
   Some (padded_fields (c_lit ''GET'', c_lit ''/build'', c_lit '' ci''))"
  using http_parse_is_reference [of quiet_env get_workspace 7 HTTP_SOURCE_CLEARTEXT] get_reference get_captured
  by (simp add: get_workspace_def zero_http_scratch_def)

end
