(* ===== verification/Tail_Calls.thy ===== *)
theory Tail_Calls
  imports Hook_Contract
begin

text \<open>
  Chains of programs. A program of the HTTP taps ends with a return value or jumps to another
  program through a tail-call table (\<open>bpf_tail_call\<close>); the jump does not return, and it has no
  effect when the slot is empty or the chain is too long. The chains run on one CPU and, as one
  invocation of the attached program, in one cgroup.

  The building block of their contract: every program of a chain works in the scratch slots of
  its CPU only, until the last one reserves, fills and submits a sample.
\<close>

datatype outcome = Exit int | Tail_Call bpf_prog

text \<open>\<open>bpf_tail_call(ctx, table, index); return 0;\<close>, which is how every caller uses it.\<close>

definition bpf_tail_call :: "(nat \<rightharpoonup> bpf_prog) \<Rightarrow> nat \<Rightarrow> outcome" where
  "bpf_tail_call table index = (case table index of None \<Rightarrow> Exit 0 | Some p \<Rightarrow> Tail_Call p)"

definition MAX_TAIL_CALL_CNT :: nat where [simp]: "MAX_TAIL_CALL_CNT = 33"

text \<open>
  The rest of a chain from program \<open>p\<close> on: one environment for each program that may still
  run. Where none is left the limit is reached, the jump fails and the caller returns 0.
\<close>

fun run_stages :: "(bpf_prog \<Rightarrow> kenv \<Rightarrow> bpf_state \<Rightarrow> outcome \<times> bpf_state) \<Rightarrow> kenv list \<Rightarrow> bpf_prog \<Rightarrow>
    bpf_state \<Rightarrow> int \<times> bpf_state" where
  "run_stages run [] p s = (0, s)"
| "run_stages run (env # envs) p s =
     (case run p env s of
        (Exit r, s') \<Rightarrow> (r, s')
      | (Tail_Call q, s') \<Rightarrow> run_stages run envs q s')"

definition run_chain :: "(bpf_prog \<Rightarrow> kenv \<Rightarrow> bpf_state \<Rightarrow> outcome \<times> bpf_state) \<Rightarrow> kenv list \<Rightarrow>
    outcome \<times> bpf_state \<Rightarrow> int \<times> bpf_state" where
  "run_chain run envs r =
     (case r of (Exit v, s) \<Rightarrow> (v, s) | (Tail_Call p, s) \<Rightarrow> run_stages run envs p s)"

section \<open>The contract of the programs of a chain\<close>

inductive stage_form :: "kenv \<Rightarrow> bpf_state \<Rightarrow> outcome \<times> bpf_state \<Rightarrow> bool" for env s where
  quit: "scratch_only env s s1 \<Longrightarrow> (env_wf env \<longrightarrow> state_wf s \<longrightarrow> state_wf s1) \<Longrightarrow>
    stage_form env s (Exit 0, s1)"
| jump: "scratch_only env s s1 \<Longrightarrow> (env_wf env \<longrightarrow> state_wf s \<longrightarrow> state_wf s1) \<Longrightarrow>
    stage_form env s (Tail_Call p, s1)"
| emit: "scratch_only env s s1 \<Longrightarrow> (env_wf env \<longrightarrow> state_wf s \<longrightarrow> state_wf s1) \<Longrightarrow>
    sample_body env (env_wf env \<and> state_wf s) 0 body \<Longrightarrow>
    RESERVE_SAMPLE env k 0 body s1 = (r, s2) \<Longrightarrow> stage_form env s (Exit r, s2)"

lemma stage_form_stay [simp, intro]: "stage_form env s (Exit 0, s)"
  by (rule stage_form.quit) simp_all

lemma stage_form_tail_call:
  "scratch_only env s s1 \<Longrightarrow> (env_wf env \<longrightarrow> state_wf s \<longrightarrow> state_wf s1) \<Longrightarrow>
   stage_form env s (bpf_tail_call table index, s1)"
  by (auto simp: bpf_tail_call_def split: option.split intro: stage_form.intros)

lemma sample_body_mono:
  assumes "sample_body env ok v body" "ok' \<Longrightarrow> ok"
  shows "sample_body env ok' v body"
proof -
  have "submits env ok' v s r" if "submits env ok v s r" for s r
    using that assms(2) unfolding submits_def by blast
  moreover have "discards env ok' v s r" if "discards env ok v s r" for s r
    using that assms(2) unfolding discards_def by blast
  ultimately show ?thesis using assms(1) unfolding sample_body_def by blast
qed

lemma stage_form_gated:
  assumes form: "stage_form env s1 (Exit r, s2)"
    and start: "scratch_only env s s1" "env_wf env \<longrightarrow> state_wf s \<longrightarrow> state_wf s1"
    and tracked: "tracked_cgroups s (current_cgroup_id env) \<noteq> None"
  shows "gated_form env 0 s (r, s2)"
  using form
proof cases
  case quit
  then have "scratch_only env s s2" using start(1) by (blast intro: scratch_only_trans)
  then show ?thesis using quit start(2) by (simp add: gated_form.scratch)
next
  case (emit s1' body k)
  have "sample_body env (env_wf env \<and> state_wf s) 0 body"
    using emit(3) start(2) by (blast intro: sample_body_mono)
  moreover have "scratch_only env s s1'" using start(1) emit(1) by (rule scratch_only_trans)
  ultimately have "gated_form env 0 s (RESERVE_SAMPLE env k 0 body s1')"
    using start(2) emit(2) tracked by (intro gated_form.reserve) auto
  then show ?thesis by (simp add: emit(4))
qed

text \<open>A chain all of whose programs have the form keeps the contract of an observing program.\<close>

lemma run_stages_gated:
  assumes forms: "\<And>p s. stage_form env s (run p env s)"
    and start: "scratch_only env s s1" "env_wf env \<longrightarrow> state_wf s \<longrightarrow> state_wf s1"
    and tracked: "tracked_cgroups s (current_cgroup_id env) \<noteq> None"
  shows "gated_form env 0 s (run_stages run (replicate n env) p s1)"
  using start
proof (induction n arbitrary: p s1)
  case 0
  then show ?case by (simp add: gated_form.scratch)
next
  case (Suc n)
  obtain out s2 where r: "run p env s1 = (out, s2)" by fastforce
  have form: "stage_form env s1 (out, s2)" using forms [of s1 p] r by simp
  show ?case
  proof (cases out)
    case (Exit v)
    then show ?thesis using stage_form_gated [OF _ Suc.prems tracked] form r by simp
  next
    case (Tail_Call q)
    from form Tail_Call have "scratch_only env s1 s2" "env_wf env \<longrightarrow> state_wf s1 \<longrightarrow> state_wf s2"
      by (auto elim: stage_form.cases)
    with Suc.prems have "scratch_only env s s2" "env_wf env \<longrightarrow> state_wf s \<longrightarrow> state_wf s2"
      using scratch_only_trans by blast+
    then have "gated_form env 0 s (run_stages run (replicate n env) q s2)" by (rule Suc.IH)
    then show ?thesis using Tail_Call r by simp
  qed
qed

lemma run_chain_gated:
  assumes "\<And>p s. stage_form env s (run p env s)" "stage_form env s entry"
    and "tracked_cgroups s (current_cgroup_id env) = None \<Longrightarrow> entry = (Exit 0, s)"
  shows "gated_form env 0 s (run_chain run (replicate n env) entry)"
proof (cases "tracked_cgroups s (current_cgroup_id env) = None")
  case True
  then show ?thesis using assms(3) by (simp add: run_chain_def gated_form.pass)
next
  case False
  from assms(2) show ?thesis
  proof cases
    case (jump s1 p)
    then have "gated_form env 0 s (run_stages run (replicate n env) p s1)"
      using assms(1) False by (intro run_stages_gated)
    then show ?thesis by (simp add: run_chain_def jump)
  next
    case (quit s1)
    then show ?thesis using stage_form_gated [of env s 0 s1 s] assms(2) False by (simp add: run_chain_def)
  next
    case (emit s1 body k r s2)
    then show ?thesis using stage_form_gated [of env s r s2 s] assms(2) False by (simp add: run_chain_def)
  qed
qed

end
