(* ===== verification/Http_Taps.thy ===== *)
theory Http_Taps
  imports Http_Equivalence Tail_Calls
begin

text \<open>
  The two HTTP/1 taps: cleartext requests at \<open>tcp_sendmsg\<close> (\<open>http_hooks.bpf.h\<close>) and requests
  before encryption at \<open>SSL_write\<close> (\<open>http_uprobe_capture_hooks.bpf.h\<close>). The attached entry
  captures a prefix, parses the request line and jumps to the parse target of its table, which
  parses path and host and emits the sample.
\<close>

definition HTTP_STAGE_PARSE :: nat where [simp]: "HTTP_STAGE_PARSE = 0"
definition HTTP_UPROBE_STAGE_OPENSSL_PARSE :: nat where [simp]: "HTTP_UPROBE_STAGE_OPENSSL_PARSE = 0"
definition HTTP_UPROBE_STAGE_NGHTTP2_REQUIRED :: nat where [simp]: "HTTP_UPROBE_STAGE_NGHTTP2_REQUIRED = 1"
definition HTTP_UPROBE_STAGE_NGHTTP2_EMIT :: nat where [simp]: "HTTP_UPROBE_STAGE_NGHTTP2_EMIT = 2"
definition HTTP_UPROBE_STAGE_GO_HTTP_REQUIRED :: nat where [simp]: "HTTP_UPROBE_STAGE_GO_HTTP_REQUIRED = 3"
definition HTTP_UPROBE_STAGE_GO_HTTP_EMIT :: nat where [simp]: "HTTP_UPROBE_STAGE_GO_HTTP_EMIT = 4"

section \<open>Programs\<close>

text \<open>The end of both entries: the request line step on the captured prefix, then the jump.\<close>

definition reqline_and_jump :: "kenv \<Rightarrow> (nat \<rightharpoonup> bpf_prog) \<Rightarrow> nat \<Rightarrow> bpf_state \<Rightarrow> outcome \<times> bpf_state" where
  "reqline_and_jump env table index s =
     (case http_scratch_get env s of
        None \<Rightarrow> (Exit 0, s)
      | Some sc \<Rightarrow>
          (case http_step_reqline sc of
             None \<Rightarrow> (Exit 0, s)
           | Some sc' \<Rightarrow> (bpf_tail_call table index, http_scratch_put env sc' s)))"

definition handle_tcp_sendmsg_http :: "kenv \<Rightarrow> ptr \<times> ptr \<times> u64 \<Rightarrow> bpf_state \<Rightarrow> outcome \<times> bpf_state" where
  "handle_tcp_sendmsg_http env a s =
     (case a of (sk, msg, len) \<Rightarrow>
        if cgroup_is_tracked s (current_cgroup_id env) = 0 then (Exit 0, s)
        else case http_entry_capture env msg s of
          (False, s1) \<Rightarrow> (Exit 0, s1)
        | (True, s1) \<Rightarrow> reqline_and_jump env (http_stages s1) HTTP_STAGE_PARSE s1)"

text \<open>The parse targets differ in the source they emit.\<close>

definition parse_and_emit :: "kenv \<Rightarrow> u8 \<Rightarrow> bpf_state \<Rightarrow> outcome \<times> bpf_state" where
  "parse_and_emit env source s =
     (case http_scratch_get env s of
        None \<Rightarrow> (Exit 0, s)
      | Some sc \<Rightarrow>
          (case http_parse_target sc of
             None \<Rightarrow> (Exit 0, s)
           | Some sc' \<Rightarrow>
               (case http_step_emit env sc' (current_cgroup_id env) source (http_scratch_put env sc' s) of
                  (_, s') \<Rightarrow> (Exit 0, s'))))"

definition handle_tcp_sendmsg_http_parse :: "kenv \<Rightarrow> bpf_state \<Rightarrow> outcome \<times> bpf_state" where
  "handle_tcp_sendmsg_http_parse env s = parse_and_emit env HTTP_SOURCE_CLEARTEXT s"

text \<open>\<open>num\<close> is a \<open>long\<close>: the guard compares it as a signed number.\<close>

definition handle_ssl_write :: "kenv \<Rightarrow> ptr \<times> ptr \<times> s64 \<Rightarrow> bpf_state \<Rightarrow> outcome \<times> bpf_state" where
  "handle_ssl_write env a s =
     (case a of (ssl, buf, num) \<Rightarrow>
        if cgroup_is_tracked s (current_cgroup_id env) = 0 then (Exit 0, s)
        else if sint num < int HTTP_MIN_REQUEST_LINE then (Exit 0, s)
        else case http_capture_user_buffer env buf num s of
          (False, s1) \<Rightarrow> (Exit 0, s1)
        | (True, s1) \<Rightarrow> reqline_and_jump env (http_uprobe_stages s1) HTTP_UPROBE_STAGE_OPENSSL_PARSE s1)"

definition handle_ssl_write_parse :: "kenv \<Rightarrow> bpf_state \<Rightarrow> outcome \<times> bpf_state" where
  "handle_ssl_write_parse env s = parse_and_emit env HTTP_SOURCE_OPENSSL s"

section \<open>The form of the programs\<close>

lemma scratch_only_http_put [simp]: "scratch_only env s (http_scratch_put env sc s)"
  by (simp add: http_scratch_put_def)

lemma http_scratch_put_maps [simp]:
  "tracked_cgroups (http_scratch_put env sc s) = tracked_cgroups s"
  "events (http_scratch_put env sc s) = events s" "reserved (http_scratch_put env sc s) = reserved s"
  "http_stages (http_scratch_put env sc s) = http_stages s"
  "http_uprobe_stages (http_scratch_put env sc s) = http_uprobe_stages s"
  by (simp_all add: http_scratch_put_def)

lemma http_scratch_get_wf: "http_scratch_get env s = Some sc \<Longrightarrow> state_wf s \<Longrightarrow> length (prefix sc) = 256"
  using state_wf_http_scratch [of s _ "cpu env"] by (fastforce simp: http_scratch_get_def percpu_lookup_Some)

lemma http_scratch_put_wf: "state_wf s \<Longrightarrow> length (prefix sc) = 256 \<Longrightarrow> state_wf (http_scratch_put env sc s)"
  by (simp add: http_scratch_put_def state_wf_http_store)

lemma http_get_put:
  "http_scratch_get env s \<noteq> None \<Longrightarrow> http_scratch_get env (http_scratch_put env sc s) = Some sc"
  by (auto simp: http_scratch_get_def http_scratch_put_def percpu_lookup_Some)

text \<open>No step touches the captured bytes.\<close>

lemma prefix_update [simp]:
  "prefix (s\<lparr>path_n := n\<rparr>) = prefix s" "prefix (s\<lparr>have_host := n\<rparr>) = prefix s" "prefix (s\<lparr>host_n := n\<rparr>) = prefix s"
  "prefix (s\<lparr>host_val := n, have_host := k\<rparr>) = prefix s"
  "prefix (s\<lparr>data_len := a, mlen := b, pos := c, line_end := d\<rparr>) = prefix s"
  by simp_all

lemma if_None_SomeD: "(if b then None else x) = Some y \<Longrightarrow> x = Some y" "(if b then x else None) = Some y \<Longrightarrow> x = Some y"
  by (auto split: if_splits)

lemma http_step_reqline_prefix:
  assumes "http_step_reqline s = Some s'"
  shows "prefix s' = prefix s"
proof -
  from assms obtain a b c d where "s' = s\<lparr>data_len := a, mlen := b, pos := c, line_end := d\<rparr>"
    unfolding http_step_reqline_def Let_def
    by (fastforce dest!: if_None_SomeD simp only: option.inject option.distinct split: scan_result.split_asm)
  then show ?thesis by simp
qed

lemma http_step_path_prefix:
  assumes "http_step_path s = Some s'"
  shows "prefix s' = prefix s"
  using if_None_SomeD(1) [OF assms [unfolded http_step_path_def Let_def]]
  by (simp only: option.inject) (erule subst, rule prefix_update)

lemma http_step_hostfind_prefix:
  assumes "http_step_hostfind s = Some s'"
  shows "prefix s' = prefix s"
  using assms unfolding http_step_hostfind_def Let_def
  by (simp only: option.inject split: if_split_asm) (erule subst, rule prefix_update)

lemma http_step_hostlen_prefix:
  assumes "http_step_hostlen s = Some s'"
  shows "prefix s' = prefix s"
proof -
  from assms have "s' = s \<or> (\<exists>n. s' = s\<lparr>have_host := n\<rparr>) \<or> (\<exists>n. s' = s\<lparr>host_n := n\<rparr>)"
    unfolding http_step_hostlen_def Let_def
    by (simp only: option.inject split: if_split_asm scan_result.split_asm) blast+
  then show ?thesis by auto
qed

lemma http_parse_target_prefix:
  assumes "http_parse_target s = Some s'"
  shows "prefix s' = prefix s"
  using assms unfolding http_parse_target_def
  by (auto split: option.splits dest!: http_step_path_prefix http_step_hostfind_prefix http_step_hostlen_prefix)

lemma http_copy_field_length:
  "length (prefix s) = 256 \<Longrightarrow> length dst = 256 \<Longrightarrow> length (http_copy_field dst s src n) = 256"
proof -
  assume len: "length (prefix s) = 256" "length dst = 256"
  have "length (blit 0 (take k (drop m (prefix s))) dst) = 256" for k m
    using length_blit [of 0 "take k (drop m (prefix s))" dst] len by simp
  then show ?thesis using len unfolding http_copy_field_def Let_def by simp
qed

lemma copy_method_length: "length (copy_method s m is dst) = length dst"
  by (induction s m "is" dst rule: copy_method.induct) simp_all

lemma http_header_meta [simp]:
  "kind (http_sample_header env cg source) = kind_value SAMPLE_KIND_HTTP_REQUEST"
  "cgroup_id (http_sample_header env cg source) = cg"
  "hr_source (http_sample_header env cg source) = source"
  "hr_pad0 (http_sample_header env cg source) = [0, 0, 0]"
  by (simp_all add: http_sample_header_def zero_http_request_fields_def SET_TASK_HEADER_def)

lemma http_sample_wf:
  assumes "env_wf env" "length (prefix sc) = 256"
  shows "sample_wf (HttpRequestSample (http_sample_of env sc cg source))"
  using assms
  by (simp add: http_sample_of_def Let_def http_copy_field_length copy_method_length)

lemma http_sample_kind [simp]:
  "kind_ok (HttpRequestSample (http_sample_of env sc cg source))"
  "cgroup_id (http_sample_of env sc cg source) = cg"
  by (simp_all add: kind_ok_def http_sample_of_def Let_def)

lemma reqline_and_jump_form:
  assumes "scratch_only env s s1" "env_wf env \<longrightarrow> state_wf s \<longrightarrow> state_wf s1"
  shows "stage_form env s (reqline_and_jump env table index s1)"
proof (cases "http_scratch_get env s1")
  case None
  then show ?thesis using assms by (simp add: reqline_and_jump_def stage_form.quit)
next
  case (Some sc)
  show ?thesis
  proof (cases "http_step_reqline sc")
    case None
    then show ?thesis using Some assms by (simp add: reqline_and_jump_def stage_form.quit)
  next
    case step: (Some sc')
    have "stage_form env s (bpf_tail_call table index, http_scratch_put env sc' s1)"
      using assms http_step_reqline_prefix [OF step] http_scratch_get_wf [OF Some]
      by (intro stage_form_tail_call) (auto intro: scratch_only_trans http_scratch_put_wf)
    then show ?thesis using Some step by (simp add: reqline_and_jump_def)
  qed
qed

lemma parse_and_emit_form: "stage_form env s (parse_and_emit env source s)"
proof (cases "http_scratch_get env s")
  case None
  then show ?thesis by (simp add: parse_and_emit_def)
next
  case (Some sc)
  show ?thesis
  proof (cases "http_parse_target sc")
    case None
    then show ?thesis using Some by (simp add: parse_and_emit_def)
  next
    case step: (Some sc')
    let ?s1 = "http_scratch_put env sc' s" and ?cg = "current_cgroup_id env"
    have len: "state_wf s \<longrightarrow> length (prefix sc') = 256"
      using http_parse_target_prefix [OF step] http_scratch_get_wf [OF Some] by simp
    have body: "sample_body env (env_wf env \<and> state_wf s) 0
        (\<lambda>s2. (0, bpf_ringbuf_submit (HttpRequestSample (http_sample_of env sc' ?cg source)) s2))"
      using len by (intro sample_body_plain) (auto simp del: sample_wf.simps intro: http_sample_wf)
    obtain r s2 where r: "http_step_emit env sc' ?cg source ?s1 = (r, s2)" by fastforce
    have "r = 0" using r by (auto simp: http_step_emit_def RESERVE_SAMPLE_cases split: if_splits)
    moreover have "stage_form env s (Exit r, s2)"
      using len r by (intro stage_form.emit [OF _ _ body]) (auto simp: http_step_emit_def intro: http_scratch_put_wf)
    ultimately show ?thesis using Some step r by (simp add: parse_and_emit_def)
  qed
qed

lemma http_capture_form:
  assumes "http_capture_user_buffer env base seg_len s = (go, s1)"
  shows "scratch_only env s s1" "env_wf env \<longrightarrow> state_wf s \<longrightarrow> state_wf s1"
proof -
  from assms have "scratch_only env s s1 \<and> (env_wf env \<longrightarrow> state_wf s \<longrightarrow> state_wf s1)"
    unfolding http_capture_user_buffer_def
    by (auto simp: Let_def read_into_def bpf_probe_read_user_def split: if_splits option.splits
        intro!: http_scratch_put_wf dest!: length_read_bytes http_scratch_get_wf)
  then show "scratch_only env s s1" "env_wf env \<longrightarrow> state_wf s \<longrightarrow> state_wf s1" by blast+
qed

lemma http_entry_capture_form:
  assumes "http_entry_capture env msg s = (go, s1)"
  shows "scratch_only env s s1" "env_wf env \<longrightarrow> state_wf s \<longrightarrow> state_wf s1"
  using assms http_capture_form by (auto simp: http_entry_capture_def split: option.splits)

lemma tcp_sendmsg_http_form: "stage_form env s (handle_tcp_sendmsg_http env a s)"
proof -
  obtain sk msg len where a: "a = (sk, msg, len)" by (cases a)
  obtain go s1 where c: "http_entry_capture env msg s = (go, s1)" by fastforce
  note f = http_entry_capture_form [OF c]
  show ?thesis
    using f reqline_and_jump_form [OF f] stage_form.quit [OF f]
    by (cases go) (simp_all add: handle_tcp_sendmsg_http_def a c)
qed

lemma ssl_write_form: "stage_form env s (handle_ssl_write env a s)"
proof -
  obtain ssl buf num where a: "a = (ssl, buf, num)" by (cases a)
  obtain go s1 where c: "http_capture_user_buffer env buf num s = (go, s1)" by fastforce
  note f = http_capture_form [OF c]
  show ?thesis
    using f reqline_and_jump_form [OF f] stage_form.quit [OF f]
    by (cases go) (simp_all add: handle_ssl_write_def a c)
qed

section \<open>A whole capture\<close>

text \<open>The record of a parsed request.\<close>

definition http_record :: "kenv \<Rightarrow> u64 \<Rightarrow> u8 \<Rightarrow> bytes \<times> bytes \<times> bytes \<Rightarrow> http_request_sample" where
  "http_record env cg source f =
     (case padded_fields f of (m, p, h) \<Rightarrow>
        \<lparr>kind = kind_value SAMPLE_KIND_HTTP_REQUEST, ts_ns = ktime_ns env, cgroup_id = cg,
         start_boottime = current_start_boottime env, tgid = current_tgid env,
         hr_source = source, hr_pad0 = [0, 0, 0], hr_pad1 = 0, hr_method = m, hr_path = p, hr_host = h\<rparr>)"

lemma http_sample_record:
  assumes "env_wf env" "emitted_fields env cg source sc = padded_fields f"
  shows "http_sample_of env sc cg source = http_record env cg source f"
proof -
  obtain m p h where f: "padded_fields f = (m, p, h)" by (cases "padded_fields f")
  have "http_sample_of env sc cg source =
      (http_sample_header env cg source)
        \<lparr>hr_method := hr_method (http_sample_of env sc cg source), hr_path := hr_path (http_sample_of env sc cg source),
         hr_host := hr_host (http_sample_of env sc cg source)\<rparr>"
    by (simp add: http_sample_of_def Let_def)
  also have "\<dots> = (http_sample_header env cg source)\<lparr>hr_method := m, hr_path := p, hr_host := h\<rparr>"
    using assms(2) f by (simp add: emitted_fields_def Let_def)
  finally show ?thesis
    by (simp add: http_record_def f http_sample_header_def zero_http_request_fields_def SET_TASK_HEADER_def)
qed

text \<open>The capture of a readable buffer: the workspace it leaves holds exactly the bytes read.\<close>

lemma capture_readable:
  assumes wf: "state_wf s" and slot: "http_scratch_get env s = Some sc"
    and read: "read_bytes (umem env) base (min (unat n) 256) = Some d"
  shows "if length d < 14 \<or> request_method d = None then http_capture_user_buffer env base n s = (False, s)
    else \<exists>sc'. http_capture_user_buffer env base n s = (True, http_scratch_put env sc' s) \<and>
      length (prefix sc') = 256 \<and> captured sc' = d \<and> have_host sc' = 0"
proof -
  have len: "length d = min (unat n) 256" using read by simp
  show ?thesis
  proof (cases "length d < 14")
    case True
    then have "unat n < 14" using len by simp
    then show ?thesis using True by (simp add: http_capture_user_buffer_def)
  next
    case False
    have head: "read_bytes (umem env) base 8 = Some (take 8 d)"
      using read_bytes_prefix [OF read, of 8] len False by simp
    have meth: "http_method_len (take 8 d) = (case request_method d of None \<Rightarrow> 0 | Some m \<Rightarrow> length m)"
      using http_method_len_spec [of "take 8 d"] request_method_cong [of "take 8 d" d] False by simp
    have n: "(if unat n < 256 then unat n else 256) = length d" using len by simp
    show ?thesis
    proof (cases "request_method d")
      case None
      with head meth show ?thesis by (simp add: http_capture_user_buffer_def bpf_probe_read_user_def)
    next
      case (Some m)
      let ?sc = "sc\<lparr>prefix := blit 0 d (prefix sc), data_len := of_nat (length d), have_host := 0, host_val := 0, host_n := 0\<rparr>"
      have m0: "length m \<noteq> 0" using request_method_Some(1) [OF Some] by linarith
      have p: "length (prefix sc) = 256" using http_scratch_get_wf [OF slot wf] .
      have read': "read_bytes (umem env) base (length d) = Some d" using read len by simp
      have "\<not> unat n < HTTP_MIN_REQUEST_LINE" using False len by simp
      moreover have "http_method_len (take 8 d) \<noteq> 0" using meth Some m0 by simp
      ultimately have "http_capture_user_buffer env base n s = (True, http_scratch_put env ?sc s)"
        unfolding http_capture_user_buffer_def bpf_probe_read_user_def HTTP1_PREFIX_LEN_def n Let_def read_into_def
        by (simp only: head read' slot option.case if_False)
      moreover have "length (prefix ?sc) = 256" "captured ?sc = d"
        using p len by (simp_all add: captured_def unat_u32_of_nat blit_0)
      ultimately show ?thesis using False Some by (intro if_not_P [THEN iffD2] exI [of _ ?sc]) auto
    qed
  qed
qed

text \<open>
  The two programs of a tap in sequence. The second may see another environment, as long as it
  runs on the same CPU.
\<close>

lemma tap_reports:
  assumes wf: "env_wf env'" "state_wf s" and cpu: "cpu env' = cpu env"
    and slot: "http_scratch_get env s \<noteq> None"
    and read: "read_bytes (umem env) base (min (unat n) 256) = Some d"
    and space: "ringbuf_space env' (sizeof_sample SAMPLE_KIND_HTTP_REQUEST)"
    and target: "table index = Some p" "\<And>s. run p env' s = parse_and_emit env' source s"
  shows "events (snd (run_chain run (env' # envs)
      (case http_capture_user_buffer env base n s of
         (False, s1) \<Rightarrow> (Exit 0, s1)
       | (True, s1) \<Rightarrow> reqline_and_jump env table index s1))) =
    events s @ (case http_reference d of None \<Rightarrow> []
                | Some f \<Rightarrow> [HttpRequestSample (http_record env' (current_cgroup_id env') source f)])"
proof -
  obtain sc where sc: "http_scratch_get env s = Some sc" using slot by auto
  have same: "http_scratch_get env' s' = http_scratch_get env s'" "http_scratch_put env' x s' = http_scratch_put env x s'" for s' x
    using cpu by (simp_all add: http_scratch_get_def http_scratch_put_def percpu_lookup_def percpu_store_def)
  show ?thesis
  proof (cases "length d < 14 \<or> request_method d = None")
    case True
    then have "http_reference d = None" by (auto simp: http_reference_def)
    then show ?thesis using capture_readable [OF wf(2) sc read] True by (simp add: run_chain_def)
  next
    case False
    then obtain w where w: "http_capture_user_buffer env base n s = (True, http_scratch_put env w s)"
        "length (prefix w) = 256" "captured w = d" "have_host w = 0"
      using capture_readable [OF wf(2) sc read] by auto
    let ?s1 = "http_scratch_put env w s"
    have get1: "http_scratch_get env ?s1 = Some w" using sc by (simp add: http_get_put)
    have ref: "map_option (emitted_fields env' cg source) (Option.bind (http_step_reqline w) http_parse_target) =
        map_option padded_fields (http_reference d)" for cg
      using parse_reference [of env' w] wf(1) w(2-4) by simp
    show ?thesis
    proof (cases "http_step_reqline w")
      case None
      then have "http_reference d = None" using ref [of 0] by simp
      then show ?thesis using w(1) get1 None by (simp add: reqline_and_jump_def run_chain_def)
    next
      case (Some w1)
      let ?s2 = "http_scratch_put env w1 ?s1"
      have get2: "http_scratch_get env' ?s2 = Some w1" using get1 same by (simp add: http_get_put)
      have run: "run_chain run (env' # envs) (reqline_and_jump env table index ?s1) =
          run_stages run (env' # envs) p ?s2"
        using get1 Some target(1) by (simp add: reqline_and_jump_def bpf_tail_call_def run_chain_def)
      show ?thesis
      proof (cases "http_parse_target w1")
        case None
        then have "http_reference d = None" using ref [of 0] Some by simp
        then show ?thesis using w(1) run get2 None target(2) by (simp add: parse_and_emit_def)
      next
        case parsed: (Some w2)
        then obtain f where f: "http_reference d = Some f"
            "emitted_fields env' (current_cgroup_id env') source w2 = padded_fields f"
          using ref [of "current_cgroup_id env'"] Some by (cases "http_reference d") auto
        have "http_sample_of env' w2 (current_cgroup_id env') source = http_record env' (current_cgroup_id env') source f"
          using wf(1) f(2) by (rule http_sample_record)
        then show ?thesis
          using w(1) run get2 parsed target(2) f(1) space
          by (simp add: parse_and_emit_def http_step_emit_def RESERVE_SAMPLE_cases)
      qed
    qed
  qed
qed

end
