(* ===== verification/Nghttp2_Taps.thy ===== *)
theory Nghttp2_Taps
  imports Http_Taps
begin

text \<open>
  HTTP/2 requests at \<open>nghttp2_submit_request(2)\<close>, after \<open>http_uprobe_capture_hooks.bpf.h\<close>. The
  entry scans the leading pseudo-headers of the name/value array and keeps pointers to method,
  path and authority; the next program validates method and path, the last one the authority,
  and copies the three fields from user memory.
\<close>

definition NGHTTP2_MAX_HEADERS :: nat where [simp]: "NGHTTP2_MAX_HEADERS = 32"

section \<open>The name/value array\<close>

record nghttp2_nv_abi =
  nv_name :: ptr
  nv_value :: ptr
  nv_namelen :: u64
  nv_valuelen :: u64
  nv_flags :: u8

definition sizeof_nghttp2_nv_abi :: nat where [simp]: "sizeof_nghttp2_nv_abi = 40"

text \<open>The struct as it lies in memory: four words, the flags byte and seven bytes of padding.\<close>

definition nv_of_bytes :: "bytes \<Rightarrow> nghttp2_nv_abi" where
  "nv_of_bytes bs =
     \<lparr>nv_name = le_word (take 8 bs), nv_value = le_word (take 8 (drop 8 bs)),
      nv_namelen = le_word (take 8 (drop 16 bs)), nv_valuelen = le_word (take 8 (drop 24 bs)),
      nv_flags = bs ! 32\<rparr>"

datatype nghttp2_pseudo_header =
    NGHTTP2_PSEUDO_OTHER
  | NGHTTP2_PSEUDO_METHOD
  | NGHTTP2_PSEUDO_PATH
  | NGHTTP2_PSEUDO_AUTHORITY

definition http_ascii_lower :: "u8 \<Rightarrow> u8" where
  "http_ascii_lower c = (if ch CHR ''A'' \<le> c \<and> c \<le> ch CHR ''Z'' then c + (ch CHR ''a'' - ch CHR ''A'') else c)"

text \<open>\<open>None\<close> is the return value -1.\<close>

definition nghttp2_pseudo_header_kind :: "kenv \<Rightarrow> nghttp2_nv_abi \<Rightarrow> nghttp2_pseudo_header option" where
  "nghttp2_pseudo_header_kind env nv =
     (let n = (if nv_namelen nv = 5 then 5 else if nv_namelen nv = 7 then 7
               else if nv_namelen nv = 10 then 10 else 0 :: nat)
      in if n = 0 then Some NGHTTP2_PSEUDO_OTHER
         else case bpf_probe_read_user env n (nv_name nv) of
           None \<Rightarrow> None
         | Some name \<Rightarrow>
             if n = 5 \<and> name ! 0 = ch CHR '':'' \<and> http_ascii_lower (name ! 1) = ch CHR ''p'' \<and>
                http_ascii_lower (name ! 2) = ch CHR ''a'' \<and> http_ascii_lower (name ! 3) = ch CHR ''t'' \<and>
                http_ascii_lower (name ! 4) = ch CHR ''h''
             then Some NGHTTP2_PSEUDO_PATH
             else if n = 7 \<and> name ! 0 = ch CHR '':'' \<and> http_ascii_lower (name ! 1) = ch CHR ''m'' \<and>
                http_ascii_lower (name ! 2) = ch CHR ''e'' \<and> http_ascii_lower (name ! 3) = ch CHR ''t'' \<and>
                http_ascii_lower (name ! 4) = ch CHR ''h'' \<and> http_ascii_lower (name ! 5) = ch CHR ''o'' \<and>
                http_ascii_lower (name ! 6) = ch CHR ''d''
             then Some NGHTTP2_PSEUDO_METHOD
             else if n = 10 \<and> name ! 0 = ch CHR '':'' \<and> http_ascii_lower (name ! 1) = ch CHR ''a'' \<and>
                http_ascii_lower (name ! 2) = ch CHR ''u'' \<and> http_ascii_lower (name ! 3) = ch CHR ''t'' \<and>
                http_ascii_lower (name ! 4) = ch CHR ''h'' \<and> http_ascii_lower (name ! 5) = ch CHR ''o'' \<and>
                http_ascii_lower (name ! 6) = ch CHR ''r'' \<and> http_ascii_lower (name ! 7) = ch CHR ''i'' \<and>
                http_ascii_lower (name ! 8) = ch CHR ''t'' \<and> http_ascii_lower (name ! 9) = ch CHR ''y''
             then Some NGHTTP2_PSEUDO_AUTHORITY
             else Some NGHTTP2_PSEUDO_OTHER)"

section \<open>Fields in user memory\<close>

text \<open>The loop of \<open>http_user_field_length\<close>; \<open>None\<close> is the return value -1.\<close>

fun field_length_loop :: "kenv \<Rightarrow> ptr \<Rightarrow> u64 \<Rightarrow> nat \<Rightarrow> bool \<Rightarrow> nat list \<Rightarrow> nat option" where
  "field_length_loop env val len field_len strip [] = None"
| "field_length_loop env val len field_len strip (i # is) =
     (if i \<ge> unat len then Some i
      else case bpf_probe_read_user env 1 (val + of_nat i) of
        None \<Rightarrow> None
      | Some bs \<Rightarrow>
          (let c = bs ! 0 in
           if strip \<and> c = ch CHR ''?'' then (if i > 0 then Some i else None)
           else if c < 0x20 \<or> c = 0x7F then None
           else if i + 1 \<ge> field_len then None
           else field_length_loop env val len field_len strip is))"

definition http_user_field_length :: "kenv \<Rightarrow> ptr \<Rightarrow> u64 \<Rightarrow> nat \<Rightarrow> bool \<Rightarrow> nat option" where
  "http_user_field_length env val len field_len strip =
     (if val = NULL \<or> len = 0 then None
      else field_length_loop env val len field_len strip [0..<HTTP_PATH_LEN])"

text \<open>The copies: the filled field, or \<open>None\<close> for a negative return value.\<close>

definition http_copy_user_method :: "kenv \<Rightarrow> bytes \<Rightarrow> ptr \<Rightarrow> u32 \<Rightarrow> bytes option" where
  "http_copy_user_method env dst src n =
     (if src = NULL \<or> n = 0 \<or> unat n \<ge> HTTP_METHOD_LEN then None
      else map_option (\<lambda>bs. blit 0 bs dst) (bpf_probe_read_user env (unat n mod HTTP_METHOD_LEN) src))"

definition http_copy_user_value :: "kenv \<Rightarrow> bytes \<Rightarrow> ptr \<Rightarrow> u32 \<Rightarrow> bytes option" where
  "http_copy_user_value env dst src n =
     (if src = NULL \<or> n = 0 \<or> unat n \<ge> HTTP_PATH_LEN then None
      else map_option (\<lambda>bs. blit 0 bs dst) (bpf_probe_read_user env (unat n mod HTTP_PATH_LEN) src))"

section \<open>Programs\<close>

text \<open>The local variables of the scan.\<close>

record pseudo_fields =
  pf_method :: ptr
  pf_path :: ptr
  pf_authority :: ptr
  pf_method_len :: u64
  pf_path_len :: u64
  pf_authority_len :: u64

definition no_pseudo_fields :: pseudo_fields where
  "no_pseudo_fields = \<lparr>pf_method = NULL, pf_path = NULL, pf_authority = NULL, pf_method_len = 0, pf_path_len = 0,
     pf_authority_len = 0\<rparr>"

definition keep_pseudo_field :: "nghttp2_pseudo_header \<Rightarrow> nghttp2_nv_abi \<Rightarrow> pseudo_fields \<Rightarrow> pseudo_fields" where
  "keep_pseudo_field k nv f =
     (if k = NGHTTP2_PSEUDO_METHOD \<and> pf_method f = NULL
      then f\<lparr>pf_method := nv_value nv, pf_method_len := nv_valuelen nv\<rparr>
      else if k = NGHTTP2_PSEUDO_PATH \<and> pf_path f = NULL
      then f\<lparr>pf_path := nv_value nv, pf_path_len := nv_valuelen nv\<rparr>
      else if k = NGHTTP2_PSEUDO_AUTHORITY \<and> pf_authority f = NULL
      then f\<lparr>pf_authority := nv_value nv, pf_authority_len := nv_valuelen nv\<rparr>
      else f)"

text \<open>The scan of the array: \<open>None\<close> where the program returns without going on.\<close>

fun nghttp2_scan :: "kenv \<Rightarrow> ptr \<Rightarrow> u64 \<Rightarrow> nat list \<Rightarrow> pseudo_fields \<Rightarrow> pseudo_fields option" where
  "nghttp2_scan env nva nvlen [] f = Some f"
| "nghttp2_scan env nva nvlen (i # is) f =
     (if i \<ge> unat nvlen then Some f
      else case bpf_probe_read_user env sizeof_nghttp2_nv_abi (nva + of_nat (sizeof_nghttp2_nv_abi * i)) of
        None \<Rightarrow> None
      | Some bs \<Rightarrow>
          (let nv = nv_of_bytes bs in
           if nv_name nv = NULL \<or> nv_namelen nv = 0 then None
           else case bpf_probe_read_user env 1 (nv_name nv) of
             None \<Rightarrow> None
           | Some first \<Rightarrow>
               if first ! 0 \<noteq> ch CHR '':'' then Some f
               else case nghttp2_pseudo_header_kind env nv of
                 None \<Rightarrow> None
               | Some k \<Rightarrow>
                   (let f' = keep_pseudo_field k nv f in
                    if pf_method f' \<noteq> NULL \<and> pf_path f' \<noteq> NULL \<and> pf_authority f' \<noteq> NULL then Some f'
                    else nghttp2_scan env nva nvlen is f')))"

definition handle_nghttp2_submit_request :: "kenv \<Rightarrow> ptr \<times> ptr \<times> ptr \<times> u64 \<Rightarrow> bpf_state \<Rightarrow> outcome \<times> bpf_state" where
  "handle_nghttp2_submit_request env a s =
     (case a of (session, pri_spec, nva, nvlen) \<Rightarrow>
        if cgroup_is_tracked s (current_cgroup_id env) = 0 \<or> nva = NULL \<or> nvlen = 0 then (Exit 0, s)
        else case nghttp2_scan env nva nvlen [0..<NGHTTP2_MAX_HEADERS] no_pseudo_fields of
          None \<Rightarrow> (Exit 0, s)
        | Some f \<Rightarrow>
            (case http_scratch_get env s of
               None \<Rightarrow> (Exit 0, s)
             | Some sc \<Rightarrow>
                 (bpf_tail_call (http_uprobe_stages s) HTTP_UPROBE_STAGE_NGHTTP2_REQUIRED,
                  http_scratch_put env
                    (sc\<lparr>nghttp2_method := pf_method f, nghttp2_path := pf_path f,
                        nghttp2_authority := pf_authority f, nghttp2_method_len := pf_method_len f,
                        nghttp2_path_len := pf_path_len f, nghttp2_authority_len := pf_authority_len f\<rparr>) s)))"

definition handle_nghttp2_required :: "kenv \<Rightarrow> bpf_state \<Rightarrow> outcome \<times> bpf_state" where
  "handle_nghttp2_required env s =
     (case http_scratch_get env s of
        None \<Rightarrow> (Exit 0, s)
      | Some sc \<Rightarrow>
          (case http_user_field_length env (nghttp2_method sc) (nghttp2_method_len sc) HTTP_METHOD_LEN False of
             None \<Rightarrow> (Exit 0, s)
           | Some mn \<Rightarrow>
               (case http_user_field_length env (nghttp2_path sc) (nghttp2_path_len sc) HTTP_PATH_LEN True of
                  None \<Rightarrow> (Exit 0, s)
                | Some pn \<Rightarrow>
                    (case bpf_probe_read_user env 1 (nghttp2_path sc) of
                       None \<Rightarrow> (Exit 0, s)
                     | Some first \<Rightarrow>
                         if first ! 0 \<noteq> ch CHR ''/'' then (Exit 0, s)
                         else (bpf_tail_call (http_uprobe_stages s) HTTP_UPROBE_STAGE_NGHTTP2_EMIT,
                               http_scratch_put env
                                 (sc\<lparr>nghttp2_method_n := of_nat mn, nghttp2_path_n := of_nat pn\<rparr>) s)))))"

text \<open>The sample of the emit program: \<open>None\<close> when it is discarded.\<close>

definition nghttp2_sample_of :: "kenv \<Rightarrow> http_scratch \<Rightarrow> http_request_sample option" where
  "nghttp2_sample_of env sc =
     (let auth_n = (if nghttp2_authority sc \<noteq> NULL
                    then http_user_field_length env (nghttp2_authority sc) (nghttp2_authority_len sc) HTTP_HOST_LEN False
                    else None);
          x = http_sample_header env (current_cgroup_id env) HTTP_SOURCE_NGHTTP2
      in case http_copy_user_method env (hr_method x) (nghttp2_method sc) (nghttp2_method_n sc) of
           None \<Rightarrow> None
         | Some m \<Rightarrow>
             (case http_copy_user_value env (hr_path x) (nghttp2_path sc) (nghttp2_path_n sc) of
                None \<Rightarrow> None
              | Some p \<Rightarrow>
                  (case auth_n of
                     None \<Rightarrow> Some (x\<lparr>hr_method := m, hr_path := p\<rparr>)
                   | Some n \<Rightarrow>
                       (case http_copy_user_value env (hr_host x) (nghttp2_authority sc) (of_nat n) of
                          None \<Rightarrow> None
                        | Some h \<Rightarrow> Some (x\<lparr>hr_method := m, hr_path := p, hr_host := h\<rparr>)))))"

text \<open>\<open>Some x\<close> is submitted, \<open>None\<close> discarded.\<close>

definition submit_or_discard :: "http_request_sample option \<Rightarrow> bpf_state \<Rightarrow> int \<times> bpf_state" where
  "submit_or_discard r s =
     (case r of None \<Rightarrow> (0, bpf_ringbuf_discard s) | Some x \<Rightarrow> (0, bpf_ringbuf_submit (HttpRequestSample x) s))"

definition handle_nghttp2_emit :: "kenv \<Rightarrow> bpf_state \<Rightarrow> outcome \<times> bpf_state" where
  "handle_nghttp2_emit env s =
     (case http_scratch_get env s of
        None \<Rightarrow> (Exit 0, s)
      | Some sc \<Rightarrow>
          (case RESERVE_SAMPLE env SAMPLE_KIND_HTTP_REQUEST 0 (submit_or_discard (nghttp2_sample_of env sc)) s of
             (r, s') \<Rightarrow> (Exit r, s')))"

section \<open>What a field validation accepts\<close>

text \<open>
  A field of capacity \<open>cap\<close> takes a non-empty value without control bytes that leaves room for a
  terminating zero; the query of a path does not belong to the value.
\<close>

definition valid_field :: "nat \<Rightarrow> bytes \<Rightarrow> bool" where
  "valid_field cap w \<longleftrightarrow> w \<noteq> [] \<and> length w < cap \<and> (\<forall>c \<in> set w. \<not> control_byte c)"

definition field_value :: "bool \<Rightarrow> nat \<Rightarrow> bytes \<Rightarrow> bytes option" where
  "field_value strip cap v =
     (let w = (if strip then strip_query v else v) in if valid_field cap w then Some w else None)"

lemma read_one:
  assumes "read_bytes m p n = Some v" "i < n"
  shows "read_bytes m (p + of_nat i) 1 = Some [v ! i]"
  using read_bytes_nth [OF assms] by (simp add: numeral_eq_Suc)

lemma field_length_loop_spec:
  assumes read: "read_bytes (umem env) val (unat len) = Some v" and len: "0 < unat len"
    and cap: "cap \<le> 256" "k < cap" "k \<le> unat len"
  shows "field_length_loop env val len cap strip [k..<256] =
    (let w = (if strip then strip_query (drop k v) else drop k v) in
     if 0 < k + length w \<and> k + length w < cap \<and> (\<forall>c \<in> set w. \<not> control_byte c) then Some (k + length w) else None)"
  using cap(2,3)
proof (induction "cap - k" arbitrary: k)
  case 0
  then show ?case by simp
next
  case (Suc x)
  have upt: "[k..<256] = k # [Suc k..<256]" using Suc.prems cap(1) by (simp add: upt_conv_Cons)
  have v: "length v = unat len" using read by simp
  show ?case
  proof (cases "k = unat len")
    case True
    then have "field_length_loop env val len cap strip [k..<256] = Some k" unfolding upt by simp
    then show ?thesis using True v len Suc.prems by (auto simp: strip_query_def)
  next
    case False
    then have k: "k < unat len" using Suc.prems by simp
    have c: "bpf_probe_read_user env 1 (val + of_nat k) = Some [v ! k]"
      using read_one [OF read k] by (simp add: bpf_probe_read_user_def)
    have rest: "drop k v = v ! k # drop (Suc k) v" using k v by (simp add: Cons_nth_drop_Suc)
    have IH: "field_length_loop env val len cap strip [Suc k..<256] =
      (let w = (if strip then strip_query (drop (Suc k) v) else drop (Suc k) v) in
       if 0 < Suc k + length w \<and> Suc k + length w < cap \<and> (\<forall>c \<in> set w. \<not> control_byte c)
       then Some (Suc k + length w) else None)" if "Suc k < cap"
      using Suc.hyps(1) [of "Suc k"] Suc.hyps(2) that k by simp
    show ?thesis
    proof (cases "strip \<and> v ! k = ch CHR ''?''")
      case True
      then show ?thesis using k c Suc.prems by (auto simp: upt rest strip_query_def)
    next
      case plain: False
      let ?w = "if strip then strip_query (drop k v) else drop k v"
      let ?u = "if strip then strip_query (drop (Suc k) v) else drop (Suc k) v"
      have w: "?w = v ! k # ?u" using plain by (auto simp: rest strip_query_def)
      have step: "field_length_loop env val len cap strip [k..<256] =
          (if control_byte (v ! k) then None else if Suc k \<ge> cap then None
           else field_length_loop env val len cap strip [Suc k..<256])"
        unfolding upt field_length_loop.simps(2) c option.case Let_def control_byte_def using k plain by auto
      show ?thesis
      proof (cases "Suc k < cap")
        case True
        then show ?thesis unfolding step IH [OF True] w Let_def by simp
      next
        case False
        then show ?thesis unfolding step w Let_def by simp
      qed
    qed
  qed
qed

lemma field_length_spec:
  assumes read: "read_bytes (umem env) val (unat len) = Some v" and nn: "val \<noteq> NULL" and cap: "0 < cap" "cap \<le> 256"
  shows "http_user_field_length env val len cap strip = map_option length (field_value strip cap v)"
proof (cases "len = 0")
  case True
  then show ?thesis using read by (simp add: http_user_field_length_def field_value_def valid_field_def strip_query_def)
next
  case False
  then have "0 < unat len" by (simp add: unat_gt_0)
  from field_length_loop_spec [OF read this cap(2,1), of strip] nn False
  show ?thesis by (auto simp: http_user_field_length_def field_value_def valid_field_def Let_def)
qed

lemma field_value_Some:
  assumes "field_value strip cap v = Some w"
  shows "valid_field cap w" "take (length w) v = w" "length w \<le> length v"
proof -
  from assms show "valid_field cap w" by (auto simp: field_value_def Let_def split: if_splits)
  have "take (length (strip_query v)) v = strip_query v"
    unfolding strip_query_def by (rule takeWhile_eq_take [symmetric])
  with assms show "take (length w) v = w" "length w \<le> length v"
    using strip_query_length [of v] by (auto simp: field_value_def Let_def split: if_splits)
qed

text \<open>The copy of a validated field.\<close>

lemma field_value_read:
  assumes "read_bytes (umem env) val (unat len) = Some v" "field_value strip cap v = Some w" "cap \<le> 256"
  shows "bpf_probe_read_user env (length w) val = Some w" "0 < length w" "length w < cap"
    and "unat (of_nat (length w) :: u32) = length w" "(of_nat (length w) :: u32) \<noteq> 0"
proof -
  note f = field_value_Some [OF assms(2)]
  from f(1) show len: "0 < length w" "length w < cap" by (auto simp: valid_field_def)
  then show n: "unat (of_nat (length w) :: u32) = length w" using assms(3) by (intro unat_u32_of_nat) simp
  with len(1) show "(of_nat (length w) :: u32) \<noteq> 0" by (metis less_irrefl unat_0)
  have "length w \<le> unat len" using f(3) length_read_bytes [OF assms(1)] by linarith
  from read_bytes_prefix [OF assms(1) this] show "bpf_probe_read_user env (length w) val = Some w"
    by (simp only: bpf_probe_read_user_def f(2))
qed

lemma copy_method_field:
  assumes "read_bytes (umem env) val (unat len) = Some v" "val \<noteq> NULL" "field_value strip 16 v = Some w"
  shows "http_copy_user_method env (replicate 16 0) val (of_nat (length w)) = Some (padded 16 w)"
proof -
  note f = field_value_read [OF assms(1,3), simplified]
  have m: "length w mod HTTP_METHOD_LEN = length w" using f(3) by simp
  have "\<not> (val = NULL \<or> (of_nat (length w) :: u32) = 0 \<or> HTTP_METHOD_LEN \<le> length w)"
    using assms(2) f(3,5) unfolding HTTP_METHOD_LEN_def by linarith
  then have "http_copy_user_method env (replicate 16 0) val (of_nat (length w)) = Some (blit 0 w (replicate 16 0))"
    unfolding http_copy_user_method_def f(4) m f(1) by (simp only: if_False option.map)
  then show ?thesis by (simp only: padded_def blit_0 drop_replicate)
qed

lemma copy_value_field:
  assumes "read_bytes (umem env) val (unat len) = Some v" "val \<noteq> NULL" "field_value strip 256 v = Some w"
  shows "http_copy_user_value env (replicate 256 0) val (of_nat (length w)) = Some (padded 256 w)"
proof -
  note f = field_value_read [OF assms(1,3) order_refl]
  have m: "length w mod HTTP_PATH_LEN = length w" using f(3) by simp
  have "\<not> (val = NULL \<or> (of_nat (length w) :: u32) = 0 \<or> HTTP_PATH_LEN \<le> length w)"
    using assms(2) f(3,5) unfolding HTTP_PATH_LEN_def by linarith
  then have "http_copy_user_value env (replicate 256 0) val (of_nat (length w)) = Some (blit 0 w (replicate 256 0))"
    unfolding http_copy_user_value_def f(4) m f(1) by (simp only: if_False option.map)
  then show ?thesis by (simp only: padded_def blit_0 drop_replicate)
qed

section \<open>The scan of the name/value array\<close>

text \<open>Entry \<open>i\<close> of the array with the bytes of its name, where both can be read.\<close>

definition header_at :: "kenv \<Rightarrow> ptr \<Rightarrow> nat \<Rightarrow> (bytes \<times> nghttp2_nv_abi) option" where
  "header_at env nva i =
     (case bpf_probe_read_user env sizeof_nghttp2_nv_abi (nva + of_nat (sizeof_nghttp2_nv_abi * i)) of
        None \<Rightarrow> None
      | Some bs \<Rightarrow>
          (let nv = nv_of_bytes bs in
           if nv_name nv = NULL \<or> nv_namelen nv = 0 then None
           else map_option (\<lambda>name. (name, nv)) (read_bytes (umem env) (nv_name nv) (unat (nv_namelen nv)))))"

text \<open>Names compare without regard to case.\<close>

definition name_kind :: "bytes \<Rightarrow> nghttp2_pseudo_header" where
  "name_kind name =
     (let n = map http_ascii_lower name in
      if n = c_lit '':path'' then NGHTTP2_PSEUDO_PATH
      else if n = c_lit '':method'' then NGHTTP2_PSEUDO_METHOD
      else if n = c_lit '':authority'' then NGHTTP2_PSEUDO_AUTHORITY
      else NGHTTP2_PSEUDO_OTHER)"

text \<open>
  The value of a pseudo-header: of the first one with that name and a value, among the headers
  before the first ordinary one.
\<close>

definition pseudo_value :: "nghttp2_pseudo_header \<Rightarrow> (bytes \<times> nghttp2_nv_abi) list \<Rightarrow> (ptr \<times> u64) option" where
  "pseudo_value k hs =
     map_option (\<lambda>(name, nv). (nv_value nv, nv_valuelen nv))
       (find (\<lambda>(name, nv). name_kind name = k \<and> nv_value nv \<noteq> NULL)
          (takeWhile (\<lambda>(name, nv). name ! 0 = ch CHR '':'') hs))"

text \<open>The scan on a list of headers.\<close>

fun pseudo_scan :: "(bytes \<times> nghttp2_nv_abi) list \<Rightarrow> pseudo_fields \<Rightarrow> pseudo_fields" where
  "pseudo_scan [] f = f"
| "pseudo_scan (h # hs) f =
     (if fst h ! 0 \<noteq> ch CHR '':'' then f else pseudo_scan hs (keep_pseudo_field (name_kind (fst h)) (snd h) f))"

lemma lower_colon: "http_ascii_lower c = 0x3A \<longleftrightarrow> c = 0x3A"
proof (cases "0x41 \<le> c \<and> c \<le> 0x5A")
  case True
  then have "c + 0x20 \<noteq> 0x3A"
  proof -
    have "c = 0x3A - 0x20" if "c + 0x20 = 0x3A" using that by (simp only: eq_diff_eq)
    then have "c = 0x1A" if "c + 0x20 = 0x3A" using that by simp
    then show ?thesis using True by auto
  qed
  with True show ?thesis by (auto simp: http_ascii_lower_def)
next
  case False
  then show ?thesis by (auto simp: http_ascii_lower_def)
qed

lemma pseudo_kind_spec:
  assumes "read_bytes (umem env) (nv_name nv) (unat (nv_namelen nv)) = Some name"
  shows "nghttp2_pseudo_header_kind env nv = Some (name_kind name)"
proof -
  have len: "length name = unat (nv_namelen nv)" using assms by simp
  consider (five) "nv_namelen nv = 5" | (seven) "nv_namelen nv = 7" | (ten) "nv_namelen nv = 10"
    | (other) "nv_namelen nv \<noteq> 5" "nv_namelen nv \<noteq> 7" "nv_namelen nv \<noteq> 10" by blast
  then show ?thesis
  proof cases
    case five
    then have "length name = 5" using len by simp
    then obtain a b c d e where "name = [a, b, c, d, e]" by (auto simp: length_Suc_conv eval_nat_numeral)
    then show ?thesis using assms five
      by (simp add: nghttp2_pseudo_header_kind_def bpf_probe_read_user_def name_kind_def c_lit_def lower_colon Let_def)
  next
    case seven
    then have "length name = 7" using len by simp
    then obtain a b c d e f g where "name = [a, b, c, d, e, f, g]" by (auto simp: length_Suc_conv eval_nat_numeral)
    then show ?thesis using assms seven
      by (simp add: nghttp2_pseudo_header_kind_def bpf_probe_read_user_def name_kind_def c_lit_def lower_colon Let_def)
  next
    case ten
    then have "length name = 10" using len by simp
    then obtain a b c d e f g h i j where "name = [a, b, c, d, e, f, g, h, i, j]"
      by (auto simp: length_Suc_conv eval_nat_numeral)
    then show ?thesis using assms ten
      by (simp add: nghttp2_pseudo_header_kind_def bpf_probe_read_user_def name_kind_def c_lit_def lower_colon Let_def)
  next
    case other
    then have "unat (nv_namelen nv) \<noteq> 5" "unat (nv_namelen nv) \<noteq> 7" "unat (nv_namelen nv) \<noteq> 10"
      by (auto simp: word_unat_eq_iff)
    then have "length (map http_ascii_lower name) \<noteq> length (c_lit '':path'')"
      "length (map http_ascii_lower name) \<noteq> length (c_lit '':method'')"
      "length (map http_ascii_lower name) \<noteq> length (c_lit '':authority'')" using len by simp_all
    then have "name_kind name = NGHTTP2_PSEUDO_OTHER" unfolding name_kind_def Let_def by metis
    then show ?thesis using other by (simp add: nghttp2_pseudo_header_kind_def)
  qed
qed

lemma keep_pseudo_full:
  assumes "pf_method f \<noteq> NULL" "pf_path f \<noteq> NULL" "pf_authority f \<noteq> NULL"
  shows "keep_pseudo_field k nv f = f" "pseudo_scan hs f = f"
proof -
  show keep: "keep_pseudo_field k nv f = f" for k nv using assms by (simp add: keep_pseudo_field_def)
  show "pseudo_scan hs f = f" by (induction hs) (simp_all add: keep)
qed

lemma header_at_Some:
  assumes "header_at env nva i = Some (name, nv)"
  obtains bs where "bpf_probe_read_user env sizeof_nghttp2_nv_abi (nva + of_nat (sizeof_nghttp2_nv_abi * i)) = Some bs"
    "nv = nv_of_bytes bs" "nv_name nv \<noteq> NULL" "nv_namelen nv \<noteq> 0"
    "nghttp2_pseudo_header_kind env nv = Some (name_kind name)" "bpf_probe_read_user env 1 (nv_name nv) = Some [name ! 0]"
proof -
  from assms obtain bs where bs: "bpf_probe_read_user env sizeof_nghttp2_nv_abi (nva + of_nat (sizeof_nghttp2_nv_abi * i)) = Some bs"
      "nv = nv_of_bytes bs" "nv_name nv \<noteq> NULL" "nv_namelen nv \<noteq> 0"
      and read: "read_bytes (umem env) (nv_name nv) (unat (nv_namelen nv)) = Some name"
    unfolding header_at_def Let_def by (auto split: option.split_asm if_split_asm)
  have "0 < unat (nv_namelen nv)" using bs(4) by (simp add: unat_gt_0)
  from read_one [OF read this] have "bpf_probe_read_user env 1 (nv_name nv) = Some [name ! 0]"
    by (simp add: bpf_probe_read_user_def)
  with bs pseudo_kind_spec [OF read] that show ?thesis by blast
qed

lemma nghttp2_scan_spec:
  assumes "length hs = min (unat nvlen) 32" "\<And>i. i < length hs \<Longrightarrow> header_at env nva i = Some (hs ! i)" "k \<le> 32"
  shows "nghttp2_scan env nva nvlen [k..<32] f = Some (pseudo_scan (drop k hs) f)"
  using assms(3)
proof (induction k arbitrary: f rule: inc_induct)
  case base
  then show ?case using assms(1) by simp
next
  case (step k)
  have upt: "[k..<32] = k # [Suc k..<32]" using step.hyps by (simp add: upt_conv_Cons)
  show ?case
  proof (cases "k < unat nvlen")
    case False
    then have "drop k hs = []" using assms(1) by simp
    then show ?thesis using False unfolding upt by simp
  next
    case True
    then have k: "k < length hs" using step.hyps assms(1) by simp
    obtain name nv where h: "hs ! k = (name, nv)" by (cases "hs ! k")
    have "header_at env nva k = Some (name, nv)" using assms(2) [OF k] h by simp
    then obtain bs where bs: "bpf_probe_read_user env sizeof_nghttp2_nv_abi (nva + of_nat (sizeof_nghttp2_nv_abi * k)) = Some bs"
        "nv = nv_of_bytes bs" "nv_name nv \<noteq> NULL" "nv_namelen nv \<noteq> 0"
        "nghttp2_pseudo_header_kind env nv = Some (name_kind name)" "bpf_probe_read_user env 1 (nv_name nv) = Some [name ! 0]"
      by (rule header_at_Some)
    have rest: "drop k hs = (name, nv) # drop (Suc k) hs" using k h by (metis Cons_nth_drop_Suc)
    let ?f = "keep_pseudo_field (name_kind name) nv f"
    have "nghttp2_scan env nva nvlen (k # [Suc k..<32]) f =
        (if name ! 0 \<noteq> ch CHR '':'' then Some f
         else if pf_method ?f \<noteq> NULL \<and> pf_path ?f \<noteq> NULL \<and> pf_authority ?f \<noteq> NULL then Some ?f
         else nghttp2_scan env nva nvlen [Suc k..<32] ?f)"
      using True bs(3,4) unfolding nghttp2_scan.simps(2) bs(1) option.case Let_def bs(2) [symmetric] bs(5,6)
      by simp
    then show ?thesis using step.IH keep_pseudo_full(2) [of ?f] by (simp add: upt rest)
  qed
qed

text \<open>What the scan keeps is the value of each pseudo-header.\<close>

lemma pseudo_value_Cons:
  "pseudo_value k (h # hs) =
     (if fst h ! 0 \<noteq> ch CHR '':'' then None
      else if name_kind (fst h) = k \<and> nv_value (snd h) \<noteq> NULL then Some (nv_value (snd h), nv_valuelen (snd h))
      else pseudo_value k hs)"
  by (cases h) (simp add: pseudo_value_def)

lemma keep_pseudo_simps [simp]:
  "pf_method (keep_pseudo_field k nv f) =
     (if k = NGHTTP2_PSEUDO_METHOD \<and> pf_method f = NULL then nv_value nv else pf_method f)"
  "pf_method_len (keep_pseudo_field k nv f) =
     (if k = NGHTTP2_PSEUDO_METHOD \<and> pf_method f = NULL then nv_valuelen nv else pf_method_len f)"
  "pf_path (keep_pseudo_field k nv f) =
     (if k = NGHTTP2_PSEUDO_PATH \<and> pf_path f = NULL then nv_value nv else pf_path f)"
  "pf_path_len (keep_pseudo_field k nv f) =
     (if k = NGHTTP2_PSEUDO_PATH \<and> pf_path f = NULL then nv_valuelen nv else pf_path_len f)"
  "pf_authority (keep_pseudo_field k nv f) =
     (if k = NGHTTP2_PSEUDO_AUTHORITY \<and> pf_authority f = NULL then nv_value nv else pf_authority f)"
  "pf_authority_len (keep_pseudo_field k nv f) =
     (if k = NGHTTP2_PSEUDO_AUTHORITY \<and> pf_authority f = NULL then nv_valuelen nv else pf_authority_len f)"
  by (auto simp: keep_pseudo_field_def)

definition at_ptr :: "ptr \<Rightarrow> u64 \<Rightarrow> (ptr \<times> u64) option" where
  "at_ptr p l = (if p = NULL then None else Some (p, l))"

lemma pseudo_scan_values:
  "at_ptr (pf_method (pseudo_scan hs f)) (pf_method_len (pseudo_scan hs f)) =
     (if pf_method f \<noteq> NULL then Some (pf_method f, pf_method_len f) else pseudo_value NGHTTP2_PSEUDO_METHOD hs)"
  "at_ptr (pf_path (pseudo_scan hs f)) (pf_path_len (pseudo_scan hs f)) =
     (if pf_path f \<noteq> NULL then Some (pf_path f, pf_path_len f) else pseudo_value NGHTTP2_PSEUDO_PATH hs)"
  "at_ptr (pf_authority (pseudo_scan hs f)) (pf_authority_len (pseudo_scan hs f)) =
     (if pf_authority f \<noteq> NULL then Some (pf_authority f, pf_authority_len f) else pseudo_value NGHTTP2_PSEUDO_AUTHORITY hs)"
proof (induction hs arbitrary: f)
  case Nil
  { case 1 then show ?case by (simp add: at_ptr_def pseudo_value_def) }
  { case 2 then show ?case by (simp add: at_ptr_def pseudo_value_def) }
  { case 3 then show ?case by (simp add: at_ptr_def pseudo_value_def) }
next
  case (Cons h hs)
  { case 1 then show ?case using Cons.IH(1)
      by (cases "fst h ! 0 = ch CHR '':''") (auto simp: pseudo_value_Cons at_ptr_def [of "pf_method f"]) }
  { case 2 then show ?case using Cons.IH(2)
      by (cases "fst h ! 0 = ch CHR '':''") (auto simp: pseudo_value_Cons at_ptr_def [of "pf_path f"]) }
  { case 3 then show ?case using Cons.IH(3)
      by (cases "fst h ! 0 = ch CHR '':''") (auto simp: pseudo_value_Cons at_ptr_def [of "pf_authority f"]) }
qed

section \<open>The form of the programs\<close>

lemma submit_or_discard_body:
  assumes "\<And>x. r = Some x \<Longrightarrow> kind x = kind_value SAMPLE_KIND_HTTP_REQUEST \<and> cgroup_id x = current_cgroup_id env \<and>
      (ok \<longrightarrow> sample_wf (HttpRequestSample x))"
  shows "sample_body env ok 0 (submit_or_discard r)"
proof (cases r)
  case None
  then show ?thesis by (simp add: sample_body_def submit_or_discard_def discards_plain)
next
  case (Some x)
  then have "sample_body env ok 0 (\<lambda>s. (0, bpf_ringbuf_submit (HttpRequestSample x) s))"
    using assms by (intro sample_body_plain) (simp_all add: kind_ok_def)
  then show ?thesis using Some by (simp add: sample_body_def submit_or_discard_def)
qed

lemma copy_user_length:
  "http_copy_user_method env dst src n = Some m \<Longrightarrow> length dst = 16 \<Longrightarrow> length m = 16"
  "http_copy_user_value env dst src n = Some p \<Longrightarrow> length dst = 256 \<Longrightarrow> length p = 256"
proof -
  have small: "k mod 16 \<le> 16" "k mod 256 \<le> 256" for k :: nat by (simp_all add: less_imp_le)
  show "http_copy_user_method env dst src n = Some m \<Longrightarrow> length dst = 16 \<Longrightarrow> length m = 16"
    using small by (auto simp: http_copy_user_method_def bpf_probe_read_user_def split: if_splits dest!: length_read_bytes)
  show "http_copy_user_value env dst src n = Some p \<Longrightarrow> length dst = 256 \<Longrightarrow> length p = 256"
    using small by (auto simp: http_copy_user_value_def bpf_probe_read_user_def split: if_splits dest!: length_read_bytes)
qed

lemma nghttp2_sample_shape:
  assumes "nghttp2_sample_of env sc = Some x"
  shows "kind x = kind_value SAMPLE_KIND_HTTP_REQUEST \<and> cgroup_id x = current_cgroup_id env \<and>
    (env_wf env \<longrightarrow> sample_wf (HttpRequestSample x))"
  using assms unfolding nghttp2_sample_of_def Let_def
  by (auto split: option.split_asm if_split_asm dest!: copy_user_length)

lemma nghttp2_emit_form: "stage_form env s (handle_nghttp2_emit env s)"
proof (cases "http_scratch_get env s")
  case None
  then show ?thesis by (simp add: handle_nghttp2_emit_def)
next
  case (Some sc)
  have body: "sample_body env (env_wf env \<and> state_wf s) 0 (submit_or_discard (nghttp2_sample_of env sc))"
    by (rule submit_or_discard_body) (use nghttp2_sample_shape in blast)
  obtain r s2 where r: "RESERVE_SAMPLE env SAMPLE_KIND_HTTP_REQUEST 0 (submit_or_discard (nghttp2_sample_of env sc)) s = (r, s2)"
    by fastforce
  show ?thesis using Some r by (auto simp: handle_nghttp2_emit_def intro: stage_form.emit [OF _ _ body r])
qed

lemma nghttp2_put_form:
  assumes "http_scratch_get env s = Some sc" "prefix sc' = prefix sc"
  shows "stage_form env s (bpf_tail_call table index, http_scratch_put env sc' s)"
  using assms http_scratch_get_wf [OF assms(1)]
  by (intro stage_form_tail_call) (auto intro: http_scratch_put_wf)

lemma nghttp2_submit_form: "stage_form env s (handle_nghttp2_submit_request env a s)"
  by (auto simp: handle_nghttp2_submit_request_def split: prod.split option.split intro!: nghttp2_put_form)

lemma nghttp2_required_form: "stage_form env s (handle_nghttp2_required env s)"
  by (auto simp: handle_nghttp2_required_def split: option.split intro!: nghttp2_put_form)

section \<open>The request of an array\<close>

definition user_value :: "kenv \<Rightarrow> (ptr \<times> u64) option \<Rightarrow> bytes option" where
  "user_value env x = (case x of None \<Rightarrow> None | Some (p, l) \<Rightarrow> read_bytes (umem env) p (unat l))"

definition readable :: "kenv \<Rightarrow> (ptr \<times> u64) option \<Rightarrow> bool" where
  "readable env x \<longleftrightarrow> x = None \<or> user_value env x \<noteq> None"

text \<open>
  The fields of the request with these header values: method and path are required, the path has
  to be in origin form, and an authority that is no valid field counts as absent.
\<close>

definition nghttp2_request :: "bytes option \<Rightarrow> bytes option \<Rightarrow> bytes option \<Rightarrow> (bytes \<times> bytes \<times> bytes) option" where
  "nghttp2_request m p a =
     (case Option.bind m (field_value False HTTP_METHOD_LEN) of
        None \<Rightarrow> None
      | Some m' \<Rightarrow>
          (case Option.bind p (field_value True HTTP_PATH_LEN) of
             None \<Rightarrow> None
           | Some p' \<Rightarrow>
               if p' ! 0 \<noteq> ch CHR ''/'' then None
               else Some (m', p', case Option.bind a (field_value False HTTP_HOST_LEN) of None \<Rightarrow> [] | Some h \<Rightarrow> h)))"

lemma field_length_at:
  assumes "at_ptr p l = x" "readable env x" "0 < cap" "cap \<le> 256"
  shows "http_user_field_length env p l cap strip = map_option length (Option.bind (user_value env x) (field_value strip cap))"
proof (cases "p = NULL")
  case True
  then show ?thesis using assms(1) by (auto simp: at_ptr_def user_value_def http_user_field_length_def)
next
  case False
  then have x: "x = Some (p, l)" using assms(1) by (simp add: at_ptr_def)
  with assms(2) obtain v where v: "read_bytes (umem env) p (unat l) = Some v" by (auto simp: readable_def user_value_def)
  from field_length_spec [OF v False assms(3,4)] show ?thesis by (simp add: x user_value_def v)
qed

lemma user_value_at:
  assumes "at_ptr p l = x" "Option.bind (user_value env x) (field_value strip cap) = Some w"
  obtains v where "p \<noteq> NULL" "read_bytes (umem env) p (unat l) = Some v" "field_value strip cap v = Some w"
  using assms by (auto simp: at_ptr_def user_value_def split: if_splits bind_splits)

lemma header_record:
  assumes "env_wf env"
  shows "(http_sample_header env cg source)\<lparr>hr_method := padded 16 m, hr_path := padded 256 p, hr_host := padded 256 h\<rparr> =
    http_record env cg source (m, p, h)"
  by (simp add: http_record_def padded_fields_def http_sample_header_def zero_http_request_fields_def SET_TASK_HEADER_def)

lemma nghttp2_required_runs:
  assumes slot: "http_scratch_get env s = Some sc"
    and ptrs: "at_ptr (nghttp2_method sc) (nghttp2_method_len sc) = m" "at_ptr (nghttp2_path sc) (nghttp2_path_len sc) = p"
    and mem: "readable env m" "readable env p"
  shows "handle_nghttp2_required env s =
    (case (Option.bind (user_value env m) (field_value False 16), Option.bind (user_value env p) (field_value True 256)) of
       (Some m', Some p') \<Rightarrow>
         if p' ! 0 \<noteq> ch CHR ''/'' then (Exit 0, s)
         else (bpf_tail_call (http_uprobe_stages s) HTTP_UPROBE_STAGE_NGHTTP2_EMIT,
               http_scratch_put env (sc\<lparr>nghttp2_method_n := of_nat (length m'), nghttp2_path_n := of_nat (length p')\<rparr>) s)
     | _ \<Rightarrow> (Exit 0, s))"
proof -
  have first: "bpf_probe_read_user env 1 (nghttp2_path sc) = Some [p' ! 0]"
    if "Option.bind (user_value env p) (field_value True 256) = Some p'" for p'
  proof -
    from user_value_at [OF ptrs(2) that] obtain v where v: "read_bytes (umem env) (nghttp2_path sc) (unat (nghttp2_path_len sc)) = Some v"
      "field_value True 256 v = Some p'" by blast
    note f = field_value_Some [OF v(2)]
    have "0 < length p'" using f(1) by (auto simp: valid_field_def)
    moreover from this have "v ! 0 = p' ! 0" using f(2) by (metis nth_take)
    moreover have "0 < unat (nghttp2_path_len sc)" using calculation(1) f(3) length_read_bytes [OF v(1)] by linarith
    ultimately show ?thesis using read_one [OF v(1), of 0] by (simp add: bpf_probe_read_user_def)
  qed
  have len: "http_user_field_length env (nghttp2_method sc) (nghttp2_method_len sc) HTTP_METHOD_LEN False =
      map_option length (Option.bind (user_value env m) (field_value False 16))"
    "http_user_field_length env (nghttp2_path sc) (nghttp2_path_len sc) HTTP_PATH_LEN True =
      map_option length (Option.bind (user_value env p) (field_value True 256))"
    using field_length_at [OF ptrs(1) mem(1)] field_length_at [OF ptrs(2) mem(2)] by simp_all
  show ?thesis
    unfolding handle_nghttp2_required_def slot option.case len
    by (auto simp: first [simplified] split: option.split)
qed

lemma nghttp2_emits:
  assumes wf: "env_wf env" and slot: "http_scratch_get env s = Some sc"
    and ptrs: "at_ptr (nghttp2_method sc) (nghttp2_method_len sc) = m" "at_ptr (nghttp2_path sc) (nghttp2_path_len sc) = p"
      "at_ptr (nghttp2_authority sc) (nghttp2_authority_len sc) = a"
    and mem: "readable env a"
    and fields: "Option.bind (user_value env m) (field_value False 16) = Some m'"
      "Option.bind (user_value env p) (field_value True 256) = Some p'"
    and lens: "nghttp2_method_n sc = of_nat (length m')" "nghttp2_path_n sc = of_nat (length p')"
  shows "nghttp2_sample_of env sc = Some (http_record env (current_cgroup_id env) HTTP_SOURCE_NGHTTP2
    (m', p', case Option.bind (user_value env a) (field_value False 256) of None \<Rightarrow> [] | Some h \<Rightarrow> h))"
proof -
  let ?x = "http_sample_header env (current_cgroup_id env) HTTP_SOURCE_NGHTTP2"
  obtain mv where mv: "nghttp2_method sc \<noteq> NULL" "read_bytes (umem env) (nghttp2_method sc) (unat (nghttp2_method_len sc)) = Some mv"
      "field_value False 16 mv = Some m'" using user_value_at [OF ptrs(1) fields(1)] by blast
  obtain pv where pv: "nghttp2_path sc \<noteq> NULL" "read_bytes (umem env) (nghttp2_path sc) (unat (nghttp2_path_len sc)) = Some pv"
      "field_value True 256 pv = Some p'" using user_value_at [OF ptrs(2) fields(2)] by blast
  have copies: "http_copy_user_method env (hr_method ?x) (nghttp2_method sc) (nghttp2_method_n sc) = Some (padded 16 m')"
    "http_copy_user_value env (hr_path ?x) (nghttp2_path sc) (nghttp2_path_n sc) = Some (padded 256 p')"
    using copy_method_field [OF mv(2,1,3)] copy_value_field [OF pv(2,1,3)] wf lens by simp_all
  have len: "(if nghttp2_authority sc \<noteq> NULL
        then http_user_field_length env (nghttp2_authority sc) (nghttp2_authority_len sc) HTTP_HOST_LEN False else None) =
      map_option length (Option.bind (user_value env a) (field_value False 256))"
    using field_length_at [OF ptrs(3) mem, of 256 False] by (auto simp: http_user_field_length_def)
  show ?thesis
  proof (cases "Option.bind (user_value env a) (field_value False 256)")
    case None
    have "?x\<lparr>hr_method := padded 16 m', hr_path := padded 256 p'\<rparr> =
        ?x\<lparr>hr_method := padded 16 m', hr_path := padded 256 p', hr_host := padded 256 []\<rparr>"
      using wf by (simp add: padded_def)
    with None copies header_record [OF wf] show ?thesis
      unfolding nghttp2_sample_of_def Let_def len by simp
  next
    case (Some h)
    then obtain av where av: "nghttp2_authority sc \<noteq> NULL"
        "read_bytes (umem env) (nghttp2_authority sc) (unat (nghttp2_authority_len sc)) = Some av"
        "field_value False 256 av = Some h" using user_value_at [OF ptrs(3)] by blast
    have "http_copy_user_value env (hr_host ?x) (nghttp2_authority sc) (of_nat (length h)) = Some (padded 256 h)"
      using copy_value_field [OF av(2,1,3)] wf by simp
    with Some copies header_record [OF wf] show ?thesis
      unfolding nghttp2_sample_of_def Let_def len by simp
  qed
qed

end
