(* ===== verification/Go_Http_Taps.thy ===== *)
theory Go_Http_Taps
  imports Nghttp2_Taps
begin

text \<open>
  HTTPS requests of Go programs at the entry of \<open>net/http.(*Transport).roundTrip\<close>, after
  \<open>go_http_uprobe_hooks.bpf.h\<close>: the entry reads the string headers of the request and URL
  objects, the next program validates method and path, the last one the host, and emits.
  Empty method and path stand for \<open>net/http\<close>'s defaults.
\<close>

definition GO_HTTP_REQUEST_METHOD_OFFSET :: nat where [simp]: "GO_HTTP_REQUEST_METHOD_OFFSET = 0"
definition GO_HTTP_REQUEST_URL_OFFSET :: nat where [simp]: "GO_HTTP_REQUEST_URL_OFFSET = 16"
definition GO_HTTP_REQUEST_HOST_OFFSET :: nat where [simp]: "GO_HTTP_REQUEST_HOST_OFFSET = 128"
definition GO_HTTP_URL_SCHEME_OFFSET :: nat where [simp]: "GO_HTTP_URL_SCHEME_OFFSET = 0"
definition GO_HTTP_URL_HOST_OFFSET :: nat where [simp]: "GO_HTTP_URL_HOST_OFFSET = 40"
definition GO_HTTP_URL_PATH_OFFSET :: nat where [simp]: "GO_HTTP_URL_PATH_OFFSET = 56"

record go_string_abi =
  gs_data :: ptr
  gs_len :: u64

text \<open>The registers at the probe; which one holds the request depends on the build target.\<close>

datatype target_arch = Target_x86 | Target_arm64

record pt_regs =
  pr_bx :: u64
  pr_regs :: "nat \<Rightarrow> u64"

definition go_http_request_argument :: "target_arch \<Rightarrow> pt_regs \<Rightarrow> ptr" where
  "go_http_request_argument arch ctx = (case arch of Target_x86 \<Rightarrow> pr_bx ctx | Target_arm64 \<Rightarrow> pr_regs ctx 1)"

text \<open>\<open>None\<close> is a negative return value.\<close>

definition go_http_read_string :: "kenv \<Rightarrow> ptr \<Rightarrow> nat \<Rightarrow> go_string_abi option" where
  "go_http_read_string env base off =
     (if base = NULL then None
      else map_option (\<lambda>bs. \<lparr>gs_data = le_word (take 8 bs), gs_len = le_word (drop 8 bs)\<rparr>)
             (bpf_probe_read_user env 16 (base + of_nat off)))"

definition go_http_is_https :: "kenv \<Rightarrow> go_string_abi \<Rightarrow> bool" where
  "go_http_is_https env scheme \<longleftrightarrow>
     (if gs_data scheme = NULL \<or> gs_len scheme \<noteq> 5 then False
      else case bpf_probe_read_user env 5 (gs_data scheme) of
        None \<Rightarrow> False
      | Some v \<Rightarrow> v ! 0 = ch CHR ''h'' \<and> v ! 1 = ch CHR ''t'' \<and> v ! 2 = ch CHR ''t'' \<and>
                  v ! 3 = ch CHR ''p'' \<and> v ! 4 = ch CHR ''s'')"

section \<open>Programs\<close>

text \<open>The reads of the entry: method, path and host, or \<open>None\<close> where it returns early.\<close>

definition go_http_read_request :: "kenv \<Rightarrow> ptr \<Rightarrow> (go_string_abi \<times> go_string_abi \<times> go_string_abi) option" where
  "go_http_read_request env request =
     (if request = NULL then None
      else case bpf_probe_read_user env 8 (request + of_nat GO_HTTP_REQUEST_URL_OFFSET) of
        None \<Rightarrow> None
      | Some bs \<Rightarrow>
          (let url = le_word bs in
           if url = NULL then None
           else case go_http_read_string env url GO_HTTP_URL_SCHEME_OFFSET of
             None \<Rightarrow> None
           | Some scheme \<Rightarrow>
               if \<not> go_http_is_https env scheme then None
               else case go_http_read_string env request GO_HTTP_REQUEST_METHOD_OFFSET of
                 None \<Rightarrow> None
               | Some method \<Rightarrow>
                   (case go_http_read_string env url GO_HTTP_URL_PATH_OFFSET of
                      None \<Rightarrow> None
                    | Some path \<Rightarrow>
                        (case go_http_read_string env request GO_HTTP_REQUEST_HOST_OFFSET of
                           None \<Rightarrow> None
                         | Some host \<Rightarrow>
                             if gs_len host = 0
                             then (case go_http_read_string env url GO_HTTP_URL_HOST_OFFSET of
                                     None \<Rightarrow> None
                                   | Some url_host \<Rightarrow> Some (method, path, url_host))
                             else Some (method, path, host)))))"

definition handle_go_net_http_round_trip :: "kenv \<Rightarrow> target_arch \<times> pt_regs \<Rightarrow> bpf_state \<Rightarrow> outcome \<times> bpf_state" where
  "handle_go_net_http_round_trip env a s =
     (case a of (arch, ctx) \<Rightarrow>
        if cgroup_is_tracked s (current_cgroup_id env) = 0 then (Exit 0, s)
        else case go_http_read_request env (go_http_request_argument arch ctx) of
          None \<Rightarrow> (Exit 0, s)
        | Some (method, path, host) \<Rightarrow>
            (case http_scratch_get env s of
               None \<Rightarrow> (Exit 0, s)
             | Some sc \<Rightarrow>
                 (bpf_tail_call (http_uprobe_stages s) HTTP_UPROBE_STAGE_GO_HTTP_REQUIRED,
                  http_scratch_put env
                    (sc\<lparr>go_http_method := gs_data method, go_http_path := gs_data path, go_http_host := gs_data host,
                        go_http_method_len := gs_len method, go_http_path_len := gs_len path,
                        go_http_host_len := gs_len host\<rparr>) s)))"

text \<open>The validated lengths, 0 for the defaults; \<open>None\<close> where the program returns early.\<close>

definition go_method_length :: "kenv \<Rightarrow> http_scratch \<Rightarrow> nat option" where
  "go_method_length env sc =
     (if go_http_method_len sc > 0
      then http_user_field_length env (go_http_method sc) (go_http_method_len sc) HTTP_METHOD_LEN False
      else Some 0)"

definition go_path_length :: "kenv \<Rightarrow> http_scratch \<Rightarrow> nat option" where
  "go_path_length env sc =
     (if go_http_path_len sc > 0
      then case http_user_field_length env (go_http_path sc) (go_http_path_len sc) HTTP_PATH_LEN False of
          None \<Rightarrow> None
        | Some n \<Rightarrow>
            (case bpf_probe_read_user env 1 (go_http_path sc) of
               None \<Rightarrow> None
             | Some first \<Rightarrow> if first ! 0 \<noteq> ch CHR ''/'' then None else Some n)
      else Some 0)"

definition handle_go_net_http_required :: "kenv \<Rightarrow> bpf_state \<Rightarrow> outcome \<times> bpf_state" where
  "handle_go_net_http_required env s =
     (case http_scratch_get env s of
        None \<Rightarrow> (Exit 0, s)
      | Some sc \<Rightarrow>
          (case go_method_length env sc of
             None \<Rightarrow> (Exit 0, s)
           | Some mn \<Rightarrow>
               (case go_path_length env sc of
                  None \<Rightarrow> (Exit 0, s)
                | Some pn \<Rightarrow>
                    (bpf_tail_call (http_uprobe_stages s) HTTP_UPROBE_STAGE_GO_HTTP_EMIT,
                     http_scratch_put env (sc\<lparr>go_http_method_n := of_nat mn, go_http_path_n := of_nat pn\<rparr>) s))))"

text \<open>The sample of the emit program: \<open>None\<close> when it is discarded.\<close>

definition go_sample_of :: "kenv \<Rightarrow> http_scratch \<Rightarrow> http_request_sample option" where
  "go_sample_of env sc =
     (let hn = (if go_http_host_len sc > 0
                then http_user_field_length env (go_http_host sc) (go_http_host_len sc) HTTP_HOST_LEN False
                else None);
          x = http_sample_header env (current_cgroup_id env) HTTP_SOURCE_GO_NET_HTTP;
          mr = (if go_http_method_len sc = 0
                then Some ((hr_method x)[0 := ch CHR ''G'', 1 := ch CHR ''E'', 2 := ch CHR ''T''])
                else http_copy_user_method env (hr_method x) (go_http_method sc) (go_http_method_n sc));
          pr = (if go_http_path_len sc = 0 then Some ((hr_path x)[0 := ch CHR ''/''])
                else http_copy_user_value env (hr_path x) (go_http_path sc) (go_http_path_n sc))
      in case mr of
           None \<Rightarrow> None
         | Some m \<Rightarrow>
             (case pr of
                None \<Rightarrow> None
              | Some p \<Rightarrow>
                  (case hn of
                     None \<Rightarrow> Some (x\<lparr>hr_method := m, hr_path := p\<rparr>)
                   | Some n \<Rightarrow>
                       (case http_copy_user_value env (hr_host x) (go_http_host sc) (of_nat n) of
                          None \<Rightarrow> None
                        | Some h \<Rightarrow> Some (x\<lparr>hr_method := m, hr_path := p, hr_host := h\<rparr>)))))"

definition handle_go_net_http_emit :: "kenv \<Rightarrow> bpf_state \<Rightarrow> outcome \<times> bpf_state" where
  "handle_go_net_http_emit env s =
     (case http_scratch_get env s of
        None \<Rightarrow> (Exit 0, s)
      | Some sc \<Rightarrow>
          (case RESERVE_SAMPLE env SAMPLE_KIND_HTTP_REQUEST 0 (submit_or_discard (go_sample_of env sc)) s of
             (r, s') \<Rightarrow> (Exit r, s')))"

section \<open>The form of the programs\<close>

lemma go_sample_shape:
  assumes "go_sample_of env sc = Some x"
  shows "kind x = kind_value SAMPLE_KIND_HTTP_REQUEST \<and> cgroup_id x = current_cgroup_id env \<and>
    (env_wf env \<longrightarrow> sample_wf (HttpRequestSample x))"
  using assms unfolding go_sample_of_def Let_def
  by (auto split: option.split_asm if_split_asm dest!: copy_user_length)

lemma go_emit_form: "stage_form env s (handle_go_net_http_emit env s)"
proof (cases "http_scratch_get env s")
  case None
  then show ?thesis by (simp add: handle_go_net_http_emit_def)
next
  case (Some sc)
  have body: "sample_body env (env_wf env \<and> state_wf s) 0 (submit_or_discard (go_sample_of env sc))"
    by (rule submit_or_discard_body) (use go_sample_shape in blast)
  obtain r s2 where r: "RESERVE_SAMPLE env SAMPLE_KIND_HTTP_REQUEST 0 (submit_or_discard (go_sample_of env sc)) s = (r, s2)"
    by fastforce
  show ?thesis using Some r by (auto simp: handle_go_net_http_emit_def intro: stage_form.emit [OF _ _ body r])
qed

lemma go_round_trip_form: "stage_form env s (handle_go_net_http_round_trip env a s)"
  by (auto simp: handle_go_net_http_round_trip_def split: prod.split option.split intro!: nghttp2_put_form)

lemma go_required_form: "stage_form env s (handle_go_net_http_required env s)"
  by (auto simp: handle_go_net_http_required_def split: option.split intro!: nghttp2_put_form)

section \<open>The request of a Go program\<close>

text \<open>The text of a string: \<open>None\<close> where its bytes have no address.\<close>

definition go_text :: "kenv \<Rightarrow> go_string_abi \<Rightarrow> bytes option" where
  "go_text env g = user_value env (at_ptr (gs_data g) (gs_len g))"

definition go_readable :: "kenv \<Rightarrow> go_string_abi \<Rightarrow> bool" where
  "go_readable env g \<longleftrightarrow> readable env (at_ptr (gs_data g) (gs_len g))"

definition go_method :: "kenv \<Rightarrow> go_string_abi \<Rightarrow> bytes option" where
  "go_method env g =
     (if gs_len g = 0 then Some (c_lit ''GET'') else Option.bind (go_text env g) (field_value False HTTP_METHOD_LEN))"

definition go_path :: "kenv \<Rightarrow> go_string_abi \<Rightarrow> bytes option" where
  "go_path env g =
     (if gs_len g = 0 then Some (c_lit ''/'')
      else case Option.bind (go_text env g) (field_value False HTTP_PATH_LEN) of
        None \<Rightarrow> None
      | Some p \<Rightarrow> if p ! 0 \<noteq> ch CHR ''/'' then None else Some p)"

definition go_host :: "kenv \<Rightarrow> go_string_abi \<Rightarrow> bytes" where
  "go_host env g =
     (if gs_len g = 0 then []
      else case Option.bind (go_text env g) (field_value False HTTP_HOST_LEN) of None \<Rightarrow> [] | Some h \<Rightarrow> h)"

definition go_request :: "kenv \<Rightarrow> go_string_abi \<times> go_string_abi \<times> go_string_abi \<Rightarrow> (bytes \<times> bytes \<times> bytes) option" where
  "go_request env g =
     (case g of (m, p, h) \<Rightarrow>
        (case go_method env m of
           None \<Rightarrow> None
         | Some m' \<Rightarrow> (case go_path env p of None \<Rightarrow> None | Some p' \<Rightarrow> Some (m', p', go_host env h))))"

lemma bind_field_first:
  assumes "at_ptr p l = x" "Option.bind (user_value env x) (field_value strip cap) = Some w"
  shows "bpf_probe_read_user env 1 p = Some [w ! 0]"
proof -
  from user_value_at [OF assms] obtain v where v: "read_bytes (umem env) p (unat l) = Some v" "field_value strip cap v = Some w"
    by blast
  note f = field_value_Some [OF v(2)]
  have "0 < length w" using f(1) by (auto simp: valid_field_def)
  moreover from this have "v ! 0 = w ! 0" using f(2) by (metis nth_take)
  moreover have "0 < unat l" using calculation(1) f(3) length_read_bytes [OF v(1)] by linarith
  ultimately show ?thesis using read_one [OF v(1), of 0] by (simp add: bpf_probe_read_user_def)
qed

text \<open>The length the required program stores for a field that it accepts.\<close>

lemma go_method_length_spec:
  assumes "go_readable env m" "go_http_method sc = gs_data m" "go_http_method_len sc = gs_len m"
  shows "go_method_length env sc = map_option (\<lambda>w. if gs_len m = 0 then 0 else length w) (go_method env m)"
proof (cases "gs_len m = 0")
  case True
  then show ?thesis using assms(3) by (simp add: go_method_length_def go_method_def)
next
  case False
  then have pos: "gs_len m > 0" by (simp add: word_neq_0_conv)
  have "http_user_field_length env (gs_data m) (gs_len m) HTTP_METHOD_LEN False =
      map_option length (Option.bind (go_text env m) (field_value False 16))"
    using field_length_at [of "gs_data m" "gs_len m" _ env 16 False] assms(1) by (simp add: go_text_def go_readable_def)
  with False pos show ?thesis unfolding go_method_length_def go_method_def assms(2,3) by simp
qed

lemma go_path_length_spec:
  assumes "go_readable env p" "go_http_path sc = gs_data p" "go_http_path_len sc = gs_len p"
  shows "go_path_length env sc = map_option (\<lambda>w. if gs_len p = 0 then 0 else length w) (go_path env p)"
proof (cases "gs_len p = 0")
  case True
  then show ?thesis using assms(3) by (simp add: go_path_length_def go_path_def)
next
  case False
  have len: "http_user_field_length env (gs_data p) (gs_len p) HTTP_PATH_LEN False =
      map_option length (Option.bind (go_text env p) (field_value False 256))"
    using field_length_at [of "gs_data p" "gs_len p" _ env 256 False] assms(1) by (simp add: go_text_def go_readable_def)
  have first: "bpf_probe_read_user env 1 (gs_data p) = Some [w ! 0]"
    if "Option.bind (go_text env p) (field_value False 256) = Some w" for w
    using bind_field_first [OF refl] that by (simp add: go_text_def)
  have "gs_len p > 0" using False by (simp add: word_neq_0_conv)
  with False show ?thesis
    unfolding go_path_length_def go_path_def assms(2,3) len
    by (auto simp: first [simplified] split: option.split)
qed

lemma go_emits:
  assumes wf: "env_wf env"
    and ptrs: "go_http_method sc = gs_data m" "go_http_method_len sc = gs_len m" "go_http_path sc = gs_data p"
      "go_http_path_len sc = gs_len p" "go_http_host sc = gs_data h" "go_http_host_len sc = gs_len h"
    and mem: "go_readable env h"
    and fields: "go_method env m = Some m'" "go_path env p = Some p'"
    and lens: "go_http_method_n sc = of_nat (if gs_len m = 0 then 0 else length m')"
      "go_http_path_n sc = of_nat (if gs_len p = 0 then 0 else length p')"
  shows "go_sample_of env sc = Some (http_record env (current_cgroup_id env) HTTP_SOURCE_GO_NET_HTTP (m', p', go_host env h))"
proof -
  let ?x = "http_sample_header env (current_cgroup_id env) HTTP_SOURCE_GO_NET_HTTP"
  have mr: "(if go_http_method_len sc = 0 then Some ((hr_method ?x)[0 := ch CHR ''G'', 1 := ch CHR ''E'', 2 := ch CHR ''T''])
       else http_copy_user_method env (hr_method ?x) (go_http_method sc) (go_http_method_n sc)) = Some (padded 16 m')"
  proof (cases "gs_len m = 0")
    case True
    with fields(1) have "m' = c_lit ''GET''" by (simp add: go_method_def)
    with True wf ptrs(2) show ?thesis by (simp add: padded_def c_lit_def numeral_eq_Suc)
  next
    case False
    with fields(1) have "Option.bind (user_value env (at_ptr (gs_data m) (gs_len m))) (field_value False 16) = Some m'"
      by (simp add: go_method_def go_text_def)
    from user_value_at [OF refl this] obtain v where "gs_data m \<noteq> NULL" "read_bytes (umem env) (gs_data m) (unat (gs_len m)) = Some v"
      "field_value False 16 v = Some m'" by blast
    from copy_method_field [OF this(2,1,3)] False wf ptrs(1,2) lens(1) show ?thesis by simp
  qed
  have pr: "(if go_http_path_len sc = 0 then Some ((hr_path ?x)[0 := ch CHR ''/''])
       else http_copy_user_value env (hr_path ?x) (go_http_path sc) (go_http_path_n sc)) = Some (padded 256 p')"
  proof (cases "gs_len p = 0")
    case True
    with fields(2) have "p' = c_lit ''/''" by (simp add: go_path_def)
    with True wf ptrs(4) show ?thesis by (simp add: padded_def c_lit_def numeral_eq_Suc)
  next
    case False
    with fields(2) have "Option.bind (user_value env (at_ptr (gs_data p) (gs_len p))) (field_value False 256) = Some p'"
      by (auto simp: go_path_def go_text_def split: option.splits if_splits)
    from user_value_at [OF refl this] obtain v where "gs_data p \<noteq> NULL" "read_bytes (umem env) (gs_data p) (unat (gs_len p)) = Some v"
      "field_value False 256 v = Some p'" by blast
    from copy_value_field [OF this(2,1,3)] False wf ptrs(3,4) lens(2) show ?thesis by simp
  qed
  have hn: "(if go_http_host_len sc > 0
       then http_user_field_length env (go_http_host sc) (go_http_host_len sc) HTTP_HOST_LEN False else None) =
     (if gs_len h = 0 then None else map_option length (Option.bind (go_text env h) (field_value False 256)))"
  proof (cases "gs_len h = 0")
    case True
    then show ?thesis using ptrs(6) by simp
  next
    case False
    then have "gs_len h > 0" by (simp add: word_neq_0_conv)
    with False show ?thesis
      using field_length_at [of "gs_data h" "gs_len h" _ env 256 False] mem ptrs(5,6)
      by (simp add: go_text_def go_readable_def)
  qed
  show ?thesis
  proof (cases "gs_len h \<noteq> 0 \<and> Option.bind (go_text env h) (field_value False 256) \<noteq> None")
    case False
    then have "go_host env h = []" by (auto simp: go_host_def)
    moreover have "?x\<lparr>hr_method := padded 16 m', hr_path := padded 256 p'\<rparr> =
        ?x\<lparr>hr_method := padded 16 m', hr_path := padded 256 p', hr_host := padded 256 []\<rparr>"
      using wf by (simp add: padded_def)
    ultimately show ?thesis
      using False header_record [OF wf] unfolding go_sample_of_def Let_def hn mr pr by auto
  next
    case True
    then obtain w where w: "Option.bind (user_value env (at_ptr (gs_data h) (gs_len h))) (field_value False 256) = Some w"
      by (auto simp: go_text_def)
    then have host: "go_host env h = w" using True by (simp add: go_host_def go_text_def)
    from user_value_at [OF refl w] obtain v where "gs_data h \<noteq> NULL" "read_bytes (umem env) (gs_data h) (unat (gs_len h)) = Some v"
      "field_value False 256 v = Some w" by blast
    from copy_value_field [OF this(2,1,3)] wf ptrs(5)
    have "http_copy_user_value env (hr_host ?x) (go_http_host sc) (of_nat (length w)) = Some (padded 256 w)" by simp
    with True w header_record [OF wf] show ?thesis
      unfolding go_sample_of_def Let_def hn mr pr host by (simp add: go_text_def)
  qed
qed

end
