(* ===== verification/Http_Chains.thy ===== *)
theory Http_Chains
  imports Go_Http_Taps
begin

text \<open>
  The HTTP taps as the kernel runs them: an attached entry and the programs it reaches through
  the tail-call tables the loader fills. Each chain keeps the contract of an observing program,
  and reports exactly the requests its reference describes.
\<close>

fun run_prog :: "bpf_prog \<Rightarrow> kenv \<Rightarrow> bpf_state \<Rightarrow> outcome \<times> bpf_state" where
  "run_prog Prog_tcp_sendmsg_http_parse env s = handle_tcp_sendmsg_http_parse env s"
| "run_prog Prog_ssl_write_parse env s = handle_ssl_write_parse env s"
| "run_prog Prog_nghttp2_required env s = handle_nghttp2_required env s"
| "run_prog Prog_nghttp2_emit env s = handle_nghttp2_emit env s"
| "run_prog Prog_go_net_http_required env s = handle_go_net_http_required env s"
| "run_prog Prog_go_net_http_emit env s = handle_go_net_http_emit env s"

lemma run_prog_form: "stage_form env s (run_prog p env s)"
  by (cases p) (simp_all add: handle_tcp_sendmsg_http_parse_def handle_ssl_write_parse_def parse_and_emit_form
      nghttp2_required_form nghttp2_emit_form go_required_form go_emit_form)

section \<open>The chains\<close>

text \<open>The environments of the programs after the entry are arguments.\<close>

definition tcp_http_chain :: "kenv list \<Rightarrow> kenv \<Rightarrow> ptr \<times> ptr \<times> u64 \<Rightarrow> bpf_state \<Rightarrow> int \<times> bpf_state" where
  "tcp_http_chain envs env a s = run_chain run_prog envs (handle_tcp_sendmsg_http env a s)"

definition ssl_write_chain :: "kenv list \<Rightarrow> kenv \<Rightarrow> ptr \<times> ptr \<times> s64 \<Rightarrow> bpf_state \<Rightarrow> int \<times> bpf_state" where
  "ssl_write_chain envs env a s = run_chain run_prog envs (handle_ssl_write env a s)"

definition nghttp2_chain :: "kenv list \<Rightarrow> kenv \<Rightarrow> ptr \<times> ptr \<times> ptr \<times> u64 \<Rightarrow> bpf_state \<Rightarrow> int \<times> bpf_state" where
  "nghttp2_chain envs env a s = run_chain run_prog envs (handle_nghttp2_submit_request env a s)"

definition go_http_chain :: "kenv list \<Rightarrow> kenv \<Rightarrow> target_arch \<times> pt_regs \<Rightarrow> bpf_state \<Rightarrow> int \<times> bpf_state" where
  "go_http_chain envs env a s = run_chain run_prog envs (handle_go_net_http_round_trip env a s)"

abbreviation same_env :: "kenv \<Rightarrow> kenv list" where
  "same_env env \<equiv> replicate MAX_TAIL_CALL_CNT env"

lemma untracked_entries:
  assumes "tracked_cgroups s (current_cgroup_id env) = None"
  shows "handle_tcp_sendmsg_http env a s = (Exit 0, s)" "handle_ssl_write env b s = (Exit 0, s)"
    "handle_nghttp2_submit_request env c s = (Exit 0, s)" "handle_go_net_http_round_trip env d s = (Exit 0, s)"
  using assms
  by (cases a, cases b, cases c, cases d; simp add: handle_tcp_sendmsg_http_def handle_ssl_write_def
      handle_nghttp2_submit_request_def handle_go_net_http_round_trip_def)+

interpretation tcp_http: observer_hook "\<lambda>env. tcp_http_chain (same_env env) env" 0
  unfolding tcp_http_chain_def
  by (intro observer_hookI run_chain_gated run_prog_form tcp_sendmsg_http_form untracked_entries)

interpretation ssl_write: observer_hook "\<lambda>env. ssl_write_chain (same_env env) env" 0
  unfolding ssl_write_chain_def
  by (intro observer_hookI run_chain_gated run_prog_form ssl_write_form untracked_entries)

interpretation nghttp2: observer_hook "\<lambda>env. nghttp2_chain (same_env env) env" 0
  unfolding nghttp2_chain_def
  by (intro observer_hookI run_chain_gated run_prog_form nghttp2_submit_form untracked_entries)

interpretation go_http: observer_hook "\<lambda>env. go_http_chain (same_env env) env" 0
  unfolding go_http_chain_def
  by (intro observer_hookI run_chain_gated run_prog_form go_round_trip_form untracked_entries)

section \<open>What the chains report\<close>

lemma installed_stages [simp]:
  "installed_http_stages 0 = Some Prog_tcp_sendmsg_http_parse"
  "installed_http_uprobe_stages 0 = Some Prog_ssl_write_parse"
  "installed_http_uprobe_stages (Suc 0) = Some Prog_nghttp2_required"
  "installed_http_uprobe_stages 2 = Some Prog_nghttp2_emit"
  "installed_http_uprobe_stages 3 = Some Prog_go_net_http_required"
  "installed_http_uprobe_stages 4 = Some Prog_go_net_http_emit"
  by (simp_all add: installed_http_stages_def installed_http_uprobe_stages_def)

lemma capture_stages:
  assumes "http_capture_user_buffer env base n s = (go, s1)"
  shows "http_stages s1 = http_stages s" "http_uprobe_stages s1 = http_uprobe_stages s"
  using http_capture_form(1) [OF assms] by (simp_all add: scratch_only_def)

lemma tcp_http_reports:
  assumes wf: "env_wf env'" "state_wf s" and cpu: "cpu env' = cpu env"
    and tracked: "tracked_cgroups s (current_cgroup_id env) \<noteq> None" and slot: "http_scratch_get env s \<noteq> None"
    and space: "ringbuf_space env' (sizeof_sample SAMPLE_KIND_HTTP_REQUEST)"
    and installed: "http_stages s = installed_http_stages"
    and seg: "http_first_segment env msg = Some (base, n)"
    and read: "read_bytes (umem env) base (min (unat n) 256) = Some d"
  shows "events (snd (tcp_http_chain (env' # envs) env (sk, msg, len) s)) =
    events s @ (case http_reference d of None \<Rightarrow> []
                | Some f \<Rightarrow> [HttpRequestSample (http_record env' (current_cgroup_id env') HTTP_SOURCE_CLEARTEXT f)])"
proof -
  obtain go s1 where c: "http_capture_user_buffer env base n s = (go, s1)" by fastforce
  have "handle_tcp_sendmsg_http env (sk, msg, len) s =
      (case http_capture_user_buffer env base n s of (False, s1) \<Rightarrow> (Exit 0, s1)
       | (True, s1) \<Rightarrow> reqline_and_jump env installed_http_stages 0 s1)"
    using tracked seg installed capture_stages [OF c]
    by (auto simp: handle_tcp_sendmsg_http_def http_entry_capture_def c split: bool.split)
  then show ?thesis
    using tap_reports [OF wf cpu slot read space, where table = installed_http_stages and index = 0 and
        run = run_prog and source = HTTP_SOURCE_CLEARTEXT and envs = envs]
    by (simp add: tcp_http_chain_def handle_tcp_sendmsg_http_parse_def)
qed

lemma ssl_write_reports:
  assumes wf: "env_wf env'" "state_wf s" and cpu: "cpu env' = cpu env"
    and tracked: "tracked_cgroups s (current_cgroup_id env) \<noteq> None" and slot: "http_scratch_get env s \<noteq> None"
    and space: "ringbuf_space env' (sizeof_sample SAMPLE_KIND_HTTP_REQUEST)"
    and installed: "http_uprobe_stages s = installed_http_uprobe_stages"
    and num: "0 \<le> sint n"
    and read: "read_bytes (umem env) base (min (unat n) 256) = Some d"
  shows "events (snd (ssl_write_chain (env' # envs) env (ssl, base, n) s)) =
    events s @ (case http_reference d of None \<Rightarrow> []
                | Some f \<Rightarrow> [HttpRequestSample (http_record env' (current_cgroup_id env') HTTP_SOURCE_OPENSSL f)])"
proof -
  obtain go s1 where c: "http_capture_user_buffer env base n s = (go, s1)" by fastforce
  have "handle_ssl_write env (ssl, base, n) s =
      (case http_capture_user_buffer env base n s of (False, s1) \<Rightarrow> (Exit 0, s1)
       | (True, s1) \<Rightarrow> reqline_and_jump env installed_http_uprobe_stages 0 s1)"
  proof (cases "sint n < 14")
    case True
    have "uint n = sint n" using num True by (subst uint_sint) (simp add: take_bit_int_eq_self)
    with True have "unat n < 14" by (simp add: unat_eq_nat_uint)
    then have "http_capture_user_buffer env base n s = (False, s)" by (simp add: http_capture_user_buffer_def)
    then show ?thesis using True tracked by (simp add: handle_ssl_write_def)
  next
    case False
    then show ?thesis using tracked installed capture_stages [OF c]
      by (auto simp: handle_ssl_write_def c split: bool.split)
  qed
  then show ?thesis
    using tap_reports [OF wf cpu slot read space, where table = installed_http_uprobe_stages and index = 0 and
        run = run_prog and source = HTTP_SOURCE_OPENSSL and envs = envs]
    by (simp add: ssl_write_chain_def handle_ssl_write_parse_def)
qed

text \<open>Programs that see the same user memory and run on the same CPU agree on values and workspace.\<close>

lemma same_memory:
  assumes "umem env' = umem env"
  shows "user_value env' x = user_value env x" "readable env' x = readable env x"
    "go_text env' g = go_text env g" "go_readable env' g = go_readable env g" "go_method env' g = go_method env g"
    "go_path env' g = go_path env g" "go_host env' g = go_host env g"
  using assms by (simp_all add: user_value_def readable_def go_text_def go_readable_def go_method_def go_path_def
      go_host_def split: option.split)

lemma same_cpu:
  assumes "cpu env' = cpu env"
  shows "http_scratch_get env' s = http_scratch_get env s" "http_scratch_put env' sc s = http_scratch_put env sc s"
  using assms by (simp_all add: http_scratch_get_def http_scratch_put_def percpu_lookup_def percpu_store_def)

lemma nghttp2_reports:
  assumes wf: "env_wf env3" and cpu: "cpu env2 = cpu env" "cpu env3 = cpu env"
    and mem: "umem env2 = umem env" "umem env3 = umem env"
    and tracked: "tracked_cgroups s (current_cgroup_id env) \<noteq> None" and slot: "http_scratch_get env s \<noteq> None"
    and space: "ringbuf_space env3 (sizeof_sample SAMPLE_KIND_HTTP_REQUEST)"
    and installed: "http_uprobe_stages s = installed_http_uprobe_stages"
    and arr: "nva \<noteq> NULL" "nvlen \<noteq> 0" "length hs = min (unat nvlen) 32"
      "\<And>i. i < length hs \<Longrightarrow> header_at env nva i = Some (hs ! i)"
    and vals: "\<And>k. readable env (pseudo_value k hs)"
  shows "events (snd (nghttp2_chain (env2 # env3 # envs) env (ses, pri, nva, nvlen) s)) =
    events s @ (case nghttp2_request (user_value env (pseudo_value NGHTTP2_PSEUDO_METHOD hs))
                  (user_value env (pseudo_value NGHTTP2_PSEUDO_PATH hs))
                  (user_value env (pseudo_value NGHTTP2_PSEUDO_AUTHORITY hs)) of
                None \<Rightarrow> []
              | Some f \<Rightarrow> [HttpRequestSample (http_record env3 (current_cgroup_id env3) HTTP_SOURCE_NGHTTP2 f)])"
proof -
  let ?m = "pseudo_value NGHTTP2_PSEUDO_METHOD hs" and ?p = "pseudo_value NGHTTP2_PSEUDO_PATH hs"
    and ?a = "pseudo_value NGHTTP2_PSEUDO_AUTHORITY hs"
  obtain sc where sc: "http_scratch_get env s = Some sc" using slot by auto
  obtain y where y: "tracked_cgroups s (current_cgroup_id env) = Some y" using tracked by auto
  define f where "f = pseudo_scan hs no_pseudo_fields"
  define w where "w = sc\<lparr>nghttp2_method := pf_method f, nghttp2_path := pf_path f,
      nghttp2_authority := pf_authority f, nghttp2_method_len := pf_method_len f,
      nghttp2_path_len := pf_path_len f, nghttp2_authority_len := pf_authority_len f\<rparr>"
  have ptrs: "at_ptr (nghttp2_method w) (nghttp2_method_len w) = ?m" "at_ptr (nghttp2_path w) (nghttp2_path_len w) = ?p"
    "at_ptr (nghttp2_authority w) (nghttp2_authority_len w) = ?a"
    using pseudo_scan_values [of hs no_pseudo_fields] by (simp_all add: w_def f_def no_pseudo_fields_def)
  let ?s1 = "http_scratch_put env w s"
  have scan: "nghttp2_scan env nva nvlen [0..<32] no_pseudo_fields = Some f"
    using nghttp2_scan_spec [OF arr(3,4), of 0] by (simp add: f_def)
  have entry: "nghttp2_chain (env2 # env3 # envs) env (ses, pri, nva, nvlen) s =
      run_stages run_prog (env2 # env3 # envs) Prog_nghttp2_required ?s1"
    using y arr(1,2) scan sc installed
    by (simp add: nghttp2_chain_def handle_nghttp2_submit_request_def bpf_tail_call_def run_chain_def w_def)
  have get1: "http_scratch_get env2 ?s1 = Some w" using sc same_cpu(1) [OF cpu(1)] by (simp add: http_get_put)
  note req = nghttp2_required_runs [OF get1 ptrs(1,2), unfolded same_memory [OF mem(1)], OF vals vals]
  show ?thesis
  proof (cases "nghttp2_request (user_value env ?m) (user_value env ?p) (user_value env ?a)")
    case None
    then have "handle_nghttp2_required env2 ?s1 = (Exit 0, ?s1)"
      unfolding req by (auto simp: nghttp2_request_def split: option.splits if_splits)
    then show ?thesis using None by (simp add: entry)
  next
    case (Some fs)
    then obtain m' p' where f': "Option.bind (user_value env ?m) (field_value False 16) = Some m'"
        "Option.bind (user_value env ?p) (field_value True 256) = Some p'" "p' ! 0 = ch CHR ''/''"
        "fs = (m', p', case Option.bind (user_value env ?a) (field_value False 256) of None \<Rightarrow> [] | Some h \<Rightarrow> h)"
      by (auto simp: nghttp2_request_def split: option.splits if_splits)
    define w2 where "w2 = w\<lparr>nghttp2_method_n := of_nat (length m'), nghttp2_path_n := of_nat (length p')\<rparr>"
    let ?s2 = "http_scratch_put env2 w2 ?s1"
    have "handle_nghttp2_required env2 ?s1 = (Tail_Call Prog_nghttp2_emit, ?s2)"
      unfolding req w2_def using f'(1-3) installed by (simp add: bpf_tail_call_def)
    moreover have get2: "http_scratch_get env3 ?s2 = Some w2"
      using get1 same_cpu [of env3 env2] cpu by (simp add: http_get_put)
    have "nghttp2_sample_of env3 w2 = Some (http_record env3 (current_cgroup_id env3) HTTP_SOURCE_NGHTTP2 fs)"
      unfolding f'(4) same_memory(1) [OF mem(2), symmetric]
      using ptrs f'(1,2) vals
      by (intro nghttp2_emits [OF wf get2]) (simp_all add: w2_def same_memory [OF mem(2)])
    then have "handle_nghttp2_emit env3 ?s2 = (Exit 0, bpf_ringbuf_submit
        (HttpRequestSample (http_record env3 (current_cgroup_id env3) HTTP_SOURCE_NGHTTP2 fs))
        (?s2\<lparr>reserved := reserved ?s2 + 1\<rparr>))"
      using space get2 by (simp add: handle_nghttp2_emit_def RESERVE_SAMPLE_cases submit_or_discard_def)
    ultimately show ?thesis using Some by (simp add: entry)
  qed
qed

lemma go_http_reports:
  assumes wf: "env_wf env3" and cpu: "cpu env2 = cpu env" "cpu env3 = cpu env"
    and mem: "umem env2 = umem env" "umem env3 = umem env"
    and tracked: "tracked_cgroups s (current_cgroup_id env) \<noteq> None" and slot: "http_scratch_get env s \<noteq> None"
    and space: "ringbuf_space env3 (sizeof_sample SAMPLE_KIND_HTTP_REQUEST)"
    and installed: "http_uprobe_stages s = installed_http_uprobe_stages"
    and strings: "go_http_read_request env (go_http_request_argument arch ctx) = Some (m, p, h)"
    and vals: "go_readable env m" "go_readable env p" "go_readable env h"
  shows "events (snd (go_http_chain (env2 # env3 # envs) env (arch, ctx) s)) =
    events s @ (case go_request env (m, p, h) of
                None \<Rightarrow> []
              | Some f \<Rightarrow> [HttpRequestSample (http_record env3 (current_cgroup_id env3) HTTP_SOURCE_GO_NET_HTTP f)])"
proof -
  obtain sc where sc: "http_scratch_get env s = Some sc" using slot by auto
  obtain y where y: "tracked_cgroups s (current_cgroup_id env) = Some y" using tracked by auto
  define w where "w = sc\<lparr>go_http_method := gs_data m, go_http_path := gs_data p, go_http_host := gs_data h,
      go_http_method_len := gs_len m, go_http_path_len := gs_len p, go_http_host_len := gs_len h\<rparr>"
  let ?s1 = "http_scratch_put env w s"
  have entry: "go_http_chain (env2 # env3 # envs) env (arch, ctx) s =
      run_stages run_prog (env2 # env3 # envs) Prog_go_net_http_required ?s1"
    using y strings sc installed
    by (simp add: go_http_chain_def handle_go_net_http_round_trip_def bpf_tail_call_def run_chain_def w_def)
  have get1: "http_scratch_get env2 ?s1 = Some w" using sc same_cpu(1) [OF cpu(1)] by (simp add: http_get_put)
  have lens: "go_method_length env2 w = map_option (\<lambda>x. if gs_len m = 0 then 0 else length x) (go_method env m)"
    "go_path_length env2 w = map_option (\<lambda>x. if gs_len p = 0 then 0 else length x) (go_path env p)"
    using go_method_length_spec [of env2 m w] go_path_length_spec [of env2 p w] vals
    by (simp_all add: w_def same_memory [OF mem(1)])
  show ?thesis
  proof (cases "go_request env (m, p, h)")
    case None
    then have "go_method env m = None \<or> go_path env p = None" by (auto simp: go_request_def split: option.splits)
    then have "handle_go_net_http_required env2 ?s1 = (Exit 0, ?s1)"
      using get1 by (auto simp: handle_go_net_http_required_def lens split: option.split)
    then show ?thesis using None by (simp add: entry)
  next
    case (Some fs)
    then obtain m' p' where f': "go_method env m = Some m'" "go_path env p = Some p'" "fs = (m', p', go_host env h)"
      by (auto simp: go_request_def split: option.splits)
    define w2 where "w2 = w\<lparr>go_http_method_n := of_nat (if gs_len m = 0 then 0 else length m'),
        go_http_path_n := of_nat (if gs_len p = 0 then 0 else length p')\<rparr>"
    let ?s2 = "http_scratch_put env2 w2 ?s1"
    have "handle_go_net_http_required env2 ?s1 = (Tail_Call Prog_go_net_http_emit, ?s2)"
      using get1 f'(1,2) installed
      by (simp add: handle_go_net_http_required_def lens bpf_tail_call_def w2_def)
    moreover have get2: "http_scratch_get env3 ?s2 = Some w2"
      using get1 same_cpu [of env3 env2] cpu by (simp add: http_get_put)
    have "go_sample_of env3 w2 = Some (http_record env3 (current_cgroup_id env3) HTTP_SOURCE_GO_NET_HTTP (m', p', go_host env3 h))"
      using f'(1,2) vals by (intro go_emits [OF wf]) (simp_all add: w_def w2_def same_memory [OF mem(2)])
    then have "handle_go_net_http_emit env3 ?s2 = (Exit 0, bpf_ringbuf_submit
        (HttpRequestSample (http_record env3 (current_cgroup_id env3) HTTP_SOURCE_GO_NET_HTTP fs))
        (?s2\<lparr>reserved := reserved ?s2 + 1\<rparr>))"
      using space get2 f'(3)
      by (simp add: handle_go_net_http_emit_def RESERVE_SAMPLE_cases submit_or_discard_def same_memory [OF mem(2)])
    ultimately show ?thesis using Some by (simp add: entry)
  qed
qed

end
