(* ===== verification/Http_Requests.thy ===== *)
theory Http_Requests
  imports Http_Chains
begin

text \<open>
  What the HTTP taps report for whole requests: the reference parser on well-formed HTTP/1
  requests of any length, the taps against it, and the bound on the tail calls.
\<close>

section \<open>Well-formed requests under the reference parser\<close>

definition target_bytes :: "bytes \<Rightarrow> bool" where
  "target_bytes bs \<longleftrightarrow> (\<forall>c \<in> set bs. c \<noteq> SP \<and> \<not> control_byte c)"

definition path_bytes :: "bytes \<Rightarrow> bool" where
  "path_bytes bs \<longleftrightarrow> target_bytes bs \<and> ch CHR ''?'' \<notin> set bs \<and> bs \<noteq> [] \<and> hd bs = ch CHR ''/''"

definition version_line :: "bytes \<Rightarrow> bool" where
  "version_line bs \<longleftrightarrow> 9 \<le> length bs \<and> version_prefix_ok bs"

definition http1_request :: "string \<Rightarrow> bytes \<Rightarrow> bytes \<Rightarrow> bytes \<Rightarrow> bytes" where
  "http1_request m path query after = c_lit m @ [SP] @ path @ (ch CHR ''?'' # query) @ [SP] @ after"

lemma version_prefix_take:
  assumes "version_line bs" shows "version_prefix_ok (take k bs)"
  using assms by (auto simp: version_line_def version_prefix_ok_def min_def split: if_splits)

lemma request_method_start:
  assumes "m \<in> set http_methods" shows "request_method (c_lit m @ SP # r) = Some m"
proof -
  have "\<forall>m \<in> set http_methods. request_method (c_lit m @ SP # r) = Some m"
    by (simp add: http_methods_def request_method_def c_lit_def)
  with assms show ?thesis by blast
qed

lemma request_method_of:
  assumes "m \<in> set http_methods" "length m + 1 \<le> k"
  shows "request_method (take k (c_lit m @ [SP] @ r)) = Some m"
proof -
  have "take k (c_lit m @ [SP] @ r) = c_lit m @ SP # take (k - length m - 1) r"
    using assms(2) by (simp add: c_lit_def take_Cons')
  then show ?thesis by (simp only: request_method_start [OF assms(1)])
qed

lemma takeWhile_stop: "\<forall>c \<in> set xs. P c \<Longrightarrow> \<not> P y \<Longrightarrow> takeWhile P (take k (xs @ y # ys)) = take k xs"
  by (cases "k \<le> length xs") (auto simp: takeWhile_append takeWhile_eq_all_conv take_Cons' dest: in_set_takeD)

lemma parse_target_of:
  assumes "target_bytes t"
  shows "parse_target (take k (t @ SP # after)) =
    Some (take k t, if length t < k then Some (take (k - length t - 1) after) else None)"
proof -
  have t: "takeWhile (\<lambda>c. c \<noteq> SP \<and> \<not> control_byte c) (take k (t @ SP # after)) = take k t"
    using assms by (intro takeWhile_stop) (auto simp: target_bytes_def)
  show ?thesis
  proof (cases "length t < k")
    case True
    then show ?thesis unfolding parse_target_def t Let_def by (simp add: take_Cons')
  next
    case False
    then show ?thesis unfolding parse_target_def t Let_def by simp
  qed
qed

lemma reference_of_request:
  assumes m: "m \<in> set http_methods" and path: "path_bytes path" and q: "target_bytes query"
    and after: "version_line after" and enough: "14 \<le> k"
  shows "http_reference (take k (http1_request m path query after)) =
    (let start = length m + length path + length query + 3 in
     Some (c_lit m, take (k - length m - 1) path, if start \<le> k then request_host (Some (take (k - start) after)) else []))"
proof -
  have fits: "length m + 2 \<le> k" using m enough by (auto simp: http_methods_def)
  let ?t = "path @ ch CHR ''?'' # query"
  let ?r = "http1_request m path query after"
  have r: "?r = c_lit m @ [SP] @ (?t @ SP # after)" by (simp add: http1_request_def)
  have t: "target_bytes ?t" using path q by (auto simp: path_bytes_def target_bytes_def control_byte_def)
  have len: "length ?r \<ge> 14" using after path m
    by (auto simp: http1_request_def version_line_def path_bytes_def Suc_le_eq http_methods_def c_lit_def)
  have pos: "length path > 0" using path by (simp add: path_bytes_def)
  have rest: "drop (length m + 1) (take k ?r) = take (k - length m - 1) (?t @ SP # after)"
    using fits by (simp add: r drop_take c_lit_def)
  have slash: "take (k - length m - 1) (?t @ SP # after) ! 0 = ch CHR ''/''"
    using path fits pos by (cases path) (auto simp: path_bytes_def)
  have strip: "strip_query (take (k - length m - 1) ?t) = take (k - length m - 1) path"
    unfolding strip_query_def using path by (subst takeWhile_stop) (auto simp: path_bytes_def)
  have len': "\<not> length (take k ?r) < HTTP_MIN_REQUEST_LINE" using enough len by simp
  have meth: "request_method (take k ?r) = Some m"
    unfolding r using fits by (intro request_method_of [OF m]) simp
  have ver: "case (if length ?t < k - length m - 1 then Some (take (k - length m - 1 - length ?t - 1) after) else None)
      of None \<Rightarrow> True | Some x \<Rightarrow> version_prefix_ok x"
    using version_prefix_take [OF after] by simp
  have "http_reference (take k ?r) = Some (c_lit m, take (k - length m - 1) path,
      request_host (if length ?t < k - length m - 1 then Some (take (k - length m - 1 - length ?t - 1) after) else None))"
    unfolding http_reference_def Let_def
    by (simp only: len' meth rest parse_target_of [OF t] slash strip ver option.case prod.case if_True if_False simp_thms)
  moreover have "k - length m - 1 - length ?t - 1 = k - (length m + length path + length query + 3)" by simp
  moreover have "length ?t < k - length m - 1 \<longleftrightarrow> length m + length path + length query + 3 \<le> k" by auto
  ultimately show ?thesis by (simp add: request_host_def Let_def)
qed

section \<open>HTTP/1 over TCP and OpenSSL\<close>

text \<open>
  C16: The cleartext tap on \<open>tcp_sendmsg\<close> and the OpenSSL tap on \<open>SSL_write\<close> report
  exactly the requests the reference parser finds in the first 256 bytes of the buffer, through
  their tail calls: one record with the method, path and host of the reference, the identity of
  the task and the source of the tap, or no record where the bytes are no HTTP/1 request.
\<close>

theorem http_request_reported:
  assumes "env_wf env'" "state_wf s" "cpu env' = cpu env" "tracked_cgroups s (current_cgroup_id env) \<noteq> None"
    and "http_scratch_get env s \<noteq> None" "ringbuf_space env' (sizeof_sample SAMPLE_KIND_HTTP_REQUEST)"
    and "http_stages s = installed_http_stages" "http_uprobe_stages s = installed_http_uprobe_stages"
    and "http_first_segment env msg = Some (base, n)" "0 \<le> sint n"
    and "read_bytes (umem env) base (min (unat n) 256) = Some d"
  shows "events (snd (tcp_http_chain (env' # envs) env (sk, msg, len) s)) =
      events s @ (case http_reference d of None \<Rightarrow> []
                  | Some f \<Rightarrow> [HttpRequestSample (http_record env' (current_cgroup_id env') HTTP_SOURCE_CLEARTEXT f)]) \<and>
    events (snd (ssl_write_chain (env' # envs) env (ssl, base, n) s)) =
      events s @ (case http_reference d of None \<Rightarrow> []
                  | Some f \<Rightarrow> [HttpRequestSample (http_record env' (current_cgroup_id env') HTTP_SOURCE_OPENSSL f)])"
  using tcp_http_reports [OF assms(1-7,9,11)] ssl_write_reports [OF assms(1-6,8,10,11)] by simp

lemma whole_request_read:
  assumes "read_bytes mem base (length r) = Some r" "unat n = length r"
  shows "read_bytes mem base (min (unat n) 256) = Some (take 256 r)"
  using read_bytes_prefix [OF assms(1), of "min (length r) 256"] assms(2) by (simp add: min_def split: if_splits)

text \<open>
  C17: A query string is never reported. For a request whose buffer holds
  \<open>method SP path ? query SP HTTP/1.x CR ...\<close>, of any length, the SSL tap reports the
  method, the path before the question mark as far as it lies in the 256-byte capture, whole when
  method, space and path have at most 256 bytes together, and a host read from the header lines
  alone: the query has no influence other than its length, which decides how much of the header
  lines is inside the capture.
\<close>

theorem query_not_reported:
  assumes "env_wf env'" "state_wf s" "cpu env' = cpu env" "tracked_cgroups s (current_cgroup_id env) \<noteq> None"
    and "http_scratch_get env s \<noteq> None" "ringbuf_space env' (sizeof_sample SAMPLE_KIND_HTTP_REQUEST)"
    and "http_uprobe_stages s = installed_http_uprobe_stages"
    and "m \<in> set http_methods" "path_bytes path" "target_bytes query" "version_line after"
    and "start = length m + length path + length query + 3"
    and "r = http1_request m path query after" "unat n = length r" "0 \<le> sint n"
    and "read_bytes (umem env) base (length r) = Some r"
  shows "events (snd (ssl_write_chain (env' # envs) env (ssl, base, n) s)) =
    events s @ [HttpRequestSample (http_record env' (current_cgroup_id env') HTTP_SOURCE_OPENSSL
      (c_lit m, take (255 - length m) path, if start \<le> 256 then request_host (Some (take (256 - start) after)) else []))]"
  using ssl_write_reports [OF assms(1-7,15) whole_request_read [OF assms(16,14)]]
    reference_of_request [OF assms(8-11), of 256] assms(12,13) by simp

section \<open>HTTP/2 of nghttp2 and HTTP of Go\<close>

text \<open>
  C18: The nghttp2 tap reports a submitted request from its pseudo-headers: the first
  \<open>:method\<close>, \<open>:path\<close> and \<open>:authority\<close> with a value among the leading pseudo-headers
  of the first 32 entries, names compared without case. There is one record exactly when method
  and path are valid fields and the path is in origin form; its path has no query, and an invalid
  authority leaves the host empty.
\<close>

theorem nghttp2_request_reported:
  assumes "env_wf env3" "cpu env2 = cpu env" "cpu env3 = cpu env" "umem env2 = umem env" "umem env3 = umem env"
    and "tracked_cgroups s (current_cgroup_id env) \<noteq> None" "http_scratch_get env s \<noteq> None"
    and "ringbuf_space env3 (sizeof_sample SAMPLE_KIND_HTTP_REQUEST)"
    and "http_uprobe_stages s = installed_http_uprobe_stages"
    and "nva \<noteq> NULL" "nvlen \<noteq> 0" "length hs = min (unat nvlen) 32"
    and "\<And>i. i < length hs \<Longrightarrow> header_at env nva i = Some (hs ! i)" "\<And>k. readable env (pseudo_value k hs)"
  shows "events (snd (nghttp2_chain (env2 # env3 # envs) env (ses, pri, nva, nvlen) s)) =
    events s @ (case nghttp2_request (user_value env (pseudo_value NGHTTP2_PSEUDO_METHOD hs))
                  (user_value env (pseudo_value NGHTTP2_PSEUDO_PATH hs))
                  (user_value env (pseudo_value NGHTTP2_PSEUDO_AUTHORITY hs)) of
                None \<Rightarrow> []
              | Some f \<Rightarrow> [HttpRequestSample (http_record env3 (current_cgroup_id env3) HTTP_SOURCE_NGHTTP2 f)])"
  using assms by (rule nghttp2_reports)

text \<open>
  A Go string in the memory of the task: the pointer and the length of its text at an address.  The
  request object has the method at 0, the pointer to the URL object at 16 and the host at 128; the
  URL object has the scheme at 0, the host at 40 and the path at 56.
\<close>

definition go_string_at :: "kenv \<Rightarrow> ptr \<Rightarrow> bytes \<Rightarrow> bool" where
  "go_string_at env p t \<longleftrightarrow>
     (\<exists>hd. read_bytes (umem env) p 16 = Some hd \<and> unat (le_word (drop 8 hd) :: u64) = length t \<and>
       (t \<noteq> [] \<longrightarrow> le_word (take 8 hd) \<noteq> NULL \<and> read_bytes (umem env) (le_word (take 8 hd)) (length t) = Some t))"

definition go_request_at :: "kenv \<Rightarrow> ptr \<Rightarrow> bytes \<Rightarrow> bytes \<Rightarrow> bytes \<Rightarrow> bytes \<Rightarrow> bytes \<Rightarrow> bool" where
  "go_request_at env request scheme method path host url_host \<longleftrightarrow>
     (\<exists>u. request \<noteq> NULL \<and> read_bytes (umem env) (request + 16) 8 = Some u \<and> le_word u \<noteq> NULL \<and>
       go_string_at env request method \<and> go_string_at env (request + 128) host \<and>
       go_string_at env (le_word u) scheme \<and> go_string_at env (le_word u + 40) url_host \<and>
       go_string_at env (le_word u + 56) path)"

text \<open>What is to be reported of it: \<open>None\<close> if nothing is.\<close>

definition go_https_request :: "bytes \<Rightarrow> bytes \<Rightarrow> bytes \<Rightarrow> bytes \<Rightarrow> bytes \<Rightarrow> (bytes \<times> bytes \<times> bytes) option" where
  "go_https_request scheme method path host url_host =
     (let m = (if method = [] then c_lit ''GET'' else method);
          p = (if path = [] then c_lit ''/'' else path);
          h = (if host = [] then url_host else host)
      in if scheme = c_lit ''https'' \<and> valid_field 16 m \<and> valid_field 256 p \<and> p ! 0 = ch CHR ''/''
         then Some (m, p, if valid_field 256 h then h else []) else None)"

lemma go_string_read:
  assumes "go_string_at env (base + of_nat off) t" "base \<noteq> NULL"
  obtains g where "go_http_read_string env base off = Some g" "unat (gs_len g) = length t"
    "t \<noteq> [] \<Longrightarrow> gs_data g \<noteq> NULL" "t \<noteq> [] \<Longrightarrow> read_bytes (umem env) (gs_data g) (length t) = Some t"
proof -
  obtain hd where "read_bytes (umem env) (base + of_nat off) 16 = Some hd" "unat (le_word (drop 8 hd) :: u64) = length t"
    "t \<noteq> [] \<longrightarrow> le_word (take 8 hd) \<noteq> NULL \<and> read_bytes (umem env) (le_word (take 8 hd)) (length t) = Some t"
    using assms(1) unfolding go_string_at_def by blast
  then show thesis
    using assms(2) that [of "\<lparr>gs_data = le_word (take 8 hd), gs_len = le_word (drop 8 hd)\<rparr>"]
    by (simp add: go_http_read_string_def bpf_probe_read_user_def del: length_read_bytes)
qed

lemma go_string_facts:
  assumes "unat (gs_len g) = length t" "t \<noteq> [] \<Longrightarrow> gs_data g \<noteq> NULL"
    "t \<noteq> [] \<Longrightarrow> read_bytes (umem env) (gs_data g) (length t) = Some t"
  shows "gs_len g = 0 \<longleftrightarrow> t = []" "t \<noteq> [] \<Longrightarrow> go_text env g = Some t" "go_readable env g"
proof -
  show len: "gs_len g = 0 \<longleftrightarrow> t = []" using unat_eq_0 [of "gs_len g"] assms(1) by simp
  show t_eq: "go_text env g = Some t" if "t \<noteq> []"
    using assms(2,3) [OF that] by (simp add: go_text_def user_value_def at_ptr_def assms(1) del: length_read_bytes)
  show "go_readable env g"
  proof (cases "t = []")
    case True
    then show ?thesis using len by (simp add: go_readable_def readable_def user_value_def at_ptr_def)
  qed (use t_eq in \<open>simp add: go_readable_def readable_def go_text_def\<close>)
qed

lemma go_is_https:
  assumes "unat (gs_len g) = length t" "t \<noteq> [] \<Longrightarrow> gs_data g \<noteq> NULL"
    "t \<noteq> [] \<Longrightarrow> read_bytes (umem env) (gs_data g) (length t) = Some t"
  shows "go_http_is_https env g \<longleftrightarrow> t = c_lit ''https''"
proof (cases "length t = 5")
  case True
  then have "gs_len g = 5" using assms(1) by (simp add: word_unat_eq_iff)
  moreover obtain a b c d e where t: "t = [a, b, c, d, e]"
    using True by (auto simp: length_Suc_conv eval_nat_numeral)
  moreover have "bpf_probe_read_user env 5 (gs_data g) = Some t"
  proof -
    have "t \<noteq> []" using t by simp
    from assms(3) [OF this] show ?thesis unfolding True bpf_probe_read_user_def .
  qed
  ultimately show ?thesis using assms(2) by (simp add: go_http_is_https_def c_lit_def)
next
  case False
  then have "gs_len g \<noteq> 5" using assms(1) by auto
  then show ?thesis using False by (auto simp: go_http_is_https_def c_lit_def)
qed

lemma go_request_texts:
  assumes "go_request_at env request scheme method path host url_host" "scheme = c_lit ''https''"
  obtains m p h where "go_http_read_request env request = Some (m, p, h)" "go_readable env m" "go_readable env p"
    "go_readable env h" "go_request env (m, p, h) = go_https_request scheme method path host url_host"
proof -
  obtain u where u: "request \<noteq> NULL" "read_bytes (umem env) (request + 16) 8 = Some u" "le_word u \<noteq> NULL"
    "go_string_at env (request + of_nat 0) method" "go_string_at env (request + of_nat 128) host"
    "go_string_at env (le_word u + of_nat 0) scheme" "go_string_at env (le_word u + of_nat 40) url_host"
    "go_string_at env (le_word u + of_nat 56) path"
    using assms(1) unfolding go_request_at_def by auto
  obtain m where m: "go_http_read_string env request 0 = Some m" "unat (gs_len m) = length method"
    "method \<noteq> [] \<Longrightarrow> gs_data m \<noteq> NULL" "method \<noteq> [] \<Longrightarrow> read_bytes (umem env) (gs_data m) (length method) = Some method"
    using go_string_read [OF u(4,1)] by blast
  obtain h where h: "go_http_read_string env request 128 = Some h" "unat (gs_len h) = length host"
    "host \<noteq> [] \<Longrightarrow> gs_data h \<noteq> NULL" "host \<noteq> [] \<Longrightarrow> read_bytes (umem env) (gs_data h) (length host) = Some host"
    using go_string_read [OF u(5,1)] by blast
  obtain g where g: "go_http_read_string env (le_word u) 0 = Some g" "unat (gs_len g) = length scheme"
    "scheme \<noteq> [] \<Longrightarrow> gs_data g \<noteq> NULL" "scheme \<noteq> [] \<Longrightarrow> read_bytes (umem env) (gs_data g) (length scheme) = Some scheme"
    using go_string_read [OF u(6,3)] by blast
  obtain h' where h': "go_http_read_string env (le_word u) 40 = Some h'" "unat (gs_len h') = length url_host"
    "url_host \<noteq> [] \<Longrightarrow> gs_data h' \<noteq> NULL" "url_host \<noteq> [] \<Longrightarrow> read_bytes (umem env) (gs_data h') (length url_host) = Some url_host"
    using go_string_read [OF u(7,3)] by blast
  obtain p where p: "go_http_read_string env (le_word u) 56 = Some p" "unat (gs_len p) = length path"
    "path \<noteq> [] \<Longrightarrow> gs_data p \<noteq> NULL" "path \<noteq> [] \<Longrightarrow> read_bytes (umem env) (gs_data p) (length path) = Some path"
    using go_string_read [OF u(8,3)] by blast
  note facts = go_string_facts [OF m(2-4)] go_string_facts [OF h(2-4)] go_string_facts [OF h'(2-4)] go_string_facts [OF p(2-4)]
  have "go_http_read_request env request = Some (m, p, if host = [] then h' else h)"
    using u(1-3) m(1) h(1) g(1) h'(1) p(1) go_is_https [OF g(2-4)] assms(2) facts(4)
    by (simp add: go_http_read_request_def bpf_probe_read_user_def)
  moreover have "go_request env (m, p, if host = [] then h' else h) = go_https_request scheme method path host url_host"
    using facts assms(2)
    by (auto simp: go_request_def go_method_def go_path_def go_host_def go_https_request_def field_value_def Let_def
        valid_field_def c_lit_def control_byte_def)
  ultimately show thesis using facts that [of m p "if host = [] then h' else h"] by simp
qed

lemma go_request_not_https:
  assumes "go_request_at env request scheme method path host url_host" "scheme \<noteq> c_lit ''https''"
  shows "go_http_read_request env request = None"
proof -
  obtain u where u: "request \<noteq> NULL" "read_bytes (umem env) (request + 16) 8 = Some u" "le_word u \<noteq> NULL"
    "go_string_at env (le_word u + of_nat 0) scheme"
    using assms(1) unfolding go_request_at_def by auto
  obtain g where g: "go_http_read_string env (le_word u) 0 = Some g" "unat (gs_len g) = length scheme"
    "scheme \<noteq> [] \<Longrightarrow> gs_data g \<noteq> NULL" "scheme \<noteq> [] \<Longrightarrow> read_bytes (umem env) (gs_data g) (length scheme) = Some scheme"
    using go_string_read [OF u(4,3)] by blast
  show ?thesis
    using u(1-3) g(1) go_is_https [OF g(2-4)] assms(2) by (simp add: go_http_read_request_def bpf_probe_read_user_def Let_def)
qed

text \<open>
  C19: The Go tap reports the HTTPS requests of \<open>net/http\<close>, and no others.  For a request object in the
  memory of a task of a tracked cgroup, with its strings readable: when the scheme of its URL is exactly
  \<open>https\<close>, an empty method counts as GET and an empty path as the root, the host of the URL stands in for
  an empty host of the request, and there is one record with method, path and host exactly when method
  (at most 15 bytes) and path (at most 255 bytes) have no control bytes and the path starts with a slash;
  a host that is no such field is left empty.  With any other scheme there is no record.
\<close>

theorem go_request_reported:
  assumes "env_wf env3" "cpu env2 = cpu env" "cpu env3 = cpu env" "umem env2 = umem env" "umem env3 = umem env"
    and "tracked_cgroups s (current_cgroup_id env) \<noteq> None" "http_scratch_get env s \<noteq> None"
    and "ringbuf_space env3 (sizeof_sample SAMPLE_KIND_HTTP_REQUEST)"
    and "http_uprobe_stages s = installed_http_uprobe_stages"
    and "go_request_at env (go_http_request_argument arch ctx) scheme method path host url_host"
  shows "events (snd (go_http_chain (env2 # env3 # envs) env (arch, ctx) s)) =
    events s @ (case go_https_request scheme method path host url_host of
                None \<Rightarrow> []
              | Some f \<Rightarrow> [HttpRequestSample (http_record env3 (current_cgroup_id env3) HTTP_SOURCE_GO_NET_HTTP f)])"
proof (cases "scheme = c_lit ''https''")
  case True
  obtain m p h where "go_http_read_request env (go_http_request_argument arch ctx) = Some (m, p, h)"
    "go_readable env m" "go_readable env p" "go_readable env h"
    and f: "go_request env (m, p, h) = go_https_request scheme method path host url_host"
    using go_request_texts [OF assms(10) True] by blast
  from go_http_reports [OF assms(1-9) this(1-4)] show ?thesis unfolding f .
next
  case False
  then show ?thesis
    using go_request_not_https [OF assms(10)] by (simp add: go_http_chain_def handle_go_net_http_round_trip_def run_chain_def
        go_https_request_def Let_def)
qed

section \<open>The number of tail calls\<close>

lemma final_programs:
  "\<exists>r s'. handle_tcp_sendmsg_http_parse env s = (Exit r, s')" "\<exists>r s'. handle_ssl_write_parse env s = (Exit r, s')"
  "\<exists>r s'. handle_nghttp2_emit env s = (Exit r, s')" "\<exists>r s'. handle_go_net_http_emit env s = (Exit r, s')"
  by (auto simp: handle_tcp_sendmsg_http_parse_def handle_ssl_write_parse_def parse_and_emit_def
      handle_nghttp2_emit_def handle_go_net_http_emit_def split: option.split prod.split)

lemma bpf_tail_call_target [simp]: "bpf_tail_call table index = Tail_Call q \<longleftrightarrow> table index = Some q"
  by (simp add: bpf_tail_call_def split: option.split)

lemma required_jumps:
  "handle_nghttp2_required env s = (Tail_Call q, s') \<Longrightarrow>
     http_uprobe_stages s HTTP_UPROBE_STAGE_NGHTTP2_EMIT = Some q"
  "handle_go_net_http_required env s = (Tail_Call q, s') \<Longrightarrow>
     http_uprobe_stages s HTTP_UPROBE_STAGE_GO_HTTP_EMIT = Some q"
  by (auto simp: handle_nghttp2_required_def handle_go_net_http_required_def split: option.splits if_splits)

lemma reqline_jump:
  "reqline_and_jump env table index s = (Tail_Call q, s') \<Longrightarrow> table index = Some q"
  by (auto simp: reqline_and_jump_def split: option.splits)

lemma capture_keeps_stages:
  "http_capture_user_buffer env base n s = (go, s1) \<Longrightarrow>
     http_stages s1 = http_stages s \<and> http_uprobe_stages s1 = http_uprobe_stages s"
  using capture_stages by blast

lemma entry_jumps:
  "handle_tcp_sendmsg_http env a s = (Tail_Call q, s') \<Longrightarrow> http_stages s HTTP_STAGE_PARSE = Some q"
  "handle_ssl_write env b s = (Tail_Call q, s') \<Longrightarrow> http_uprobe_stages s HTTP_UPROBE_STAGE_OPENSSL_PARSE = Some q"
  "handle_nghttp2_submit_request env c s = (Tail_Call q, s') \<Longrightarrow>
     http_uprobe_stages s HTTP_UPROBE_STAGE_NGHTTP2_REQUIRED = Some q \<and> http_uprobe_stages s' = http_uprobe_stages s"
  "handle_go_net_http_round_trip env d s = (Tail_Call q, s') \<Longrightarrow>
     http_uprobe_stages s HTTP_UPROBE_STAGE_GO_HTTP_REQUIRED = Some q \<and> http_uprobe_stages s' = http_uprobe_stages s"
  by (auto simp: handle_tcp_sendmsg_http_def handle_ssl_write_def handle_nghttp2_submit_request_def
      handle_go_net_http_round_trip_def http_entry_capture_def http_scratch_put_def
      dest!: reqline_jump capture_keeps_stages split: option.splits if_splits prod.splits bool.splits)

lemma chain_of_two:
  assumes "\<And>q s'. r = (Tail_Call q, s') \<Longrightarrow> \<exists>v s''. run_prog q e s' = (Exit v, s'')"
  shows "run_chain run_prog (e # es) r = run_chain run_prog [e] r"
  using assms by (cases r; cases "fst r") (fastforce simp: run_chain_def)+

lemma chain_of_three:
  assumes "\<And>q s' q' s''. r = (Tail_Call q, s') \<Longrightarrow> run_prog q e s' = (Tail_Call q', s'') \<Longrightarrow>
    \<exists>v s3. run_prog q' e' s'' = (Exit v, s3)"
  shows "run_chain run_prog (e # e' # es) r = run_chain run_prog [e, e'] r"
proof (cases r)
  case (Pair c s')
  show ?thesis
  proof (cases c)
    case (Tail_Call q)
    obtain c' s'' where q: "run_prog q e s' = (c', s'')" by fastforce
    show ?thesis using assms [of q s'] Pair Tail_Call q by (cases c') (fastforce simp: run_chain_def)+
  qed (simp add: run_chain_def Pair)
qed

text \<open>
  C20: With the tables the loader fills, no chain runs more than three programs, the HTTP/1 taps
  no more than two: further tail calls that the kernel would still allow are never made, so the
  limit of the kernel cuts no capture short.
\<close>

theorem tail_calls_bounded:
  assumes "http_stages s = installed_http_stages" "http_uprobe_stages s = installed_http_uprobe_stages"
  shows "tcp_http_chain (env2 # envs) env a s = tcp_http_chain [env2] env a s \<and>
    ssl_write_chain (env2 # envs) env b s = ssl_write_chain [env2] env b s \<and>
    nghttp2_chain (env2 # env3 # envs) env c s = nghttp2_chain [env2, env3] env c s \<and>
    go_http_chain (env2 # env3 # envs) env d s = go_http_chain [env2, env3] env d s"
  unfolding tcp_http_chain_def ssl_write_chain_def nghttp2_chain_def go_http_chain_def
proof (intro conjI chain_of_two chain_of_three)
  fix q s' assume "handle_tcp_sendmsg_http env a s = (Tail_Call q, s')"
  from entry_jumps(1) [OF this] show "\<exists>v s''. run_prog q env2 s' = (Exit v, s'')"
    using assms final_programs(1) by auto
next
  fix q s' assume "handle_ssl_write env b s = (Tail_Call q, s')"
  from entry_jumps(2) [OF this] show "\<exists>v s''. run_prog q env2 s' = (Exit v, s'')"
    using assms final_programs(2) by auto
next
  fix q s' q' s'' assume "handle_nghttp2_submit_request env c s = (Tail_Call q, s')"
    and "run_prog q env2 s' = (Tail_Call q', s'')"
  with entry_jumps(3) [OF this(1)] show "\<exists>v s3. run_prog q' env3 s'' = (Exit v, s3)"
    using assms final_programs(3) required_jumps(1) [of env2 s' q' s''] by auto
next
  fix q s' q' s'' assume "handle_go_net_http_round_trip env d s = (Tail_Call q, s')"
    and "run_prog q env2 s' = (Tail_Call q', s'')"
  with entry_jumps(4) [OF this(1)] show "\<exists>v s3. run_prog q' env3 s'' = (Exit v, s3)"
    using assms final_programs(4) required_jumps(2) [of env2 s' q' s''] by auto
qed

section \<open>Concrete requests\<close>

lemma one_tracked_http [simp]:
  "http_stages one_tracked = installed_http_stages" "http_uprobe_stages one_tracked = installed_http_uprobe_stages"
  "events one_tracked = []" "tracked_cgroups one_tracked 7 = Some 1" "state_wf one_tracked"
  "cpu env = 0 \<Longrightarrow> http_scratch_get env one_tracked \<noteq> None"
  by (simp_all add: one_tracked_def loaded_state_def http_scratch_get_def percpu_lookup_def state_wf_def
      zero_http_scratch_def)

text \<open>The request of the parser's example, sent in one buffer.\<close>

definition get_env :: kenv where
  "get_env = quiet_env\<lparr>umem := memory_at 4096 get_request,
     heap := empty_heap\<lparr>h_msghdr := [20 \<mapsto> \<lparr>msg_name = NULL, msg_iter = \<lparr>iter_type = 0, ubuf = 4096,
       it_count = 52, nr_segs = 0, uscore_iov = NULL, legacy_iov = NULL\<rparr>\<rparr>]\<rparr>\<rparr>"

lemma get_env_facts [simp]:
  "env_wf get_env" "cpu get_env = 0" "current_cgroup_id get_env = 7" "ringbuf_space get_env n" "btf get_env = recent_btf"
  "http_first_segment get_env 20 = Some (4096, 52)"
  by (simp_all add: get_env_def current_cgroup_id_def env_wf_def http_first_segment_def)

lemma get_env_read: "read_bytes (umem get_env) 4096 52 = Some get_request"
  using read_bytes_memory_at [of 52 get_request 4096] by (simp add: get_env_def get_request_def c_lit_def)

theorem http_request_reported_witness:
  "events (snd (tcp_http_chain [get_env] get_env (9, 20, 52) one_tracked)) =
     [HttpRequestSample (http_record get_env 7 HTTP_SOURCE_CLEARTEXT (c_lit ''GET'', c_lit ''/build'', c_lit '' ci''))] \<and>
   events (snd (ssl_write_chain [get_env] get_env (5, 4096, 52) one_tracked)) =
     [HttpRequestSample (http_record get_env 7 HTTP_SOURCE_OPENSSL (c_lit ''GET'', c_lit ''/build'', c_lit '' ci''))]"
  using http_request_reported [of get_env one_tracked get_env 20 4096 52 get_request "[]" 9 52 5] get_env_read get_reference
  by simp

definition get_after :: bytes where
  "get_after = c_lit ''HTTP/1.1'' @ [CR, LF] @ c_lit ''Host: ci'' @ [CR, LF] @ c_lit ''Cookie: s'' @ [CR, LF, CR, LF]"

lemma get_request_parts:
  "http1_request ''GET'' (c_lit ''/build'') (c_lit ''token=1'') get_after = get_request"
  "path_bytes (c_lit ''/build'')" "target_bytes (c_lit ''token=1'')" "version_line get_after"
  "request_host (Some get_after) = c_lit '' ci''" "length get_after = 33" "length get_request = 52"
  by (simp add: http1_request_def get_request_def get_after_def c_lit_def, code_simp, code_simp, code_simp, code_simp,
      simp add: get_after_def c_lit_def, simp add: get_request_def c_lit_def)

theorem query_not_reported_witness:
  "events (snd (ssl_write_chain [get_env] get_env (5, 4096, 52) one_tracked)) =
     [HttpRequestSample (http_record get_env 7 HTTP_SOURCE_OPENSSL (c_lit ''GET'', c_lit ''/build'', c_lit '' ci''))]"
  using query_not_reported [of get_env one_tracked get_env "''GET''" "c_lit ''/build''" "c_lit ''token=1''" get_after 19
      get_request 52 4096 "[]" 5] get_env_read get_request_parts
  by (simp add: http_methods_def c_lit_def)

theorem tail_calls_bounded_witness:
  "tcp_http_chain [get_env, quiet_env] get_env (9, 20, 52) one_tracked = tcp_http_chain [get_env] get_env (9, 20, 52) one_tracked"
  using tail_calls_bounded [of one_tracked get_env "[quiet_env]" get_env "(9, 20, 52)"] by simp

text \<open>An nghttp2 array of two pseudo-headers with their strings behind it.\<close>

definition nv_memory :: bytes where
  "nv_memory =
     [0x50, 0x10, 0, 0, 0, 0, 0, 0, 0x57, 0x10, 0, 0, 0, 0, 0, 0, 7, 0, 0, 0, 0, 0, 0, 0,
      3, 0, 0, 0, 0, 0, 0, 0, 0, 0, 0, 0, 0, 0, 0, 0,
      0x5A, 0x10, 0, 0, 0, 0, 0, 0, 0x5F, 0x10, 0, 0, 0, 0, 0, 0, 5, 0, 0, 0, 0, 0, 0, 0,
      4, 0, 0, 0, 0, 0, 0, 0, 0, 0, 0, 0, 0, 0, 0, 0] @ c_lit '':methodGET:path/a?b''"

definition nv_env :: kenv where
  "nv_env = quiet_env\<lparr>umem := memory_at 4096 nv_memory\<rparr>"

definition nv_headers :: "(bytes \<times> nghttp2_nv_abi) list" where
  "nv_headers =
     [(c_lit '':method'', \<lparr>nv_name = 4176, nv_value = 4183, nv_namelen = 7, nv_valuelen = 3, nv_flags = 0\<rparr>),
      (c_lit '':path'', \<lparr>nv_name = 4186, nv_value = 4191, nv_namelen = 5, nv_valuelen = 4, nv_flags = 0\<rparr>)]"

lemma nv_env_facts [simp]: "env_wf nv_env" "cpu nv_env = 0" "current_cgroup_id nv_env = 7" "ringbuf_space nv_env n"
  by (simp_all add: nv_env_def current_cgroup_id_def env_wf_def)

lemma nv_reads:
  "read_bytes (umem nv_env) 4096 40 = Some (take 40 nv_memory)"
  "read_bytes (umem nv_env) 4136 40 = Some (take 40 (drop 40 nv_memory))"
  "read_bytes (umem nv_env) 4176 7 = Some (c_lit '':method'')" "read_bytes (umem nv_env) 4183 3 = Some (c_lit ''GET'')"
  "read_bytes (umem nv_env) 4186 5 = Some (c_lit '':path'')" "read_bytes (umem nv_env) 4191 4 = Some (c_lit ''/a?b'')"
  using read_bytes_memory_at_offset [of 0 40 nv_memory 4096] read_bytes_memory_at_offset [of 40 40 nv_memory 4096]
    read_bytes_memory_at_offset [of 80 7 nv_memory 4096] read_bytes_memory_at_offset [of 87 3 nv_memory 4096]
    read_bytes_memory_at_offset [of 90 5 nv_memory 4096] read_bytes_memory_at_offset [of 95 4 nv_memory 4096]
  by (simp_all add: nv_env_def nv_memory_def c_lit_def)

lemma nv_header_at:
  "header_at nv_env 4096 0 = Some (nv_headers ! 0)" "header_at nv_env 4096 (Suc 0) = Some (nv_headers ! 1)"
  unfolding header_at_def bpf_probe_read_user_def
  by (simp_all add: nv_reads) (simp_all add: nv_memory_def nv_headers_def nv_of_bytes_def nv_reads Let_def)

lemma nv_values:
  "pseudo_value NGHTTP2_PSEUDO_METHOD nv_headers = Some (4183, 3)" "pseudo_value NGHTTP2_PSEUDO_PATH nv_headers = Some (4191, 4)"
  "pseudo_value NGHTTP2_PSEUDO_AUTHORITY nv_headers = None" "pseudo_value NGHTTP2_PSEUDO_OTHER nv_headers = None"
  by code_simp+

lemma nv_request: "nghttp2_request (Some (c_lit ''GET'')) (Some (c_lit ''/a?b'')) None = Some (c_lit ''GET'', c_lit ''/a'', [])"
  by code_simp

theorem nghttp2_request_reported_witness:
  "events (snd (nghttp2_chain [nv_env, nv_env] nv_env (1, 2, 4096, 2) one_tracked)) =
     [HttpRequestSample (http_record nv_env 7 HTTP_SOURCE_NGHTTP2 (c_lit ''GET'', c_lit ''/a'', []))]"
proof -
  have headers: "i < length nv_headers \<Longrightarrow> header_at nv_env 4096 i = Some (nv_headers ! i)" for i
    using nv_header_at by (cases i) (auto simp: nv_headers_def)
  have vals: "readable nv_env (pseudo_value k nv_headers)" for k
    by (cases k) (simp_all add: nv_values readable_def user_value_def nv_reads)
  show ?thesis
    using nghttp2_request_reported [of nv_env nv_env nv_env one_tracked 4096 2 nv_headers "[]" 1 2, OF _ _ _ _ _ _ _ _ _ _ _ _ headers vals]
      nv_request
    by (simp add: nv_values user_value_def nv_reads) (simp add: nv_headers_def)
qed

text \<open>A Go request with default method and the host in its URL: the two objects, then the strings.\<close>

definition go_memory :: bytes where
  "go_memory =
     zeros 16 @ [0x90, 0x10] @ zeros 6 @ zeros 104 @ zeros 16 @
     [0xD8, 0x10] @ zeros 6 @ [5] @ zeros 7 @ zeros 24 @ [0xDD, 0x10] @ zeros 6 @ [2] @ zeros 7 @
     [0xDF, 0x10] @ zeros 6 @ [2] @ zeros 7 @ c_lit ''httpsci/a''"

definition go_env :: kenv where
  "go_env = quiet_env\<lparr>umem := memory_at 4096 go_memory\<rparr>"

lemma go_env_facts [simp]: "env_wf go_env" "cpu go_env = 0" "current_cgroup_id go_env = 7" "ringbuf_space go_env n"
  by (simp_all add: go_env_def current_cgroup_id_def env_wf_def)

lemma go_memory_length: "length go_memory = 225"
  by (simp add: go_memory_def c_lit_def zeros_def)

lemma go_reads:
  "read_bytes (umem go_env) 4112 8 = Some ([0x90, 0x10, 0, 0, 0, 0, 0, 0])"
  "read_bytes (umem go_env) 4240 16 = Some ([0xD8, 0x10, 0, 0, 0, 0, 0, 0, 5, 0, 0, 0, 0, 0, 0, 0])"
  "read_bytes (umem go_env) 4312 5 = Some (c_lit ''https'')"
  "read_bytes (umem go_env) 4096 16 = Some [0, 0, 0, 0, 0, 0, 0, 0, 0, 0, 0, 0, 0, 0, 0, 0]"
  "read_bytes (umem go_env) 4296 16 = Some ([0xDF, 0x10, 0, 0, 0, 0, 0, 0, 2, 0, 0, 0, 0, 0, 0, 0])"
  "read_bytes (umem go_env) 4224 16 = Some [0, 0, 0, 0, 0, 0, 0, 0, 0, 0, 0, 0, 0, 0, 0, 0]"
  "read_bytes (umem go_env) 4280 16 = Some ([0xDD, 0x10, 0, 0, 0, 0, 0, 0, 2, 0, 0, 0, 0, 0, 0, 0])"
  "read_bytes (umem go_env) 4317 2 = Some (c_lit ''ci'')" "read_bytes (umem go_env) 4319 2 = Some (c_lit ''/a'')"
  using read_bytes_memory_at_offset [of 16 8 go_memory 4096] read_bytes_memory_at_offset [of 144 16 go_memory 4096]
    read_bytes_memory_at_offset [of 216 5 go_memory 4096] read_bytes_memory_at_offset [of 0 16 go_memory 4096]
    read_bytes_memory_at_offset [of 200 16 go_memory 4096] read_bytes_memory_at_offset [of 128 16 go_memory 4096]
    read_bytes_memory_at_offset [of 184 16 go_memory 4096] read_bytes_memory_at_offset [of 221 2 go_memory 4096]
    read_bytes_memory_at_offset [of 223 2 go_memory 4096]
  by (simp_all add: go_env_def go_memory_length) (simp_all add: go_memory_def c_lit_def zeros_def numeral_eq_Suc)

lemma go_string_atI:
  assumes "read_bytes (umem env) p 16 = Some w" "unat (le_word (drop 8 w) :: u64) = n" "le_word (take 8 w) = d"
    "d \<noteq> NULL" "n = length t" "read_bytes (umem env) d n = Some t"
  shows "go_string_at env p t"
  unfolding go_string_at_def
  by (rule exI [of _ w]) (use assms(4,6) in \<open>simp add: assms(1-3) assms(5) [symmetric] del: length_read_bytes\<close>)

lemma go_object: "go_request_at go_env 4096 (c_lit ''https'') [] (c_lit ''/a'') [] (c_lit ''ci'')"
proof -
  have "go_string_at go_env 4096 []" "go_string_at go_env 4224 []"
    by (simp_all add: go_string_at_def go_reads)
  moreover have "go_string_at go_env 4240 (c_lit ''https'')"
    by (rule go_string_atI [OF go_reads(2) _ _ _ _ go_reads(3)]) (simp_all add: c_lit_def)
  moreover have "go_string_at go_env 4280 (c_lit ''ci'')"
    by (rule go_string_atI [OF go_reads(7) _ _ _ _ go_reads(8)]) (simp_all add: c_lit_def)
  moreover have "go_string_at go_env 4296 (c_lit ''/a'')"
    by (rule go_string_atI [OF go_reads(5) _ _ _ _ go_reads(9)]) (simp_all add: c_lit_def)
  ultimately show ?thesis
    using go_reads(1) by (simp add: go_request_at_def)
qed

theorem go_request_reported_witness:
  "events (snd (go_http_chain [go_env, go_env] go_env (Target_x86, \<lparr>pr_bx = 4096, pr_regs = (\<lambda>_. 0)\<rparr>) one_tracked)) =
     [HttpRequestSample (http_record go_env 7 HTTP_SOURCE_GO_NET_HTTP (c_lit ''GET'', c_lit ''/a'', c_lit ''ci''))]"
proof -
  have "go_https_request (c_lit ''https'') [] (c_lit ''/a'') [] (c_lit ''ci'') = Some (c_lit ''GET'', c_lit ''/a'', c_lit ''ci'')"
    by code_simp
  then show ?thesis
    using go_request_reported [of go_env go_env go_env one_tracked Target_x86 "\<lparr>pr_bx = 4096, pr_regs = (\<lambda>_. 0)\<rparr>"
        "c_lit ''https''" "[]" "c_lit ''/a''" "[]" "c_lit ''ci''" "[]"] go_object
    by (simp add: go_http_request_argument_def)
qed

end
