(* ===== verification/Go_Std.thy ===== *)
theory Go_Std
  imports Bpf_Prelude
begin

text \<open>
  The functions of the Go standard library that the userspace handlers use, on byte strings:
  \<open>strings\<close> and \<open>bytes\<close> searching and trimming, \<open>path\<close> cleaning, decimal and hexadecimal output and
  the textual form of IP addresses.  \<open>strings.ToLower\<close> on a string with a byte above \<open>0x7f\<close> goes
  through the Unicode tables; that mapping is an argument.
\<close>

subsection \<open>Searching and trimming\<close>

definition HasPrefix :: "bytes \<Rightarrow> bytes \<Rightarrow> bool" where
  "HasPrefix s p \<longleftrightarrow> length p \<le> length s \<and> take (length p) s = p"

definition HasSuffix :: "bytes \<Rightarrow> bytes \<Rightarrow> bool" where
  "HasSuffix s p \<longleftrightarrow> length p \<le> length s \<and> drop (length s - length p) s = p"

definition TrimSuffix :: "bytes \<Rightarrow> bytes \<Rightarrow> bytes" where
  "TrimSuffix s p = (if HasSuffix s p then take (length s - length p) s else s)"

fun Index :: "bytes \<Rightarrow> bytes \<Rightarrow> nat option" where
  "Index [] p = (if p = [] then Some 0 else None)"
| "Index (b # s) p = (if HasPrefix (b # s) p then Some 0 else map_option Suc (Index s p))"

definition Contains :: "bytes \<Rightarrow> bytes \<Rightarrow> bool" where
  "Contains s p \<longleftrightarrow> Index s p \<noteq> None"

definition TrimLeft :: "u8 set \<Rightarrow> bytes \<Rightarrow> bytes" where
  "TrimLeft cutset s = dropWhile (\<lambda>c. c \<in> cutset) s"

definition TrimRight :: "u8 set \<Rightarrow> bytes \<Rightarrow> bytes" where
  "TrimRight cutset s = rev (dropWhile (\<lambda>c. c \<in> cutset) (rev s))"

definition Trim :: "u8 set \<Rightarrow> bytes \<Rightarrow> bytes" where
  "Trim cutset s = TrimRight cutset (TrimLeft cutset s)"

fun split_on :: "u8 \<Rightarrow> bytes \<Rightarrow> bytes list" where
  "split_on sep [] = [[]]"
| "split_on sep (b # bs) =
    (if b = sep then [] # split_on sep bs
     else case split_on sep bs of [] \<Rightarrow> [[b]] | p # ps \<Rightarrow> (b # p) # ps)"

fun join_with :: "u8 \<Rightarrow> bytes list \<Rightarrow> bytes" where
  "join_with sep [] = []"
| "join_with sep [p] = p"
| "join_with sep (p # q # ps) = p @ sep # join_with sep (q # ps)"

definition ascii_lower :: "u8 \<Rightarrow> u8" where
  "ascii_lower c = (if 0x41 \<le> c \<and> c \<le> 0x5A then c + 0x20 else c)"

definition is_ascii :: "bytes \<Rightarrow> bool" where
  "is_ascii s = list_all (\<lambda>c. c < 0x80) s"

definition ToLower :: "(bytes \<Rightarrow> bytes) \<Rightarrow> bytes \<Rightarrow> bytes" where
  "ToLower unicode s = (if is_ascii s then map ascii_lower s else unicode s)"

subsection \<open>Slash-separated paths\<close>

definition dot :: bytes where "dot = [0x2E]"
definition dotdot :: bytes where "dotdot = [0x2E, 0x2E]"

fun clean_components :: "bool \<Rightarrow> bytes list \<Rightarrow> bytes list \<Rightarrow> bytes list" where
  "clean_components rooted [] out = rev out"
| "clean_components rooted (c # cs) out =
    (if c = [] \<or> c = dot then clean_components rooted cs out
     else if c = dotdot then
       (case out of
          [] \<Rightarrow> clean_components rooted cs (if rooted then [] else [dotdot])
        | last_c # below \<Rightarrow>
            clean_components rooted cs (if last_c = dotdot then dotdot # out else below))
     else clean_components rooted cs (c # out))"

definition is_rooted :: "bytes \<Rightarrow> bool" where
  "is_rooted p = (case p of [] \<Rightarrow> False | b # _ \<Rightarrow> b = 0x2F)"

definition Clean :: "bytes \<Rightarrow> bytes" where
  "Clean p =
    (if p = [] then dot
     else let body = join_with 0x2F (clean_components (is_rooted p) (split_on 0x2F p) []) in
       if is_rooted p then 0x2F # body else if body = [] then dot else body)"

definition Dir :: "bytes \<Rightarrow> bytes" where
  "Dir p = Clean (rev (dropWhile (\<lambda>c. c \<noteq> 0x2F) (rev p)))"

definition Join2 :: "bytes \<Rightarrow> bytes \<Rightarrow> bytes" where
  "Join2 a b =
    (let parts = filter (\<lambda>e. e \<noteq> []) [a, b] in
     if parts = [] then [] else Clean (join_with 0x2F parts))"

definition Base :: "bytes \<Rightarrow> bytes" where
  "Base p =
    (if p = [] then dot
     else let q = TrimRight {0x2F} p;
              name = rev (takeWhile (\<lambda>c. c \<noteq> 0x2F) (rev q))
          in if name = [] then [0x2F] else name)"

subsection \<open>Numbers and addresses as text\<close>

fun decimal_text :: "nat \<Rightarrow> bytes" where
  "decimal_text n = (if n < 10 then [of_nat (0x30 + n)] else decimal_text (n div 10) @ [of_nat (0x30 + n mod 10)])"

definition hex_digit :: "nat \<Rightarrow> u8" where
  "hex_digit d = of_nat (if d < 10 then 0x30 + d else 0x61 + (d - 10))"

fun hex_text :: "nat \<Rightarrow> bytes" where
  "hex_text n = (if n < 16 then [hex_digit n] else hex_text (n div 16) @ [hex_digit (n mod 16)])"

declare decimal_text.simps [simp del] hex_text.simps [simp del]

definition ipv4_text :: "bytes \<Rightarrow> bytes" where
  "ipv4_text ip = join_with 0x2E (map (\<lambda>b. decimal_text (unat b)) ip)"

definition To4 :: "bytes \<Rightarrow> bytes option" where
  "To4 ip =
    (if length ip = 4 then Some ip
     else if length ip = 16 \<and> take 10 ip = replicate 10 0 \<and> ip ! 10 = 0xFF \<and> ip ! 11 = 0xFF
     then Some (drop 12 ip) else None)"

fun groups16 :: "bytes \<Rightarrow> nat list" where
  "groups16 (a # b # rest) = (unat a * 256 + unat b) # groups16 rest"
| "groups16 _ = []"

text \<open>The first longest run of at least two zero groups, as start and end.\<close>

fun zero_run :: "nat list \<Rightarrow> nat" where
  "zero_run (0 # gs) = Suc (zero_run gs)"
| "zero_run _ = 0"

fun longest_zero_run :: "nat \<Rightarrow> nat list \<Rightarrow> nat \<times> nat \<Rightarrow> nat \<times> nat" where
  "longest_zero_run i [] best = best"
| "longest_zero_run i (g # gs) best =
    (let n = zero_run (g # gs) in
     longest_zero_run (Suc i) gs (if n \<ge> 2 \<and> n > snd best - fst best then (i, i + n) else best))"

definition ipv6_text :: "bytes \<Rightarrow> bytes" where
  "ipv6_text ip =
    (let gs = groups16 ip; (from, upto) = longest_zero_run 0 gs (0, 0) in
     if upto = 0 then join_with 0x3A (map hex_text gs)
     else join_with 0x3A (map hex_text (take from gs)) @ [0x3A, 0x3A]
            @ join_with 0x3A (map hex_text (drop upto gs)))"

definition ip_text :: "bytes \<Rightarrow> bytes" where
  "ip_text ip = (case To4 ip of Some v4 \<Rightarrow> ipv4_text v4 | None \<Rightarrow> ipv6_text ip)"

subsection \<open>Lemmas\<close>

lemma set_dropWhile_distinct: "distinct q \<Longrightarrow> set (dropWhile P q) = set q - set (takeWhile P q)"
  by (induction q) auto

end
