(* ===== verification/Job_Identity.thy ===== *)
theory Job_Identity
  imports Bpf_Prelude
begin

text \<open>
  The identity of a CI job, after \<open>internal/jobcontext\<close>: the struct \<open>JobIdentity\<close> that keys every
  map of the userspace tracker, its two constructors and its validation with every error path.
  Go strings are byte lists.  \<open>strconv.ParseUint(s, 10, 64)\<close> is the decimal reading of a non-empty
  all-digit string below \<open>2 ^ 64\<close>.
\<close>

subsection \<open>The struct and its constructors\<close>

record JobIdentity =
  Provider :: bytes
  ProviderHost :: bytes
  ProjectPath :: bytes
  GitHubRunID :: bytes
  GitHubJob :: bytes
  GitHubRunAttempt :: bytes
  GitHubRunnerTrackingID :: bytes
  GitLabJobID :: bytes

definition ProviderGitHub :: bytes where
  "ProviderGitHub = c_lit ''github''"

definition ProviderGitLab :: bytes where
  "ProviderGitLab = c_lit ''gitlab''"

definition zero_JobIdentity :: JobIdentity where
  "zero_JobIdentity =
    \<lparr>Provider = [], ProviderHost = [], ProjectPath = [], GitHubRunID = [], GitHubJob = [],
     GitHubRunAttempt = [], GitHubRunnerTrackingID = [], GitLabJobID = []\<rparr>"

definition GitHubJobIdentity :: "bytes \<Rightarrow> bytes \<Rightarrow> bytes \<Rightarrow> bytes \<Rightarrow> bytes \<Rightarrow> bytes \<Rightarrow> JobIdentity" where
  "GitHubJobIdentity host project run job attempt tracking =
    zero_JobIdentity\<lparr>Provider := ProviderGitHub, ProviderHost := host, ProjectPath := project,
      GitHubRunID := run, GitHubJob := job, GitHubRunAttempt := attempt,
      GitHubRunnerTrackingID := tracking\<rparr>"

definition GitLabJobIdentity :: "bytes \<Rightarrow> bytes \<Rightarrow> bytes \<Rightarrow> JobIdentity" where
  "GitLabJobIdentity host project job =
    zero_JobIdentity\<lparr>Provider := ProviderGitLab, ProviderHost := host, ProjectPath := project,
      GitLabJobID := job\<rparr>"

lemma providers_differ [simp]: "ProviderGitHub \<noteq> ProviderGitLab" "ProviderGitLab \<noteq> ProviderGitHub"
  by (simp_all add: ProviderGitHub_def ProviderGitLab_def)

lemma providers_not_empty [simp]: "ProviderGitHub \<noteq> []" "ProviderGitLab \<noteq> []"
  by (simp_all add: ProviderGitHub_def ProviderGitLab_def)

subsection \<open>Validation\<close>

datatype identity_error =
    Provider_required
  | Provider_host_required
  | Project_path_required
  | Field_too_long string
  | Github_fields_required
  | Gitlab_job_id_not_empty
  | Not_positive_integer string
  | Tracking_id_too_long
  | Gitlab_job_id_required
  | Github_fields_not_empty
  | Unsupported_provider bytes

definition maxIdentityFieldLen :: nat where
  "maxIdentityFieldLen = 2048"

definition maxTrackingIDLen :: nat where
  "maxTrackingIDLen = 128"

definition validateIdentityFieldLen :: "string \<Rightarrow> bytes \<Rightarrow> nat \<Rightarrow> identity_error option" where
  "validateIdentityFieldLen name value maxLen =
    (if length value > maxLen then Some (Field_too_long name) else None)"

definition is_digit :: "u8 \<Rightarrow> bool" where
  "is_digit c \<longleftrightarrow> 0x30 \<le> c \<and> c \<le> 0x39"

definition decimal :: "bytes \<Rightarrow> nat" where
  "decimal s = foldl (\<lambda>n c. 10 * n + (unat c - 0x30)) 0 s"

definition ParseUint10 :: "bytes \<Rightarrow> nat option" where
  "ParseUint10 s =
    (if s \<noteq> [] \<and> list_all is_digit s \<and> decimal s < 2 ^ 64 then Some (decimal s) else None)"

definition isPositiveIntString :: "bytes \<Rightarrow> bool" where
  "isPositiveIntString s =
    (if s = [] then False else case ParseUint10 s of None \<Rightarrow> False | Some n \<Rightarrow> n > 0)"

fun first_error :: "identity_error option list \<Rightarrow> identity_error option" where
  "first_error [] = None"
| "first_error (None # es) = first_error es"
| "first_error (Some e # es) = Some e"

definition check_that :: "bool \<Rightarrow> identity_error \<Rightarrow> identity_error option" where
  "check_that ok e = (if ok then None else Some e)"

definition validate_github :: "JobIdentity \<Rightarrow> identity_error option" where
  "validate_github j = first_error
    [check_that (GitHubRunID j \<noteq> [] \<and> GitHubJob j \<noteq> [] \<and> GitHubRunAttempt j \<noteq> []
       \<and> GitHubRunnerTrackingID j \<noteq> []) Github_fields_required,
     validateIdentityFieldLen ''github_run_id'' (GitHubRunID j) maxIdentityFieldLen,
     validateIdentityFieldLen ''github_job'' (GitHubJob j) maxIdentityFieldLen,
     validateIdentityFieldLen ''github_run_attempt'' (GitHubRunAttempt j) maxIdentityFieldLen,
     check_that (GitLabJobID j = []) Gitlab_job_id_not_empty,
     check_that (isPositiveIntString (GitHubRunID j)) (Not_positive_integer ''github_run_id''),
     check_that (isPositiveIntString (GitHubRunAttempt j)) (Not_positive_integer ''github_run_attempt''),
     check_that (length (GitHubRunnerTrackingID j) \<le> maxTrackingIDLen) Tracking_id_too_long]"

definition validate_gitlab :: "JobIdentity \<Rightarrow> identity_error option" where
  "validate_gitlab j = first_error
    [check_that (GitLabJobID j \<noteq> []) Gitlab_job_id_required,
     validateIdentityFieldLen ''gitlab_job_id'' (GitLabJobID j) maxIdentityFieldLen,
     check_that (GitHubRunID j = [] \<and> GitHubJob j = [] \<and> GitHubRunAttempt j = []
       \<and> GitHubRunnerTrackingID j = []) Github_fields_not_empty,
     check_that (isPositiveIntString (GitLabJobID j)) (Not_positive_integer ''gitlab_job_id'')]"

definition Validate :: "JobIdentity \<Rightarrow> identity_error option" where
  "Validate j = (case first_error
      [check_that (Provider j \<noteq> []) Provider_required,
       check_that (ProviderHost j \<noteq> []) Provider_host_required,
       check_that (ProjectPath j \<noteq> []) Project_path_required,
       validateIdentityFieldLen ''provider_host'' (ProviderHost j) maxIdentityFieldLen,
       validateIdentityFieldLen ''project_path'' (ProjectPath j) maxIdentityFieldLen] of
     Some e \<Rightarrow> Some e
   | None \<Rightarrow>
       (if Provider j = ProviderGitHub then validate_github j
        else if Provider j = ProviderGitLab then validate_gitlab j
        else Some (Unsupported_provider (Provider j))))"

subsection \<open>What validation accepts\<close>

lemma first_error_None: "first_error es = None \<longleftrightarrow> list_all (\<lambda>e. e = None) es"
  by (induction es rule: first_error.induct) simp_all

lemma isPositiveIntString_iff:
  "isPositiveIntString s \<longleftrightarrow> list_all is_digit s \<and> 0 < decimal s \<and> decimal s < 2 ^ 64"
  by (cases "s = []") (auto simp: isPositiveIntString_def ParseUint10_def decimal_def)

lemma check_that_None [simp]: "check_that ok e = None \<longleftrightarrow> ok"
  by (simp add: check_that_def)

lemma validateIdentityFieldLen_None [simp]: "validateIdentityFieldLen name v n = None \<longleftrightarrow> length v \<le> n"
  by (simp add: validateIdentityFieldLen_def not_less)

lemma validate_github_None:
  "validate_github j = None \<longleftrightarrow>
     GitHubRunID j \<noteq> [] \<and> GitHubJob j \<noteq> [] \<and> GitHubRunAttempt j \<noteq> [] \<and> GitHubRunnerTrackingID j \<noteq> []
     \<and> length (GitHubRunID j) \<le> 2048 \<and> length (GitHubJob j) \<le> 2048 \<and> length (GitHubRunAttempt j) \<le> 2048
     \<and> length (GitHubRunnerTrackingID j) \<le> 128 \<and> GitLabJobID j = []
     \<and> isPositiveIntString (GitHubRunID j) \<and> isPositiveIntString (GitHubRunAttempt j)"
  by (auto simp: validate_github_def first_error_None maxIdentityFieldLen_def maxTrackingIDLen_def)

lemma validate_gitlab_None:
  "validate_gitlab j = None \<longleftrightarrow>
     GitLabJobID j \<noteq> [] \<and> length (GitLabJobID j) \<le> 2048 \<and> isPositiveIntString (GitLabJobID j)
     \<and> GitHubRunID j = [] \<and> GitHubJob j = [] \<and> GitHubRunAttempt j = [] \<and> GitHubRunnerTrackingID j = []"
  by (auto simp: validate_gitlab_def first_error_None maxIdentityFieldLen_def)

lemma Validate_None:
  "Validate j = None \<longleftrightarrow>
     ProviderHost j \<noteq> [] \<and> ProjectPath j \<noteq> [] \<and> length (ProviderHost j) \<le> 2048 \<and> length (ProjectPath j) \<le> 2048
     \<and> (Provider j = ProviderGitHub \<and> validate_github j = None
         \<or> Provider j = ProviderGitLab \<and> validate_gitlab j = None)"
proof -
  have seq: "(case e of Some x \<Rightarrow> Some x | None \<Rightarrow> r) = None \<longleftrightarrow> e = None \<and> r = None"
    for e r :: "identity_error option"
    by (cases e) simp_all
  show ?thesis
    unfolding Validate_def seq by (auto simp: first_error_None maxIdentityFieldLen_def)
qed

lemma Validate_provider: "Validate j = None \<Longrightarrow> Provider j = ProviderGitHub \<or> Provider j = ProviderGitLab"
  by (auto simp: Validate_None)

end
