(* ===== verification/Job_Cgroups.thy ===== *)
theory Job_Cgroups
  imports Job_Identity
begin

text \<open>
  The cgroup and staging part of the userspace job mirror, after
  \<open>kerneltracker/job_tracking_cgroup.go\<close>: which job owns which cgroup, the two-phase removal
  (marked on \<open>cgroup_rmdir\<close> or by the liveness scan, purged after a grace period) and the staged
  cgroup basenames.  The mutable Go struct is passed explicitly; the record is extended by the other
  parts of \<open>jobTrackingState\<close>, so every operation is stated on its scheme.  A nil inner map is
  \<open>None\<close>.  Times are nanoseconds; the readings of \<open>time.Now\<close> are arguments.  The order in which Go
  ranges over a map is unspecified and is an argument too.
\<close>

subsection \<open>State\<close>

datatype trackedCgroupState = trackedCgroupActive | trackedCgroupRemoved

record trackedCgroup =
  cgroup_State :: trackedCgroupState
  TrackedAt :: int
  RemovedAt :: int

record cgroupAttachOwnership =
  SourceJobID :: JobIdentity
  SourceFound :: bool
  DestinationJobID :: JobIdentity
  DestinationFound :: bool

record cgroupDetachResult =
  detached_JobID :: JobIdentity
  detached_Found :: bool
  JobDrained :: bool

type_synonym cgroupPurgeCandidate = "JobIdentity \<times> u64"

record cgroupIndex =
  jobByCgroup :: "u64 \<rightharpoonup> JobIdentity"
  cgroupsByJob :: "JobIdentity \<rightharpoonup> (u64 \<rightharpoonup> trackedCgroup)"
  removedCgroupQueue :: "cgroupPurgeCandidate list"
  stagingByBasename :: "bytes \<rightharpoonup> JobIdentity"
  stagingByJob :: "JobIdentity \<rightharpoonup> bytes set"

definition newCgroupIndex :: cgroupIndex where
  "newCgroupIndex =
    \<lparr>jobByCgroup = Map.empty, cgroupsByJob = Map.empty, removedCgroupQueue = [],
     stagingByBasename = Map.empty, stagingByJob = Map.empty\<rparr>"

text \<open>The zero \<open>time.Time\<close> (January 1, year 1) and \<open>processExitGracePeriod\<close>, in nanoseconds.\<close>

definition zero_time :: int where
  "zero_time = - 62135596800000000000"

definition processExitGracePeriod :: int where
  "processExitGracePeriod = 10000000000"

definition cgroupRemovalGracePeriod :: int where
  "cgroupRemovalGracePeriod = processExitGracePeriod"

text \<open>The reads \<open>s.cgroupsByJob[job][cgroup]\<close> and \<open>range s.cgroupsByJob[job]\<close>, through a nil map too.\<close>

definition inner_map :: "('k \<rightharpoonup> ('c \<rightharpoonup> 'v)) \<Rightarrow> 'k \<Rightarrow> ('c \<rightharpoonup> 'v)" where
  "inner_map m k = (case m k of None \<Rightarrow> Map.empty | Some x \<Rightarrow> x)"

definition inner_set :: "('k \<rightharpoonup> 'c set) \<Rightarrow> 'k \<Rightarrow> 'c set" where
  "inner_set m k = (case m k of None \<Rightarrow> {} | Some x \<Rightarrow> x)"

abbreviation job_cgroups :: "'a cgroupIndex_scheme \<Rightarrow> JobIdentity \<Rightarrow> (u64 \<rightharpoonup> trackedCgroup)" where
  "job_cgroups s \<equiv> inner_map (cgroupsByJob s)"

abbreviation job_staging :: "'a cgroupIndex_scheme \<Rightarrow> JobIdentity \<Rightarrow> bytes set" where
  "job_staging s \<equiv> inner_set (stagingByJob s)"

subsection \<open>Binding\<close>

definition bindAt ::
  "JobIdentity \<Rightarrow> u64 \<Rightarrow> int \<Rightarrow> 'a cgroupIndex_scheme \<Rightarrow> bool \<times> 'a cgroupIndex_scheme" where
  "bindAt job cg at s =
    (case jobByCgroup s cg of
       Some owner \<Rightarrow> (owner = job, s)
     | None \<Rightarrow> (True, s\<lparr>jobByCgroup := (jobByCgroup s)(cg \<mapsto> job),
         cgroupsByJob := (cgroupsByJob s)(job \<mapsto> (job_cgroups s job)
           (cg \<mapsto> \<lparr>cgroup_State = trackedCgroupActive, TrackedAt = at, RemovedAt = zero_time\<rparr>))\<rparr>))"

definition unbind :: "JobIdentity \<Rightarrow> u64 \<Rightarrow> 'a cgroupIndex_scheme \<Rightarrow> 'a cgroupIndex_scheme" where
  "unbind job cg s = s\<lparr>jobByCgroup := (jobByCgroup s)(cg := None),
     cgroupsByJob := (case cgroupsByJob s job of
        None \<Rightarrow> cgroupsByJob s | Some m \<Rightarrow> (cgroupsByJob s)(job \<mapsto> m(cg := None)))\<rparr>"

definition jobForCgroup :: "'a cgroupIndex_scheme \<Rightarrow> u64 \<Rightarrow> JobIdentity option" where
  "jobForCgroup s cg = jobByCgroup s cg"

definition lookupCgroupAttachOwnership :: "'a cgroupIndex_scheme \<Rightarrow> u64 \<Rightarrow> u64 \<Rightarrow> cgroupAttachOwnership" where
  "lookupCgroupAttachOwnership s source destination =
    (let pick = \<lambda>r. case r of None \<Rightarrow> zero_JobIdentity | Some j \<Rightarrow> j in
     \<lparr>SourceJobID = pick (jobForCgroup s source), SourceFound = jobForCgroup s source \<noteq> None,
      DestinationJobID = pick (jobForCgroup s destination),
      DestinationFound = jobForCgroup s destination \<noteq> None\<rparr>)"

subsection \<open>Two-phase removal\<close>

definition is_active :: "trackedCgroup option \<Rightarrow> bool" where
  "is_active c = (case c of None \<Rightarrow> False | Some t \<Rightarrow> cgroup_State t = trackedCgroupActive)"

definition is_removed :: "trackedCgroup option \<Rightarrow> bool" where
  "is_removed c = (case c of None \<Rightarrow> False | Some t \<Rightarrow> cgroup_State t = trackedCgroupRemoved)"

definition activeCgroupCount :: "'a cgroupIndex_scheme \<Rightarrow> JobIdentity \<Rightarrow> nat" where
  "activeCgroupCount s job = card {cg. is_active (job_cgroups s job cg)}"

definition nothing_detached :: cgroupDetachResult where
  "nothing_detached = \<lparr>detached_JobID = zero_JobIdentity, detached_Found = False, JobDrained = False\<rparr>"

definition set_removed :: "JobIdentity \<Rightarrow> u64 \<Rightarrow> int \<Rightarrow> 'a cgroupIndex_scheme \<Rightarrow> 'a cgroupIndex_scheme" where
  "set_removed job cg now s = s\<lparr>
     cgroupsByJob := (cgroupsByJob s)(job \<mapsto> (job_cgroups s job)(cg :=
       map_option (\<lambda>t. t\<lparr>cgroup_State := trackedCgroupRemoved, RemovedAt := now\<rparr>) (job_cgroups s job cg))),
     removedCgroupQueue := removedCgroupQueue s @ [(job, cg)]\<rparr>"

definition markTrackedCgroupRemoved ::
  "u64 \<Rightarrow> int \<Rightarrow> 'a cgroupIndex_scheme \<Rightarrow> cgroupDetachResult \<times> 'a cgroupIndex_scheme" where
  "markTrackedCgroupRemoved cg now s =
    (case jobForCgroup s cg of
       None \<Rightarrow> (nothing_detached, s)
     | Some job \<Rightarrow>
         (case job_cgroups s job cg of
            None \<Rightarrow> (nothing_detached, s)
          | Some t \<Rightarrow>
              if cgroup_State t = trackedCgroupRemoved
              then (\<lparr>detached_JobID = job, detached_Found = True, JobDrained = False\<rparr>, s)
              else let s' = set_removed job cg now s in
                (\<lparr>detached_JobID = job, detached_Found = True, JobDrained = (activeCgroupCount s' job = 0)\<rparr>, s')))"

text \<open>
  \<open>reconcileCgroupLiveness\<close> ranges over every \<open>(job, cgroup)\<close> entry, in the order \<open>visit\<close>.
\<close>

definition scan_skips :: "u64 set \<Rightarrow> int \<Rightarrow> u64 \<Rightarrow> trackedCgroup option \<Rightarrow> bool" where
  "scan_skips live started cg c = (case c of
     None \<Rightarrow> True
   | Some t \<Rightarrow> cgroup_State t \<noteq> trackedCgroupActive \<or> TrackedAt t > started \<or> cg \<in> live)"

fun reconcileCgroupLiveness ::
  "cgroupPurgeCandidate list \<Rightarrow> u64 set \<Rightarrow> int \<Rightarrow> int \<Rightarrow> 'a cgroupIndex_scheme
    \<Rightarrow> cgroupDetachResult list \<times> 'a cgroupIndex_scheme" where
  "reconcileCgroupLiveness [] live started checked s = ([], s)"
| "reconcileCgroupLiveness ((job, cg) # visit) live started checked s =
    (if scan_skips live started cg (job_cgroups s job cg)
     then reconcileCgroupLiveness visit live started checked s
     else let (r, s') = markTrackedCgroupRemoved cg checked s;
              (rs, s'') = reconcileCgroupLiveness visit live started checked s'
          in (if detached_Found r then r # rs else rs, s''))"

definition activeCgroupIDs :: "'a cgroupIndex_scheme \<Rightarrow> u64 set" where
  "activeCgroupIDs s = {cg. \<exists>job. is_active (job_cgroups s job cg)}"

fun expired_prefix :: "int \<Rightarrow> 'a cgroupIndex_scheme \<Rightarrow> cgroupPurgeCandidate list \<Rightarrow> cgroupPurgeCandidate list" where
  "expired_prefix now s [] = []"
| "expired_prefix now s ((job, cg) # q) =
    (case job_cgroups s job cg of
       None \<Rightarrow> []
     | Some t \<Rightarrow>
         if cgroup_State t \<noteq> trackedCgroupRemoved then []
         else if RemovedAt t + cgroupRemovalGracePeriod > now then []
         else (job, cg) # expired_prefix now s q)"

definition expiredRemovedCgroups :: "int \<Rightarrow> 'a cgroupIndex_scheme \<Rightarrow> cgroupPurgeCandidate list" where
  "expiredRemovedCgroups now s = expired_prefix now s (removedCgroupQueue s)"

definition purge_candidate :: "cgroupPurgeCandidate \<Rightarrow> 'a cgroupIndex_scheme \<Rightarrow> 'a cgroupIndex_scheme" where
  "purge_candidate c s =
    (case jobForCgroup s (snd c) of
       None \<Rightarrow> s
     | Some job \<Rightarrow>
         if job \<noteq> fst c then s
         else if is_removed (job_cgroups s job (snd c)) then unbind job (snd c) s else s)"

definition purgeRemovedCgroups :: "cgroupPurgeCandidate list \<Rightarrow> 'a cgroupIndex_scheme \<Rightarrow> 'a cgroupIndex_scheme" where
  "purgeRemovedCgroups cs s =
    (if cs = [] then s
     else let s' = fold purge_candidate cs s in
       s'\<lparr>removedCgroupQueue :=
         (if length cs \<ge> length (removedCgroupQueue s') then [] else drop (length cs) (removedCgroupQueue s'))\<rparr>)"

subsection \<open>Staging\<close>

definition putStaging :: "bytes \<Rightarrow> JobIdentity \<Rightarrow> 'a cgroupIndex_scheme \<Rightarrow> bool \<times> 'a cgroupIndex_scheme" where
  "putStaging basename job s =
    (if stagingByBasename s basename \<noteq> None \<and> stagingByBasename s basename \<noteq> Some job then (False, s)
     else (True, s\<lparr>stagingByBasename := (stagingByBasename s)(basename \<mapsto> job),
       stagingByJob := (stagingByJob s)(job \<mapsto> insert basename (job_staging s job))\<rparr>))"

definition removeStaging :: "bytes \<Rightarrow> JobIdentity \<Rightarrow> 'a cgroupIndex_scheme \<Rightarrow> bool \<times> 'a cgroupIndex_scheme" where
  "removeStaging basename job s =
    (if stagingByBasename s basename \<noteq> Some job then (False, s)
     else (True, s\<lparr>stagingByBasename := (stagingByBasename s)(basename := None),
       stagingByJob := (case stagingByJob s job of
         None \<Rightarrow> stagingByJob s | Some owned \<Rightarrow> (stagingByJob s)(job \<mapsto> owned - {basename}))\<rparr>))"

definition promoteStagedCgroup ::
  "bytes \<Rightarrow> u64 \<Rightarrow> int \<Rightarrow> 'a cgroupIndex_scheme \<Rightarrow> JobIdentity option \<times> 'a cgroupIndex_scheme" where
  "promoteStagedCgroup basename cg now s =
    (case stagingByBasename s basename of
       None \<Rightarrow> (None, s)
     | Some job \<Rightarrow>
         let (ok, s') = bindAt job cg now s in
         if \<not> ok then (None, s') else (Some job, snd (removeStaging basename job s')))"

definition removeCgroupAndStaging :: "JobIdentity \<Rightarrow> 'a cgroupIndex_scheme \<Rightarrow> 'a cgroupIndex_scheme" where
  "removeCgroupAndStaging job s = s\<lparr>
     jobByCgroup := (\<lambda>cg. if job_cgroups s job cg \<noteq> None then None else jobByCgroup s cg),
     stagingByBasename := (\<lambda>b. if b \<in> job_staging s job then None else stagingByBasename s b),
     cgroupsByJob := (cgroupsByJob s)(job := None),
     removedCgroupQueue := filter (\<lambda>c. fst c \<noteq> job) (removedCgroupQueue s),
     stagingByJob := (stagingByJob s)(job := None)\<rparr>"

definition cgroupsForJob :: "'a cgroupIndex_scheme \<Rightarrow> JobIdentity \<Rightarrow> u64 set" where
  "cgroupsForJob s job = dom (job_cgroups s job)"

definition stagingForJob :: "'a cgroupIndex_scheme \<Rightarrow> JobIdentity \<Rightarrow> bytes set" where
  "stagingForJob s job = job_staging s job"

subsection \<open>What the operations do to the per-job maps\<close>

lemmas index_defs =
  bindAt_def unbind_def jobForCgroup_def markTrackedCgroupRemoved_def set_removed_def purge_candidate_def
  putStaging_def removeStaging_def promoteStagedCgroup_def removeCgroupAndStaging_def

lemma inner_map_update [simp]:
  "inner_map (m(k \<mapsto> x)) = (inner_map m)(k := x)"
  "inner_map (m(k := None)) = (inner_map m)(k := Map.empty)"
  "inner_map Map.empty = (\<lambda>k. Map.empty)"
  by (auto simp: inner_map_def fun_eq_iff)

lemma inner_set_update [simp]:
  "inner_set (m(k \<mapsto> x)) = (inner_set m)(k := x)"
  "inner_set (m(k := None)) = (inner_set m)(k := {})"
  "inner_set Map.empty = (\<lambda>k. {})"
  by (auto simp: inner_set_def fun_eq_iff)

lemma is_active_simps [simp]:
  "\<not> is_active None" "is_active (Some t) \<longleftrightarrow> cgroup_State t = trackedCgroupActive"
  by (simp_all add: is_active_def)

lemma is_removed_simps [simp]:
  "\<not> is_removed None" "is_removed (Some t) \<longleftrightarrow> cgroup_State t = trackedCgroupRemoved"
  by (simp_all add: is_removed_def)

lemma job_cgroups_bindAt:
  "job_cgroups (snd (bindAt job cg at s)) =
    (if jobByCgroup s cg = None
     then (job_cgroups s)(job := (job_cgroups s job)
       (cg \<mapsto> \<lparr>cgroup_State = trackedCgroupActive, TrackedAt = at, RemovedAt = zero_time\<rparr>))
     else job_cgroups s)"
  by (cases "jobByCgroup s cg") (auto simp: bindAt_def)

lemma job_cgroups_unbind:
  "job_cgroups (unbind job cg s) = (job_cgroups s)(job := (job_cgroups s job)(cg := None))"
  by (auto simp: unbind_def inner_map_def fun_eq_iff split: option.splits)

lemma job_staging_removeStaging:
  "job_staging (snd (removeStaging b job s)) =
    (if stagingByBasename s b = Some job then (job_staging s)(job := job_staging s job - {b}) else job_staging s)"
  by (auto simp: removeStaging_def inner_set_def fun_eq_iff split: option.splits)

subsection \<open>The index invariant\<close>

text \<open>
  The forward and the reverse index agree, for cgroups and for staged basenames; the purge queue
  lists exactly the cgroups in the removed phase, each once.
\<close>

definition indexes_agree :: "'a cgroupIndex_scheme \<Rightarrow> bool" where
  "indexes_agree s \<longleftrightarrow> (\<forall>cg job. jobByCgroup s cg = Some job \<longleftrightarrow> job_cgroups s job cg \<noteq> None)"

definition staging_agrees :: "'a cgroupIndex_scheme \<Rightarrow> bool" where
  "staging_agrees s \<longleftrightarrow> (\<forall>b job. stagingByBasename s b = Some job \<longleftrightarrow> b \<in> job_staging s job)"

definition queue_agrees :: "'a cgroupIndex_scheme \<Rightarrow> bool" where
  "queue_agrees s \<longleftrightarrow> distinct (removedCgroupQueue s)
     \<and> (\<forall>job cg. (job, cg) \<in> set (removedCgroupQueue s) \<longleftrightarrow> is_removed (job_cgroups s job cg))"

definition index_inv :: "'a cgroupIndex_scheme \<Rightarrow> bool" where
  "index_inv s \<longleftrightarrow> indexes_agree s \<and> staging_agrees s \<and> queue_agrees s \<and> finite (dom (jobByCgroup s))"

lemma index_inv_new: "index_inv newCgroupIndex"
  by (simp add: index_inv_def indexes_agree_def staging_agrees_def queue_agrees_def newCgroupIndex_def)

lemma owner_entry: "index_inv s \<Longrightarrow> jobByCgroup s cg = Some job \<longleftrightarrow> (\<exists>t. job_cgroups s job cg = Some t)"
  by (simp add: index_inv_def indexes_agree_def)

lemma owner_unique:
  "index_inv s \<Longrightarrow> job_cgroups s job cg = Some t \<Longrightarrow> job_cgroups s job' cg = Some t' \<Longrightarrow> job' = job"
  by (metis owner_entry option.inject)

lemma staged_entry: "index_inv s \<Longrightarrow> stagingByBasename s b = Some job \<longleftrightarrow> b \<in> job_staging s job"
  by (simp add: index_inv_def staging_agrees_def)

lemma queue_entry: "index_inv s \<Longrightarrow> (job, cg) \<in> set (removedCgroupQueue s) \<longleftrightarrow> is_removed (job_cgroups s job cg)"
  by (simp add: index_inv_def queue_agrees_def)

lemma queue_distinct: "index_inv s \<Longrightarrow> distinct (removedCgroupQueue s)"
  by (simp add: index_inv_def queue_agrees_def)

lemma finite_active: "index_inv s \<Longrightarrow> finite {cg. is_active (job_cgroups s job cg)}"
proof -
  assume inv: "index_inv s"
  have "{cg. is_active (job_cgroups s job cg)} \<subseteq> dom (jobByCgroup s)"
    using owner_entry [OF inv] by (auto simp: is_active_def split: option.splits)
  then show ?thesis
    using inv by (auto simp: index_inv_def intro: finite_subset)
qed

lemma index_inv_bindAt: "index_inv s \<Longrightarrow> index_inv (snd (bindAt job cg at s))"
proof (cases "jobByCgroup s cg")
  case None
  assume inv: "index_inv s"
  then have fresh: "job_cgroups s job' cg = None" for job'
    using owner_entry [OF inv, of cg job'] None by (cases "job_cgroups s job' cg") auto
  have q: "(job', cg) \<notin> set (removedCgroupQueue s)" for job'
    using queue_entry [OF inv] fresh by simp
  show ?thesis
    using inv None fresh q
    by (auto simp: index_inv_def indexes_agree_def staging_agrees_def queue_agrees_def bindAt_def)
qed (simp add: bindAt_def)

lemma index_inv_set_removed:
  assumes inv: "index_inv s" and entry: "job_cgroups s job cg = Some t" and
    active: "cgroup_State t \<noteq> trackedCgroupRemoved"
  shows "index_inv (set_removed job cg now s)"
proof -
  have "(job, cg) \<notin> set (removedCgroupQueue s)"
    using queue_entry [OF inv] entry active by simp
  then show ?thesis
    using inv entry
    by (auto simp: index_inv_def indexes_agree_def staging_agrees_def queue_agrees_def set_removed_def)
qed

lemma index_inv_mark: "index_inv s \<Longrightarrow> index_inv (snd (markTrackedCgroupRemoved cg now s))"
  by (auto simp: markTrackedCgroupRemoved_def Let_def index_inv_set_removed split: option.split)

lemma index_inv_reconcile: "index_inv s \<Longrightarrow> index_inv (snd (reconcileCgroupLiveness visit live started checked s))"
proof (induction visit arbitrary: s)
  case (Cons c visit)
  then show ?case
    by (cases c) (auto simp: Let_def split_beta index_inv_mark)
qed simp

lemma index_inv_putStaging: "index_inv s \<Longrightarrow> index_inv (snd (putStaging b job s))"
  unfolding index_inv_def indexes_agree_def staging_agrees_def queue_agrees_def putStaging_def
  by (auto; metis option.inject option.distinct(1))

lemma index_inv_removeStaging:
  assumes inv: "index_inv s"
  shows "index_inv (snd (removeStaging b job s))"
proof -
  have "staging_agrees (snd (removeStaging b job s))"
    using staged_entry [OF inv] unfolding staging_agrees_def job_staging_removeStaging
    by (auto simp: removeStaging_def) (metis option.inject)
  then show ?thesis
    using inv by (auto simp: index_inv_def indexes_agree_def queue_agrees_def removeStaging_def)
qed

lemma index_inv_promote: "index_inv s \<Longrightarrow> index_inv (snd (promoteStagedCgroup b cg now s))"
  by (auto simp: promoteStagedCgroup_def split_beta Let_def index_inv_bindAt index_inv_removeStaging
      split: option.split)

lemma index_inv_removeJob:
  assumes inv: "index_inv s"
  shows "index_inv (removeCgroupAndStaging job s)"
proof -
  have owners: "indexes_agree (removeCgroupAndStaging job s)"
    using owner_entry [OF inv]
    by (auto simp: indexes_agree_def removeCgroupAndStaging_def) (metis option.inject option.exhaust)
  have staging: "staging_agrees (removeCgroupAndStaging job s)"
    using staged_entry [OF inv] by (auto simp: staging_agrees_def removeCgroupAndStaging_def) (metis option.inject)
  have queue: "queue_agrees (removeCgroupAndStaging job s)"
    using queue_entry [OF inv] queue_distinct [OF inv]
    by (auto simp: queue_agrees_def removeCgroupAndStaging_def)
  have "finite (dom (jobByCgroup (removeCgroupAndStaging job s)))"
    using inv by (auto simp: index_inv_def removeCgroupAndStaging_def dom_def elim!: finite_subset [rotated])
  with owners staging queue show ?thesis by (simp add: index_inv_def)
qed

subsection \<open>Purging\<close>

definition expired :: "int \<Rightarrow> 'a cgroupIndex_scheme \<Rightarrow> cgroupPurgeCandidate \<Rightarrow> bool" where
  "expired now s c = (case job_cgroups s (fst c) (snd c) of
     None \<Rightarrow> False | Some t \<Rightarrow> RemovedAt t + cgroupRemovalGracePeriod \<le> now)"

lemma expired_prefix_takeWhile:
  "\<forall>c \<in> set q. is_removed (job_cgroups s (fst c) (snd c)) \<Longrightarrow> expired_prefix now s q = takeWhile (expired now s) q"
  by (induction q) (auto simp: expired_def is_removed_def split: option.splits)

lemma expiredRemovedCgroups_takeWhile:
  "index_inv s \<Longrightarrow> expiredRemovedCgroups now s = takeWhile (expired now s) (removedCgroupQueue s)"
  unfolding expiredRemovedCgroups_def by (rule expired_prefix_takeWhile) (auto simp: queue_entry)

lemma fold_purge_candidate:
  assumes "distinct cs" and
    "\<And>job cg. (job, cg) \<in> set cs \<Longrightarrow> jobByCgroup s cg = Some job \<and> is_removed (job_cgroups s job cg)"
  shows "jobByCgroup (fold purge_candidate cs s) = (\<lambda>cg. if cg \<in> snd ` set cs then None else jobByCgroup s cg)
    \<and> job_cgroups (fold purge_candidate cs s) = (\<lambda>job cg. if (job, cg) \<in> set cs then None else job_cgroups s job cg)
    \<and> removedCgroupQueue (fold purge_candidate cs s) = removedCgroupQueue s
    \<and> stagingByBasename (fold purge_candidate cs s) = stagingByBasename s
    \<and> stagingByJob (fold purge_candidate cs s) = stagingByJob s"
  using assms
proof (induction cs arbitrary: s)
  case (Cons c cs)
  obtain job cg where c: "c = (job, cg)" by (cases c)
  have here: "jobByCgroup s cg = Some job" "is_removed (job_cgroups s job cg)"
    using Cons.prems(2) [of job cg] c by auto
  have step: "purge_candidate c s = unbind job cg s"
    using here c by (simp add: purge_candidate_def jobForCgroup_def)
  have distinct_ids: "cg' \<noteq> cg" if "(job', cg') \<in> set cs" for job' cg'
    using Cons.prems(1) Cons.prems(2) [of job' cg'] that here c by auto
  have frame: "jobByCgroup (unbind job cg s) = (jobByCgroup s)(cg := None)"
    "removedCgroupQueue (unbind job cg s) = removedCgroupQueue s"
    "stagingByBasename (unbind job cg s) = stagingByBasename s" "stagingByJob (unbind job cg s) = stagingByJob s"
    by (simp_all add: unbind_def)
  have rest: "jobByCgroup (unbind job cg s) cg' = Some job' \<and> is_removed (job_cgroups (unbind job cg s) job' cg')"
    if "(job', cg') \<in> set cs" for job' cg'
    using Cons.prems(2) [of job' cg'] distinct_ids [OF that] that
    by (auto simp: job_cgroups_unbind frame)
  show ?case
    using Cons.IH [of "unbind job cg s"] rest Cons.prems(1) c step
    by (auto simp: frame job_cgroups_unbind fun_eq_iff)
qed simp

lemma purge_expired:
  fixes s :: "'a cgroupIndex_scheme" and now :: int
  assumes inv: "index_inv s"
  defines "cs \<equiv> expiredRemovedCgroups now s"
  shows "jobByCgroup (purgeRemovedCgroups cs s) = (\<lambda>cg. if cg \<in> snd ` set cs then None else jobByCgroup s cg)"
    "job_cgroups (purgeRemovedCgroups cs s) = (\<lambda>job cg. if (job, cg) \<in> set cs then None else job_cgroups s job cg)"
    "removedCgroupQueue (purgeRemovedCgroups cs s) = dropWhile (expired now s) (removedCgroupQueue s)"
    "stagingByBasename (purgeRemovedCgroups cs s) = stagingByBasename s"
    "stagingByJob (purgeRemovedCgroups cs s) = stagingByJob s"
proof -
  have cs: "cs = takeWhile (expired now s) (removedCgroupQueue s)"
    unfolding cs_def by (rule expiredRemovedCgroups_takeWhile [OF inv])
  have dist: "distinct cs"
    unfolding cs using queue_distinct [OF inv] by (rule distinct_takeWhile)
  have removed: "jobByCgroup s cg = Some job \<and> is_removed (job_cgroups s job cg)" if "(job, cg) \<in> set cs" for job cg
  proof -
    have "(job, cg) \<in> set (removedCgroupQueue s)"
      using that unfolding cs by (rule set_takeWhileD [THEN conjunct1])
    then show ?thesis
      using queue_entry [OF inv, of job cg] owner_entry [OF inv, of cg job] by (auto simp: is_removed_def split: option.splits)
  qed
  have drop: "dropWhile (expired now s) (removedCgroupQueue s) = drop (length cs) (removedCgroupQueue s)"
    unfolding cs by (rule dropWhile_eq_drop)
  note fold = fold_purge_candidate [OF dist removed]
  show "jobByCgroup (purgeRemovedCgroups cs s) = (\<lambda>cg. if cg \<in> snd ` set cs then None else jobByCgroup s cg)"
    "job_cgroups (purgeRemovedCgroups cs s) = (\<lambda>job cg. if (job, cg) \<in> set cs then None else job_cgroups s job cg)"
    "removedCgroupQueue (purgeRemovedCgroups cs s) = dropWhile (expired now s) (removedCgroupQueue s)"
    "stagingByBasename (purgeRemovedCgroups cs s) = stagingByBasename s"
    "stagingByJob (purgeRemovedCgroups cs s) = stagingByJob s"
    using fold by (auto simp: purgeRemovedCgroups_def Let_def drop)
qed

lemma index_inv_purge:
  assumes inv: "index_inv s"
  shows "index_inv (purgeRemovedCgroups (expiredRemovedCgroups now s) s)"
proof -
  let ?cs = "expiredRemovedCgroups now s" and ?s = "purgeRemovedCgroups (expiredRemovedCgroups now s) s"
  note after = purge_expired [OF inv, of now]
  have cs: "?cs = takeWhile (expired now s) (removedCgroupQueue s)"
    by (rule expiredRemovedCgroups_takeWhile [OF inv])
  have split: "removedCgroupQueue s = ?cs @ dropWhile (expired now s) (removedCgroupQueue s)"
    unfolding cs by simp
  have owned: "jobByCgroup s cg = Some job" if "(job, cg) \<in> set ?cs" for job cg
  proof -
    have "(job, cg) \<in> set (removedCgroupQueue s)"
      using that by (subst split) simp
    then show ?thesis
      using queue_entry [OF inv, of job cg] owner_entry [OF inv, of cg job]
      by (auto simp: is_removed_def split: option.splits)
  qed
  have mem: "cg \<in> snd ` set ?cs \<longleftrightarrow> (job, cg) \<in> set ?cs" if "jobByCgroup s cg = Some job" for job cg
    using owned that by force
  have "indexes_agree ?s"
    unfolding indexes_agree_def after
  proof (intro allI)
    fix cg job
    show "((if cg \<in> snd ` set ?cs then None else jobByCgroup s cg) = Some job)
      = ((if (job, cg) \<in> set ?cs then None else job_cgroups s job cg) \<noteq> None)"
      using owner_entry [OF inv, of cg job] mem [of cg job] by auto
  qed
  moreover have "staging_agrees ?s"
    using inv by (simp add: index_inv_def staging_agrees_def after)
  moreover have "set (dropWhile (expired now s) (removedCgroupQueue s)) = set (removedCgroupQueue s) - set ?cs"
  proof -
    have "distinct (?cs @ dropWhile (expired now s) (removedCgroupQueue s))"
      using queue_distinct [OF inv] split by simp
    then show ?thesis
      by (subst (2) split) auto
  qed
  then have "queue_agrees ?s"
    using queue_distinct [OF inv] queue_entry [OF inv] unfolding queue_agrees_def after by auto
  moreover have "finite (dom (jobByCgroup ?s))"
    using inv unfolding after by (auto simp: index_inv_def dom_def elim!: finite_subset [rotated])
  ultimately show ?thesis by (simp add: index_inv_def)
qed

subsection \<open>The ledger: an abstract specification\<close>

text \<open>
  What the two indexes, the queue and the per-job maps together promise is a ledger: each cgroup has
  at most one owner and a phase, each staged basename at most one owner.
\<close>

type_synonym ledger = "(u64 \<rightharpoonup> JobIdentity \<times> trackedCgroup) \<times> (bytes \<rightharpoonup> JobIdentity)"

definition owner_of :: "'a cgroupIndex_scheme \<Rightarrow> u64 \<Rightarrow> (JobIdentity \<times> trackedCgroup) option" where
  "owner_of s cg = (case jobByCgroup s cg of None \<Rightarrow> None | Some job \<Rightarrow> map_option (Pair job) (job_cgroups s job cg))"

definition ledger_of :: "'a cgroupIndex_scheme \<Rightarrow> ledger" where
  "ledger_of s = (owner_of s, stagingByBasename s)"

lemma owner_of_iff:
  assumes inv: "index_inv s"
  shows "owner_of s cg = Some (job, t) \<longleftrightarrow> job_cgroups s job cg = Some t"
proof (cases "jobByCgroup s cg = Some job")
  case True
  then show ?thesis using owner_entry [OF inv, of cg job] by (auto simp: owner_of_def)
next
  case False
  then show ?thesis using owner_entry [OF inv, of cg job] by (auto simp: owner_of_def split: option.splits)
qed

lemma owner_of_None: "index_inv s \<Longrightarrow> owner_of s cg = None \<longleftrightarrow> jobByCgroup s cg = None"
  using owner_entry [of s cg] by (auto simp: owner_of_def split: option.splits)

lemma owner_of_eqI:
  assumes "index_inv s" and "\<And>cg job t. job_cgroups s job cg = Some t \<longleftrightarrow> L cg = Some (job, t)"
  shows "owner_of s = L"
proof
  fix cg
  show "owner_of s cg = L cg"
    using owner_of_iff [OF assms(1), of cg] assms(2) by (cases "L cg"; cases "owner_of s cg") fastforce+
qed

definition mark_removed :: "int \<Rightarrow> trackedCgroup \<Rightarrow> trackedCgroup" where
  "mark_removed now t = t\<lparr>cgroup_State := trackedCgroupRemoved, RemovedAt := now\<rparr>"

lemma owner_of_bindAt:
  assumes inv: "index_inv s"
  shows "owner_of (snd (bindAt job cg at s)) =
    (if owner_of s cg = None
     then (owner_of s)(cg \<mapsto> (job, \<lparr>cgroup_State = trackedCgroupActive, TrackedAt = at, RemovedAt = zero_time\<rparr>))
     else owner_of s)"
proof (rule owner_of_eqI [OF index_inv_bindAt [OF inv]])
  fix cg' job' t
  show "job_cgroups (snd (bindAt job cg at s)) job' cg' = Some t \<longleftrightarrow>
    (if owner_of s cg = None
     then (owner_of s)(cg \<mapsto> (job, \<lparr>cgroup_State = trackedCgroupActive, TrackedAt = at, RemovedAt = zero_time\<rparr>))
     else owner_of s) cg' = Some (job', t)"
    using owner_of_None [OF inv, of cg] owner_entry [OF inv, of cg job']
    by (auto simp: job_cgroups_bindAt owner_of_iff [OF inv])
qed

lemma mark_cases:
  assumes inv: "index_inv s"
  obtains (absent) "owner_of s cg = None" "markTrackedCgroupRemoved cg now s = (nothing_detached, s)"
  | (again) job t where "owner_of s cg = Some (job, t)" "cgroup_State t = trackedCgroupRemoved"
      "markTrackedCgroupRemoved cg now s = (\<lparr>detached_JobID = job, detached_Found = True, JobDrained = False\<rparr>, s)"
  | (removed) job t where "owner_of s cg = Some (job, t)" "cgroup_State t = trackedCgroupActive"
      "markTrackedCgroupRemoved cg now s =
        (\<lparr>detached_JobID = job, detached_Found = True,
          JobDrained = (activeCgroupCount (set_removed job cg now s) job = 0)\<rparr>, set_removed job cg now s)"
proof (cases "owner_of s cg")
  case None
  then have "jobByCgroup s cg = None" by (simp add: owner_of_None [OF inv])
  with None show ?thesis by (intro absent) (simp_all add: markTrackedCgroupRemoved_def jobForCgroup_def)
next
  case (Some p)
  obtain job t where p: "p = (job, t)" by (cases p)
  have entry: "job_cgroups s job cg = Some t" and owner: "jobByCgroup s cg = Some job"
    using Some p owner_of_iff [OF inv] owner_entry [OF inv] by auto
  show ?thesis
    using Some p entry owner again removed
    by (cases "cgroup_State t") (auto simp: markTrackedCgroupRemoved_def jobForCgroup_def Let_def)
qed

lemma owner_of_set_removed:
  assumes inv: "index_inv s" and owner: "owner_of s cg = Some (job, t)" and
    active: "cgroup_State t = trackedCgroupActive"
  shows "owner_of (set_removed job cg now s) = (owner_of s)(cg \<mapsto> (job, mark_removed now t))"
proof -
  have entry: "job_cgroups s job cg = Some t"
    using owner by (simp add: owner_of_iff [OF inv])
  have inv': "index_inv (set_removed job cg now s)"
    using inv entry active by (auto intro: index_inv_set_removed)
  have other: "job_cgroups s job' cg = None" if "job' \<noteq> job" for job'
    using owner_unique [OF inv entry, of job'] that by (cases "job_cgroups s job' cg") auto
  show ?thesis
  proof (rule owner_of_eqI [OF inv'])
    fix cg' job' t'
    show "job_cgroups (set_removed job cg now s) job' cg' = Some t' \<longleftrightarrow>
      ((owner_of s)(cg \<mapsto> (job, mark_removed now t))) cg' = Some (job', t')"
      using entry other [of job'] owner_of_iff [OF inv, of cg' job' t']
      by (cases "cg' = cg"; cases "job' = job") (simp_all add: set_removed_def mark_removed_def)
  qed
qed

lemma owner_of_reconcile:
  assumes "index_inv s" "distinct visit"
  shows "owner_of (snd (reconcileCgroupLiveness visit live started checked s)) cg =
    (case owner_of s cg of
       None \<Rightarrow> None
     | Some (job, t) \<Rightarrow> Some (job, if (job, cg) \<in> set visit \<and> \<not> scan_skips live started cg (Some t)
         then mark_removed checked t else t))"
  using assms
proof (induction visit arbitrary: s)
  case Nil
  then show ?case by (simp split: option.splits)
next
  case (Cons c visit)
  obtain job cg1 where c: "c = (job, cg1)" by (cases c)
  note inv = Cons.prems(1)
  show ?case
  proof (cases "scan_skips live started cg1 (job_cgroups s job cg1)")
    case True
    then show ?thesis
      using Cons c owner_of_iff [OF inv] by (auto split: option.splits)
  next
    case False
    then obtain t1 where t1: "job_cgroups s job cg1 = Some t1" "cgroup_State t1 = trackedCgroupActive"
      by (auto simp: scan_skips_def split: option.splits)
    then have owner1: "owner_of s cg1 = Some (job, t1)"
      by (simp add: owner_of_iff [OF inv])
    have mark: "snd (markTrackedCgroupRemoved cg1 checked s) = set_removed job cg1 checked s"
      using owner1 t1 by (cases rule: mark_cases [OF inv, of cg1 checked]) auto
    have inv': "index_inv (set_removed job cg1 checked s)"
      using index_inv_mark [OF inv, of cg1 checked] mark by simp
    have IH: "owner_of (snd (reconcileCgroupLiveness visit live started checked (set_removed job cg1 checked s))) cg =
      (case ((owner_of s)(cg1 \<mapsto> (job, mark_removed checked t1))) cg of None \<Rightarrow> None
       | Some (job, t) \<Rightarrow> Some (job, if (job, cg) \<in> set visit \<and> \<not> scan_skips live started cg (Some t)
           then mark_removed checked t else t))"
      using Cons.IH [OF inv'] Cons.prems(2) by (simp add: owner_of_set_removed [OF inv owner1 t1(2)])
    have fresh: "(job, cg1) \<notin> set visit"
      using Cons.prems(2) c by simp
    have skip: "\<not> scan_skips live started cg1 (Some t1)"
      using False t1 by simp
    show ?thesis
    proof (cases "cg = cg1")
      case True
      then show ?thesis
        using c False mark IH fresh skip owner1 by (simp add: Let_def split_beta)
    next
      case other: False
      then show ?thesis
        using c False mark IH by (auto simp: Let_def split_beta split: option.splits)
    qed
  qed
qed

lemma owner_of_purge:
  assumes inv: "index_inv s"
  shows "owner_of (purgeRemovedCgroups (expiredRemovedCgroups now s) s) =
    (owner_of s) |` (- snd ` set (expiredRemovedCgroups now s))"
proof (rule owner_of_eqI [OF index_inv_purge [OF inv]])
  fix cg job t
  let ?cs = "expiredRemovedCgroups now s"
  have "(job', cg') \<in> set ?cs \<Longrightarrow> is_removed (job_cgroups s job' cg')" for job' cg'
    using queue_entry [OF inv, of job' cg'] unfolding expiredRemovedCgroups_takeWhile [OF inv]
    by (auto dest: set_takeWhileD)
  then have same: "job_cgroups s job cg = Some t \<Longrightarrow> cg \<in> snd ` set ?cs \<longleftrightarrow> (job, cg) \<in> set ?cs"
    using owner_unique [OF inv] by (force simp: is_removed_def split: option.splits)
  show "job_cgroups (purgeRemovedCgroups ?cs s) job cg = Some t \<longleftrightarrow>
    ((owner_of s) |` (- snd ` set ?cs)) cg = Some (job, t)"
    using same owner_of_iff [OF inv, of cg job t] unfolding purge_expired(2) [OF inv]
    by (auto simp: restrict_map_def image_iff)
qed

lemma owner_of_removeJob:
  assumes inv: "index_inv s"
  shows "owner_of (removeCgroupAndStaging job s) =
    (\<lambda>cg. case owner_of s cg of None \<Rightarrow> None | Some (job', t) \<Rightarrow> if job' = job then None else Some (job', t))"
proof (rule owner_of_eqI [OF index_inv_removeJob [OF inv]])
  fix cg job' t
  show "job_cgroups (removeCgroupAndStaging job s) job' cg = Some t \<longleftrightarrow>
    (case owner_of s cg of None \<Rightarrow> None | Some (job', t) \<Rightarrow> if job' = job then None else Some (job', t)) = Some (job', t)"
    using owner_of_iff [OF inv, of cg job' t, symmetric]
    by (auto simp: removeCgroupAndStaging_def split: option.splits)
qed

lemma owner_of_staging [simp]:
  "owner_of (snd (putStaging b job s)) = owner_of s"
  "owner_of (snd (removeStaging b job s)) = owner_of s"
  by (auto simp: fun_eq_iff owner_of_def putStaging_def removeStaging_def split: option.split)

subsection \<open>Active cgroups and drained jobs\<close>

lemma active_iff: "index_inv s \<Longrightarrow> is_active (job_cgroups s job cg) \<longleftrightarrow>
  (\<exists>t. owner_of s cg = Some (job, t) \<and> cgroup_State t = trackedCgroupActive)"
  by (auto simp: owner_of_iff is_active_def split: option.splits)

lemma activeCgroupCount_set_removed:
  assumes inv: "index_inv s" and owner: "owner_of s cg = Some (job, t)" and
    active: "cgroup_State t = trackedCgroupActive"
  shows "activeCgroupCount s job' =
    (if job' = job then Suc (activeCgroupCount (set_removed job cg now s) job)
     else activeCgroupCount (set_removed job cg now s) job')"
proof (cases "job' = job")
  case True
  have entry: "job_cgroups s job cg = Some t"
    using owner by (simp add: owner_of_iff [OF inv])
  let ?A = "{c. is_active (job_cgroups (set_removed job cg now s) job c)}"
  have A: "{c. is_active (job_cgroups s job c)} = insert cg ?A" "cg \<notin> ?A"
    using entry active by (auto simp: set_removed_def)
  then have "finite ?A"
    using finite_active [OF inv, of job] by simp
  then show ?thesis
    using A True by (simp add: activeCgroupCount_def)
next
  case False
  then show ?thesis by (simp add: activeCgroupCount_def set_removed_def)
qed

definition drained_jobs :: "cgroupDetachResult list \<Rightarrow> JobIdentity list" where
  "drained_jobs rs = map detached_JobID (filter JobDrained rs)"

lemma drained_reconcile:
  assumes "index_inv s"
  shows "distinct (drained_jobs (fst (reconcileCgroupLiveness visit live started checked s)))
    \<and> set (drained_jobs (fst (reconcileCgroupLiveness visit live started checked s))) =
      {job. 0 < activeCgroupCount s job
        \<and> activeCgroupCount (snd (reconcileCgroupLiveness visit live started checked s)) job = 0}
    \<and> (\<forall>job. activeCgroupCount (snd (reconcileCgroupLiveness visit live started checked s)) job
        \<le> activeCgroupCount s job)"
  using assms
proof (induction visit arbitrary: s)
  case Nil
  then show ?case by (auto simp: drained_jobs_def)
next
  case (Cons c visit)
  obtain job cg where c: "c = (job, cg)" by (cases c)
  note inv = Cons.prems
  show ?case
  proof (cases "scan_skips live started cg (job_cgroups s job cg)")
    case True
    then show ?thesis using Cons c by simp
  next
    case False
    then obtain t where t: "job_cgroups s job cg = Some t" "cgroup_State t = trackedCgroupActive"
      by (auto simp: scan_skips_def split: option.splits)
    then have owner: "owner_of s cg = Some (job, t)"
      by (simp add: owner_of_iff [OF inv])
    let ?s = "set_removed job cg checked s"
    have mark: "markTrackedCgroupRemoved cg checked s =
        (\<lparr>detached_JobID = job, detached_Found = True, JobDrained = (activeCgroupCount ?s job = 0)\<rparr>, ?s)"
      using owner t by (cases rule: mark_cases [OF inv, of cg checked]) auto
    have inv': "index_inv ?s"
      using index_inv_mark [OF inv, of cg checked] mark by simp
    let ?s' = "snd (reconcileCgroupLiveness visit live started checked ?s)"
    note IH = Cons.IH [OF inv']
    have le: "activeCgroupCount ?s' job' \<le> activeCgroupCount ?s job'" for job'
      using IH by blast
    note count = activeCgroupCount_set_removed [OF inv owner t(2), where now = checked]
    have zero: "activeCgroupCount ?s job = 0 \<Longrightarrow> activeCgroupCount ?s' job = 0"
      using le [of job] by simp
    have sets: "{job'. 0 < activeCgroupCount s job' \<and> activeCgroupCount ?s' job' = 0} =
      (if activeCgroupCount ?s job = 0 then {job} else {})
        \<union> {job'. 0 < activeCgroupCount ?s job' \<and> activeCgroupCount ?s' job' = 0}"
      using zero by (auto simp: count)
    have mono: "activeCgroupCount ?s' job' \<le> activeCgroupCount s job'" for job'
      using le [of job'] by (auto simp: count)
    have run: "reconcileCgroupLiveness (c # visit) live started checked s =
      (\<lparr>detached_JobID = job, detached_Found = True, JobDrained = (activeCgroupCount ?s job = 0)\<rparr>
        # fst (reconcileCgroupLiveness visit live started checked ?s), ?s')"
      using False c mark by (simp add: Let_def split_beta)
    show ?thesis
      using IH mono unfolding run by (auto simp: drained_jobs_def sets)
  qed
qed

subsection \<open>Every run refines the ledger\<close>

text \<open>
  The operations as the engine loop calls them, in any order and with any arguments.  A scan carries
  the order in which Go visited the entries.
\<close>

datatype index_op =
    Bind JobIdentity u64 int
  | Mark u64 int
  | Scan "cgroupPurgeCandidate list" "u64 set" int int
  | Purge int
  | Put_staging bytes JobIdentity
  | Promote bytes u64 int
  | Remove_job JobIdentity

fun index_step :: "index_op \<Rightarrow> 'a cgroupIndex_scheme \<Rightarrow> 'a cgroupIndex_scheme" where
  "index_step (Bind job cg at) s = snd (bindAt job cg at s)"
| "index_step (Mark cg now) s = snd (markTrackedCgroupRemoved cg now s)"
| "index_step (Scan visit live started checked) s = snd (reconcileCgroupLiveness visit live started checked s)"
| "index_step (Purge now) s = purgeRemovedCgroups (expiredRemovedCgroups now s) s"
| "index_step (Put_staging b job) s = snd (putStaging b job s)"
| "index_step (Promote b cg now) s = snd (promoteStagedCgroup b cg now s)"
| "index_step (Remove_job job) s = removeCgroupAndStaging job s"

lemma index_inv_step: "index_inv s \<Longrightarrow> index_inv (index_step op s)"
  by (cases op) (auto intro: index_inv_bindAt index_inv_mark index_inv_reconcile index_inv_purge
      index_inv_putStaging index_inv_promote index_inv_removeJob)

lemma index_inv_run: "index_inv s \<Longrightarrow> index_inv (fold index_step ops s)"
  by (induction ops arbitrary: s) (simp_all add: index_inv_step)

definition visits :: "cgroupPurgeCandidate list \<Rightarrow> 'a cgroupIndex_scheme \<Rightarrow> bool" where
  "visits visit s \<longleftrightarrow> distinct visit \<and> set visit = {(job, cg). job_cgroups s job cg \<noteq> None}"

fun op_ok :: "index_op \<Rightarrow> 'a cgroupIndex_scheme \<Rightarrow> bool" where
  "op_ok (Scan visit live started checked) s = visits visit s"
| "op_ok _ s = True"

definition removed_by :: "int \<Rightarrow> JobIdentity \<times> trackedCgroup \<Rightarrow> bool" where
  "removed_by now p \<longleftrightarrow>
    cgroup_State (snd p) = trackedCgroupRemoved \<and> RemovedAt (snd p) + cgroupRemovalGracePeriod \<le> now"

definition claim :: "JobIdentity \<Rightarrow> u64 \<Rightarrow> int \<Rightarrow> (u64 \<rightharpoonup> JobIdentity \<times> trackedCgroup) \<Rightarrow> (u64 \<rightharpoonup> JobIdentity \<times> trackedCgroup)" where
  "claim job cg now L = (if L cg = None
     then L(cg \<mapsto> (job, \<lparr>cgroup_State = trackedCgroupActive, TrackedAt = now, RemovedAt = zero_time\<rparr>)) else L)"

definition retire :: "(u64 \<Rightarrow> trackedCgroup \<Rightarrow> bool) \<Rightarrow> int \<Rightarrow> (u64 \<rightharpoonup> JobIdentity \<times> trackedCgroup) \<Rightarrow> (u64 \<rightharpoonup> JobIdentity \<times> trackedCgroup)" where
  "retire gone now L = (\<lambda>cg. case L cg of
     None \<Rightarrow> None
   | Some (job, t) \<Rightarrow>
       Some (job, if cgroup_State t = trackedCgroupActive \<and> gone cg t then mark_removed now t else t))"

text \<open>
  The specification: a bind never moves a cgroup between jobs and never revives a removed one; a
  removal marks exactly the cgroups it should; a purge may only drop entries removed at least the
  grace period ago; a promotion consumes a staged basename and claims the cgroup for its owner.
\<close>

inductive ledger_step :: "index_op \<Rightarrow> ledger \<Rightarrow> ledger \<Rightarrow> bool" where
  Bind: "ledger_step (Bind job cg now) (L, S) (claim job cg now L, S)"
| Mark: "ledger_step (Mark cg now) (L, S) (retire (\<lambda>cg' t. cg' = cg) now L, S)"
| Scan: "ledger_step (Scan visit live started checked) (L, S)
    (retire (\<lambda>cg t. cg \<notin> live \<and> TrackedAt t \<le> started) checked L, S)"
| Purge: "\<forall>cg \<in> E. \<exists>p. L cg = Some p \<and> removed_by now p \<Longrightarrow> ledger_step (Purge now) (L, S) (L |` (- E), S)"
| Stage: "S b = None \<or> S b = Some job \<Longrightarrow> ledger_step (Put_staging b job) (L, S) (L, S(b \<mapsto> job))"
| Stage_refused: "S b = Some owner \<Longrightarrow> owner \<noteq> job \<Longrightarrow> ledger_step (Put_staging b job) (L, S) (L, S)"
| Promote: "S b = Some job \<Longrightarrow> L cg = None \<or> fst (the (L cg)) = job \<Longrightarrow>
    ledger_step (Promote b cg now) (L, S) (claim job cg now L, S(b := None))"
| Promote_refused: "S b = Some job \<Longrightarrow> L cg = Some (owner, t) \<Longrightarrow> owner \<noteq> job \<Longrightarrow>
    ledger_step (Promote b cg now) (L, S) (L, S)"
| Promote_unstaged: "S b = None \<Longrightarrow> ledger_step (Promote b cg now) (L, S) (L, S)"
| Remove: "ledger_step (Remove_job job) (L, S)
    (\<lambda>cg. case L cg of None \<Rightarrow> None | Some (job', t) \<Rightarrow> if job' = job then None else Some (job', t),
     \<lambda>b. if S b = Some job then None else S b)"

inductive_cases ledger_stepE: "ledger_step op L L'"

lemma retire_mark:
  assumes inv: "index_inv s"
  shows "owner_of (snd (markTrackedCgroupRemoved cg now s)) = retire (\<lambda>cg' t. cg' = cg) now (owner_of s)"
proof (cases rule: mark_cases [OF inv, of cg now, case_names absent again removed])
  case absent
  then show ?thesis by (auto simp: retire_def fun_eq_iff split: option.splits)
next
  case (again job t)
  then show ?thesis by (auto simp: retire_def fun_eq_iff split: option.splits)
next
  case (removed job t)
  then show ?thesis
    using owner_of_set_removed [OF inv removed(1, 2), of now]
    by (auto simp: retire_def fun_eq_iff split: option.splits)
qed

lemma retire_scan:
  assumes inv: "index_inv s" and visit: "visits visit s"
  shows "owner_of (snd (reconcileCgroupLiveness visit live started checked s)) =
    retire (\<lambda>cg t. cg \<notin> live \<and> TrackedAt t \<le> started) checked (owner_of s)"
proof
  fix cg
  have "distinct visit" using visit by (simp add: visits_def)
  moreover have "(job, cg) \<in> set visit" if "owner_of s cg = Some (job, t)" for job t
    using that visit by (simp add: visits_def owner_of_iff [OF inv])
  ultimately show "owner_of (snd (reconcileCgroupLiveness visit live started checked s)) cg =
    retire (\<lambda>cg t. cg \<notin> live \<and> TrackedAt t \<le> started) checked (owner_of s) cg"
    using owner_of_reconcile [OF inv, of visit live started checked cg]
    by (auto simp: retire_def scan_skips_def split: option.splits)
qed

lemma staging_unchanged:
  "stagingByBasename (snd (bindAt job cg now s)) = stagingByBasename s"
  "stagingByBasename (snd (markTrackedCgroupRemoved cg now s)) = stagingByBasename s"
  "stagingByBasename (snd (reconcileCgroupLiveness visit live started checked s)) = stagingByBasename s"
proof -
  show mark: "stagingByBasename (snd (markTrackedCgroupRemoved cg now s)) = stagingByBasename s"
    for cg now and s :: "'a cgroupIndex_scheme"
    by (auto simp: markTrackedCgroupRemoved_def set_removed_def Let_def split: option.split)
  show "stagingByBasename (snd (bindAt job cg now s)) = stagingByBasename s"
    by (auto simp: bindAt_def split: option.split)
  show "stagingByBasename (snd (reconcileCgroupLiveness visit live started checked s)) = stagingByBasename s"
  proof (induction visit arbitrary: s)
    case (Cons c visit)
    then show ?case by (cases c) (auto simp: Let_def split_beta mark)
  qed simp
qed

lemma owner_of_job: "index_inv s \<Longrightarrow> jobByCgroup s cg = map_option fst (owner_of s cg)"
  using owner_of_None [of s cg] by (auto simp: owner_of_def split: option.splits)

lemma promote_step:
  assumes inv: "index_inv s"
  shows "ledger_step (Promote b cg now) (ledger_of s) (ledger_of (snd (promoteStagedCgroup b cg now s)))"
proof (cases "stagingByBasename s b")
  case None
  then show ?thesis by (simp add: ledger_of_def promoteStagedCgroup_def ledger_step.Promote_unstaged)
next
  case (Some job)
  let ?s = "snd (bindAt job cg now s)"
  have ok: "fst (bindAt job cg now s) \<longleftrightarrow> owner_of s cg = None \<or> fst (the (owner_of s cg)) = job"
    using owner_of_job [OF inv, of cg] by (cases "owner_of s cg") (auto simp: bindAt_def)
  have claim: "owner_of ?s = claim job cg now (owner_of s)"
    by (simp add: owner_of_bindAt [OF inv] claim_def)
  have staged: "stagingByBasename ?s = stagingByBasename s"
    by (rule staging_unchanged)
  show ?thesis
  proof (cases "fst (bindAt job cg now s)")
    case True
    have "ledger_of (snd (promoteStagedCgroup b cg now s)) =
      (claim job cg now (owner_of s), (stagingByBasename s)(b := None))"
      using True Some claim staged
      by (simp add: ledger_of_def promoteStagedCgroup_def split_beta Let_def) (simp add: removeStaging_def)
    then show ?thesis
      using True ok Some by (simp add: ledger_of_def ledger_step.Promote)
  next
    case False
    then obtain owner t where "owner_of s cg = Some (owner, t)" "owner \<noteq> job"
      using ok by (cases "owner_of s cg") auto
    moreover from False have "ledger_of (snd (promoteStagedCgroup b cg now s)) = ledger_of s"
      using claim staged Some calculation
      by (simp add: ledger_of_def promoteStagedCgroup_def split_beta Let_def claim_def)
    ultimately show ?thesis
      using Some by (simp add: ledger_of_def ledger_step.Promote_refused)
  qed
qed

lemma purge_step:
  assumes inv: "index_inv s"
  shows "ledger_step (Purge now) (ledger_of s) (ledger_of (purgeRemovedCgroups (expiredRemovedCgroups now s) s))"
proof -
  have "\<exists>p. owner_of s cg = Some p \<and> removed_by now p"
    if mem: "cg \<in> snd ` set (expiredRemovedCgroups now s)" for cg
  proof -
    obtain job where "(job, cg) \<in> set (takeWhile (expired now s) (removedCgroupQueue s))"
      using mem by (auto simp: expiredRemovedCgroups_takeWhile [OF inv])
    then have "expired now s (job, cg)" "is_removed (job_cgroups s job cg)"
      using queue_entry [OF inv, of job cg] by (auto dest: set_takeWhileD)
    then show ?thesis
      using owner_of_iff [OF inv, of cg job]
      by (auto simp: expired_def removed_by_def is_removed_def split: option.splits)
  qed
  then show ?thesis
    unfolding ledger_of_def owner_of_purge [OF inv] purge_expired(4) [OF inv]
    by (intro ledger_step.Purge) blast
qed

lemma ledger_step_index:
  assumes inv: "index_inv s" and ok: "op_ok op s"
  shows "ledger_step op (ledger_of s) (ledger_of (index_step op s))"
proof (cases op)
  case (Bind job cg now)
  then show ?thesis
    using ledger_step.Bind by (simp add: ledger_of_def owner_of_bindAt [OF inv] claim_def staging_unchanged)
next
  case (Put_staging b job)
  have "stagingByBasename (snd (putStaging b job s)) =
    (if stagingByBasename s b = None \<or> stagingByBasename s b = Some job
     then (stagingByBasename s)(b \<mapsto> job) else stagingByBasename s)"
    by (simp add: putStaging_def)
  then show ?thesis
    using Put_staging by (auto simp: ledger_of_def ledger_step.Stage intro: ledger_step.Stage_refused)
next
  case (Remove_job job)
  have "stagingByBasename (removeCgroupAndStaging job s) = (\<lambda>b. if stagingByBasename s b = Some job then None else stagingByBasename s b)"
    using staged_entry [OF inv] by (auto simp: removeCgroupAndStaging_def fun_eq_iff)
  then show ?thesis
    using Remove_job ledger_step.Remove by (simp add: ledger_of_def owner_of_removeJob [OF inv])
qed (use ok in \<open>auto simp: ledger_of_def retire_mark [OF inv] retire_scan [OF inv] staging_unchanged ledger_step.Mark
    ledger_step.Scan promote_step [OF inv, unfolded ledger_of_def] purge_step [OF inv, unfolded ledger_of_def]\<close>)

lemma purge_all_expired:
  assumes inv: "index_inv s" and
    due: "\<And>cg job t. owner_of s cg = Some (job, t) \<Longrightarrow> cgroup_State t = trackedCgroupRemoved \<Longrightarrow>
      RemovedAt t + cgroupRemovalGracePeriod \<le> now"
  shows "removedCgroupQueue (index_step (Purge now) s) = []"
    "owner_of (index_step (Purge now) s) cg =
      (case owner_of s cg of None \<Rightarrow> None
       | Some (job, t) \<Rightarrow> if cgroup_State t = trackedCgroupActive then Some (job, t) else None)"
proof -
  have exp: "expired now s c" if queued: "c \<in> set (removedCgroupQueue s)" for c
  proof -
    obtain t where "job_cgroups s (fst c) (snd c) = Some t" "cgroup_State t = trackedCgroupRemoved"
      using queued queue_entry [OF inv, of "fst c" "snd c"] by (auto simp: is_removed_def split: option.splits)
    then show ?thesis
      using due [of "snd c" "fst c" t] by (simp add: expired_def owner_of_iff [OF inv])
  qed
  show "removedCgroupQueue (index_step (Purge now) s) = []"
    using exp by (simp add: purge_expired(3) [OF inv])
  have all: "expiredRemovedCgroups now s = removedCgroupQueue s"
    unfolding expiredRemovedCgroups_takeWhile [OF inv] using exp by (simp add: takeWhile_eq_all_conv)
  have gone: "cg \<in> snd ` set (removedCgroupQueue s) \<longleftrightarrow> cgroup_State t = trackedCgroupRemoved"
    if owner: "owner_of s cg = Some (job, t)" for job t
  proof -
    have entry: "job_cgroups s job cg = Some t"
      using owner by (simp add: owner_of_iff [OF inv])
    have "cg \<in> snd ` set (removedCgroupQueue s) \<longleftrightarrow> (\<exists>job'. is_removed (job_cgroups s job' cg))"
    proof -
      have "cg \<in> snd ` set (removedCgroupQueue s) \<longleftrightarrow> (\<exists>job'. (job', cg) \<in> set (removedCgroupQueue s))"
        by force
      then show ?thesis by (simp add: queue_entry [OF inv])
    qed
    also have "\<dots> \<longleftrightarrow> is_removed (job_cgroups s job cg)"
    proof -
      have "job' = job" if "is_removed (job_cgroups s job' cg)" for job'
        using that owner_unique [OF inv entry, of job'] by (cases "job_cgroups s job' cg") simp_all
      then show ?thesis by blast
    qed
    finally show ?thesis by (simp add: entry)
  qed
  show "owner_of (index_step (Purge now) s) cg =
      (case owner_of s cg of None \<Rightarrow> None
       | Some (job, t) \<Rightarrow> if cgroup_State t = trackedCgroupActive then Some (job, t) else None)"
  proof (cases "owner_of s cg")
    case None
    then show ?thesis by (simp add: owner_of_purge [OF inv] restrict_map_def)
  next
    case (Some p)
    obtain job t where "p = (job, t)" by (cases p)
    then show ?thesis
      using Some gone [of job t] by (cases "cgroup_State t") (simp_all add: owner_of_purge [OF inv, of now, unfolded all] all restrict_map_def)
  qed
qed

subsection \<open>Properties\<close>

text \<open>
  C25: the cgroup and staging indexes refine the ledger.  After any sequence of operations, the next
  operation changes the forward map, the per-job maps and the two staging maps in
  such a way that together they still read as one ledger, and the ledger moves as specified: a
  cgroup never changes owner, is never revived, is only dropped after its grace period or with its
  job, and a liveness scan retires exactly the active cgroups that were tracked before it started
  and are missing from the file system, whatever order Go visits the maps in.
\<close>

theorem cgroup_index_refines_ledger:
  assumes "op_ok op (fold index_step ops newCgroupIndex)"
  shows "ledger_step op (ledger_of (fold index_step ops newCgroupIndex))
    (ledger_of (index_step op (fold index_step ops newCgroupIndex)))"
  using ledger_step_index [OF index_inv_run [OF index_inv_new] assms] .

definition example_job :: JobIdentity where
  "example_job = GitLabJobIdentity (c_lit ''gitlab.com'') (c_lit ''a/b'') (c_lit ''7'')"

definition example_ops :: "index_op list" where
  "example_ops = [Bind example_job 7 0, Bind example_job 9 40, Put_staging [0x61] example_job, Mark 9 50]"

lemma example_run: "fold index_step example_ops newCgroupIndex =
  newCgroupIndex\<lparr>jobByCgroup := [7 \<mapsto> example_job, 9 \<mapsto> example_job],
    cgroupsByJob := [example_job \<mapsto> [7 \<mapsto> \<lparr>cgroup_State = trackedCgroupActive, TrackedAt = 0, RemovedAt = zero_time\<rparr>,
      9 \<mapsto> \<lparr>cgroup_State = trackedCgroupRemoved, TrackedAt = 40, RemovedAt = 50\<rparr>]],
    removedCgroupQueue := [(example_job, 9)], stagingByBasename := [[0x61] \<mapsto> example_job],
    stagingByJob := [example_job \<mapsto> {[0x61]}]\<rparr>"
  by (simp add: example_ops_def newCgroupIndex_def bindAt_def putStaging_def markTrackedCgroupRemoved_def
      set_removed_def jobForCgroup_def Let_def)

theorem cgroup_index_refines_ledger_witness:
  "ledger_step (Scan [(example_job, 9), (example_job, 7)] {8} 10 60)
    (ledger_of (fold index_step example_ops newCgroupIndex))
    (ledger_of (index_step (Scan [(example_job, 9), (example_job, 7)] {8} 10 60) (fold index_step example_ops newCgroupIndex)))
   \<and> jobByCgroup (fold index_step example_ops newCgroupIndex) 7 = Some example_job"
proof
  have "op_ok (Scan [(example_job, 9), (example_job, 7)] {8} 10 60) (fold index_step example_ops newCgroupIndex)"
    by (auto simp: example_run visits_def split: if_splits)
  then show "ledger_step (Scan [(example_job, 9), (example_job, 7)] {8} 10 60)
      (ledger_of (fold index_step example_ops newCgroupIndex))
      (ledger_of (index_step (Scan [(example_job, 9), (example_job, 7)] {8} 10 60) (fold index_step example_ops newCgroupIndex)))"
    by (rule cgroup_index_refines_ledger)
qed (simp add: example_run)

text \<open>
  C26: removed cgroups are reclaimed.  After any sequence of operations, a purge at a time when every
  removed cgroup is past its grace period empties the purge queue and leaves exactly the active
  cgroups attributed: no stale queue entry ever blocks the reclaim.
\<close>

theorem removed_cgroups_reclaimed:
  assumes "\<And>cg job t. owner_of (fold index_step ops newCgroupIndex) cg = Some (job, t) \<Longrightarrow>
      cgroup_State t = trackedCgroupRemoved \<Longrightarrow> RemovedAt t + cgroupRemovalGracePeriod \<le> now"
  shows "removedCgroupQueue (index_step (Purge now) (fold index_step ops newCgroupIndex)) = []
    \<and> owner_of (index_step (Purge now) (fold index_step ops newCgroupIndex)) =
      (\<lambda>cg. case owner_of (fold index_step ops newCgroupIndex) cg of None \<Rightarrow> None
        | Some (job, t) \<Rightarrow> if cgroup_State t = trackedCgroupActive then Some (job, t) else None)"
  by (intro conjI ext) (rule purge_all_expired [OF index_inv_run [OF index_inv_new]]; rule assms; assumption)+

theorem removed_cgroups_reclaimed_witness:
  "removedCgroupQueue (index_step (Purge 10000000050) (fold index_step example_ops newCgroupIndex)) = []
   \<and> removedCgroupQueue (fold index_step example_ops newCgroupIndex) \<noteq> []"
proof
  have "RemovedAt t + cgroupRemovalGracePeriod \<le> 10000000050"
    if "owner_of (fold index_step example_ops newCgroupIndex) cg = Some (job, t)"
      "cgroup_State t = trackedCgroupRemoved" for cg job t
    using that by (auto simp: example_run owner_of_def cgroupRemovalGracePeriod_def processExitGracePeriod_def
        split: if_splits)
  then show "removedCgroupQueue (index_step (Purge 10000000050) (fold index_step example_ops newCgroupIndex)) = []"
    using removed_cgroups_reclaimed [of example_ops 10000000050] by blast
qed (simp add: example_run)

end
