(* ===== verification/Sample_Image.thy ===== *)
theory Sample_Image
  imports Sample_Layout
begin

text \<open>
  The bytes of a sample in the ring buffer and how \<open>binary.Read\<close> turns them back into the
  generated struct. The image of a struct is its members in declaration order, little-endian,
  without gaps (the layouts have none), followed by the trailing padding where the struct has
  any; those bytes are not written by the programs and stay a parameter.
\<close>

section \<open>Little-endian words\<close>

primrec le_bytes :: "nat \<Rightarrow> 'a::len word \<Rightarrow> bytes" where
  "le_bytes 0 w = []"
| "le_bytes (Suc n) w = ucast w # le_bytes n (drop_bit 8 w)"

lemma length_le_bytes [simp]: "length (le_bytes n w) = n"
  by (induction n arbitrary: w) simp_all

lemma le_word_step: "ucast (ucast w :: u8) + 256 * take_bit n (drop_bit 8 w) = take_bit (8 + n) w" for w :: "'a::len word"
proof -
  have "ucast (ucast w :: u8) = take_bit 8 w"
    by (rule bit_word_eqI) (auto simp: bit_simps)
  moreover have "256 * take_bit n (drop_bit 8 w) = push_bit 8 (take_bit n (drop_bit 8 w))"
    by (simp add: push_bit_eq_mult)
  moreover have "take_bit 8 w + push_bit 8 (take_bit n (drop_bit 8 w)) = take_bit 8 w OR push_bit 8 (take_bit n (drop_bit 8 w))"
    by (rule disjunctive_add) (auto simp: bit_simps)
  moreover have "take_bit 8 w OR push_bit 8 (take_bit n (drop_bit 8 w)) = take_bit (8 + n) w"
    by (rule bit_word_eqI) (auto simp: bit_simps)
  ultimately show ?thesis by simp
qed

lemma le_word_le_bytes: "le_word (le_bytes n w) = take_bit (8 * n) w" for w :: "'a::len word"
  by (induction n arbitrary: w) (simp_all add: le_word_step algebra_simps)

section \<open>Images of the structs\<close>

definition key_image :: "file_classification_key \<Rightarrow> bytes" where
  "key_image k =
     le_bytes 4 (device_major (mapped_file k)) @ le_bytes 4 (device_minor (mapped_file k)) @
     le_bytes 8 (mf_inode (mapped_file k)) @ le_bytes 8 (ctime_sec k) @ le_bytes 4 (ctime_nsec k) @ le_bytes 4 (fc_pad k)"

definition fork_sample_image :: "fork_sample \<Rightarrow> bytes" where
  "fork_sample_image x =
     le_bytes 4 (kind x) @ le_bytes 4 (fk_pad x) @ le_bytes 8 (fk_ts_ns x) @ le_bytes 8 (fk_cgroup_id x) @
     le_bytes 8 (child_start_boottime x) @ le_bytes 8 (parent_start_boottime x) @
     le_bytes 4 (child_tgid x) @ le_bytes 4 (parent_tgid x)"

definition cgroup_mkdir_sample_image :: "cgroup_mkdir_sample \<Rightarrow> bytes" where
  "cgroup_mkdir_sample_image x =
     le_bytes 4 (kind x) @ le_bytes 1 (staging_matched x) @ le_bytes 1 (cm_pad0 x) @
     le_bytes 2 (cm_pad1 x) @ le_bytes 8 (cm_cgroup_id x) @ le_bytes 8 (parent_cgroup_id x) @
     le_bytes 8 (cm_ts_ns x) @ cm_path x"

definition cgroup_attach_sample_image :: "cgroup_attach_sample \<Rightarrow> bytes" where
  "cgroup_attach_sample_image x =
     le_bytes 4 (kind x) @ le_bytes 4 (ca_pad x) @ le_bytes 8 (ca_ts_ns x) @
     le_bytes 8 (source_cgroup_id x) @ le_bytes 8 (destination_cgroup_id x) @ le_bytes 4 (ca_tgid x) @
     le_bytes 4 (ca_pad2 x)"

definition cgroup_rmdir_sample_image :: "cgroup_rmdir_sample \<Rightarrow> bytes" where
  "cgroup_rmdir_sample_image x =
     le_bytes 4 (kind x) @ le_bytes 4 (cr_pad x) @ le_bytes 8 (cr_cgroup_id x) @ le_bytes 8 (cr_ts_ns x)"

definition exec_sample_image :: "exec_sample \<Rightarrow> bytes" where
  "exec_sample_image x =
     le_bytes 4 (kind x) @ le_bytes 1 (argv_truncated x) @ le_bytes 1 (argv_faulted x) @
     le_bytes 2 (ex_pad0 x) @ le_bytes 8 (ts_ns x) @ le_bytes 8 (cgroup_id x) @
     le_bytes 8 (start_boottime x) @ le_bytes 4 (tgid x) @ le_bytes 1 (is_memfd x) @ ex_pad2 x @
     le_bytes 4 (argc x) @ le_bytes 4 (argv_blob_len x) @ exec_path x @ argv_blob x"

definition net_v4_sample_image :: "net_v4_sample \<Rightarrow> bytes" where
  "net_v4_sample_image x =
     le_bytes 4 (kind x) @ le_bytes 1 (n4_protocol x) @ le_bytes 1 (n4_blocked x) @
     le_bytes 2 (n4_pad0 x) @ le_bytes 8 (ts_ns x) @ le_bytes 8 (cgroup_id x) @
     le_bytes 8 (start_boottime x) @ le_bytes 4 (tgid x) @ le_bytes 4 (n4_pad1 x) @ n4_remote_ip x @
     le_bytes 2 (n4_remote_port x) @ le_bytes 2 (n4_pad2 x)"

definition net_v6_sample_image :: "net_v6_sample \<Rightarrow> bytes" where
  "net_v6_sample_image x =
     le_bytes 4 (kind x) @ le_bytes 1 (n6_protocol x) @ le_bytes 1 (n6_blocked x) @
     le_bytes 2 (n6_pad0 x) @ le_bytes 8 (ts_ns x) @ le_bytes 8 (cgroup_id x) @
     le_bytes 8 (start_boottime x) @ le_bytes 4 (tgid x) @ le_bytes 4 (n6_pad1 x) @ n6_remote_ip x @
     le_bytes 2 (n6_remote_port x) @ le_bytes 2 (n6_pad2 x)"

definition file_open_sample_image :: "file_open_sample \<Rightarrow> bytes" where
  "file_open_sample_image x =
     le_bytes 4 (kind x) @ le_bytes 1 (is_write x) @ le_bytes 1 (is_read x) @
     le_bytes 1 (fo_path_truncated x) @ le_bytes 1 (fo_pad0 x) @ le_bytes 8 (ts_ns x) @
     le_bytes 8 (cgroup_id x) @ le_bytes 8 (start_boottime x) @ le_bytes 4 (tgid x) @
     le_bytes 4 (fo_flags x) @ fo_path x"

definition file_remove_sample_image :: "file_remove_sample \<Rightarrow> bytes" where
  "file_remove_sample_image x =
     le_bytes 4 (kind x) @ le_bytes 1 (is_folder x) @ le_bytes 1 (fr_path_truncated x) @
     le_bytes 2 (fr_path_offset x) @ le_bytes 8 (ts_ns x) @ le_bytes 8 (cgroup_id x) @
     le_bytes 8 (start_boottime x) @ le_bytes 4 (tgid x) @ le_bytes 4 (fr_pad x) @ fr_path x"

definition file_move_sample_image :: "file_move_sample \<Rightarrow> bytes" where
  "file_move_sample_image x =
     le_bytes 4 (kind x) @ le_bytes 1 (from_truncated x) @ le_bytes 1 (to_truncated x) @
     le_bytes 2 (from_offset x) @ le_bytes 2 (to_offset x) @ le_bytes 2 (fm_pad0 x) @
     le_bytes 4 (fm_pad1 x) @ le_bytes 8 (ts_ns x) @ le_bytes 8 (cgroup_id x) @
     le_bytes 8 (start_boottime x) @ le_bytes 4 (tgid x) @ le_bytes 4 (fm_pad2 x) @ from_path x @ to_path x"

definition file_link_sample_image :: "file_link_sample \<Rightarrow> bytes" where
  "file_link_sample_image x =
     le_bytes 4 (kind x) @ le_bytes 1 (is_hardlink x) @ le_bytes 1 (is_symlink x) @
     le_bytes 1 (created_truncated x) @ le_bytes 1 (existing_truncated x) @
     le_bytes 2 (created_offset x) @ le_bytes 2 (existing_offset x) @ le_bytes 4 (fl_pad0 x) @
     le_bytes 8 (ts_ns x) @ le_bytes 8 (cgroup_id x) @ le_bytes 8 (start_boottime x) @
     le_bytes 4 (tgid x) @ le_bytes 4 (fl_pad1 x) @ created_path x @ existing_path x"

definition dns_sample_image :: "dns_sample \<Rightarrow> bytes" where
  "dns_sample_image x =
     le_bytes 4 (kind x) @ le_bytes 1 (dn_source x) @ le_bytes 1 (dn_family x) @ le_bytes 2 (dn_pad0 x) @
     le_bytes 2 (dport x) @ le_bytes 2 (dn_pad1 x) @ le_bytes 4 (payload_len x) @ le_bytes 8 (ts_ns x) @
     le_bytes 8 (cgroup_id x) @ le_bytes 8 (start_boottime x) @ le_bytes 4 (tgid x) @
     le_bytes 4 (dn_pad2 x) @ daddr_v4 x @ daddr_v6 x @ payload x"

definition unix_socket_connect_sample_image :: "unix_socket_connect_sample \<Rightarrow> bytes" where
  "unix_socket_connect_sample_image x =
     le_bytes 4 (kind x) @ le_bytes 4 (sun_path_len x) @ le_bytes 8 (ts_ns x) @ le_bytes 8 (cgroup_id x) @
     le_bytes 8 (start_boottime x) @ le_bytes 4 (tgid x) @ le_bytes 1 (socket_type x) @
     le_bytes 1 (is_abstract x) @ le_bytes 1 (sun_path_truncated x) @ le_bytes 1 (cwd_truncated x) @
     le_bytes 1 (cwd_unavailable x) @ le_bytes 1 (us_pad0 x) @ le_bytes 2 (cwd_offset x) @ sun_path x @
     cwd x"

definition mount_sample_image :: "mount_sample \<Rightarrow> bytes" where
  "mount_sample_image x =
     le_bytes 4 (kind x) @ le_bytes 1 (source_truncated x) @ le_bytes 1 (target_truncated x) @
     le_bytes 2 (source_offset x) @ le_bytes 2 (target_offset x) @ le_bytes 2 (pad_offsets x) @
     le_bytes 4 (mt_pad0 x) @ le_bytes 8 (ts_ns x) @ le_bytes 8 (cgroup_id x) @
     le_bytes 8 (start_boottime x) @ le_bytes 4 (tgid x) @ le_bytes 4 (mt_pad1 x) @ source_path x @
     target_path x"

definition http_request_sample_image :: "http_request_sample \<Rightarrow> bytes" where
  "http_request_sample_image x =
     le_bytes 4 (kind x) @ le_bytes 1 (hr_source x) @ hr_pad0 x @ le_bytes 8 (ts_ns x) @
     le_bytes 8 (cgroup_id x) @ le_bytes 8 (start_boottime x) @ le_bytes 4 (tgid x) @
     le_bytes 4 (hr_pad1 x) @ hr_method x @ hr_path x @ hr_host x"

definition http_uprobe_attach_candidate_sample_image :: "http_uprobe_attach_candidate_sample \<Rightarrow> bytes" where
  "http_uprobe_attach_candidate_sample_image x =
     le_bytes 4 (kind x) @ le_bytes 4 (ac_tgid x) @ le_bytes 8 (ac_vm_start x) @
     le_bytes 8 (ac_vm_end x) @ key_image (ac_file x)"

text \<open>The record: the image and the trailing padding.\<close>

fun sample_image :: "bytes \<Rightarrow> sample \<Rightarrow> bytes" where
  "sample_image tail (ForkSample x) = fork_sample_image x"
| "sample_image tail (CgroupMkdirSample x) = cgroup_mkdir_sample_image x"
| "sample_image tail (CgroupAttachSample x) = cgroup_attach_sample_image x"
| "sample_image tail (CgroupRmdirSample x) = cgroup_rmdir_sample_image x"
| "sample_image tail (ExecSample x) = exec_sample_image x"
| "sample_image tail (NetV4Sample x) = net_v4_sample_image x"
| "sample_image tail (NetV6Sample x) = net_v6_sample_image x @ take 4 (tail @ replicate 4 0)"
| "sample_image tail (FileOpenSample x) = file_open_sample_image x"
| "sample_image tail (FileRemoveSample x) = file_remove_sample_image x"
| "sample_image tail (FileMoveSample x) = file_move_sample_image x"
| "sample_image tail (FileLinkSample x) = file_link_sample_image x"
| "sample_image tail (DnsSample x) = dns_sample_image x @ take 4 (tail @ replicate 4 0)"
| "sample_image tail (UnixSocketConnectSample x) = unix_socket_connect_sample_image x"
| "sample_image tail (MountSample x) = mount_sample_image x"
| "sample_image tail (HttpRequestSample x) = http_request_sample_image x"
| "sample_image tail (HttpUprobeAttachCandidateSample x) = http_uprobe_attach_candidate_sample_image x"

section \<open>Reading the structs\<close>

definition rd_word :: "nat \<Rightarrow> bytes \<Rightarrow> 'a::len word \<times> bytes" where
  "rd_word n bs = (le_word (take n bs), drop n bs)"

definition rd_bytes :: "nat \<Rightarrow> bytes \<Rightarrow> bytes \<times> bytes" where
  "rd_bytes n bs = (take n bs, drop n bs)"

definition rd_key :: "bytes \<Rightarrow> file_classification_key \<times> bytes" where
  "rd_key bs =
     (let (major, bs) = rd_word 4 bs; (minor, bs) = rd_word 4 bs; (ino, bs) = rd_word 8 bs;
          (sec, bs) = rd_word 8 bs; (nsec, bs) = rd_word 4 bs; (pad, bs) = rd_word 4 bs
      in (\<lparr>mapped_file = \<lparr>device_major = major, device_minor = minor, mf_inode = ino\<rparr>,
           ctime_sec = sec, ctime_nsec = nsec, fc_pad = pad\<rparr>, bs))"

definition read_fork_sample :: "bytes \<Rightarrow> fork_sample" where
  "read_fork_sample bs =
     (let (x0, bs) = rd_word 4 bs; (x1, bs) = rd_word 4 bs; (x2, bs) = rd_word 8 bs;
          (x3, bs) = rd_word 8 bs; (x4, bs) = rd_word 8 bs; (x5, bs) = rd_word 8 bs;
          (x6, bs) = rd_word 4 bs; (x7, bs) = rd_word 4 bs
      in \<lparr>kind = x0, fk_pad = x1, fk_ts_ns = x2, fk_cgroup_id = x3, child_start_boottime = x4,
      parent_start_boottime = x5, child_tgid = x6, parent_tgid = x7\<rparr>)"

definition read_cgroup_mkdir_sample :: "bytes \<Rightarrow> cgroup_mkdir_sample" where
  "read_cgroup_mkdir_sample bs =
     (let (x0, bs) = rd_word 4 bs; (x1, bs) = rd_word 1 bs; (x2, bs) = rd_word 1 bs;
          (x3, bs) = rd_word 2 bs; (x4, bs) = rd_word 8 bs; (x5, bs) = rd_word 8 bs;
          (x6, bs) = rd_word 8 bs; (x7, bs) = rd_bytes CGROUP_PATH_LEN bs
      in \<lparr>kind = x0, staging_matched = x1, cm_pad0 = x2, cm_pad1 = x3, cm_cgroup_id = x4,
      parent_cgroup_id = x5, cm_ts_ns = x6, cm_path = x7\<rparr>)"

definition read_cgroup_attach_sample :: "bytes \<Rightarrow> cgroup_attach_sample" where
  "read_cgroup_attach_sample bs =
     (let (x0, bs) = rd_word 4 bs; (x1, bs) = rd_word 4 bs; (x2, bs) = rd_word 8 bs;
          (x3, bs) = rd_word 8 bs; (x4, bs) = rd_word 8 bs; (x5, bs) = rd_word 4 bs;
          (x6, bs) = rd_word 4 bs
      in \<lparr>kind = x0, ca_pad = x1, ca_ts_ns = x2, source_cgroup_id = x3, destination_cgroup_id = x4,
      ca_tgid = x5, ca_pad2 = x6\<rparr>)"

definition read_cgroup_rmdir_sample :: "bytes \<Rightarrow> cgroup_rmdir_sample" where
  "read_cgroup_rmdir_sample bs =
     (let (x0, bs) = rd_word 4 bs; (x1, bs) = rd_word 4 bs; (x2, bs) = rd_word 8 bs;
          (x3, bs) = rd_word 8 bs
      in \<lparr>kind = x0, cr_pad = x1, cr_cgroup_id = x2, cr_ts_ns = x3\<rparr>)"

definition read_exec_sample :: "bytes \<Rightarrow> exec_sample" where
  "read_exec_sample bs =
     (let (x0, bs) = rd_word 4 bs; (x1, bs) = rd_word 1 bs; (x2, bs) = rd_word 1 bs;
          (x3, bs) = rd_word 2 bs; (x4, bs) = rd_word 8 bs; (x5, bs) = rd_word 8 bs;
          (x6, bs) = rd_word 8 bs; (x7, bs) = rd_word 4 bs; (x8, bs) = rd_word 1 bs;
          (x9, bs) = rd_bytes 3 bs; (x10, bs) = rd_word 4 bs; (x11, bs) = rd_word 4 bs;
          (x12, bs) = rd_bytes EXEC_PATH_LEN bs; (x13, bs) = rd_bytes ARGV_BLOB_LEN bs
      in \<lparr>kind = x0, ts_ns = x4, cgroup_id = x5, start_boottime = x6, tgid = x7, argv_truncated = x1,
      argv_faulted = x2, ex_pad0 = x3, is_memfd = x8, ex_pad2 = x9, argc = x10, argv_blob_len = x11,
      exec_path = x12, argv_blob = x13\<rparr>)"

definition read_net_v4_sample :: "bytes \<Rightarrow> net_v4_sample" where
  "read_net_v4_sample bs =
     (let (x0, bs) = rd_word 4 bs; (x1, bs) = rd_word 1 bs; (x2, bs) = rd_word 1 bs;
          (x3, bs) = rd_word 2 bs; (x4, bs) = rd_word 8 bs; (x5, bs) = rd_word 8 bs;
          (x6, bs) = rd_word 8 bs; (x7, bs) = rd_word 4 bs; (x8, bs) = rd_word 4 bs;
          (x9, bs) = rd_bytes 4 bs; (x10, bs) = rd_word 2 bs; (x11, bs) = rd_word 2 bs
      in \<lparr>kind = x0, ts_ns = x4, cgroup_id = x5, start_boottime = x6, tgid = x7, n4_protocol = x1,
      n4_blocked = x2, n4_pad0 = x3, n4_pad1 = x8, n4_remote_ip = x9, n4_remote_port = x10, n4_pad2 = x11\<rparr>)"

definition read_net_v6_sample :: "bytes \<Rightarrow> net_v6_sample" where
  "read_net_v6_sample bs =
     (let (x0, bs) = rd_word 4 bs; (x1, bs) = rd_word 1 bs; (x2, bs) = rd_word 1 bs;
          (x3, bs) = rd_word 2 bs; (x4, bs) = rd_word 8 bs; (x5, bs) = rd_word 8 bs;
          (x6, bs) = rd_word 8 bs; (x7, bs) = rd_word 4 bs; (x8, bs) = rd_word 4 bs;
          (x9, bs) = rd_bytes 16 bs; (x10, bs) = rd_word 2 bs; (x11, bs) = rd_word 2 bs
      in \<lparr>kind = x0, ts_ns = x4, cgroup_id = x5, start_boottime = x6, tgid = x7, n6_protocol = x1,
      n6_blocked = x2, n6_pad0 = x3, n6_pad1 = x8, n6_remote_ip = x9, n6_remote_port = x10, n6_pad2 = x11\<rparr>)"

definition read_file_open_sample :: "bytes \<Rightarrow> file_open_sample" where
  "read_file_open_sample bs =
     (let (x0, bs) = rd_word 4 bs; (x1, bs) = rd_word 1 bs; (x2, bs) = rd_word 1 bs;
          (x3, bs) = rd_word 1 bs; (x4, bs) = rd_word 1 bs; (x5, bs) = rd_word 8 bs;
          (x6, bs) = rd_word 8 bs; (x7, bs) = rd_word 8 bs; (x8, bs) = rd_word 4 bs;
          (x9, bs) = rd_word 4 bs; (x10, bs) = rd_bytes FILE_PATH_LEN bs
      in \<lparr>kind = x0, ts_ns = x5, cgroup_id = x6, start_boottime = x7, tgid = x8, is_write = x1, is_read = x2,
      fo_path_truncated = x3, fo_pad0 = x4, fo_flags = x9, fo_path = x10\<rparr>)"

definition read_file_remove_sample :: "bytes \<Rightarrow> file_remove_sample" where
  "read_file_remove_sample bs =
     (let (x0, bs) = rd_word 4 bs; (x1, bs) = rd_word 1 bs; (x2, bs) = rd_word 1 bs;
          (x3, bs) = rd_word 2 bs; (x4, bs) = rd_word 8 bs; (x5, bs) = rd_word 8 bs;
          (x6, bs) = rd_word 8 bs; (x7, bs) = rd_word 4 bs; (x8, bs) = rd_word 4 bs;
          (x9, bs) = rd_bytes FILE_PATH_LEN bs
      in \<lparr>kind = x0, ts_ns = x4, cgroup_id = x5, start_boottime = x6, tgid = x7, is_folder = x1,
      fr_path_truncated = x2, fr_path_offset = x3, fr_pad = x8, fr_path = x9\<rparr>)"

definition read_file_move_sample :: "bytes \<Rightarrow> file_move_sample" where
  "read_file_move_sample bs =
     (let (x0, bs) = rd_word 4 bs; (x1, bs) = rd_word 1 bs; (x2, bs) = rd_word 1 bs;
          (x3, bs) = rd_word 2 bs; (x4, bs) = rd_word 2 bs; (x5, bs) = rd_word 2 bs;
          (x6, bs) = rd_word 4 bs; (x7, bs) = rd_word 8 bs; (x8, bs) = rd_word 8 bs;
          (x9, bs) = rd_word 8 bs; (x10, bs) = rd_word 4 bs; (x11, bs) = rd_word 4 bs;
          (x12, bs) = rd_bytes FILE_PATH_LEN bs; (x13, bs) = rd_bytes FILE_PATH_LEN bs
      in \<lparr>kind = x0, ts_ns = x7, cgroup_id = x8, start_boottime = x9, tgid = x10, from_truncated = x1,
      to_truncated = x2, from_offset = x3, to_offset = x4, fm_pad0 = x5, fm_pad1 = x6, fm_pad2 = x11,
      from_path = x12, to_path = x13\<rparr>)"

definition read_file_link_sample :: "bytes \<Rightarrow> file_link_sample" where
  "read_file_link_sample bs =
     (let (x0, bs) = rd_word 4 bs; (x1, bs) = rd_word 1 bs; (x2, bs) = rd_word 1 bs;
          (x3, bs) = rd_word 1 bs; (x4, bs) = rd_word 1 bs; (x5, bs) = rd_word 2 bs;
          (x6, bs) = rd_word 2 bs; (x7, bs) = rd_word 4 bs; (x8, bs) = rd_word 8 bs;
          (x9, bs) = rd_word 8 bs; (x10, bs) = rd_word 8 bs; (x11, bs) = rd_word 4 bs;
          (x12, bs) = rd_word 4 bs; (x13, bs) = rd_bytes FILE_PATH_LEN bs;
          (x14, bs) = rd_bytes FILE_PATH_LEN bs
      in \<lparr>kind = x0, ts_ns = x8, cgroup_id = x9, start_boottime = x10, tgid = x11, is_hardlink = x1,
      is_symlink = x2, created_truncated = x3, existing_truncated = x4, created_offset = x5,
      existing_offset = x6, fl_pad0 = x7, fl_pad1 = x12, created_path = x13, existing_path = x14\<rparr>)"

definition read_dns_sample :: "bytes \<Rightarrow> dns_sample" where
  "read_dns_sample bs =
     (let (x0, bs) = rd_word 4 bs; (x1, bs) = rd_word 1 bs; (x2, bs) = rd_word 1 bs;
          (x3, bs) = rd_word 2 bs; (x4, bs) = rd_word 2 bs; (x5, bs) = rd_word 2 bs;
          (x6, bs) = rd_word 4 bs; (x7, bs) = rd_word 8 bs; (x8, bs) = rd_word 8 bs;
          (x9, bs) = rd_word 8 bs; (x10, bs) = rd_word 4 bs; (x11, bs) = rd_word 4 bs;
          (x12, bs) = rd_bytes 4 bs; (x13, bs) = rd_bytes 16 bs; (x14, bs) = rd_bytes DNS_PAYLOAD_LEN bs
      in \<lparr>kind = x0, ts_ns = x7, cgroup_id = x8, start_boottime = x9, tgid = x10, dn_source = x1,
      dn_family = x2, dn_pad0 = x3, dport = x4, dn_pad1 = x5, payload_len = x6, dn_pad2 = x11,
      daddr_v4 = x12, daddr_v6 = x13, payload = x14\<rparr>)"

definition read_unix_socket_connect_sample :: "bytes \<Rightarrow> unix_socket_connect_sample" where
  "read_unix_socket_connect_sample bs =
     (let (x0, bs) = rd_word 4 bs; (x1, bs) = rd_word 4 bs; (x2, bs) = rd_word 8 bs;
          (x3, bs) = rd_word 8 bs; (x4, bs) = rd_word 8 bs; (x5, bs) = rd_word 4 bs;
          (x6, bs) = rd_word 1 bs; (x7, bs) = rd_word 1 bs; (x8, bs) = rd_word 1 bs;
          (x9, bs) = rd_word 1 bs; (x10, bs) = rd_word 1 bs; (x11, bs) = rd_word 1 bs;
          (x12, bs) = rd_word 2 bs; (x13, bs) = rd_bytes UNIX_SOCKET_SUN_PATH_LEN bs;
          (x14, bs) = rd_bytes FILE_PATH_LEN bs
      in \<lparr>kind = x0, ts_ns = x2, cgroup_id = x3, start_boottime = x4, tgid = x5, sun_path_len = x1,
      socket_type = x6, is_abstract = x7, sun_path_truncated = x8, cwd_truncated = x9,
      cwd_unavailable = x10, us_pad0 = x11, cwd_offset = x12, sun_path = x13, cwd = x14\<rparr>)"

definition read_mount_sample :: "bytes \<Rightarrow> mount_sample" where
  "read_mount_sample bs =
     (let (x0, bs) = rd_word 4 bs; (x1, bs) = rd_word 1 bs; (x2, bs) = rd_word 1 bs;
          (x3, bs) = rd_word 2 bs; (x4, bs) = rd_word 2 bs; (x5, bs) = rd_word 2 bs;
          (x6, bs) = rd_word 4 bs; (x7, bs) = rd_word 8 bs; (x8, bs) = rd_word 8 bs;
          (x9, bs) = rd_word 8 bs; (x10, bs) = rd_word 4 bs; (x11, bs) = rd_word 4 bs;
          (x12, bs) = rd_bytes FILE_PATH_LEN bs; (x13, bs) = rd_bytes FILE_PATH_LEN bs
      in \<lparr>kind = x0, ts_ns = x7, cgroup_id = x8, start_boottime = x9, tgid = x10, source_truncated = x1,
      target_truncated = x2, source_offset = x3, target_offset = x4, pad_offsets = x5, mt_pad0 = x6,
      mt_pad1 = x11, source_path = x12, target_path = x13\<rparr>)"

definition read_http_request_sample :: "bytes \<Rightarrow> http_request_sample" where
  "read_http_request_sample bs =
     (let (x0, bs) = rd_word 4 bs; (x1, bs) = rd_word 1 bs; (x2, bs) = rd_bytes 3 bs;
          (x3, bs) = rd_word 8 bs; (x4, bs) = rd_word 8 bs; (x5, bs) = rd_word 8 bs;
          (x6, bs) = rd_word 4 bs; (x7, bs) = rd_word 4 bs; (x8, bs) = rd_bytes HTTP_METHOD_LEN bs;
          (x9, bs) = rd_bytes HTTP_PATH_LEN bs; (x10, bs) = rd_bytes HTTP_HOST_LEN bs
      in \<lparr>kind = x0, ts_ns = x3, cgroup_id = x4, start_boottime = x5, tgid = x6, hr_source = x1, hr_pad0 = x2,
      hr_pad1 = x7, hr_method = x8, hr_path = x9, hr_host = x10\<rparr>)"

definition read_http_uprobe_attach_candidate_sample :: "bytes \<Rightarrow> http_uprobe_attach_candidate_sample" where
  "read_http_uprobe_attach_candidate_sample bs =
     (let (x0, bs) = rd_word 4 bs; (x1, bs) = rd_word 4 bs; (x2, bs) = rd_word 8 bs;
          (x3, bs) = rd_word 8 bs; (x4, bs) = rd_key bs
      in \<lparr>kind = x0, ac_tgid = x1, ac_vm_start = x2, ac_vm_end = x3, ac_file = x4\<rparr>)"

section \<open>Reading back an image\<close>

lemma take_bit_whole: "LENGTH('a) \<le> n \<Longrightarrow> take_bit n w = w" for w :: "'a::len word"
  by (rule bit_word_eqI) (auto simp: bit_simps dest: bit_imp_le_length)

lemma rd_word_le_bytes [simp]:
  "rd_word 1 (le_bytes 1 w1 @ bs) = (w1, bs)" "rd_word 2 (le_bytes 2 w2 @ bs) = (w2, bs)"
  "rd_word 4 (le_bytes 4 w4 @ bs) = (w4, bs)" "rd_word 8 (le_bytes 8 w8 @ bs) = (w8, bs)"
  "rd_word 1 (le_bytes 1 w1) = (w1, [])" "rd_word 2 (le_bytes 2 w2) = (w2, [])"
  "rd_word 4 (le_bytes 4 w4) = (w4, [])" "rd_word 8 (le_bytes 8 w8) = (w8, [])"
  for w1 :: u8 and w2 :: u16 and w4 :: u32 and w8 :: u64
  by (simp_all add: rd_word_def le_word_le_bytes take_bit_whole del: le_bytes.simps)

lemma rd_bytes_append [simp]:
  "length xs = n \<Longrightarrow> rd_bytes n (xs @ bs) = (xs, bs)" "length xs = n \<Longrightarrow> rd_bytes n xs = (xs, [])"
  by (simp_all add: rd_bytes_def)

lemma rd_key_image [simp]: "rd_key (key_image k @ bs) = (k, bs)" "rd_key (key_image k) = (k, [])"
  by (simp_all add: rd_key_def key_image_def Let_def)

lemmas image_defs =
  fork_sample_image_def cgroup_mkdir_sample_image_def cgroup_attach_sample_image_def
  cgroup_rmdir_sample_image_def exec_sample_image_def net_v4_sample_image_def net_v6_sample_image_def
  file_open_sample_image_def file_remove_sample_image_def file_move_sample_image_def
  file_link_sample_image_def dns_sample_image_def unix_socket_connect_sample_image_def
  mount_sample_image_def http_request_sample_image_def http_uprobe_attach_candidate_sample_image_def
  read_fork_sample_def read_cgroup_mkdir_sample_def read_cgroup_attach_sample_def
  read_cgroup_rmdir_sample_def read_exec_sample_def read_net_v4_sample_def read_net_v6_sample_def
  read_file_open_sample_def read_file_remove_sample_def read_file_move_sample_def read_file_link_sample_def
  read_dns_sample_def read_unix_socket_connect_sample_def read_mount_sample_def
  read_http_request_sample_def read_http_uprobe_attach_candidate_sample_def

lemma read_image:
  "read_fork_sample (fork_sample_image x0 @ bs) = x0"
  "sample_wf (CgroupMkdirSample x1) \<Longrightarrow> read_cgroup_mkdir_sample (cgroup_mkdir_sample_image x1 @ bs) = x1"
  "read_cgroup_attach_sample (cgroup_attach_sample_image x2 @ bs) = x2"
  "read_cgroup_rmdir_sample (cgroup_rmdir_sample_image x3 @ bs) = x3"
  "sample_wf (ExecSample x4) \<Longrightarrow> read_exec_sample (exec_sample_image x4 @ bs) = x4"
  "sample_wf (NetV4Sample x5) \<Longrightarrow> read_net_v4_sample (net_v4_sample_image x5 @ bs) = x5"
  "sample_wf (NetV6Sample x6) \<Longrightarrow> read_net_v6_sample (net_v6_sample_image x6 @ bs) = x6"
  "sample_wf (FileOpenSample x7) \<Longrightarrow> read_file_open_sample (file_open_sample_image x7 @ bs) = x7"
  "sample_wf (FileRemoveSample x8) \<Longrightarrow> read_file_remove_sample (file_remove_sample_image x8 @ bs) = x8"
  "sample_wf (FileMoveSample x9) \<Longrightarrow> read_file_move_sample (file_move_sample_image x9 @ bs) = x9"
  "sample_wf (FileLinkSample x10) \<Longrightarrow> read_file_link_sample (file_link_sample_image x10 @ bs) = x10"
  "sample_wf (DnsSample x11) \<Longrightarrow> read_dns_sample (dns_sample_image x11 @ bs) = x11"
  "sample_wf (UnixSocketConnectSample x12) \<Longrightarrow> read_unix_socket_connect_sample (unix_socket_connect_sample_image x12 @ bs) = x12"
  "sample_wf (MountSample x13) \<Longrightarrow> read_mount_sample (mount_sample_image x13 @ bs) = x13"
  "sample_wf (HttpRequestSample x14) \<Longrightarrow> read_http_request_sample (http_request_sample_image x14 @ bs) = x14"
  "read_http_uprobe_attach_candidate_sample (http_uprobe_attach_candidate_sample_image x15 @ bs) = x15"
  by (simp_all add: image_defs Let_def del: le_bytes.simps One_nat_def)

lemma length_sample_image: "sample_wf x \<Longrightarrow> length (sample_image tail x) = sizeof_sample (struct_kind x)"
  unfolding sizeof_sample_go by (cases x) (simp_all add: image_defs key_image_def)

lemma kind_first: "take 4 (sample_image tail x) = le_bytes 4 (stored_kind x)"
  by (cases x) (simp_all add: image_defs)

text \<open>Conversely, a record of the right length is the image of what is read from it.\<close>

lemma le_bytes_take_bit: "8 * m \<le> k \<Longrightarrow> le_bytes m (take_bit k w) = le_bytes m w" for w :: "'a::len word"
proof (induction m arbitrary: k w)
  case (Suc m)
  have "ucast (take_bit k w) = (ucast w :: u8)"
    by (rule bit_word_eqI) (use Suc.prems in \<open>auto simp: bit_simps\<close>)
  moreover have "drop_bit 8 (take_bit k w) = take_bit (k - 8) (drop_bit 8 w)"
    by (rule bit_word_eqI) (use Suc.prems in \<open>auto simp: bit_simps\<close>)
  ultimately show ?case using Suc by simp
qed simp

lemma le_word_Cons_parts:
  assumes "8 \<le> LENGTH('a)"
  shows "ucast (ucast b + 256 * w :: 'a::len word) = (b :: u8)"
    "drop_bit 8 (ucast b + 256 * w :: 'a word) = take_bit (LENGTH('a) - 8) w"
proof -
  have "256 * w = push_bit 8 w" by (simp add: push_bit_eq_mult)
  moreover have "ucast b + push_bit 8 w = ucast b OR push_bit 8 w"
    by (rule disjunctive_add) (auto simp: bit_simps dest: bit_imp_le_length)
  ultimately have w: "ucast b + 256 * w = ucast b OR push_bit 8 w" by simp
  show "ucast (ucast b + 256 * w :: 'a word) = b" unfolding w
    by (rule bit_word_eqI) (use assms in \<open>auto simp: bit_simps\<close>)
  show "drop_bit 8 (ucast b + 256 * w :: 'a word) = take_bit (LENGTH('a) - 8) w" unfolding w
    by (rule bit_word_eqI) (use assms in \<open>auto simp: bit_simps dest: bit_imp_le_length\<close>)
qed

lemma le_bytes_le_word:
  "length bs = n \<Longrightarrow> 8 * n \<le> LENGTH('a) \<Longrightarrow> le_bytes n (le_word bs :: 'a::len word) = bs"
proof (induction bs arbitrary: n)
  case (Cons b bs)
  then show ?case
    by (cases n) (simp_all add: le_word_Cons_parts le_bytes_take_bit)
qed simp

lemma piece: "m = n + k \<Longrightarrow> take n (drop k raw) @ drop m raw = drop k raw"
  using append_take_drop_id [of n "drop k raw"] by (simp add: add.commute)

lemmas unread = rd_word_def rd_bytes_def rd_key_def key_image_def le_bytes_le_word piece

lemma image_read:
  "length raw = go_sample_size SAMPLE_KIND_FORK \<Longrightarrow> sample_image tail (ForkSample (read_fork_sample raw)) = raw"
  "length raw = go_sample_size SAMPLE_KIND_CGROUP_MKDIR \<Longrightarrow> sample_image tail (CgroupMkdirSample (read_cgroup_mkdir_sample raw)) = raw"
  "length raw = go_sample_size SAMPLE_KIND_CGROUP_ATTACH \<Longrightarrow> sample_image tail (CgroupAttachSample (read_cgroup_attach_sample raw)) = raw"
  "length raw = go_sample_size SAMPLE_KIND_CGROUP_RMDIR \<Longrightarrow> sample_image tail (CgroupRmdirSample (read_cgroup_rmdir_sample raw)) = raw"
  "length raw = go_sample_size SAMPLE_KIND_EXEC \<Longrightarrow> sample_image tail (ExecSample (read_exec_sample raw)) = raw"
  "length raw = go_sample_size SAMPLE_KIND_NETWORK_CONNECT_V4 \<Longrightarrow> sample_image tail (NetV4Sample (read_net_v4_sample raw)) = raw"
  "length raw = go_sample_size SAMPLE_KIND_NETWORK_CONNECT_V6 \<Longrightarrow> sample_image (drop (go_sample_size SAMPLE_KIND_NETWORK_CONNECT_V6 - 4) raw) (NetV6Sample (read_net_v6_sample raw)) = raw"
  "length raw = go_sample_size SAMPLE_KIND_FILE_OPEN \<Longrightarrow> sample_image tail (FileOpenSample (read_file_open_sample raw)) = raw"
  "length raw = go_sample_size SAMPLE_KIND_FILE_REMOVE \<Longrightarrow> sample_image tail (FileRemoveSample (read_file_remove_sample raw)) = raw"
  "length raw = go_sample_size SAMPLE_KIND_FILE_MOVE \<Longrightarrow> sample_image tail (FileMoveSample (read_file_move_sample raw)) = raw"
  "length raw = go_sample_size SAMPLE_KIND_FILE_LINK \<Longrightarrow> sample_image tail (FileLinkSample (read_file_link_sample raw)) = raw"
  "length raw = go_sample_size SAMPLE_KIND_DNS \<Longrightarrow> sample_image (drop (go_sample_size SAMPLE_KIND_DNS - 4) raw) (DnsSample (read_dns_sample raw)) = raw"
  "length raw = go_sample_size SAMPLE_KIND_UNIX_SOCKET_CONNECT \<Longrightarrow> sample_image tail (UnixSocketConnectSample (read_unix_socket_connect_sample raw)) = raw"
  "length raw = go_sample_size SAMPLE_KIND_MOUNT \<Longrightarrow> sample_image tail (MountSample (read_mount_sample raw)) = raw"
  "length raw = go_sample_size SAMPLE_KIND_HTTP_REQUEST \<Longrightarrow> sample_image tail (HttpRequestSample (read_http_request_sample raw)) = raw"
  "length raw = go_sample_size SAMPLE_KIND_HTTP_UPROBE_ATTACH_CANDIDATE \<Longrightarrow> sample_image tail (HttpUprobeAttachCandidateSample (read_http_uprobe_attach_candidate_sample raw)) = raw"
  by (simp_all add: image_defs unread Let_def del: le_bytes.simps One_nat_def)

lemma read_wf:
  "length raw = go_sample_size SAMPLE_KIND_FORK \<Longrightarrow> sample_wf (ForkSample (read_fork_sample raw))"
  "length raw = go_sample_size SAMPLE_KIND_CGROUP_MKDIR \<Longrightarrow> sample_wf (CgroupMkdirSample (read_cgroup_mkdir_sample raw))"
  "length raw = go_sample_size SAMPLE_KIND_CGROUP_ATTACH \<Longrightarrow> sample_wf (CgroupAttachSample (read_cgroup_attach_sample raw))"
  "length raw = go_sample_size SAMPLE_KIND_CGROUP_RMDIR \<Longrightarrow> sample_wf (CgroupRmdirSample (read_cgroup_rmdir_sample raw))"
  "length raw = go_sample_size SAMPLE_KIND_EXEC \<Longrightarrow> sample_wf (ExecSample (read_exec_sample raw))"
  "length raw = go_sample_size SAMPLE_KIND_NETWORK_CONNECT_V4 \<Longrightarrow> sample_wf (NetV4Sample (read_net_v4_sample raw))"
  "length raw = go_sample_size SAMPLE_KIND_NETWORK_CONNECT_V6 \<Longrightarrow> sample_wf (NetV6Sample (read_net_v6_sample raw))"
  "length raw = go_sample_size SAMPLE_KIND_FILE_OPEN \<Longrightarrow> sample_wf (FileOpenSample (read_file_open_sample raw))"
  "length raw = go_sample_size SAMPLE_KIND_FILE_REMOVE \<Longrightarrow> sample_wf (FileRemoveSample (read_file_remove_sample raw))"
  "length raw = go_sample_size SAMPLE_KIND_FILE_MOVE \<Longrightarrow> sample_wf (FileMoveSample (read_file_move_sample raw))"
  "length raw = go_sample_size SAMPLE_KIND_FILE_LINK \<Longrightarrow> sample_wf (FileLinkSample (read_file_link_sample raw))"
  "length raw = go_sample_size SAMPLE_KIND_DNS \<Longrightarrow> sample_wf (DnsSample (read_dns_sample raw))"
  "length raw = go_sample_size SAMPLE_KIND_UNIX_SOCKET_CONNECT \<Longrightarrow> sample_wf (UnixSocketConnectSample (read_unix_socket_connect_sample raw))"
  "length raw = go_sample_size SAMPLE_KIND_MOUNT \<Longrightarrow> sample_wf (MountSample (read_mount_sample raw))"
  "length raw = go_sample_size SAMPLE_KIND_HTTP_REQUEST \<Longrightarrow> sample_wf (HttpRequestSample (read_http_request_sample raw))"
  "length raw = go_sample_size SAMPLE_KIND_HTTP_UPROBE_ATTACH_CANDIDATE \<Longrightarrow> sample_wf (HttpUprobeAttachCandidateSample (read_http_uprobe_attach_candidate_sample raw))"
  by (simp_all add: image_defs rd_word_def rd_bytes_def Let_def)

end
