(* ===== verification/Sample_Decode.thy ===== *)
theory Sample_Decode
  imports Sample_Image Decode_Helpers
begin

text \<open>
  The decoders of userspace, after the \<open>kernel_sample_*_decode_linux.go\<close> files: each checks
  the record length and the kind, reads the generated struct and builds the sample the engine
  works on. \<open>decodeKernelSample\<close> dispatches on the kind;
  \<open>decodeHTTPUprobeAttachCandidate\<close> (\<open>kernelio/http_uprobe_attach_candidate.go\<close>) takes the
  discovery samples out of the stream before that.
\<close>

section \<open>Decoded samples\<close>

record processIdentity =
  PID :: s32
  StartBoottime :: u64

record taskEvent =
  Identity :: processIdentity
  CgroupID :: u64
  TsNs :: u64

record forkSample =
  Child :: processIdentity
  Parent :: processIdentity
  ChildCgroupID :: u64
  fork_TsNs :: u64

record cgroupMkdirSample =
  mkdir_CgroupID :: u64
  ParentCgroupID :: u64
  CgroupPath :: bytes
  mkdir_TsNs :: u64
  StagingMatched :: bool

record cgroupAttachSample =
  attach_Tgid :: s32
  SourceCgroupID :: u64
  DestinationCgroupID :: u64
  attach_TsNs :: u64

record cgroupRmdirSample =
  rmdir_CgroupID :: u64
  rmdir_TsNs :: u64

record execSample = taskEvent +
  ExecPath :: bytes
  Argc :: u32
  ArgvBlob :: bytes
  ArgvTruncated :: bool
  ArgvFaulted :: bool
  IsMemfd :: bool

record netConnectSample = taskEvent +
  RemoteIP :: bytes
  Port :: u16
  Protocol :: u8
  Blocked :: bool

record fileOpenSample = taskEvent +
  open_Path :: bytes
  Flags :: u32
  IsWrite :: bool
  IsRead :: bool
  open_PathTruncated :: bool

record fileRemoveSample = taskEvent +
  remove_Path :: bytes
  IsFolder :: bool
  remove_PathTruncated :: bool

record fileMoveSample = taskEvent +
  FromPath :: bytes
  ToPath :: bytes
  FromTruncated :: bool
  ToTruncated :: bool

record fileLinkSample = taskEvent +
  CreatedPath :: bytes
  ExistingPath :: bytes
  IsHardlink :: bool
  IsSymlink :: bool
  CreatedTruncated :: bool
  ExistingTruncated :: bool

record dnsSample = taskEvent +
  dns_Source :: u8
  Family :: u8
  Dport :: u16
  DaddrV4 :: bytes
  DaddrV6 :: bytes
  Payload :: bytes
  PayloadLen :: u32

record unixSocketConnectSample = taskEvent +
  SunPath :: bytes
  SunPathLen :: u32
  SunPathTruncated :: bool
  Cwd :: bytes
  CwdTruncated :: bool
  CwdUnavailable :: bool
  SocketType :: u8
  IsAbstract :: bool

record mountSample = taskEvent +
  SourcePath :: bytes
  TargetPath :: bytes
  SourceTruncated :: bool
  TargetTruncated :: bool

record httpRequestSample = taskEvent +
  http_Source :: u8
  Method :: bytes
  http_Path :: bytes
  Host :: bytes

record httpUprobeAttachCandidate =
  cand_tgid :: s32
  vmStart :: u64
  vmEnd :: u64
  cand_file :: file_classification_key

text \<open>The two network samples differ in the length of their address only.\<close>

datatype decodedKernelSample =
    Dec_fork forkSample
  | Dec_mkdir cgroupMkdirSample
  | Dec_attach cgroupAttachSample
  | Dec_rmdir cgroupRmdirSample
  | Dec_exec execSample
  | Dec_net_v4 netConnectSample
  | Dec_net_v6 netConnectSample
  | Dec_open fileOpenSample
  | Dec_remove fileRemoveSample
  | Dec_move fileMoveSample
  | Dec_link fileLinkSample
  | Dec_dns dnsSample
  | Dec_unix unixSocketConnectSample
  | Dec_mount mountSample
  | Dec_http httpRequestSample

datatype decode_error =
    Sample_too_short nat
  | Unknown_kind u32
  | Unexpected_size nat
  | Unexpected_kind u32
  | Length_exceeds_buffer u32

section \<open>Decoders\<close>

text \<open>The prologue every decoder starts with, and the identity every task sample has.\<close>

definition read_sample :: "agent_sample_kind \<Rightarrow> (bytes \<Rightarrow> ('b) sample_base_scheme) \<Rightarrow>
    (('b) sample_base_scheme \<Rightarrow> decode_error + 'a) \<Rightarrow> bytes \<Rightarrow> decode_error + 'a" where
  "read_sample k rd build raw =
     (if length raw \<noteq> go_sample_size k then Inl (Unexpected_size (length raw))
      else let sample = rd raw in
        if kind sample \<noteq> kind_value k then Inl (Unexpected_kind (kind sample)) else build sample)"

definition identity_of :: "('b) task_sample_scheme \<Rightarrow> processIdentity" where
  "identity_of sample = \<lparr>PID = tgid sample, StartBoottime = start_boottime sample\<rparr>"

definition fork_of :: "fork_sample \<Rightarrow> forkSample" where
  "fork_of sample =
     \<lparr>Child = \<lparr>PID = child_tgid sample, StartBoottime = child_start_boottime sample\<rparr>,
      Parent = \<lparr>PID = parent_tgid sample, StartBoottime = parent_start_boottime sample\<rparr>,
      ChildCgroupID = fk_cgroup_id sample, fork_TsNs = fk_ts_ns sample\<rparr>"

definition mkdir_of :: "cgroup_mkdir_sample \<Rightarrow> cgroupMkdirSample" where
  "mkdir_of sample =
     \<lparr>mkdir_CgroupID = cm_cgroup_id sample, ParentCgroupID = parent_cgroup_id sample,
      CgroupPath = c_string (cm_path sample), mkdir_TsNs = cm_ts_ns sample,
      StagingMatched = (staging_matched sample \<noteq> 0)\<rparr>"

definition attach_of :: "cgroup_attach_sample \<Rightarrow> cgroupAttachSample" where
  "attach_of sample =
     \<lparr>attach_Tgid = ca_tgid sample, SourceCgroupID = source_cgroup_id sample,
      DestinationCgroupID = destination_cgroup_id sample, attach_TsNs = ca_ts_ns sample\<rparr>"

definition rmdir_of :: "cgroup_rmdir_sample \<Rightarrow> cgroupRmdirSample" where
  "rmdir_of sample = \<lparr>rmdir_CgroupID = cr_cgroup_id sample, rmdir_TsNs = cr_ts_ns sample\<rparr>"

definition exec_of :: "exec_sample \<Rightarrow> bytes \<Rightarrow> execSample" where
  "exec_of sample argvBlob =
     \<lparr>Identity = identity_of sample, CgroupID = cgroup_id sample, TsNs = ts_ns sample,
      ExecPath = c_string (exec_path sample), Argc = argc sample, ArgvBlob = argvBlob,
      ArgvTruncated = (argv_truncated sample \<noteq> 0), ArgvFaulted = (argv_faulted sample \<noteq> 0),
      IsMemfd = (is_memfd sample \<noteq> 0)\<rparr>"

definition net_v4_of :: "net_v4_sample \<Rightarrow> netConnectSample" where
  "net_v4_of sample =
     \<lparr>Identity = identity_of sample, CgroupID = cgroup_id sample, TsNs = ts_ns sample,
      RemoteIP = n4_remote_ip sample, Port = n4_remote_port sample, Protocol = n4_protocol sample,
      Blocked = (n4_blocked sample \<noteq> 0)\<rparr>"

definition net_v6_of :: "net_v6_sample \<Rightarrow> netConnectSample" where
  "net_v6_of sample =
     \<lparr>Identity = identity_of sample, CgroupID = cgroup_id sample, TsNs = ts_ns sample,
      RemoteIP = n6_remote_ip sample, Port = n6_remote_port sample, Protocol = n6_protocol sample,
      Blocked = (n6_blocked sample \<noteq> 0)\<rparr>"

definition open_of :: "file_open_sample \<Rightarrow> fileOpenSample" where
  "open_of sample =
     \<lparr>Identity = identity_of sample, CgroupID = cgroup_id sample, TsNs = ts_ns sample,
      open_Path = c_string (fo_path sample), Flags = fo_flags sample, IsWrite = (is_write sample \<noteq> 0),
      IsRead = (is_read sample \<noteq> 0), open_PathTruncated = (fo_path_truncated sample \<noteq> 0)\<rparr>"

definition remove_of :: "file_remove_sample \<Rightarrow> fileRemoveSample" where
  "remove_of sample =
     \<lparr>Identity = identity_of sample, CgroupID = cgroup_id sample, TsNs = ts_ns sample,
      remove_Path = pathFromBuffer (fr_path sample) (fr_path_offset sample),
      IsFolder = (is_folder sample \<noteq> 0), remove_PathTruncated = (fr_path_truncated sample \<noteq> 0)\<rparr>"

definition move_of :: "file_move_sample \<Rightarrow> fileMoveSample" where
  "move_of sample =
     \<lparr>Identity = identity_of sample, CgroupID = cgroup_id sample, TsNs = ts_ns sample,
      FromPath = pathFromBuffer (from_path sample) (from_offset sample),
      ToPath = pathFromBuffer (to_path sample) (to_offset sample),
      FromTruncated = (from_truncated sample \<noteq> 0), ToTruncated = (to_truncated sample \<noteq> 0)\<rparr>"

definition link_of :: "file_link_sample \<Rightarrow> fileLinkSample" where
  "link_of sample =
     \<lparr>Identity = identity_of sample, CgroupID = cgroup_id sample, TsNs = ts_ns sample,
      CreatedPath = pathFromBuffer (created_path sample) (created_offset sample),
      ExistingPath = pathFromBuffer (existing_path sample) (existing_offset sample),
      IsHardlink = (is_hardlink sample \<noteq> 0), IsSymlink = (is_symlink sample \<noteq> 0),
      CreatedTruncated = (created_truncated sample \<noteq> 0),
      ExistingTruncated = (existing_truncated sample \<noteq> 0)\<rparr>"

text \<open>A payload length beyond the buffer is cut to it.\<close>

definition dns_of :: "dns_sample \<Rightarrow> dnsSample" where
  "dns_of sample =
     (let n = (if unat (payload_len sample) > length (payload sample) then length (payload sample)
               else unat (payload_len sample));
          body = take n (payload sample)
      in \<lparr>Identity = identity_of sample, CgroupID = cgroup_id sample, TsNs = ts_ns sample,
          dns_Source = dn_source sample, Family = dn_family sample, Dport = dport sample,
          DaddrV4 = daddr_v4 sample, DaddrV6 = daddr_v6 sample, Payload = body,
          PayloadLen = of_nat (length body)\<rparr>)"

definition unix_of :: "unix_socket_connect_sample \<Rightarrow> unixSocketConnectSample" where
  "unix_of sample =
     \<lparr>Identity = identity_of sample, CgroupID = cgroup_id sample, TsNs = ts_ns sample,
      SunPath = take (unat (sun_path_len sample)) (sun_path sample), SunPathLen = sun_path_len sample,
      SunPathTruncated = (sun_path_truncated sample \<noteq> 0),
      Cwd = pathFromBuffer (cwd sample) (cwd_offset sample), CwdTruncated = (cwd_truncated sample \<noteq> 0),
      CwdUnavailable = (cwd_unavailable sample \<noteq> 0), SocketType = socket_type sample,
      IsAbstract = (is_abstract sample \<noteq> 0)\<rparr>"

definition mount_of :: "mount_sample \<Rightarrow> mountSample" where
  "mount_of sample =
     \<lparr>Identity = identity_of sample, CgroupID = cgroup_id sample, TsNs = ts_ns sample,
      SourcePath = pathFromBuffer (source_path sample) (source_offset sample),
      TargetPath = pathFromBuffer (target_path sample) (target_offset sample),
      SourceTruncated = (source_truncated sample \<noteq> 0), TargetTruncated = (target_truncated sample \<noteq> 0)\<rparr>"

definition http_of :: "http_request_sample \<Rightarrow> httpRequestSample" where
  "http_of sample =
     \<lparr>Identity = identity_of sample, CgroupID = cgroup_id sample, TsNs = ts_ns sample,
      http_Source = hr_source sample, Method = c_string (hr_method sample),
      http_Path = c_string (hr_path sample), Host = c_string (hr_host sample)\<rparr>"

text \<open>The padding word of the key is not copied: the userspace key has it zero.\<close>

definition candidate_of :: "http_uprobe_attach_candidate_sample \<Rightarrow> httpUprobeAttachCandidate" where
  "candidate_of sample =
     \<lparr>cand_tgid = ac_tgid sample, vmStart = ac_vm_start sample, vmEnd = ac_vm_end sample,
      cand_file = (ac_file sample)\<lparr>fc_pad := 0\<rparr>\<rparr>"

definition decodeForkSample :: "bytes \<Rightarrow> decode_error + forkSample" where
  "decodeForkSample = read_sample SAMPLE_KIND_FORK read_fork_sample (\<lambda>x. Inr (fork_of x))"

definition decodeCgroupMkdirSample :: "bytes \<Rightarrow> decode_error + cgroupMkdirSample" where
  "decodeCgroupMkdirSample = read_sample SAMPLE_KIND_CGROUP_MKDIR read_cgroup_mkdir_sample (\<lambda>x. Inr (mkdir_of x))"

definition decodeCgroupAttachSample :: "bytes \<Rightarrow> decode_error + cgroupAttachSample" where
  "decodeCgroupAttachSample = read_sample SAMPLE_KIND_CGROUP_ATTACH read_cgroup_attach_sample (\<lambda>x. Inr (attach_of x))"

definition decodeCgroupRmdirSample :: "bytes \<Rightarrow> decode_error + cgroupRmdirSample" where
  "decodeCgroupRmdirSample = read_sample SAMPLE_KIND_CGROUP_RMDIR read_cgroup_rmdir_sample (\<lambda>x. Inr (rmdir_of x))"

definition decodeExecSample :: "bytes \<Rightarrow> decode_error + execSample" where
  "decodeExecSample = read_sample SAMPLE_KIND_EXEC read_exec_sample
     (\<lambda>x. case cBytes (argv_blob x) (argv_blob_len x) of
            None \<Rightarrow> Inl (Length_exceeds_buffer (argv_blob_len x))
          | Some argvBlob \<Rightarrow> Inr (exec_of x argvBlob))"

definition decodeNetConnectV4Sample :: "bytes \<Rightarrow> decode_error + netConnectSample" where
  "decodeNetConnectV4Sample = read_sample SAMPLE_KIND_NETWORK_CONNECT_V4 read_net_v4_sample (\<lambda>x. Inr (net_v4_of x))"

definition decodeNetConnectV6Sample :: "bytes \<Rightarrow> decode_error + netConnectSample" where
  "decodeNetConnectV6Sample = read_sample SAMPLE_KIND_NETWORK_CONNECT_V6 read_net_v6_sample (\<lambda>x. Inr (net_v6_of x))"

definition decodeFileOpenSample :: "bytes \<Rightarrow> decode_error + fileOpenSample" where
  "decodeFileOpenSample = read_sample SAMPLE_KIND_FILE_OPEN read_file_open_sample (\<lambda>x. Inr (open_of x))"

definition decodeFileRemoveSample :: "bytes \<Rightarrow> decode_error + fileRemoveSample" where
  "decodeFileRemoveSample = read_sample SAMPLE_KIND_FILE_REMOVE read_file_remove_sample (\<lambda>x. Inr (remove_of x))"

definition decodeFileMoveSample :: "bytes \<Rightarrow> decode_error + fileMoveSample" where
  "decodeFileMoveSample = read_sample SAMPLE_KIND_FILE_MOVE read_file_move_sample (\<lambda>x. Inr (move_of x))"

definition decodeFileLinkSample :: "bytes \<Rightarrow> decode_error + fileLinkSample" where
  "decodeFileLinkSample = read_sample SAMPLE_KIND_FILE_LINK read_file_link_sample (\<lambda>x. Inr (link_of x))"

definition decodeDNSSample :: "bytes \<Rightarrow> decode_error + dnsSample" where
  "decodeDNSSample = read_sample SAMPLE_KIND_DNS read_dns_sample (\<lambda>x. Inr (dns_of x))"

definition decodeUnixSocketConnectSample :: "bytes \<Rightarrow> decode_error + unixSocketConnectSample" where
  "decodeUnixSocketConnectSample = read_sample SAMPLE_KIND_UNIX_SOCKET_CONNECT read_unix_socket_connect_sample
     (\<lambda>x. if unat (sun_path_len x) > length (sun_path x) then Inl (Length_exceeds_buffer (sun_path_len x))
          else Inr (unix_of x))"

definition decodeMountSample :: "bytes \<Rightarrow> decode_error + mountSample" where
  "decodeMountSample = read_sample SAMPLE_KIND_MOUNT read_mount_sample (\<lambda>x. Inr (mount_of x))"

definition decodeHTTPRequestSample :: "bytes \<Rightarrow> decode_error + httpRequestSample" where
  "decodeHTTPRequestSample = read_sample SAMPLE_KIND_HTTP_REQUEST read_http_request_sample (\<lambda>x. Inr (http_of x))"

definition decodeHTTPUprobeAttachCandidate :: "bytes \<Rightarrow> decode_error + httpUprobeAttachCandidate" where
  "decodeHTTPUprobeAttachCandidate = read_sample SAMPLE_KIND_HTTP_UPROBE_ATTACH_CANDIDATE
     read_http_uprobe_attach_candidate_sample (\<lambda>x. Inr (candidate_of x))"

section \<open>Dispatch\<close>

definition decodeKernelSample :: "bytes \<Rightarrow> decode_error + decodedKernelSample" where
  "decodeKernelSample raw =
     (if length raw < 4 then Inl (Sample_too_short (length raw))
      else let k = le_word (take 4 raw) :: u32 in
        if k = 1 then map_sum id Dec_fork (decodeForkSample raw)
        else if k = 2 then map_sum id Dec_mkdir (decodeCgroupMkdirSample raw)
        else if k = 3 then map_sum id Dec_attach (decodeCgroupAttachSample raw)
        else if k = 4 then map_sum id Dec_rmdir (decodeCgroupRmdirSample raw)
        else if k = 5 then map_sum id Dec_exec (decodeExecSample raw)
        else if k = 6 then map_sum id Dec_net_v4 (decodeNetConnectV4Sample raw)
        else if k = 7 then map_sum id Dec_net_v6 (decodeNetConnectV6Sample raw)
        else if k = 8 then map_sum id Dec_open (decodeFileOpenSample raw)
        else if k = 9 then map_sum id Dec_remove (decodeFileRemoveSample raw)
        else if k = 10 then map_sum id Dec_move (decodeFileMoveSample raw)
        else if k = 11 then map_sum id Dec_link (decodeFileLinkSample raw)
        else if k = 12 then map_sum id Dec_dns (decodeDNSSample raw)
        else if k = 13 then map_sum id Dec_unix (decodeUnixSocketConnectSample raw)
        else if k = 14 then map_sum id Dec_mount (decodeMountSample raw)
        else if k = 15 then map_sum id Dec_http (decodeHTTPRequestSample raw)
        else Inl (Unknown_kind k))"

text \<open>
  One turn of the sample loop: a discovery sample goes to the uprobe worker (\<open>Some\<close> candidate,
  or \<open>None\<close> without a worker), everything else to the engine.
\<close>

datatype loop_item = To_worker "httpUprobeAttachCandidate option" | To_engine decodedKernelSample

definition handleHTTPUprobeAttachCandidate :: "bool \<Rightarrow> bytes \<Rightarrow> (decode_error + httpUprobeAttachCandidate option) option" where
  "handleHTTPUprobeAttachCandidate worker raw =
     (if length raw < 4 \<or> le_word (take 4 raw) \<noteq> (16 :: u32) then None
      else if \<not> worker then Some (Inr None)
      else Some (map_sum id Some (decodeHTTPUprobeAttachCandidate raw)))"

definition read_record :: "bool \<Rightarrow> bytes \<Rightarrow> decode_error + loop_item" where
  "read_record worker raw =
     (case handleHTTPUprobeAttachCandidate worker raw of
        Some r \<Rightarrow> map_sum id To_worker r
      | None \<Rightarrow> map_sum id To_engine (decodeKernelSample raw))"

section \<open>Round trip\<close>

text \<open>
  What a record says, field by field, independently of the decoders: flags are non-zero bytes, strings
  end at their NUL, paths start at their offset, blobs have their announced length, or the length of
  their buffer where that is shorter.
\<close>

fun delivered :: "sample \<Rightarrow> loop_item" where
  "delivered (ForkSample x) = To_engine (Dec_fork
     \<lparr>Child = \<lparr>PID = child_tgid x, StartBoottime = child_start_boottime x\<rparr>,
      Parent = \<lparr>PID = parent_tgid x, StartBoottime = parent_start_boottime x\<rparr>,
      ChildCgroupID = fk_cgroup_id x, fork_TsNs = fk_ts_ns x\<rparr>)"
| "delivered (CgroupMkdirSample x) = To_engine (Dec_mkdir
     \<lparr>mkdir_CgroupID = cm_cgroup_id x, ParentCgroupID = parent_cgroup_id x, CgroupPath = c_string (cm_path x),
      mkdir_TsNs = cm_ts_ns x, StagingMatched = (staging_matched x \<noteq> 0)\<rparr>)"
| "delivered (CgroupAttachSample x) = To_engine (Dec_attach
     \<lparr>attach_Tgid = ca_tgid x, SourceCgroupID = source_cgroup_id x,
      DestinationCgroupID = destination_cgroup_id x, attach_TsNs = ca_ts_ns x\<rparr>)"
| "delivered (CgroupRmdirSample x) = To_engine (Dec_rmdir
     \<lparr>rmdir_CgroupID = cr_cgroup_id x, rmdir_TsNs = cr_ts_ns x\<rparr>)"
| "delivered (ExecSample x) = To_engine (Dec_exec
     \<lparr>Identity = \<lparr>PID = tgid x, StartBoottime = start_boottime x\<rparr>, CgroupID = cgroup_id x, TsNs = ts_ns x,
      ExecPath = c_string (exec_path x), Argc = argc x, ArgvBlob = take (unat (argv_blob_len x)) (argv_blob x),
      ArgvTruncated = (argv_truncated x \<noteq> 0), ArgvFaulted = (argv_faulted x \<noteq> 0), IsMemfd = (is_memfd x \<noteq> 0)\<rparr>)"
| "delivered (NetV4Sample x) = To_engine (Dec_net_v4
     \<lparr>Identity = \<lparr>PID = tgid x, StartBoottime = start_boottime x\<rparr>, CgroupID = cgroup_id x, TsNs = ts_ns x,
      RemoteIP = n4_remote_ip x, Port = n4_remote_port x, Protocol = n4_protocol x, Blocked = (n4_blocked x \<noteq> 0)\<rparr>)"
| "delivered (NetV6Sample x) = To_engine (Dec_net_v6
     \<lparr>Identity = \<lparr>PID = tgid x, StartBoottime = start_boottime x\<rparr>, CgroupID = cgroup_id x, TsNs = ts_ns x,
      RemoteIP = n6_remote_ip x, Port = n6_remote_port x, Protocol = n6_protocol x, Blocked = (n6_blocked x \<noteq> 0)\<rparr>)"
| "delivered (FileOpenSample x) = To_engine (Dec_open
     \<lparr>Identity = \<lparr>PID = tgid x, StartBoottime = start_boottime x\<rparr>, CgroupID = cgroup_id x, TsNs = ts_ns x,
      open_Path = c_string (fo_path x), Flags = fo_flags x, IsWrite = (is_write x \<noteq> 0), IsRead = (is_read x \<noteq> 0),
      open_PathTruncated = (fo_path_truncated x \<noteq> 0)\<rparr>)"
| "delivered (FileRemoveSample x) = To_engine (Dec_remove
     \<lparr>Identity = \<lparr>PID = tgid x, StartBoottime = start_boottime x\<rparr>, CgroupID = cgroup_id x, TsNs = ts_ns x,
      remove_Path = c_string (drop (unat (fr_path_offset x)) (fr_path x)), IsFolder = (is_folder x \<noteq> 0),
      remove_PathTruncated = (fr_path_truncated x \<noteq> 0)\<rparr>)"
| "delivered (FileMoveSample x) = To_engine (Dec_move
     \<lparr>Identity = \<lparr>PID = tgid x, StartBoottime = start_boottime x\<rparr>, CgroupID = cgroup_id x, TsNs = ts_ns x,
      FromPath = c_string (drop (unat (from_offset x)) (from_path x)),
      ToPath = c_string (drop (unat (to_offset x)) (to_path x)),
      FromTruncated = (from_truncated x \<noteq> 0), ToTruncated = (to_truncated x \<noteq> 0)\<rparr>)"
| "delivered (FileLinkSample x) = To_engine (Dec_link
     \<lparr>Identity = \<lparr>PID = tgid x, StartBoottime = start_boottime x\<rparr>, CgroupID = cgroup_id x, TsNs = ts_ns x,
      CreatedPath = c_string (drop (unat (created_offset x)) (created_path x)),
      ExistingPath = c_string (drop (unat (existing_offset x)) (existing_path x)),
      IsHardlink = (is_hardlink x \<noteq> 0), IsSymlink = (is_symlink x \<noteq> 0),
      CreatedTruncated = (created_truncated x \<noteq> 0), ExistingTruncated = (existing_truncated x \<noteq> 0)\<rparr>)"
| "delivered (DnsSample x) = To_engine (Dec_dns
     \<lparr>Identity = \<lparr>PID = tgid x, StartBoottime = start_boottime x\<rparr>, CgroupID = cgroup_id x, TsNs = ts_ns x,
      dns_Source = dn_source x, Family = dn_family x, Dport = dport x, DaddrV4 = daddr_v4 x, DaddrV6 = daddr_v6 x,
      Payload = take (unat (payload_len x)) (payload x),
      PayloadLen = of_nat (min (unat (payload_len x)) (length (payload x)))\<rparr>)"
| "delivered (UnixSocketConnectSample x) = To_engine (Dec_unix
     \<lparr>Identity = \<lparr>PID = tgid x, StartBoottime = start_boottime x\<rparr>, CgroupID = cgroup_id x, TsNs = ts_ns x,
      SunPath = take (unat (sun_path_len x)) (sun_path x), SunPathLen = sun_path_len x,
      SunPathTruncated = (sun_path_truncated x \<noteq> 0), Cwd = c_string (drop (unat (cwd_offset x)) (cwd x)),
      CwdTruncated = (cwd_truncated x \<noteq> 0), CwdUnavailable = (cwd_unavailable x \<noteq> 0),
      SocketType = socket_type x, IsAbstract = (is_abstract x \<noteq> 0)\<rparr>)"
| "delivered (MountSample x) = To_engine (Dec_mount
     \<lparr>Identity = \<lparr>PID = tgid x, StartBoottime = start_boottime x\<rparr>, CgroupID = cgroup_id x, TsNs = ts_ns x,
      SourcePath = c_string (drop (unat (source_offset x)) (source_path x)),
      TargetPath = c_string (drop (unat (target_offset x)) (target_path x)),
      SourceTruncated = (source_truncated x \<noteq> 0), TargetTruncated = (target_truncated x \<noteq> 0)\<rparr>)"
| "delivered (HttpRequestSample x) = To_engine (Dec_http
     \<lparr>Identity = \<lparr>PID = tgid x, StartBoottime = start_boottime x\<rparr>, CgroupID = cgroup_id x, TsNs = ts_ns x,
      http_Source = hr_source x, Method = c_string (hr_method x), http_Path = c_string (hr_path x),
      Host = c_string (hr_host x)\<rparr>)"
| "delivered (HttpUprobeAttachCandidateSample x) = To_worker (Some
     \<lparr>cand_tgid = ac_tgid x, vmStart = ac_vm_start x, vmEnd = ac_vm_end x,
      cand_file = \<lparr>mapped_file = mapped_file (ac_file x), ctime_sec = ctime_sec (ac_file x),
        ctime_nsec = ctime_nsec (ac_file x), fc_pad = 0\<rparr>\<rparr>)"

lemma pathFromBuffer_drop: "pathFromBuffer buf offset = c_string (drop (unat offset) buf)"
  by (simp add: pathFromBuffer_def c_string_def)

text \<open>The decoders build these records.\<close>

lemma delivered_by [simp]:
  "delivered (ForkSample x0) = To_engine (Dec_fork (fork_of x0))"
  "delivered (CgroupMkdirSample x1) = To_engine (Dec_mkdir (mkdir_of x1))"
  "delivered (CgroupAttachSample x2) = To_engine (Dec_attach (attach_of x2))"
  "delivered (CgroupRmdirSample x3) = To_engine (Dec_rmdir (rmdir_of x3))"
  "delivered (ExecSample x4) = To_engine (Dec_exec (exec_of x4 (take (unat (argv_blob_len x4)) (argv_blob x4))))"
  "delivered (NetV4Sample x5) = To_engine (Dec_net_v4 (net_v4_of x5))"
  "delivered (NetV6Sample x6) = To_engine (Dec_net_v6 (net_v6_of x6))"
  "delivered (FileOpenSample x7) = To_engine (Dec_open (open_of x7))"
  "delivered (FileRemoveSample x8) = To_engine (Dec_remove (remove_of x8))"
  "delivered (FileMoveSample x9) = To_engine (Dec_move (move_of x9))"
  "delivered (FileLinkSample x10) = To_engine (Dec_link (link_of x10))"
  "delivered (DnsSample x11) = To_engine (Dec_dns (dns_of x11))"
  "delivered (UnixSocketConnectSample x12) = To_engine (Dec_unix (unix_of x12))"
  "delivered (MountSample x13) = To_engine (Dec_mount (mount_of x13))"
  "delivered (HttpRequestSample x14) = To_engine (Dec_http (http_of x14))"
  "delivered (HttpUprobeAttachCandidateSample x15) = To_worker (Some (candidate_of x15))"
  by (simp_all add: fork_of_def mkdir_of_def attach_of_def rmdir_of_def exec_of_def net_v4_of_def net_v6_of_def open_of_def
      remove_of_def move_of_def link_of_def dns_of_def unix_of_def mount_of_def http_of_def candidate_of_def identity_of_def
      pathFromBuffer_drop min_def Let_def)

declare delivered.simps [simp del]

text \<open>
  The announced lengths the decoders check; \<open>decodeDNSSample\<close> cuts a payload length beyond the buffer
  to it instead of rejecting the record.
\<close>

fun decoder_lengths_ok :: "sample \<Rightarrow> bool" where
  "decoder_lengths_ok (ExecSample x) \<longleftrightarrow> unat (argv_blob_len x) \<le> ARGV_BLOB_LEN"
| "decoder_lengths_ok (UnixSocketConnectSample x) \<longleftrightarrow> unat (sun_path_len x) \<le> UNIX_SOCKET_SUN_PATH_LEN"
| "decoder_lengths_ok _ \<longleftrightarrow> True"

definition valid_sample :: "sample \<Rightarrow> bool" where
  "valid_sample x \<longleftrightarrow> sample_wf x \<and> stored_kind x = kind_value (struct_kind x) \<and> decoder_lengths_ok x"

lemma valid_sampleI: "sample_wf x \<Longrightarrow> stored_kind x = kind_value (struct_kind x) \<Longrightarrow> lengths_ok x \<Longrightarrow> valid_sample x"
  by (cases x) (simp_all add: valid_sample_def)

lemmas decoder_defs =
  decodeForkSample_def decodeCgroupMkdirSample_def decodeCgroupAttachSample_def decodeCgroupRmdirSample_def
  decodeExecSample_def decodeNetConnectV4Sample_def decodeNetConnectV6Sample_def decodeFileOpenSample_def
  decodeFileRemoveSample_def decodeFileMoveSample_def decodeFileLinkSample_def decodeDNSSample_def
  decodeUnixSocketConnectSample_def decodeMountSample_def decodeHTTPRequestSample_def
  decodeHTTPUprobeAttachCandidate_def

text \<open>The prologue on an image, and what a successful read of a record says about it.\<close>

lemma read_sample_image:
  assumes "sample_wf x" "struct_kind x = k" "rd (sample_image tail x) = y" "kind y = kind_value k"
  shows "read_sample k rd build (sample_image tail x) = build y"
  using assms by (simp add: read_sample_def length_sample_image sizeof_sample_go)

lemma read_sample_Inr:
  assumes "read_sample k rd build raw = Inr y"
  shows "length raw = go_sample_size k \<and> kind (rd raw) = kind_value k \<and> build (rd raw) = Inr y"
  using assms by (simp_all add: read_sample_def Let_def split: if_splits)

lemma le_word_kind: "le_word (take 4 (sample_image tail x)) = stored_kind x"
  by (simp add: kind_first le_word_le_bytes take_bit_whole del: le_bytes.simps)

lemma read_record_image:
  "sample_wf (ForkSample x0) \<Longrightarrow> read_fork_sample (sample_image tail (ForkSample x0)) = x0"
  "sample_wf (CgroupMkdirSample x1) \<Longrightarrow> read_cgroup_mkdir_sample (sample_image tail (CgroupMkdirSample x1)) = x1"
  "sample_wf (CgroupAttachSample x2) \<Longrightarrow> read_cgroup_attach_sample (sample_image tail (CgroupAttachSample x2)) = x2"
  "sample_wf (CgroupRmdirSample x3) \<Longrightarrow> read_cgroup_rmdir_sample (sample_image tail (CgroupRmdirSample x3)) = x3"
  "sample_wf (ExecSample x4) \<Longrightarrow> read_exec_sample (sample_image tail (ExecSample x4)) = x4"
  "sample_wf (NetV4Sample x5) \<Longrightarrow> read_net_v4_sample (sample_image tail (NetV4Sample x5)) = x5"
  "sample_wf (NetV6Sample x6) \<Longrightarrow> read_net_v6_sample (sample_image tail (NetV6Sample x6)) = x6"
  "sample_wf (FileOpenSample x7) \<Longrightarrow> read_file_open_sample (sample_image tail (FileOpenSample x7)) = x7"
  "sample_wf (FileRemoveSample x8) \<Longrightarrow> read_file_remove_sample (sample_image tail (FileRemoveSample x8)) = x8"
  "sample_wf (FileMoveSample x9) \<Longrightarrow> read_file_move_sample (sample_image tail (FileMoveSample x9)) = x9"
  "sample_wf (FileLinkSample x10) \<Longrightarrow> read_file_link_sample (sample_image tail (FileLinkSample x10)) = x10"
  "sample_wf (DnsSample x11) \<Longrightarrow> read_dns_sample (sample_image tail (DnsSample x11)) = x11"
  "sample_wf (UnixSocketConnectSample x12) \<Longrightarrow> read_unix_socket_connect_sample (sample_image tail (UnixSocketConnectSample x12)) = x12"
  "sample_wf (MountSample x13) \<Longrightarrow> read_mount_sample (sample_image tail (MountSample x13)) = x13"
  "sample_wf (HttpRequestSample x14) \<Longrightarrow> read_http_request_sample (sample_image tail (HttpRequestSample x14)) = x14"
  "sample_wf (HttpUprobeAttachCandidateSample x15) \<Longrightarrow> read_http_uprobe_attach_candidate_sample (sample_image tail (HttpUprobeAttachCandidateSample x15)) = x15"
  using read_image read_image [where bs = "[]"] by simp_all

lemma go_sample_size_min: "\<not> go_sample_size k < 4"
  by (cases k) simp_all

lemma image_delivered:
  assumes "valid_sample x"
  shows "read_record True (sample_image tail x) = Inr (delivered x)"
proof -
  have wf: "sample_wf x" and k: "stored_kind x = kind_value (struct_kind x)" and l: "decoder_lengths_ok x"
    using assms by (simp_all add: valid_sample_def)
  have len: "length (sample_image tail x) = go_sample_size (struct_kind x)"
    using length_sample_image [OF wf] by (simp add: sizeof_sample_go)
  show ?thesis
    using wf k l len
    unfolding read_record_def handleHTTPUprobeAttachCandidate_def decodeKernelSample_def le_word_kind decoder_defs read_sample_def
      len Let_def
    by (cases x) (simp_all add: go_sample_size_min read_record_image cBytes_def del: sample_image.simps go_sample_size.simps)
qed

text \<open>A record a decoder accepts is the image of a valid sample with that reading.\<close>

definition image_of_delivered :: "bytes \<Rightarrow> loop_item \<Rightarrow> bool" where
  "image_of_delivered raw item \<longleftrightarrow>
     (\<exists>x tail. valid_sample x \<and> sample_image tail x = raw \<and> delivered x = item)"

lemma image_of_deliveredI:
  "valid_sample x \<Longrightarrow> sample_image (drop (go_sample_size (struct_kind x) - 4) raw) x = raw \<Longrightarrow> delivered x = item \<Longrightarrow>
   image_of_delivered raw item"
  unfolding image_of_delivered_def by blast

lemma read_lengths:
  "length raw = go_sample_size SAMPLE_KIND_EXEC \<Longrightarrow> length (argv_blob (read_exec_sample raw)) = 2048"
  "length raw = go_sample_size SAMPLE_KIND_UNIX_SOCKET_CONNECT \<Longrightarrow>
     length (sun_path (read_unix_socket_connect_sample raw)) = 108"
  using read_wf(5,13) [of raw] by simp_all

lemma accepted_reads:
  "decodeForkSample raw = Inr y0 \<Longrightarrow> valid_sample (ForkSample (read_fork_sample raw)) \<and> delivered (ForkSample (read_fork_sample raw)) = To_engine (Dec_fork y0) \<and>
     length raw = go_sample_size SAMPLE_KIND_FORK"
  "decodeCgroupMkdirSample raw = Inr y1 \<Longrightarrow> valid_sample (CgroupMkdirSample (read_cgroup_mkdir_sample raw)) \<and> delivered (CgroupMkdirSample (read_cgroup_mkdir_sample raw)) = To_engine (Dec_mkdir y1) \<and>
     length raw = go_sample_size SAMPLE_KIND_CGROUP_MKDIR"
  "decodeCgroupAttachSample raw = Inr y2 \<Longrightarrow> valid_sample (CgroupAttachSample (read_cgroup_attach_sample raw)) \<and> delivered (CgroupAttachSample (read_cgroup_attach_sample raw)) = To_engine (Dec_attach y2) \<and>
     length raw = go_sample_size SAMPLE_KIND_CGROUP_ATTACH"
  "decodeCgroupRmdirSample raw = Inr y3 \<Longrightarrow> valid_sample (CgroupRmdirSample (read_cgroup_rmdir_sample raw)) \<and> delivered (CgroupRmdirSample (read_cgroup_rmdir_sample raw)) = To_engine (Dec_rmdir y3) \<and>
     length raw = go_sample_size SAMPLE_KIND_CGROUP_RMDIR"
  "decodeExecSample raw = Inr y4 \<Longrightarrow> valid_sample (ExecSample (read_exec_sample raw)) \<and> delivered (ExecSample (read_exec_sample raw)) = To_engine (Dec_exec y4) \<and>
     length raw = go_sample_size SAMPLE_KIND_EXEC"
  "decodeNetConnectV4Sample raw = Inr y5 \<Longrightarrow> valid_sample (NetV4Sample (read_net_v4_sample raw)) \<and> delivered (NetV4Sample (read_net_v4_sample raw)) = To_engine (Dec_net_v4 y5) \<and>
     length raw = go_sample_size SAMPLE_KIND_NETWORK_CONNECT_V4"
  "decodeNetConnectV6Sample raw = Inr y6 \<Longrightarrow> valid_sample (NetV6Sample (read_net_v6_sample raw)) \<and> delivered (NetV6Sample (read_net_v6_sample raw)) = To_engine (Dec_net_v6 y6) \<and>
     length raw = go_sample_size SAMPLE_KIND_NETWORK_CONNECT_V6"
  "decodeFileOpenSample raw = Inr y7 \<Longrightarrow> valid_sample (FileOpenSample (read_file_open_sample raw)) \<and> delivered (FileOpenSample (read_file_open_sample raw)) = To_engine (Dec_open y7) \<and>
     length raw = go_sample_size SAMPLE_KIND_FILE_OPEN"
  "decodeFileRemoveSample raw = Inr y8 \<Longrightarrow> valid_sample (FileRemoveSample (read_file_remove_sample raw)) \<and> delivered (FileRemoveSample (read_file_remove_sample raw)) = To_engine (Dec_remove y8) \<and>
     length raw = go_sample_size SAMPLE_KIND_FILE_REMOVE"
  "decodeFileMoveSample raw = Inr y9 \<Longrightarrow> valid_sample (FileMoveSample (read_file_move_sample raw)) \<and> delivered (FileMoveSample (read_file_move_sample raw)) = To_engine (Dec_move y9) \<and>
     length raw = go_sample_size SAMPLE_KIND_FILE_MOVE"
  "decodeFileLinkSample raw = Inr y10 \<Longrightarrow> valid_sample (FileLinkSample (read_file_link_sample raw)) \<and> delivered (FileLinkSample (read_file_link_sample raw)) = To_engine (Dec_link y10) \<and>
     length raw = go_sample_size SAMPLE_KIND_FILE_LINK"
  "decodeDNSSample raw = Inr y11 \<Longrightarrow> valid_sample (DnsSample (read_dns_sample raw)) \<and> delivered (DnsSample (read_dns_sample raw)) = To_engine (Dec_dns y11) \<and>
     length raw = go_sample_size SAMPLE_KIND_DNS"
  "decodeUnixSocketConnectSample raw = Inr y12 \<Longrightarrow> valid_sample (UnixSocketConnectSample (read_unix_socket_connect_sample raw)) \<and> delivered (UnixSocketConnectSample (read_unix_socket_connect_sample raw)) = To_engine (Dec_unix y12) \<and>
     length raw = go_sample_size SAMPLE_KIND_UNIX_SOCKET_CONNECT"
  "decodeMountSample raw = Inr y13 \<Longrightarrow> valid_sample (MountSample (read_mount_sample raw)) \<and> delivered (MountSample (read_mount_sample raw)) = To_engine (Dec_mount y13) \<and>
     length raw = go_sample_size SAMPLE_KIND_MOUNT"
  "decodeHTTPRequestSample raw = Inr y14 \<Longrightarrow> valid_sample (HttpRequestSample (read_http_request_sample raw)) \<and> delivered (HttpRequestSample (read_http_request_sample raw)) = To_engine (Dec_http y14) \<and>
     length raw = go_sample_size SAMPLE_KIND_HTTP_REQUEST"
  "decodeHTTPUprobeAttachCandidate raw = Inr y \<Longrightarrow> valid_sample (HttpUprobeAttachCandidateSample (read_http_uprobe_attach_candidate_sample raw)) \<and> delivered (HttpUprobeAttachCandidateSample (read_http_uprobe_attach_candidate_sample raw)) = To_worker (Some y) \<and>
     length raw = go_sample_size SAMPLE_KIND_HTTP_UPROBE_ATTACH_CANDIDATE"
  unfolding decoder_defs
  by (drule read_sample_Inr, auto simp: valid_sample_def cBytes_def read_wf read_lengths
      simp del: go_sample_size.simps sample_wf.simps split: if_splits option.splits)+

lemma map_sum_Inr: "map_sum id g r = Inr z \<longleftrightarrow> (\<exists>y. r = Inr y \<and> z = g y)"
  by (cases r) auto

lemma accepted_images:
  "decodeForkSample raw = Inr y0 \<Longrightarrow> image_of_delivered raw (To_engine (Dec_fork y0))"
  "decodeCgroupMkdirSample raw = Inr y1 \<Longrightarrow> image_of_delivered raw (To_engine (Dec_mkdir y1))"
  "decodeCgroupAttachSample raw = Inr y2 \<Longrightarrow> image_of_delivered raw (To_engine (Dec_attach y2))"
  "decodeCgroupRmdirSample raw = Inr y3 \<Longrightarrow> image_of_delivered raw (To_engine (Dec_rmdir y3))"
  "decodeExecSample raw = Inr y4 \<Longrightarrow> image_of_delivered raw (To_engine (Dec_exec y4))"
  "decodeNetConnectV4Sample raw = Inr y5 \<Longrightarrow> image_of_delivered raw (To_engine (Dec_net_v4 y5))"
  "decodeNetConnectV6Sample raw = Inr y6 \<Longrightarrow> image_of_delivered raw (To_engine (Dec_net_v6 y6))"
  "decodeFileOpenSample raw = Inr y7 \<Longrightarrow> image_of_delivered raw (To_engine (Dec_open y7))"
  "decodeFileRemoveSample raw = Inr y8 \<Longrightarrow> image_of_delivered raw (To_engine (Dec_remove y8))"
  "decodeFileMoveSample raw = Inr y9 \<Longrightarrow> image_of_delivered raw (To_engine (Dec_move y9))"
  "decodeFileLinkSample raw = Inr y10 \<Longrightarrow> image_of_delivered raw (To_engine (Dec_link y10))"
  "decodeDNSSample raw = Inr y11 \<Longrightarrow> image_of_delivered raw (To_engine (Dec_dns y11))"
  "decodeUnixSocketConnectSample raw = Inr y12 \<Longrightarrow> image_of_delivered raw (To_engine (Dec_unix y12))"
  "decodeMountSample raw = Inr y13 \<Longrightarrow> image_of_delivered raw (To_engine (Dec_mount y13))"
  "decodeHTTPRequestSample raw = Inr y14 \<Longrightarrow> image_of_delivered raw (To_engine (Dec_http y14))"
  "decodeHTTPUprobeAttachCandidate raw = Inr y \<Longrightarrow> image_of_delivered raw (To_worker (Some y))"
  by (drule accepted_reads, rule image_of_deliveredI, blast, simp del: sample_image.simps go_sample_size.simps add: image_read, blast)+

lemma record_accepted:
  assumes "read_record True raw = Inr item"
  shows "image_of_delivered raw item"
proof (cases "handleHTTPUprobeAttachCandidate True raw")
  case None
  with assms obtain d where "decodeKernelSample raw = Inr d" "item = To_engine d"
    by (auto simp: read_record_def map_sum_Inr)
  then show ?thesis
    unfolding decodeKernelSample_def Let_def
    by (auto simp: map_sum_Inr intro: accepted_images split: if_splits)
next
  case (Some r)
  with assms show ?thesis
    by (auto simp: read_record_def handleHTTPUprobeAttachCandidate_def map_sum_Inr intro: accepted_images split: if_splits)
qed

text \<open>
  C23: A sample survives the ring buffer. The bytes of any sample, under the C layout of its struct
  and with arbitrary bytes in the trailing padding, are decoded to exactly the fields of the struct:
  words little-endian, strings up to their NUL, paths from their offset, blobs by their length; the
  discovery samples go to the uprobe worker and all others to the engine.
\<close>

theorem sample_roundtrip:
  assumes "sample_wf x" "stored_kind x = kind_value (struct_kind x)" "decoder_lengths_ok x"
  shows "read_record True (sample_image tail x) = Inr (delivered x)"
  using assms by (intro image_delivered) (simp add: valid_sample_def)

text \<open>
  C24: The decoders accept exactly the samples. Whatever bytes arrive, a record is accepted if and
  only if it is the image of a sample whose kind fits its struct and whose argument blob and socket
  path lengths fit their buffers, and it is then read as that sample.  So records that are too
  short, of an unknown kind, of the wrong size for their kind, or with such a length beyond its
  buffer are rejected with an error.  A DNS payload length beyond its 512-byte buffer is not
  rejected: the payload is the whole buffer.
\<close>

theorem decoder_accepts_only_samples:
  "(read_record True raw = Inr item \<longleftrightarrow>
    (\<exists>x tail. sample_wf x \<and> stored_kind x = kind_value (struct_kind x) \<and>
      (\<forall>e. x = ExecSample e \<longrightarrow> unat (argv_blob_len e) \<le> 2048) \<and>
      (\<forall>u. x = UnixSocketConnectSample u \<longrightarrow> unat (sun_path_len u) \<le> 108) \<and>
      sample_image tail x = raw \<and> delivered x = item)) \<and>
   (\<forall>d. sample_wf (DnsSample d) \<longrightarrow> kind d = 12 \<longrightarrow> unat (payload_len d) > 512 \<longrightarrow>
      (\<exists>y. read_record True (sample_image padding (DnsSample d)) = Inr (To_engine (Dec_dns y)) \<and> Payload y = payload d))"
proof -
  have valid: "valid_sample x \<longleftrightarrow> sample_wf x \<and> stored_kind x = kind_value (struct_kind x) \<and>
      (\<forall>e. x = ExecSample e \<longrightarrow> unat (argv_blob_len e) \<le> 2048) \<and>
      (\<forall>u. x = UnixSocketConnectSample u \<longrightarrow> unat (sun_path_len u) \<le> 108)" for x
    by (cases x) (simp_all add: valid_sample_def del: sample_wf.simps)
  have "read_record True raw = Inr item \<longleftrightarrow> (\<exists>x tail. valid_sample x \<and> sample_image tail x = raw \<and> delivered x = item)"
    using record_accepted [of raw item] image_delivered unfolding image_of_delivered_def by metis
  moreover have "\<exists>y. read_record True (sample_image padding (DnsSample d)) = Inr (To_engine (Dec_dns y)) \<and> Payload y = payload d"
    if "sample_wf (DnsSample d)" "kind d = 12" "unat (payload_len d) > 512" for d
    using image_delivered [of "DnsSample d" padding] that
    by (simp add: valid_sample_def dns_of_def Let_def del: sample_image.simps)
  ultimately show ?thesis by (simp only: valid) blast
qed

definition rmdir_7 :: sample where
  "rmdir_7 = CgroupRmdirSample \<lparr>kind = 4, cr_pad = 0, cr_cgroup_id = 7, cr_ts_ns = 258\<rparr>"

lemma rmdir_7_image:
  "sample_image [] rmdir_7 = [4, 0, 0, 0, 0, 0, 0, 0, 7, 0, 0, 0, 0, 0, 0, 0, 2, 1, 0, 0, 0, 0, 0, 0]"
  by code_simp

theorem sample_roundtrip_witness:
  "read_record True [4, 0, 0, 0, 0, 0, 0, 0, 7, 0, 0, 0, 0, 0, 0, 0, 2, 1, 0, 0, 0, 0, 0, 0] =
     Inr (To_engine (Dec_rmdir \<lparr>rmdir_CgroupID = 7, rmdir_TsNs = 258\<rparr>))"
  using sample_roundtrip [of rmdir_7 "[]"] unfolding rmdir_7_image
  by (simp add: rmdir_7_def rmdir_of_def)

theorem decoder_accepts_only_samples_witness:
  "\<exists>x tail. valid_sample x \<and> sample_image tail x = sample_image [] rmdir_7 \<and>
     delivered x = To_engine (Dec_rmdir \<lparr>rmdir_CgroupID = 7, rmdir_TsNs = 258\<rparr>)"
proof -
  have "read_record True (sample_image [] rmdir_7) = Inr (To_engine (Dec_rmdir \<lparr>rmdir_CgroupID = 7, rmdir_TsNs = 258\<rparr>))"
    by (subst image_delivered) (simp_all add: valid_sample_def rmdir_7_def rmdir_of_def)
  then obtain x tail where "sample_wf x" "stored_kind x = kind_value (struct_kind x)"
    "\<forall>e. x = ExecSample e \<longrightarrow> unat (argv_blob_len e) \<le> 2048"
    "\<forall>u. x = UnixSocketConnectSample u \<longrightarrow> unat (sun_path_len u) \<le> 108"
    "sample_image tail x = sample_image [] rmdir_7" "delivered x = To_engine (Dec_rmdir \<lparr>rmdir_CgroupID = 7, rmdir_TsNs = 258\<rparr>)"
    using decoder_accepts_only_samples [THEN conjunct1, THEN iffD1] by metis
  then show ?thesis
    by (intro exI [of _ x] exI [of _ tail]) (cases x; simp add: valid_sample_def del: sample_image.simps sample_wf.simps)
qed

end
