(* ===== verification/Process_Tree.thy ===== *)
theory Process_Tree
  imports Go_Std Job_Cgroups Sample_Decode
begin

text \<open>
  The per-job process tree of the userspace mirror, after \<open>kerneltracker/job_tracking_process.go\<close>:
  one node per process instance, each carrying a bounded copy of its lineage made at fork time, the
  two-phase removal of exited processes and the splitting of an argument blob.  What
  \<open>backfillProcessNode\<close> reads under \<open>/proc\<close> is an argument.  A nil pointer dereference in Go is the
  value \<open>None\<close> of the purge.
\<close>

subsection \<open>State\<close>

datatype processState = processStateRunning | processStateExited

record ancestorSnapshot =
  anc_ExecPath :: bytes
  anc_Argv :: "bytes list"

record ProcessSummary =
  sum_PID :: s32
  sum_StartBoottime :: u64
  sum_ExecPath :: bytes
  sum_Argv :: "bytes list"
  sum_Ancestors :: "ancestorSnapshot list"

definition maxAncestorDepth :: nat where
  "maxAncestorDepth = 16"

record processNode =
  node_Identity :: processIdentity
  node_State :: processState
  ExitTimestamp :: int
  node_ExecPath :: bytes
  node_Argv :: "bytes list"
  Ancestors :: "ancestorSnapshot list"
  AncestorCount :: u8

record jobProcessState =
  nodesByIdentity :: "processIdentity \<rightharpoonup> processNode"
  exitedQueue :: "processIdentity list"

record processIndex = cgroupIndex +
  processesByJob :: "JobIdentity \<rightharpoonup> jobProcessState"

definition newJobProcessState :: jobProcessState where
  "newJobProcessState = \<lparr>nodesByIdentity = Map.empty, exitedQueue = []\<rparr>"

text \<open>A node as Go allocates it: the fixed-size ancestor array holds zero values.\<close>

definition no_ancestors :: "ancestorSnapshot list" where
  "no_ancestors = replicate maxAncestorDepth \<lparr>anc_ExecPath = [], anc_Argv = []\<rparr>"

definition new_node :: "processIdentity \<Rightarrow> processNode" where
  "new_node identity =
    \<lparr>node_Identity = identity, node_State = processStateRunning, ExitTimestamp = zero_time,
     node_ExecPath = [], node_Argv = [], Ancestors = no_ancestors, AncestorCount = 0\<rparr>"

subsection \<open>Splitting argument blobs\<close>

text \<open>The loop of \<open>splitArgv\<close>: \<open>rest\<close> is the blob from the cursor on, \<open>n\<close> the arguments still wanted.\<close>

fun splitArgv_loop :: "nat \<Rightarrow> bytes \<Rightarrow> bytes list" where
  "splitArgv_loop 0 rest = []"
| "splitArgv_loop (Suc n) rest =
    (if rest = [] then []
     else if 0 \<notin> set rest then [rest]
     else takeWhile (\<lambda>b. b \<noteq> 0) rest # splitArgv_loop n (tl (dropWhile (\<lambda>b. b \<noteq> 0) rest)))"

definition splitArgv :: "bytes \<Rightarrow> int \<Rightarrow> bytes list" where
  "splitArgv blob n_args = (if n_args \<le> 0 then [] else splitArgv_loop (nat n_args) blob)"

text \<open>\<open>splitCmdline\<close>, for \<open>/proc/<pid>/cmdline\<close>.\<close>

definition splitCmdline :: "bytes \<Rightarrow> bytes list" where
  "splitCmdline blob = (let blob = TrimRight {0} blob in if blob = [] then [] else split_on 0 blob)"

text \<open>
  \<open>backfillProcessNode\<close>: the targets of \<open>/proc/<pid>/exe\<close> and \<open>/proc/<pid>/cmdline\<close> are what the
  two reads give, \<open>None\<close> when they fail.
\<close>

record proc_reads =
  proc_exe :: "s32 \<Rightarrow> bytes option"
  proc_cmdline :: "s32 \<Rightarrow> bytes option"

definition backfillProcessNode :: "proc_reads \<Rightarrow> processIdentity \<Rightarrow> processNode option" where
  "backfillProcessNode proc identity =
    (case proc_exe proc (PID identity) of
       None \<Rightarrow> None
     | Some exe \<Rightarrow> Some ((new_node identity)\<lparr>node_ExecPath := exe, node_Argv :=
         (case proc_cmdline proc (PID identity) of None \<Rightarrow> [] | Some cmdline \<Rightarrow> splitCmdline cmdline)\<rparr>))"

subsection \<open>Operations\<close>

definition processSummaryFromNode :: "processNode \<Rightarrow> ProcessSummary" where
  "processSummaryFromNode node =
    \<lparr>sum_PID = PID (node_Identity node), sum_StartBoottime = StartBoottime (node_Identity node),
     sum_ExecPath = node_ExecPath node, sum_Argv = node_Argv node,
     sum_Ancestors = (if AncestorCount node > 0 then take (unat (AncestorCount node)) (Ancestors node) else [])\<rparr>"

definition processSummaryFromIdentity :: "processIdentity \<Rightarrow> ProcessSummary" where
  "processSummaryFromIdentity identity =
    \<lparr>sum_PID = PID identity, sum_StartBoottime = StartBoottime identity, sum_ExecPath = [],
     sum_Argv = [], sum_Ancestors = []\<rparr>"

text \<open>\<open>copy(node.Ancestors[1:1+fit], parent.Ancestors[:fit])\<close>, then \<open>Ancestors[0]\<close>.\<close>

definition inherit :: "processNode \<Rightarrow> processNode \<Rightarrow> processNode" where
  "inherit parentNode node =
    (let count = unat (AncestorCount parentNode);
         fit = (if count > maxAncestorDepth - 1 then maxAncestorDepth - 1 else count);
         copied = take 1 (Ancestors node) @ take fit (Ancestors parentNode) @ drop (1 + fit) (Ancestors node);
         self = \<lparr>anc_ExecPath = node_ExecPath parentNode, anc_Argv = node_Argv parentNode\<rparr>
     in node\<lparr>node_ExecPath := node_ExecPath parentNode, node_Argv := node_Argv parentNode,
          Ancestors := copied[0 := self], AncestorCount := of_nat (fit + 1)\<rparr>)"

definition fork_node :: "jobProcessState \<Rightarrow> processIdentity \<Rightarrow> processIdentity \<Rightarrow> processNode" where
  "fork_node processes child parent =
    (case nodesByIdentity processes parent of
       None \<Rightarrow> new_node child | Some parentNode \<Rightarrow> inherit parentNode (new_node child))"

definition recordFork ::
  "JobIdentity \<Rightarrow> processIdentity \<Rightarrow> processIdentity \<Rightarrow> 'a processIndex_scheme \<Rightarrow> bool \<times> 'a processIndex_scheme" where
  "recordFork job child parent s =
    (case processesByJob s job of
       None \<Rightarrow> (False, s)
     | Some processes \<Rightarrow> (True, s\<lparr>processesByJob := (processesByJob s)(job \<mapsto> processes\<lparr>nodesByIdentity :=
         (nodesByIdentity processes)(child \<mapsto> fork_node processes child parent)\<rparr>)\<rparr>))"

definition exec_node :: "jobProcessState \<Rightarrow> processIdentity \<Rightarrow> bytes \<Rightarrow> bytes \<Rightarrow> u32 \<Rightarrow> processNode" where
  "exec_node processes identity execPath argvBlob n_args =
    (case nodesByIdentity processes identity of None \<Rightarrow> new_node identity | Some node \<Rightarrow> node)
      \<lparr>node_ExecPath := execPath, node_Argv := splitArgv argvBlob (uint n_args), node_State := processStateRunning\<rparr>"

definition recordExec ::
  "JobIdentity \<Rightarrow> processIdentity \<Rightarrow> bytes \<Rightarrow> bytes \<Rightarrow> u32 \<Rightarrow> 'a processIndex_scheme
    \<Rightarrow> ProcessSummary option \<times> 'a processIndex_scheme" where
  "recordExec job identity execPath argvBlob n_args s =
    (case processesByJob s job of
       None \<Rightarrow> (None, s)
     | Some processes \<Rightarrow>
         let node = exec_node processes identity execPath argvBlob n_args in
         (Some (processSummaryFromNode node),
          s\<lparr>processesByJob := (processesByJob s)(job \<mapsto> processes\<lparr>nodesByIdentity :=
            (nodesByIdentity processes)(identity \<mapsto> node)\<rparr>)\<rparr>))"

definition exit_process :: "processIdentity \<Rightarrow> int \<Rightarrow> jobProcessState \<Rightarrow> jobProcessState" where
  "exit_process identity timestamp processes =
    (case nodesByIdentity processes identity of
       None \<Rightarrow> processes
     | Some node \<Rightarrow>
         if node_State node = processStateExited then processes
         else \<lparr>nodesByIdentity = (nodesByIdentity processes)
                 (identity \<mapsto> node\<lparr>node_State := processStateExited, ExitTimestamp := timestamp\<rparr>),
               exitedQueue = exitedQueue processes @ [identity]\<rparr>)"

definition recordExit :: "JobIdentity \<Rightarrow> processIdentity \<Rightarrow> int \<Rightarrow> 'a processIndex_scheme \<Rightarrow> 'a processIndex_scheme" where
  "recordExit job identity timestamp s =
    (case processesByJob s job of
       None \<Rightarrow> s
     | Some processes \<Rightarrow> s\<lparr>processesByJob := (processesByJob s)(job \<mapsto> exit_process identity timestamp processes)\<rparr>)"

definition lookupProcessSummary ::
  "proc_reads \<Rightarrow> JobIdentity \<Rightarrow> processIdentity \<Rightarrow> 'a processIndex_scheme \<Rightarrow> ProcessSummary \<times> 'a processIndex_scheme" where
  "lookupProcessSummary proc job identity s =
    (case processesByJob s job of
       None \<Rightarrow> (processSummaryFromIdentity identity, s)
     | Some processes \<Rightarrow>
         (case nodesByIdentity processes identity of
            Some node \<Rightarrow> (processSummaryFromNode node, s)
          | None \<Rightarrow>
              (case backfillProcessNode proc identity of
                 None \<Rightarrow> (processSummaryFromIdentity identity, s)
               | Some node \<Rightarrow> (processSummaryFromNode node,
                   s\<lparr>processesByJob := (processesByJob s)(job \<mapsto> processes\<lparr>nodesByIdentity :=
                     (nodesByIdentity processes)(identity \<mapsto> node)\<rparr>)\<rparr>))))"

text \<open>One job's turn of \<open>purgeExitedProcesses\<close>; \<open>node.ExitTimestamp\<close> on a missing node panics.\<close>

fun purge_exited ::
  "int \<Rightarrow> processIdentity list \<Rightarrow> (processIdentity \<rightharpoonup> processNode) \<Rightarrow> jobProcessState option" where
  "purge_exited now [] nodes = Some \<lparr>nodesByIdentity = nodes, exitedQueue = []\<rparr>"
| "purge_exited now (identity # queue) nodes =
    (case nodes identity of
       None \<Rightarrow> None
     | Some node \<Rightarrow>
         if ExitTimestamp node + processExitGracePeriod > now
         then Some \<lparr>nodesByIdentity = nodes, exitedQueue = identity # queue\<rparr>
         else purge_exited now queue (nodes(identity := None)))"

definition purge_job :: "int \<Rightarrow> jobProcessState \<Rightarrow> jobProcessState option" where
  "purge_job now processes = purge_exited now (exitedQueue processes) (nodesByIdentity processes)"

definition purgeExitedProcesses :: "int \<Rightarrow> 'a processIndex_scheme \<Rightarrow> 'a processIndex_scheme option" where
  "purgeExitedProcesses now s =
    (if \<exists>job processes. processesByJob s job = Some processes \<and> purge_job now processes = None then None
     else Some (s\<lparr>processesByJob := (\<lambda>job. case processesByJob s job of
        None \<Rightarrow> None | Some processes \<Rightarrow> purge_job now processes)\<rparr>))"

subsection \<open>Argument blobs\<close>

text \<open>An argument area as the kernel lays it out: every argument followed by a NUL.\<close>

definition argv_area_of :: "bytes list \<Rightarrow> bytes" where
  "argv_area_of args = concat (map (\<lambda>a. a @ [0]) args)"

lemma argv_area_of_simps [simp]: "argv_area_of [] = []" "argv_area_of (a # args) = a @ 0 # argv_area_of args"
  by (simp_all add: argv_area_of_def)

lemma takeWhile_to_NUL [simp]: "0 \<notin> set a \<Longrightarrow> takeWhile (\<lambda>b. b \<noteq> 0) (a @ (0 :: u8) # rest) = a"
  by (induction a) auto

lemma dropWhile_to_NUL [simp]: "0 \<notin> set a \<Longrightarrow> dropWhile (\<lambda>b. b \<noteq> 0) (a @ (0 :: u8) # rest) = 0 # rest"
  by (induction a) auto

lemma splitArgv_loop_area: "\<forall>a \<in> set args. 0 \<notin> set a \<Longrightarrow> splitArgv_loop (length args) (argv_area_of args) = args"
  by (induction args) auto

lemma splitArgv_area:
  "\<forall>a \<in> set args. 0 \<notin> set a \<Longrightarrow> splitArgv (argv_area_of args) (int (length args)) = args"
  by (auto simp: splitArgv_def splitArgv_loop_area)

lemma splitArgv_bounded: "int (length (splitArgv blob n)) \<le> max 0 n"
proof -
  have "length (splitArgv_loop m blob) \<le> m" for m blob
    by (induction m blob rule: splitArgv_loop.induct) auto
  from this [of "nat n" blob] show ?thesis by (cases "n \<le> 0") (simp_all add: splitArgv_def)
qed

subsection \<open>Lineage\<close>

text \<open>
  The reference: every process remembers its executable, its arguments and the whole chain of its
  ancestors, nearest first.
\<close>

datatype proc_op =
    Fork processIdentity processIdentity
  | Exec processIdentity bytes bytes u32
  | Exit processIdentity int
  | Look proc_reads processIdentity
  | Purge_exited int

type_synonym lineage = "processIdentity \<rightharpoonup> bytes \<times> bytes list \<times> ancestorSnapshot list"

fun lineage_step :: "proc_op \<Rightarrow> lineage \<Rightarrow> lineage" where
  "lineage_step (Fork child parent) T = T(child \<mapsto>
     (case T parent of None \<Rightarrow> ([], [], [])
      | Some (exe, argv, anc) \<Rightarrow> (exe, argv, \<lparr>anc_ExecPath = exe, anc_Argv = argv\<rparr> # anc)))"
| "lineage_step (Exec identity exe blob n) T = T(identity \<mapsto>
     (exe, splitArgv blob (uint n), case T identity of None \<Rightarrow> [] | Some (_, _, anc) \<Rightarrow> anc))"
| "lineage_step (Look proc identity) T =
     (case T identity of
        Some _ \<Rightarrow> T
      | None \<Rightarrow>
          (case backfillProcessNode proc identity of
             None \<Rightarrow> T | Some node \<Rightarrow> T(identity \<mapsto> (node_ExecPath node, node_Argv node, []))))"
| "lineage_step (Exit identity t) T = T"
| "lineage_step (Purge_exited now) T = T"

fun proc_step :: "JobIdentity \<Rightarrow> proc_op \<Rightarrow> 'a processIndex_scheme \<Rightarrow> 'a processIndex_scheme option" where
  "proc_step job (Fork child parent) s = Some (snd (recordFork job child parent s))"
| "proc_step job (Exec identity exe blob n) s = Some (snd (recordExec job identity exe blob n s))"
| "proc_step job (Exit identity t) s = Some (recordExit job identity t s)"
| "proc_step job (Look proc identity) s = Some (snd (lookupProcessSummary proc job identity s))"
| "proc_step job (Purge_exited now) s = purgeExitedProcesses now s"

fun proc_run :: "JobIdentity \<Rightarrow> proc_op list \<Rightarrow> 'a processIndex_scheme \<Rightarrow> 'a processIndex_scheme option" where
  "proc_run job [] s = Some s"
| "proc_run job (op # ops) s = (case proc_step job op s of None \<Rightarrow> None | Some s' \<Rightarrow> proc_run job ops s')"

definition node_ok :: "processIdentity \<Rightarrow> processNode \<Rightarrow> bool" where
  "node_ok identity node \<longleftrightarrow> node_Identity node = identity \<and> length (Ancestors node) = maxAncestorDepth
     \<and> unat (AncestorCount node) \<le> maxAncestorDepth"

definition node_lineage :: "processNode \<Rightarrow> bytes \<times> bytes list \<times> ancestorSnapshot list" where
  "node_lineage node = (node_ExecPath node, node_Argv node, take (unat (AncestorCount node)) (Ancestors node))"

definition cut_lineage :: "bytes \<times> bytes list \<times> ancestorSnapshot list \<Rightarrow> bytes \<times> bytes list \<times> ancestorSnapshot list" where
  "cut_lineage e = (case e of (exe, argv, anc) \<Rightarrow> (exe, argv, take maxAncestorDepth anc))"

definition tree_matches :: "jobProcessState \<Rightarrow> lineage \<Rightarrow> bool" where
  "tree_matches ps T \<longleftrightarrow> (\<forall>identity node. nodesByIdentity ps identity = Some node \<longrightarrow> node_ok identity node)
     \<and> (\<forall>identity. map_option node_lineage (nodesByIdentity ps identity) = map_option cut_lineage (T identity))"

lemma new_node_ok: "node_ok identity (new_node identity)"
  by (simp add: node_ok_def new_node_def no_ancestors_def)

lemma new_node_lineage: "node_lineage (new_node identity) = ([], [], [])"
  by (simp add: node_lineage_def new_node_def)

lemma inherit_spec:
  assumes ok: "node_ok p parentNode" and lin: "node_lineage parentNode = cut_lineage (exe, argv, anc)"
  shows "node_ok c (inherit parentNode (new_node c))"
    "node_lineage (inherit parentNode (new_node c)) =
      cut_lineage (exe, argv, \<lparr>anc_ExecPath = exe, anc_Argv = argv\<rparr> # anc)"
proof -
  define count where "count = unat (AncestorCount parentNode)"
  define fit where "fit = min count 15"
  have count: "count \<le> 16" and len: "length (Ancestors parentNode) = 16"
    using ok by (simp_all add: node_ok_def count_def maxAncestorDepth_def)
  have anc: "take count (Ancestors parentNode) = take 16 anc" "node_ExecPath parentNode = exe" "node_Argv parentNode = argv"
    using lin by (simp_all add: node_lineage_def cut_lineage_def count_def maxAncestorDepth_def)
  have fit16: "fit \<le> 15" by (simp add: fit_def)
  have count8: "unat (of_nat (fit + 1) :: u8) = fit + 1"
    using fit16 by (simp add: unsigned_of_nat take_bit_nat_eq_self del: of_nat_Suc of_nat_add)
  let ?node = "inherit parentNode (new_node c)"
  have node: "?node = (new_node c)\<lparr>node_ExecPath := exe, node_Argv := argv,
      Ancestors := (take 1 no_ancestors @ take fit (Ancestors parentNode) @ drop (1 + fit) no_ancestors)
        [0 := \<lparr>anc_ExecPath = exe, anc_Argv = argv\<rparr>], AncestorCount := of_nat (fit + 1)\<rparr>"
    using anc by (auto simp: inherit_def Let_def count_def [symmetric] maxAncestorDepth_def fit_def new_node_def min_def)
  have cons: "(take 1 no_ancestors @ take fit (Ancestors parentNode) @ drop (1 + fit) no_ancestors)
        [0 := \<lparr>anc_ExecPath = exe, anc_Argv = argv\<rparr>] =
      \<lparr>anc_ExecPath = exe, anc_Argv = argv\<rparr> # take fit (Ancestors parentNode) @ drop (1 + fit) no_ancestors"
    by (simp add: no_ancestors_def maxAncestorDepth_def)
  have "take fit (Ancestors parentNode) = take 15 (take count (Ancestors parentNode))"
    by (simp add: fit_def min.commute)
  then have fit_anc: "take fit (Ancestors parentNode) = take 15 anc"
    using anc by simp
  show "node_ok c ?node"
    unfolding node cons using fit16 len count8
    by (simp add: node_ok_def new_node_def no_ancestors_def maxAncestorDepth_def del: of_nat_Suc of_nat_add)
  have "take (fit + 1) (\<lparr>anc_ExecPath = exe, anc_Argv = argv\<rparr> # take fit (Ancestors parentNode) @ drop (1 + fit) no_ancestors) =
      \<lparr>anc_ExecPath = exe, anc_Argv = argv\<rparr> # take fit (Ancestors parentNode)"
    using fit16 len by simp
  then show "node_lineage ?node = cut_lineage (exe, argv, \<lparr>anc_ExecPath = exe, anc_Argv = argv\<rparr> # anc)"
    unfolding node cons node_lineage_def cut_lineage_def using count8
    by (simp add: fit_anc maxAncestorDepth_def del: of_nat_Suc of_nat_add take_Suc_Cons)
qed

lemma tree_matches_Some:
  assumes "tree_matches ps T" "nodesByIdentity ps identity = Some node"
  obtains e where "T identity = Some e" "node_ok identity node" "node_lineage node = cut_lineage e"
proof -
  have "map_option node_lineage (nodesByIdentity ps identity) = map_option cut_lineage (T identity)"
    using assms(1) by (simp add: tree_matches_def)
  then show ?thesis
    using that assms by (cases "T identity") (auto simp: tree_matches_def)
qed

lemma tree_matches_None: "tree_matches ps T \<Longrightarrow> nodesByIdentity ps identity = None \<longleftrightarrow> T identity = None"
  unfolding tree_matches_def by (metis option.map_disc_iff)

lemma tree_matches_update:
  "tree_matches ps T \<Longrightarrow> node_ok identity node \<Longrightarrow> node_lineage node = cut_lineage e \<Longrightarrow>
    tree_matches (ps\<lparr>nodesByIdentity := (nodesByIdentity ps)(identity \<mapsto> node)\<rparr>) (T(identity \<mapsto> e))"
  by (auto simp: tree_matches_def)

lemma tree_matches_new: "tree_matches newJobProcessState Map.empty"
  by (simp add: tree_matches_def newJobProcessState_def)

lemma fork_node_matches:
  assumes m: "tree_matches ps T"
  shows "tree_matches (ps\<lparr>nodesByIdentity := (nodesByIdentity ps)(child \<mapsto> fork_node ps child parent)\<rparr>)
    (lineage_step (Fork child parent) T)"
proof (cases "nodesByIdentity ps parent")
  case None
  then show ?thesis
    using tree_matches_None [OF m, of parent] tree_matches_update [OF m new_node_ok, of child "([], [], [])"]
    by (simp add: fork_node_def new_node_lineage cut_lineage_def)
next
  case (Some node)
  obtain exe argv anc where "T parent = Some (exe, argv, anc)" "node_ok parent node"
    "node_lineage node = cut_lineage (exe, argv, anc)"
    using tree_matches_Some [OF m Some] by (metis prod_cases3)
  then show ?thesis
    using Some tree_matches_update [OF m inherit_spec] by (simp add: fork_node_def)
qed

lemma exec_node_matches:
  assumes m: "tree_matches ps T"
  shows "tree_matches (ps\<lparr>nodesByIdentity := (nodesByIdentity ps)(identity \<mapsto> exec_node ps identity exe blob n)\<rparr>)
    (lineage_step (Exec identity exe blob n) T)"
proof (cases "nodesByIdentity ps identity")
  case None
  then have "T identity = None" using tree_matches_None [OF m] by simp
  then show ?thesis
    unfolding lineage_step.simps using None
    by (intro tree_matches_update [OF m])
      (simp_all add: exec_node_def node_ok_def new_node_def no_ancestors_def node_lineage_def cut_lineage_def)
next
  case (Some node)
  then obtain e where "T identity = Some e" "node_ok identity node" "node_lineage node = cut_lineage e"
    by (rule tree_matches_Some [OF m])
  then show ?thesis
    unfolding lineage_step.simps using Some
    by (intro tree_matches_update [OF m])
      (auto simp: exec_node_def node_ok_def node_lineage_def cut_lineage_def split: prod.splits)
qed

lemma backfill_node:
  assumes "backfillProcessNode proc identity = Some node"
  shows "node_ok identity node" "node_lineage node = cut_lineage (node_ExecPath node, node_Argv node, [])"
    "node_State node = processStateRunning"
  using assms
  by (auto simp: backfillProcessNode_def new_node_def no_ancestors_def node_ok_def node_lineage_def cut_lineage_def
      split: option.splits)

definition queues_empty :: "'a processIndex_scheme \<Rightarrow> bool" where
  "queues_empty s \<longleftrightarrow> (\<forall>job ps. processesByJob s job = Some ps \<longrightarrow> exitedQueue ps = [])"

lemma purge_queues_empty: "queues_empty s \<Longrightarrow> purgeExitedProcesses now s = Some s"
  by (auto simp: purgeExitedProcesses_def purge_job_def queues_empty_def fun_eq_iff split: option.split)

lemma lineage_proc_step:
  assumes "queues_empty s" "processesByJob s job = Some ps" "tree_matches ps T" "\<nexists>i t. op = Exit i t"
  shows "\<exists>s' ps'. proc_step job op s = Some s' \<and> queues_empty s' \<and> processesByJob s' job = Some ps'
    \<and> tree_matches ps' (lineage_step op T)"
proof (cases op)
  case (Fork child parent)
  then show ?thesis
    using assms fork_node_matches [OF assms(3)] by (auto simp: recordFork_def queues_empty_def)
next
  case (Exec identity exe blob n)
  then show ?thesis
    using assms exec_node_matches [OF assms(3)] by (auto simp: recordExec_def queues_empty_def Let_def)
next
  case (Look proc identity)
  show ?thesis
  proof (cases "nodesByIdentity ps identity")
    case None
    then have T: "T identity = None" using tree_matches_None [OF assms(3)] by simp
    show ?thesis
    proof (cases "backfillProcessNode proc identity")
      case no: None
      then show ?thesis using Look None T assms by (auto simp: lookupProcessSummary_def)
    next
      case (Some node)
      then show ?thesis
        using Look None T assms tree_matches_update [OF assms(3) backfill_node(1, 2) [OF Some]]
        by (auto simp: lookupProcessSummary_def queues_empty_def)
    qed
  next
    case (Some node)
    then obtain e where "T identity = Some e" by (rule tree_matches_Some [OF assms(3)])
    then show ?thesis using Some Look assms by (auto simp: lookupProcessSummary_def)
  qed
qed (use assms in \<open>auto simp: purge_queues_empty\<close>)

lemma lineage_proc_run:
  assumes "queues_empty s" "processesByJob s job = Some ps" "tree_matches ps T" "\<forall>i t. Exit i t \<notin> set ops"
  shows "\<exists>s' ps'. proc_run job ops s = Some s' \<and> queues_empty s' \<and> processesByJob s' job = Some ps'
    \<and> tree_matches ps' (fold lineage_step ops T)"
  using assms
proof (induction ops arbitrary: s ps T)
  case (Cons op ops)
  obtain s' ps' where "proc_step job op s = Some s'" "queues_empty s'" "processesByJob s' job = Some ps'"
    "tree_matches ps' (lineage_step op T)"
    using lineage_proc_step [OF Cons.prems(1-3), of op] Cons.prems(4) by auto
  then show ?case
    using Cons.IH [of s' ps' "lineage_step op T"] Cons.prems(4) by auto
qed simp

lemma summary_of_match:
  assumes "tree_matches ps T" "T identity = Some (exe, argv, anc)" "processesByJob s job = Some ps"
  shows "fst (lookupProcessSummary proc job identity s) =
    \<lparr>sum_PID = PID identity, sum_StartBoottime = StartBoottime identity, sum_ExecPath = exe, sum_Argv = argv,
     sum_Ancestors = take maxAncestorDepth anc\<rparr>"
proof -
  obtain node where node: "nodesByIdentity ps identity = Some node"
    using tree_matches_None [OF assms(1), of identity] assms(2) by (cases "nodesByIdentity ps identity") auto
  obtain e where "T identity = Some e" "node_ok identity node" "node_lineage node = cut_lineage e"
    using tree_matches_Some [OF assms(1) node] .
  then show ?thesis
    using node assms(2, 3)
    by (auto simp: lookupProcessSummary_def processSummaryFromNode_def node_lineage_def cut_lineage_def node_ok_def word_gt_0)
qed

text \<open>
  C27: the lineage attached to an event is exact up to its depth bound.  For a registered job, after
  any sequence of observed forks, execs, lookups and purge ticks, no operation panics and the
  summary of every process seen so far holds its current executable and arguments and the sixteen
  nearest ancestors of the unbounded reference lineage, each as it was when the child was forked.
\<close>

theorem process_lineage_exact:
  assumes "queues_empty s" "processesByJob s job = Some newJobProcessState" "\<forall>i t. Exit i t \<notin> set ops"
  shows "\<exists>s'. proc_run job ops s = Some s' \<and>
    (\<forall>identity exe argv anc proc. fold lineage_step ops Map.empty identity = Some (exe, argv, anc) \<longrightarrow>
      fst (lookupProcessSummary proc job identity s') =
        \<lparr>sum_PID = PID identity, sum_StartBoottime = StartBoottime identity, sum_ExecPath = exe, sum_Argv = argv,
         sum_Ancestors = take 16 anc\<rparr>)"
  using lineage_proc_run [OF assms(1, 2) tree_matches_new assms(3)] summary_of_match
  by (fastforce simp: maxAncestorDepth_def)

definition example_processes :: processIndex where
  "example_processes = cgroupIndex.extend newCgroupIndex \<lparr>processesByJob = [example_job \<mapsto> newJobProcessState]\<rparr>"

definition example_proc_ops :: "proc_op list" where
  "example_proc_ops =
    [Exec \<lparr>PID = 1, StartBoottime = 10\<rparr> (c_lit ''/bin/sh'') (c_lit ''sh'' @ [0]) 1,
     Fork \<lparr>PID = 2, StartBoottime = 20\<rparr> \<lparr>PID = 1, StartBoottime = 10\<rparr>,
     Exec \<lparr>PID = 2, StartBoottime = 20\<rparr> (c_lit ''/bin/ls'') (c_lit ''ls'' @ [0]) 1]"

definition no_proc :: proc_reads where
  "no_proc = \<lparr>proc_exe = (\<lambda>_. None), proc_cmdline = (\<lambda>_. None)\<rparr>"

theorem process_lineage_exact_witness:
  "\<exists>s'. proc_run example_job example_proc_ops example_processes = Some s' \<and>
    sum_Ancestors (fst (lookupProcessSummary no_proc example_job \<lparr>PID = 2, StartBoottime = 20\<rparr> s')) =
      [\<lparr>anc_ExecPath = c_lit ''/bin/sh'', anc_Argv = [c_lit ''sh'']\<rparr>]"
proof -
  have "queues_empty example_processes" "processesByJob example_processes example_job = Some newJobProcessState"
    by (simp_all add: queues_empty_def example_processes_def cgroupIndex.defs newJobProcessState_def)
  then show ?thesis
    using process_lineage_exact [of example_processes example_job example_proc_ops]
    by (fastforce simp: example_proc_ops_def splitArgv_def)
qed

subsection \<open>Exited processes\<close>

text \<open>
  The purge dereferences the node of every queued identity.  That is safe as long as the queue lists
  exactly the exited processes, each once; which holds as long as no identity that has exited is
  executed or forked again.
\<close>

definition is_exited :: "processNode option \<Rightarrow> bool" where
  "is_exited n = (case n of None \<Rightarrow> False | Some node \<Rightarrow> node_State node = processStateExited)"

definition exits_ok :: "jobProcessState \<Rightarrow> bool" where
  "exits_ok ps \<longleftrightarrow> distinct (exitedQueue ps)
     \<and> (\<forall>i. i \<in> set (exitedQueue ps) \<longleftrightarrow> is_exited (nodesByIdentity ps i))"

definition all_exits_ok :: "'a processIndex_scheme \<Rightarrow> bool" where
  "all_exits_ok s \<longleftrightarrow> (\<forall>job ps. processesByJob s job = Some ps \<longrightarrow> exits_ok ps)"

definition has_exited :: "'a processIndex_scheme \<Rightarrow> JobIdentity \<Rightarrow> processIdentity \<Rightarrow> bool" where
  "has_exited s job identity \<longleftrightarrow>
    (\<exists>ps. processesByJob s job = Some ps \<and> is_exited (nodesByIdentity ps identity))"

fun no_reuse :: "'a processIndex_scheme \<Rightarrow> JobIdentity \<Rightarrow> proc_op \<Rightarrow> bool" where
  "no_reuse s job (Fork child parent) \<longleftrightarrow> \<not> has_exited s job child"
| "no_reuse s job (Exec identity exe blob n) \<longleftrightarrow> \<not> has_exited s job identity"
| "no_reuse s job _ \<longleftrightarrow> True"

fun no_reuse_run :: "JobIdentity \<Rightarrow> proc_op list \<Rightarrow> 'a processIndex_scheme \<Rightarrow> bool" where
  "no_reuse_run job [] s \<longleftrightarrow> True"
| "no_reuse_run job (op # ops) s \<longleftrightarrow> no_reuse s job op
    \<and> (case proc_step job op s of None \<Rightarrow> True | Some s' \<Rightarrow> no_reuse_run job ops s')"

definition exit_due :: "int \<Rightarrow> (processIdentity \<rightharpoonup> processNode) \<Rightarrow> processIdentity \<Rightarrow> bool" where
  "exit_due now nodes i = (case nodes i of None \<Rightarrow> False | Some node \<Rightarrow> ExitTimestamp node + processExitGracePeriod \<le> now)"

lemma purge_exited_closed:
  assumes "distinct q" "set q \<subseteq> dom nodes"
  shows "purge_exited now q nodes = Some \<lparr>nodesByIdentity = nodes |` (- set (takeWhile (exit_due now nodes) q)),
    exitedQueue = dropWhile (exit_due now nodes) q\<rparr>"
  using assms
proof (induction q arbitrary: nodes)
  case (Cons i q)
  then obtain node where node: "nodes i = Some node" by auto
  have "exit_due now (nodes(i := None)) x = exit_due now nodes x" if "x \<in> set q" for x
    using that Cons.prems(1) by (cases "x = i") (simp_all add: exit_due_def)
  then have due: "takeWhile (exit_due now (nodes(i := None))) q = takeWhile (exit_due now nodes) q"
    "dropWhile (exit_due now (nodes(i := None))) q = dropWhile (exit_due now nodes) q"
    by (simp_all cong: takeWhile_cong dropWhile_cong)
  have restrict: "nodes(i := None) |` (- set w) = nodes |` (- insert i (set w))" for w
    by (auto simp: restrict_map_def fun_eq_iff)
  have IH: "purge_exited now q (nodes(i := None)) =
    Some \<lparr>nodesByIdentity = nodes(i := None) |` (- set (takeWhile (exit_due now nodes) q)),
      exitedQueue = dropWhile (exit_due now nodes) q\<rparr>"
  proof -
    have "set q \<subseteq> dom (nodes(i := None))" "distinct q" using Cons.prems by auto
    from Cons.IH [OF this(2, 1)] show ?thesis by (simp only: due)
  qed
  show ?case
  proof (cases "exit_due now nodes i")
    case True
    then show ?thesis
      using IH node restrict [of "takeWhile (exit_due now nodes) q"] by (simp add: exit_due_def [of now nodes i])
  next
    case False
    then show ?thesis
      using node by (simp add: exit_due_def [of now nodes i] restrict_map_def)
  qed
qed (simp add: restrict_map_def)

lemma exits_ok_dom: "exits_ok ps \<Longrightarrow> set (exitedQueue ps) \<subseteq> dom (nodesByIdentity ps)"
  by (auto simp: exits_ok_def is_exited_def split: option.splits)

lemma purge_job_ok:
  assumes ok: "exits_ok ps"
  obtains ps' where "purge_job now ps = Some ps'" "exits_ok ps'"
proof -
  let ?due = "exit_due now (nodesByIdentity ps)"
  have run: "purge_job now ps = Some \<lparr>nodesByIdentity = nodesByIdentity ps |` (- set (takeWhile ?due (exitedQueue ps))),
      exitedQueue = dropWhile ?due (exitedQueue ps)\<rparr>" (is "_ = Some ?ps")
    unfolding purge_job_def using ok exits_ok_dom [OF ok] by (intro purge_exited_closed) (simp_all add: exits_ok_def)
  have "set (dropWhile ?due (exitedQueue ps)) = set (exitedQueue ps) - set (takeWhile ?due (exitedQueue ps))"
    using ok by (simp add: exits_ok_def set_dropWhile_distinct)
  then have "exits_ok ?ps"
    using ok by (auto simp: exits_ok_def restrict_map_def is_exited_def)
  with run show thesis by (rule that)
qed

lemma exits_ok_update:
  "exits_ok ps \<Longrightarrow> \<not> is_exited (nodesByIdentity ps i) \<Longrightarrow> node_State node = processStateRunning \<Longrightarrow>
    exits_ok (ps\<lparr>nodesByIdentity := (nodesByIdentity ps)(i \<mapsto> node)\<rparr>)"
  by (auto simp: exits_ok_def is_exited_def)

lemma exits_ok_exit: "exits_ok ps \<Longrightarrow> exits_ok (exit_process i t ps)"
  by (auto simp: exits_ok_def exit_process_def is_exited_def split: option.splits)

lemma running_nodes [simp]:
  "node_State (fork_node ps child parent) = processStateRunning"
  "node_State (exec_node ps i exe blob n) = processStateRunning"
  by (auto simp: fork_node_def exec_node_def inherit_def new_node_def Let_def split: option.split)

lemma purge_all_ok:
  assumes "all_exits_ok s"
  shows "\<exists>s'. purgeExitedProcesses now s = Some s' \<and> all_exits_ok s'"
proof -
  have "\<exists>ps'. purge_job now ps = Some ps' \<and> exits_ok ps'" if "processesByJob s job = Some ps" for job ps
    using that assms purge_job_ok [of ps now] by (metis all_exits_ok_def)
  then show ?thesis
    by (fastforce simp: purgeExitedProcesses_def all_exits_ok_def split: option.splits)
qed

lemma purge_all_due:
  assumes ok: "all_exits_ok s" and
    due: "\<forall>job ps i node. processesByJob s job = Some ps \<longrightarrow> nodesByIdentity ps i = Some node \<longrightarrow>
      node_State node = processStateExited \<longrightarrow> ExitTimestamp node + processExitGracePeriod \<le> now"
  shows "\<exists>s'. purgeExitedProcesses now s = Some s' \<and>
    (\<forall>job ps i node. processesByJob s' job = Some ps \<longrightarrow> nodesByIdentity ps i = Some node \<longrightarrow>
      node_State node = processStateRunning)"
proof -
  have job: "\<exists>ps'. purge_job now ps = Some ps' \<and>
      (\<forall>i node. nodesByIdentity ps' i = Some node \<longrightarrow> node_State node = processStateRunning)"
    if ps: "processesByJob s job = Some ps" for job ps
  proof -
    have okps: "exits_ok ps" using ps ok by (simp add: all_exits_ok_def)
    have "exit_due now (nodesByIdentity ps) i" if "i \<in> set (exitedQueue ps)" for i
      using that okps due ps by (fastforce simp: exits_ok_def exit_due_def is_exited_def split: option.splits)
    then have all: "takeWhile (exit_due now (nodesByIdentity ps)) (exitedQueue ps) = exitedQueue ps"
      by (simp add: takeWhile_eq_all_conv)
    have "purge_job now ps = Some \<lparr>nodesByIdentity = nodesByIdentity ps |` (- set (exitedQueue ps)),
        exitedQueue = dropWhile (exit_due now (nodesByIdentity ps)) (exitedQueue ps)\<rparr>"
      unfolding purge_job_def using purge_exited_closed [of "exitedQueue ps" "nodesByIdentity ps" now]
        okps exits_ok_dom [OF okps] all by (simp add: exits_ok_def)
    moreover have "node_State node = processStateRunning"
      if "(nodesByIdentity ps |` (- set (exitedQueue ps))) i = Some node" for i node
      using that okps by (cases "node_State node") (auto simp: exits_ok_def is_exited_def restrict_map_def split: if_splits option.splits)
    ultimately show ?thesis by auto
  qed
  then show ?thesis
    by (fastforce simp: purgeExitedProcesses_def split: option.splits)
qed

lemma proc_step_ok:
  assumes ok: "all_exits_ok s" and clean: "no_reuse s job op"
  shows "\<exists>s'. proc_step job op s = Some s' \<and> all_exits_ok s'"
proof (cases op)
  case (Purge_exited now)
  then show ?thesis using purge_all_ok [OF ok] by simp
next
  case (Fork child parent)
  then show ?thesis
    using ok clean by (auto simp: recordFork_def all_exits_ok_def has_exited_def exits_ok_update split: option.split)
next
  case (Exec identity exe blob n)
  then show ?thesis
    using ok clean by (auto simp: recordExec_def Let_def all_exits_ok_def has_exited_def exits_ok_update split: option.split)
next
  case (Exit identity t)
  then show ?thesis
    using ok by (auto simp: recordExit_def all_exits_ok_def exits_ok_exit split: option.split)
next
  case (Look proc identity)
  then show ?thesis
    using ok by (auto simp: lookupProcessSummary_def all_exits_ok_def is_exited_def dest: backfill_node(3)
        intro!: exits_ok_update split: option.split)
qed

lemma proc_run_ok:
  "all_exits_ok s \<Longrightarrow> no_reuse_run job ops s \<Longrightarrow> \<exists>s'. proc_run job ops s = Some s' \<and> all_exits_ok s'"
proof (induction ops arbitrary: s)
  case (Cons op ops)
  then obtain s' where "proc_step job op s = Some s'" "all_exits_ok s'"
    using proc_step_ok [of s job op] by auto
  then show ?case using Cons by auto
qed simp

text \<open>
  C28: the process purge never dereferences a missing node, and reclaims.  Starting from a state
  whose exit queues are consistent (a fresh one, for instance), any run in which no exited identity
  is executed or forked again completes without a panic, and after it a purge at a time when every
  exit is past its grace period leaves no exited process behind.
\<close>

theorem exited_processes_reclaimed:
  assumes "all_exits_ok s" "no_reuse_run job ops s"
  shows "\<exists>s'. proc_run job ops s = Some s' \<and>
    (\<forall>now. (\<forall>job ps i node. processesByJob s' job = Some ps \<longrightarrow> nodesByIdentity ps i = Some node \<longrightarrow>
        node_State node = processStateExited \<longrightarrow> ExitTimestamp node + processExitGracePeriod \<le> now) \<longrightarrow>
      (\<exists>s''. purgeExitedProcesses now s' = Some s'' \<and>
        (\<forall>job ps i node. processesByJob s'' job = Some ps \<longrightarrow> nodesByIdentity ps i = Some node \<longrightarrow>
          node_State node = processStateRunning)))"
  using proc_run_ok [OF assms] purge_all_due by blast

definition one_exit :: "proc_op list" where
  "one_exit = [Exec \<lparr>PID = 1, StartBoottime = 10\<rparr> (c_lit ''/bin/sh'') (c_lit ''sh'' @ [0]) 1,
     Exit \<lparr>PID = 1, StartBoottime = 10\<rparr> 0]"

lemma all_exits_ok_example: "all_exits_ok example_processes"
  by (simp add: all_exits_ok_def exits_ok_def is_exited_def example_processes_def cgroupIndex.defs newJobProcessState_def)

theorem exited_processes_reclaimed_witness:
  "\<exists>s'. proc_run example_job one_exit example_processes = Some s' \<and> has_exited s' example_job \<lparr>PID = 1, StartBoottime = 10\<rparr>
    \<and> (\<exists>s''. purgeExitedProcesses 10000000000 s' = Some s'' \<and> \<not> has_exited s'' example_job \<lparr>PID = 1, StartBoottime = 10\<rparr>)"
proof -
  have "no_reuse_run example_job one_exit example_processes"
    by (simp add: one_exit_def has_exited_def is_exited_def example_processes_def cgroupIndex.defs newJobProcessState_def)
  then obtain s' where run: "proc_run example_job one_exit example_processes = Some s'" and
    purge: "\<forall>now. (\<forall>job ps i node. processesByJob s' job = Some ps \<longrightarrow> nodesByIdentity ps i = Some node \<longrightarrow>
        node_State node = processStateExited \<longrightarrow> ExitTimestamp node + processExitGracePeriod \<le> now) \<longrightarrow>
      (\<exists>s''. purgeExitedProcesses now s' = Some s'' \<and>
        (\<forall>job ps i node. processesByJob s'' job = Some ps \<longrightarrow> nodesByIdentity ps i = Some node \<longrightarrow>
          node_State node = processStateRunning))"
    using exited_processes_reclaimed [OF all_exits_ok_example] by blast
  have ps: "processesByJob s' = [example_job \<mapsto> \<lparr>nodesByIdentity = [\<lparr>PID = 1, StartBoottime = 10\<rparr> \<mapsto>
      (new_node \<lparr>PID = 1, StartBoottime = 10\<rparr>)\<lparr>node_ExecPath := c_lit ''/bin/sh'', node_Argv := [c_lit ''sh''],
        node_State := processStateExited, ExitTimestamp := 0\<rparr>], exitedQueue = [\<lparr>PID = 1, StartBoottime = 10\<rparr>]\<rparr>]"
    using run by (auto simp: one_exit_def example_processes_def cgroupIndex.defs newJobProcessState_def recordExec_def
        recordExit_def exec_node_def exit_process_def Let_def splitArgv_def new_node_def)
  have "has_exited s' example_job \<lparr>PID = 1, StartBoottime = 10\<rparr>"
    by (simp add: has_exited_def is_exited_def ps)
  moreover have "\<exists>s''. purgeExitedProcesses 10000000000 s' = Some s'' \<and> \<not> has_exited s'' example_job \<lparr>PID = 1, StartBoottime = 10\<rparr>"
    using purge [rule_format, of 10000000000]
    by (fastforce simp: ps processExitGracePeriod_def has_exited_def is_exited_def split: if_splits option.splits)
  ultimately show ?thesis using run by blast
qed

text \<open>
  The side condition is needed: an exit, a late exec of the same identity and a second exit queue the
  identity twice, and the next purge dereferences the node it has just deleted.
\<close>

lemma exit_exec_exit_panics:
  "proc_run example_job (one_exit @ one_exit @ [Purge_exited 10000000000]) example_processes = None"
  by (simp add: one_exit_def example_processes_def cgroupIndex.defs newJobProcessState_def recordExec_def
      recordExit_def exec_node_def exit_process_def Let_def splitArgv_def new_node_def purgeExitedProcesses_def
      purge_job_def processExitGracePeriod_def)

end
