(* ===== verification/Sample_Handlers.thy ===== *)
theory Sample_Handlers
  imports Process_Tree
begin

text \<open>
  The handlers that turn a decoded kernel sample into at most one event record of the job that owns
  its cgroup, after \<open>kernel_sample_{process,network,file,dns,http,mount,unix_socket}_handle.go\<close>,
  with the rendering they do: clean paths, host and domain normalisation, socket and protocol
  names.  The DNS message parser (a third-party package), \<open>/proc\<close>, the Unicode tables and the clock
  offset are fields of the environment.
\<close>

subsection \<open>Event records\<close>

datatype event_type =
    ProcessExec | NetworkConnect | UnixSocketConnect | FileOpen | FileRemove | FileMove | FileLink
  | MountEvent | Domain | HTTPRequest

datatype payload_value = PStr bytes | PBool bool | PInt int

record EventRecord =
  EventType :: event_type
  Timestamp :: int
  ev_Payload :: "string \<rightharpoonup> payload_value"
  Process :: ProcessSummary
  Tags :: "string \<rightharpoonup> string"

datatype EndReason = EndCgroupRmdir | EndHostEnd | EndTTL | EndShutdown | EndTerminate | EndError

record go_env =
  proc_files :: proc_reads
  time_now :: int
  bootTimeOffsetNs :: s64
  unicode_lower :: "bytes \<Rightarrow> bytes"
  dns_question :: "bytes \<Rightarrow> bytes option"

text \<open>\<open>int64(tsNs) + bootTimeOffsetNs\<close> wraps at 64 bits.\<close>

definition bootNsToUTC :: "go_env \<Rightarrow> u64 \<Rightarrow> int" where
  "bootNsToUTC env tsNs = sint (tsNs + bootTimeOffsetNs env)"

definition lower :: "go_env \<Rightarrow> bytes \<Rightarrow> bytes" where
  "lower env s = ToLower (unicode_lower env) s"

subsection \<open>Rendering\<close>

definition protocolName :: "u8 \<Rightarrow> bytes" where
  "protocolName p = (if p = 6 then c_lit ''tcp'' else if p = 17 then c_lit ''udp'' else c_lit ''unknown'')"

definition remoteIPAndFamily :: "bytes \<Rightarrow> bytes \<times> bytes" where
  "remoteIPAndFamily raw =
    (case To4 raw of
       Some v4 \<Rightarrow> (ip_text v4, c_lit ''ipv4'')
     | None \<Rightarrow> (ip_text raw, c_lit ''ipv6''))"

definition socketTypeName :: "u8 \<Rightarrow> bytes" where
  "socketTypeName t =
    (if t = 1 then c_lit ''stream'' else if t = 2 then c_lit ''dgram''
     else if t = 5 then c_lit ''seqpacket'' else c_lit ''unknown'')"

definition trimSunPath :: "bytes \<Rightarrow> bool \<Rightarrow> bytes" where
  "trimSunPath raw isAbstract =
    (if isAbstract then
       (case raw of
          [] \<Rightarrow> c_lit ''@''
        | b # rest \<Rightarrow> if b \<noteq> 0 then c_lit ''@'' else c_lit ''@'' @ takeWhile (\<lambda>c. c \<noteq> 0) rest)
     else takeWhile (\<lambda>c. c \<noteq> 0) raw)"

definition renderUnixPath :: "unixSocketConnectSample \<Rightarrow> bytes" where
  "renderUnixPath sample =
    (let tail = trimSunPath (SunPath sample) (IsAbstract sample) in
     if IsAbstract sample then tail
     else if tail = [] then []
     else if hd tail = 0x2F then tail
     else if Cwd sample = [] \<or> CwdUnavailable sample then tail
     else Clean (Cwd sample @ [0x2F] @ tail))"

definition parseDNSQuery :: "go_env \<Rightarrow> bytes \<Rightarrow> bytes option" where
  "parseDNSQuery env data =
    (case dns_question env data of
       None \<Rightarrow> None
     | Some question \<Rightarrow>
         let name = TrimSuffix (lower env question) (c_lit ''.'') in
         if name = [] then None else Some name)"

definition after :: "bytes \<Rightarrow> bytes \<Rightarrow> bytes option" where
  "after s p = map_option (\<lambda>i. drop (i + length p) s) (Index s p)"

definition parseSystemdResolvedQuery :: "go_env \<Rightarrow> bytes \<Rightarrow> bytes option" where
  "parseSystemdResolvedQuery env data =
    (let data = takeWhile (\<lambda>b. b \<noteq> 0) data in
     if data = [] then None
     else if \<not> Contains data (c_lit ''io.systemd.Resolve.ResolveHostname'')
          \<and> \<not> Contains data (c_lit ''io.systemd.Resolve.ResolveRecord'') then None
     else case after data (c_lit ''\"name\"'') of
       None \<Rightarrow> None
     | Some rest \<Rightarrow>
         (case after rest (c_lit '':'') of
            None \<Rightarrow> None
          | Some rest \<Rightarrow>
              (case after rest (c_lit ''\"'') of
                 None \<Rightarrow> None
               | Some rest \<Rightarrow>
                   (case Index rest (c_lit ''\"'') of
                      None \<Rightarrow> None
                    | Some close \<Rightarrow>
                        let name = TrimSuffix (lower env (take close rest)) (c_lit ''.'') in
                        if name = [] then None else Some name))))"

definition rfc6761SpecialUseTLDs :: "bytes list" where
  "rfc6761SpecialUseTLDs = map c_lit [''.example'', ''.invalid'', ''.localhost'', ''.test'']"

definition isLocalNameResolution :: "go_env \<Rightarrow> bytes \<Rightarrow> bool" where
  "isLocalNameResolution env domain =
    (let name = TrimSuffix (lower env domain) (c_lit ''.'') in
     name = [] \<or> \<not> Contains name (c_lit ''.'') \<or> list_ex (HasSuffix name) rfc6761SpecialUseTLDs)"

definition is_control :: "u8 \<Rightarrow> bool" where
  "is_control c \<longleftrightarrow> c < 0x20 \<or> c = 0x7F"

definition normalizeHTTPHost :: "go_env \<Rightarrow> bytes \<Rightarrow> bytes" where
  "normalizeHTTPHost env raw =
    (let host = Trim {0x20, 0x09} raw in
     if list_ex is_control host then [] else lower env host)"

definition httpSourceValue :: "u8 \<Rightarrow> bytes option" where
  "httpSourceValue source =
    (if source = 0 then Some (c_lit ''cleartext_http'') else if source = 1 then Some (c_lit ''openssl'')
     else if source = 2 then Some (c_lit ''nghttp2'') else if source = 3 then Some (c_lit ''go_net_http'')
     else None)"

definition link_target :: "fileLinkSample \<Rightarrow> bytes" where
  "link_target sample =
    (if IsSymlink sample \<and> ExistingPath sample \<noteq> [] \<and> \<not> HasPrefix (ExistingPath sample) (c_lit ''/'')
     then Clean (Join2 (Dir (CreatedPath sample)) (ExistingPath sample))
     else ExistingPath sample)"

subsection \<open>Handlers\<close>

datatype engineEffect =
    emitEventRecord JobIdentity EventRecord
  | notifyJobEnded JobIdentity EndReason
  | replyRegisterJob nat
  | replyBindCgroup "string option"
  | replyStageCgroupBasename "string option"
  | replyRemoveJob "string option"
  | replyJobForCgroup "JobIdentity option"
  | bindTrackedCgroup JobIdentity u64
  | stageCgroupBasename bytes JobIdentity
  | removeJobFromKernel JobIdentity "u64 list" "bytes list"
  | deleteExpiredCgroupsFromKernel "cgroupPurgeCandidate list"

text \<open>The record of a handler whose sample belongs to \<open>job\<close>: the process summary is looked up last.\<close>

definition tag_if :: "bool \<Rightarrow> string \<Rightarrow> string \<Rightarrow> (string \<rightharpoonup> string) \<Rightarrow> (string \<rightharpoonup> string)" where
  "tag_if b k v tags = (if b then tags(k \<mapsto> v) else tags)"

definition emit_record ::
  "go_env \<Rightarrow> JobIdentity \<Rightarrow> event_type \<Rightarrow> ('b) taskEvent_scheme \<Rightarrow> (string \<rightharpoonup> payload_value) \<Rightarrow> (string \<rightharpoonup> string)
    \<Rightarrow> 'a processIndex_scheme \<Rightarrow> engineEffect list \<times> 'a processIndex_scheme" where
  "emit_record env job ty sample body tags s =
    (let (summary, s') = lookupProcessSummary (proc_files env) job (Identity sample) s in
     ([emitEventRecord job \<lparr>EventType = ty, Timestamp = bootNsToUTC env (TsNs sample), ev_Payload = body,
         Process = summary, Tags = tags\<rparr>], s'))"

definition handleForkSample :: "forkSample \<Rightarrow> 'a processIndex_scheme \<Rightarrow> engineEffect list \<times> 'a processIndex_scheme" where
  "handleForkSample sample s =
    (case jobForCgroup s (ChildCgroupID sample) of
       None \<Rightarrow> ([], s)
     | Some job \<Rightarrow> ([], snd (recordFork job (Child sample) (Parent sample) s)))"

definition handleExecSample :: "go_env \<Rightarrow> execSample \<Rightarrow> 'a processIndex_scheme \<Rightarrow> engineEffect list \<times> 'a processIndex_scheme" where
  "handleExecSample env sample s =
    (case jobForCgroup s (CgroupID sample) of
       None \<Rightarrow> ([], s)
     | Some job \<Rightarrow>
         (case recordExec job (Identity sample) (ExecPath sample) (ArgvBlob sample) (Argc sample) s of
            (None, s') \<Rightarrow> ([], s')
          | (Some summary, s') \<Rightarrow>
              ([emitEventRecord job \<lparr>EventType = ProcessExec, Timestamp = bootNsToUTC env (TsNs sample),
                  ev_Payload = [''is_memfd'' \<mapsto> PBool (IsMemfd sample)], Process = summary,
                  Tags = tag_if (ArgvFaulted sample) ''faulted'' ''argv''
                    (tag_if (ArgvTruncated sample) ''truncated'' ''argv'' Map.empty)\<rparr>], s')))"

text \<open>\<open>handleExitSample\<close>: the engine takes exit samples, though no decoder produces one.\<close>

record exitSample = exit_Identity :: processIdentity exit_CgroupID :: u64 exit_TsNs :: u64

definition handleExitSample :: "go_env \<Rightarrow> exitSample \<Rightarrow> 'a processIndex_scheme \<Rightarrow> engineEffect list \<times> 'a processIndex_scheme" where
  "handleExitSample env sample s =
    (case jobForCgroup s (exit_CgroupID sample) of
       None \<Rightarrow> ([], s)
     | Some job \<Rightarrow> ([], recordExit job (exit_Identity sample) (time_now env) s))"

definition handleNetConnectV4Sample :: "go_env \<Rightarrow> netConnectSample \<Rightarrow> 'a processIndex_scheme \<Rightarrow> engineEffect list \<times> 'a processIndex_scheme" where
  "handleNetConnectV4Sample env sample s =
    (case jobForCgroup s (CgroupID sample) of
       None \<Rightarrow> ([], s)
     | Some job \<Rightarrow>
         if Port sample = 0 then ([], s)
         else emit_record env job NetworkConnect sample
           [''remote_ip'' \<mapsto> PStr (ip_text (RemoteIP sample)), ''remote_port'' \<mapsto> PInt (uint (Port sample)),
            ''protocol'' \<mapsto> PStr (protocolName (Protocol sample)), ''family'' \<mapsto> PStr (c_lit ''ipv4'')]
           (tag_if (Blocked sample) ''block_source'' ''kernel'' Map.empty) s)"

definition handleNetConnectV6Sample :: "go_env \<Rightarrow> netConnectSample \<Rightarrow> 'a processIndex_scheme \<Rightarrow> engineEffect list \<times> 'a processIndex_scheme" where
  "handleNetConnectV6Sample env sample s =
    (case jobForCgroup s (CgroupID sample) of
       None \<Rightarrow> ([], s)
     | Some job \<Rightarrow>
         if Port sample = 0 then ([], s)
         else let (remoteIP, family) = remoteIPAndFamily (RemoteIP sample) in
           emit_record env job NetworkConnect sample
             [''remote_ip'' \<mapsto> PStr remoteIP, ''remote_port'' \<mapsto> PInt (uint (Port sample)),
              ''protocol'' \<mapsto> PStr (protocolName (Protocol sample)), ''family'' \<mapsto> PStr family]
             (tag_if (Blocked sample) ''block_source'' ''kernel'' Map.empty) s)"

definition handleFileOpenSample :: "go_env \<Rightarrow> fileOpenSample \<Rightarrow> 'a processIndex_scheme \<Rightarrow> engineEffect list \<times> 'a processIndex_scheme" where
  "handleFileOpenSample env sample s =
    (case jobForCgroup s (CgroupID sample) of
       None \<Rightarrow> ([], s)
     | Some job \<Rightarrow> emit_record env job FileOpen sample
         [''path'' \<mapsto> PStr (open_Path sample), ''is_read'' \<mapsto> PBool (IsRead sample),
          ''is_write'' \<mapsto> PBool (IsWrite sample), ''flags'' \<mapsto> PInt (uint (Flags sample))]
         (tag_if (open_PathTruncated sample) ''truncated'' ''path'' Map.empty) s)"

definition handleFileRemoveSample :: "go_env \<Rightarrow> fileRemoveSample \<Rightarrow> 'a processIndex_scheme \<Rightarrow> engineEffect list \<times> 'a processIndex_scheme" where
  "handleFileRemoveSample env sample s =
    (case jobForCgroup s (CgroupID sample) of
       None \<Rightarrow> ([], s)
     | Some job \<Rightarrow> emit_record env job FileRemove sample
         [''path'' \<mapsto> PStr (remove_Path sample), ''is_folder'' \<mapsto> PBool (IsFolder sample)]
         (tag_if (remove_PathTruncated sample) ''truncated'' ''path'' Map.empty) s)"

definition handleFileMoveSample :: "go_env \<Rightarrow> fileMoveSample \<Rightarrow> 'a processIndex_scheme \<Rightarrow> engineEffect list \<times> 'a processIndex_scheme" where
  "handleFileMoveSample env sample s =
    (case jobForCgroup s (CgroupID sample) of
       None \<Rightarrow> ([], s)
     | Some job \<Rightarrow> emit_record env job FileMove sample
         [''from_path'' \<mapsto> PStr (FromPath sample), ''to_path'' \<mapsto> PStr (ToPath sample)]
         (tag_if (FromTruncated sample \<or> ToTruncated sample) ''truncated'' ''path'' Map.empty) s)"

definition handleFileLinkSample :: "go_env \<Rightarrow> fileLinkSample \<Rightarrow> 'a processIndex_scheme \<Rightarrow> engineEffect list \<times> 'a processIndex_scheme" where
  "handleFileLinkSample env sample s =
    (case jobForCgroup s (CgroupID sample) of
       None \<Rightarrow> ([], s)
     | Some job \<Rightarrow> emit_record env job FileLink sample
         [''created_path'' \<mapsto> PStr (CreatedPath sample), ''existing_path'' \<mapsto> PStr (link_target sample),
          ''is_hardlink'' \<mapsto> PBool (IsHardlink sample), ''is_symlink'' \<mapsto> PBool (IsSymlink sample)]
         (tag_if (CreatedTruncated sample \<or> ExistingTruncated sample) ''truncated'' ''path'' Map.empty) s)"

definition mount_tags :: "mountSample \<Rightarrow> (string \<rightharpoonup> string)" where
  "mount_tags sample =
    (if SourceTruncated sample \<and> TargetTruncated sample then [''truncated'' \<mapsto> ''source_path,target_path'']
     else if SourceTruncated sample then [''truncated'' \<mapsto> ''source_path'']
     else if TargetTruncated sample then [''truncated'' \<mapsto> ''target_path''] else Map.empty)"

definition handleMountSample :: "go_env \<Rightarrow> mountSample \<Rightarrow> 'a processIndex_scheme \<Rightarrow> engineEffect list \<times> 'a processIndex_scheme" where
  "handleMountSample env sample s =
    (case jobForCgroup s (CgroupID sample) of
       None \<Rightarrow> ([], s)
     | Some job \<Rightarrow> emit_record env job MountEvent sample
         [''source_path'' \<mapsto> PStr (SourcePath sample), ''target_path'' \<mapsto> PStr (TargetPath sample)]
         (mount_tags sample) s)"

definition dns_domain :: "go_env \<Rightarrow> dnsSample \<Rightarrow> bytes option" where
  "dns_domain env sample =
    (if dns_Source sample = 2 then parseSystemdResolvedQuery env (Payload sample)
     else if dns_Source sample = 1 then
       (if length (Payload sample) < 2 then None else parseDNSQuery env (drop 2 (Payload sample)))
     else parseDNSQuery env (Payload sample))"

definition handleDNSSample :: "go_env \<Rightarrow> dnsSample \<Rightarrow> 'a processIndex_scheme \<Rightarrow> engineEffect list \<times> 'a processIndex_scheme" where
  "handleDNSSample env sample s =
    (case jobForCgroup s (CgroupID sample) of
       None \<Rightarrow> ([], s)
     | Some job \<Rightarrow>
         (case dns_domain env sample of
            None \<Rightarrow> ([], s)
          | Some domain \<Rightarrow>
              if isLocalNameResolution env domain then ([], s)
              else emit_record env job Domain sample
                [''domain'' \<mapsto> PStr domain, ''source'' \<mapsto> PStr (c_lit ''dns'')] Map.empty s))"

definition handleHTTPRequestSample :: "go_env \<Rightarrow> httpRequestSample \<Rightarrow> 'a processIndex_scheme \<Rightarrow> engineEffect list \<times> 'a processIndex_scheme" where
  "handleHTTPRequestSample env sample s =
    (case jobForCgroup s (CgroupID sample) of
       None \<Rightarrow> ([], s)
     | Some job \<Rightarrow>
         (case httpSourceValue (http_Source sample) of
            None \<Rightarrow> ([], s)
          | Some source \<Rightarrow>
              if Method sample = [] \<or> \<not> HasPrefix (http_Path sample) (c_lit ''/'') then ([], s)
              else emit_record env job HTTPRequest sample
                [''method'' \<mapsto> PStr (lower env (Method sample)), ''path'' \<mapsto> PStr (lower env (http_Path sample)),
                 ''host'' \<mapsto> PStr (normalizeHTTPHost env (Host sample)), ''source'' \<mapsto> PStr source] Map.empty s))"

definition unix_tags :: "unixSocketConnectSample \<Rightarrow> (string \<rightharpoonup> string)" where
  "unix_tags sample =
    tag_if (CwdUnavailable sample) ''cwd_unavailable'' ''true''
      (tag_if (SunPathTruncated sample \<or> CwdTruncated sample) ''truncated'' ''path'' Map.empty)"

definition handleUnixSocketConnectSample :: "go_env \<Rightarrow> unixSocketConnectSample \<Rightarrow> 'a processIndex_scheme \<Rightarrow> engineEffect list \<times> 'a processIndex_scheme" where
  "handleUnixSocketConnectSample env sample s =
    (case jobForCgroup s (CgroupID sample) of
       None \<Rightarrow> ([], s)
     | Some job \<Rightarrow> emit_record env job UnixSocketConnect sample
         [''path'' \<mapsto> PStr (renderUnixPath sample), ''socket_type'' \<mapsto> PStr (socketTypeName (SocketType sample)),
          ''is_abstract'' \<mapsto> PBool (IsAbstract sample)] (unix_tags sample) s)"

end
