(* ===== verification/Open_Dedup.thy ===== *)
theory Open_Dedup
  imports Sample_Handlers
begin

text \<open>
  Suppression of repeated \<open>file_open\<close> records, after \<open>job_tracking_file_open_dedup.go\<close> and
  \<open>fileOpenPayloadFromRecord\<close>: the key of a record and a fixed-size FIFO of the keys remembered,
  kept as a set and a ring.  The ring refines a plain bounded queue.
\<close>

subsection \<open>Keys\<close>

record fileOpenRecordPayload =
  fop_Path :: bytes
  fop_IsRead :: bool
  fop_IsWrite :: bool
  fop_Flags :: int

record fileOpenDedupKey =
  key_pid :: s32
  key_startBoottime :: u64
  key_execPath :: bytes
  key_payload :: fileOpenRecordPayload

definition fileOpenPayloadFromRecord :: "EventRecord \<Rightarrow> fileOpenRecordPayload option" where
  "fileOpenPayloadFromRecord r =
    (if EventType r \<noteq> FileOpen then None
     else case ev_Payload r ''path'' of
       Some (PStr p) \<Rightarrow>
         if p = [] then None
         else (case ev_Payload r ''is_read'' of
           Some (PBool rd) \<Rightarrow>
             (case ev_Payload r ''is_write'' of
               Some (PBool wr) \<Rightarrow>
                 (case ev_Payload r ''flags'' of
                   Some (PInt fl) \<Rightarrow> Some \<lparr>fop_Path = p, fop_IsRead = rd, fop_IsWrite = wr, fop_Flags = fl\<rparr>
                 | _ \<Rightarrow> None)
             | _ \<Rightarrow> None)
         | _ \<Rightarrow> None)
     | _ \<Rightarrow> None)"

definition fileOpenDedupKeyForRecord :: "EventRecord \<Rightarrow> fileOpenDedupKey option" where
  "fileOpenDedupKeyForRecord r =
    (if sum_PID (Process r) = 0 \<or> sum_StartBoottime (Process r) = 0 then None
     else if Tags r ''truncated'' = Some ''path'' then None
     else map_option (\<lambda>p. \<lparr>key_pid = sum_PID (Process r), key_startBoottime = sum_StartBoottime (Process r),
            key_execPath = sum_ExecPath (Process r), key_payload = p\<rparr>) (fileOpenPayloadFromRecord r))"

subsection \<open>The ring\<close>

record fileOpenDedupState =
  limit :: nat
  seen :: "fileOpenDedupKey set"
  order :: "fileOpenDedupKey list"
  next_slot :: nat

definition defaultFileOpenDedupKeyLimit :: nat where
  "defaultFileOpenDedupKeyLimit = 4096"

definition newFileOpenDedupState :: "nat \<Rightarrow> fileOpenDedupState" where
  "newFileOpenDedupState n = \<lparr>limit = n, seen = {}, order = [], next_slot = 0\<rparr>"

text \<open>A nil receiver remembers nothing.\<close>

definition dedup_contains :: "fileOpenDedupState option \<Rightarrow> fileOpenDedupKey \<Rightarrow> bool" where
  "dedup_contains d key = (case d of None \<Rightarrow> False | Some d \<Rightarrow> key \<in> seen d)"

definition dedup_remember :: "fileOpenDedupKey \<Rightarrow> fileOpenDedupState \<Rightarrow> fileOpenDedupState" where
  "dedup_remember key d =
    (if limit d = 0 then d
     else if key \<in> seen d then d
     else let d' = (if length (order d) < limit d then d\<lparr>order := order d @ [key]\<rparr>
                    else d\<lparr>seen := seen d - {order d ! next_slot d},
                           order := (order d)[next_slot d := key],
                           next_slot := (next_slot d + 1) mod limit d\<rparr>)
          in d'\<lparr>seen := insert key (seen d')\<rparr>)"

subsection \<open>The ring is a bounded queue\<close>

definition fifo :: "fileOpenDedupState \<Rightarrow> fileOpenDedupKey list" where
  "fifo d = drop (next_slot d) (order d) @ take (next_slot d) (order d)"

definition fifo_push :: "nat \<Rightarrow> 'k \<Rightarrow> 'k list \<Rightarrow> 'k list" where
  "fifo_push n key q =
    (if n = 0 \<or> key \<in> set q then q else if length q < n then q @ [key] else tl q @ [key])"

definition dedup_ok :: "fileOpenDedupState \<Rightarrow> bool" where
  "dedup_ok d \<longleftrightarrow> seen d = set (order d) \<and> distinct (order d) \<and> length (order d) \<le> limit d
     \<and> next_slot d \<le> length (order d) \<and> (length (order d) < limit d \<longrightarrow> next_slot d = 0)
     \<and> (0 < limit d \<longrightarrow> next_slot d < limit d)"

lemma dedup_ok_new: "dedup_ok (newFileOpenDedupState n)" "fifo (newFileOpenDedupState n) = []"
  by (simp_all add: dedup_ok_def newFileOpenDedupState_def fifo_def)

lemma set_fifo: "set (fifo d) = set (order d)"
proof -
  have "set (fifo d) = set (take (next_slot d) (order d) @ drop (next_slot d) (order d))"
    unfolding fifo_def set_append by (rule Un_commute)
  then show ?thesis by simp
qed

lemma length_fifo: "length (fifo d) = length (order d)"
  by (simp add: fifo_def)

lemma fifo_rotate:
  assumes "i < length xs"
  shows "drop (Suc i mod length xs) (xs[i := k]) @ take (Suc i mod length xs) (xs[i := k]) =
    tl (drop i xs @ take i xs) @ [k]"
proof (cases "Suc i = length xs")
  case True
  then have "drop i xs = [xs ! i]" "xs[i := k] = take i xs @ [k]"
    using assms by (simp_all add: Cons_nth_drop_Suc [symmetric] upd_conv_take_nth_drop)
  then show ?thesis using True by simp
next
  case False
  with assms have "Suc i < length xs" by simp
  then show ?thesis
    using assms by (simp add: Cons_nth_drop_Suc [symmetric] upd_conv_take_nth_drop drop_Suc tl_drop
        take_Suc_conv_app_nth)
qed

lemma remember_fifo:
  assumes ok: "dedup_ok d"
  shows "dedup_ok (dedup_remember key d)" "fifo (dedup_remember key d) = fifo_push (limit d) key (fifo d)"
proof -
  consider (same) "limit d = 0 \<or> key \<in> seen d" | (grow) "limit d \<noteq> 0" "key \<notin> seen d" "length (order d) < limit d"
    | (full) "limit d \<noteq> 0" "key \<notin> seen d" "length (order d) = limit d"
    using ok unfolding dedup_ok_def by linarith
  moreover have seen: "seen d = set (order d)"
    using ok by (simp add: dedup_ok_def)
  ultimately have "dedup_ok (dedup_remember key d) \<and> fifo (dedup_remember key d) = fifo_push (limit d) key (fifo d)"
  proof cases
    case same
    then have "dedup_remember key d = d"
      by (auto simp: dedup_remember_def)
    moreover have "fifo_push (limit d) key (fifo d) = fifo d"
      using same seen by (auto simp: fifo_push_def set_fifo)
    ultimately show ?thesis using ok by simp
  next
    case grow
    then have d: "dedup_remember key d = d\<lparr>order := order d @ [key], seen := insert key (seen d)\<rparr>"
      by (simp add: dedup_remember_def Let_def)
    have slot: "next_slot d = 0"
      using grow(3) ok unfolding dedup_ok_def by blast
    have "fifo_push (limit d) key (fifo d) = fifo d @ [key]"
      using grow seen by (simp add: fifo_push_def set_fifo length_fifo)
    then show ?thesis
      using ok slot grow seen unfolding d by (simp add: dedup_ok_def fifo_def)
  next
    case full
    let ?d = "d\<lparr>seen := insert key (seen d - {order d ! next_slot d}), order := (order d)[next_slot d := key],
        next_slot := Suc (next_slot d) mod length (order d)\<rparr>"
    have slot: "next_slot d < length (order d)" and dist: "distinct (order d)"
      using ok full unfolding dedup_ok_def by simp_all
    have d: "dedup_remember key d = ?d"
      using full by (simp add: dedup_remember_def Let_def)
    have "set ((order d)[next_slot d := key]) = insert key (set (order d) - {order d ! next_slot d})"
      using slot dist by (simp add: set_update_distinct)
    moreover have "distinct ((order d)[next_slot d := key])"
      using slot dist full seen by (simp add: distinct_list_update)
    ultimately have "dedup_ok ?d"
      using full slot seen by (simp add: dedup_ok_def)
    moreover have "fifo ?d = tl (fifo d) @ [key]"
      using fifo_rotate [OF slot, of key] by (simp add: fifo_def)
    ultimately show ?thesis
      using d full seen set_fifo [of d] length_fifo [of d] by (simp add: fifo_push_def)
  qed
  then show "dedup_ok (dedup_remember key d)" "fifo (dedup_remember key d) = fifo_push (limit d) key (fifo d)"
    by simp_all
qed

lemma limit_remember [simp]: "limit (dedup_remember key d) = limit d"
  by (simp add: dedup_remember_def Let_def)

lemma seen_fifo: "dedup_ok d \<Longrightarrow> seen d = set (fifo d)"
  by (simp add: dedup_ok_def set_fifo)

lemma fifo_push_bounded: "length q \<le> n \<Longrightarrow> length (fifo_push n key q) \<le> n"
  by (auto simp: fifo_push_def)

end
