(* ===== verification/Kernel_Io.thy ===== *)
theory Kernel_Io
  imports Go_Std Cgroup_Tracking
begin

text \<open>
  The map writes of userspace, after \<open>kernelio/kernel_io_maps_linux.go\<close>: tracking a cgroup, staging
  a basename and the two bulk deletes, on the maps the kernel programs read.  Whether the kernel
  accepts an update or a delete is an argument (\<open>map_io\<close>); deleting an absent key is not an error.
\<close>

subsection \<open>Keys and values\<close>

datatype map_error =
    Staging_key_too_long nat
  | Staging_key_not_basename bytes
  | Staging_value_too_long nat
  | Tracked_put_failed u64
  | Tracked_delete_failed u64
  | Staging_put_failed bytes
  | Staging_delete_failed bytes

definition StagingKeyLen :: nat where
  "StagingKeyLen = 256"

definition StagingValueLen :: nat where
  "StagingValueLen = 16"

definition fixedStagingMapKey :: "bytes \<Rightarrow> map_error + bytes" where
  "fixedStagingMapKey key =
    (if length key > StagingKeyLen then Inl (Staging_key_too_long (length key))
     else if 0x2F \<in> set key then Inl (Staging_key_not_basename key)
     else Inr (blit 0 key (replicate StagingKeyLen 0)))"

definition fixedStagingMapValue :: "bytes \<Rightarrow> map_error + bytes" where
  "fixedStagingMapValue v =
    (if length v > StagingValueLen then Inl (Staging_value_too_long (length v))
     else Inr (blit 0 v (replicate StagingValueLen 0)))"

text \<open>The two little-endian words of a staging value.\<close>

definition staging_value_of :: "bytes \<Rightarrow> staging_value" where
  "staging_value_of v = \<lparr>job_id_lo = le_word (take 8 v), job_id_hi = le_word (drop 8 v)\<rparr>"

subsection \<open>Map operations\<close>

record map_io =
  tracked_put_ok :: "u64 \<Rightarrow> bool"
  tracked_delete_ok :: "u64 \<Rightarrow> bool"
  staging_put_ok :: "bytes \<Rightarrow> bool"
  staging_delete_ok :: "bytes \<Rightarrow> bool"

definition PutCgroupIDInTrackedCgroupsMap :: "('a) map_io_scheme \<Rightarrow> u64 \<Rightarrow> bpf_state \<Rightarrow> map_error option \<times> bpf_state" where
  "PutCgroupIDInTrackedCgroupsMap io cg s =
    (if tracked_put_ok io cg then (None, s\<lparr>tracked_cgroups := (tracked_cgroups s)(cg \<mapsto> 1)\<rparr>)
     else (Some (Tracked_put_failed cg), s))"

fun DeleteCgroupIDsFromTrackedCgroupsMap ::
  "('a) map_io_scheme \<Rightarrow> u64 list \<Rightarrow> bpf_state \<Rightarrow> map_error option \<times> bpf_state" where
  "DeleteCgroupIDsFromTrackedCgroupsMap io [] s = (None, s)"
| "DeleteCgroupIDsFromTrackedCgroupsMap io (cg # cgs) s =
    (if tracked_delete_ok io cg
     then DeleteCgroupIDsFromTrackedCgroupsMap io cgs (s\<lparr>tracked_cgroups := (tracked_cgroups s)(cg := None)\<rparr>)
     else (Some (Tracked_delete_failed cg), s))"

definition PutCgroupBasenameInStagingMap :: "('a) map_io_scheme \<Rightarrow> bytes \<Rightarrow> bpf_state \<Rightarrow> map_error option \<times> bpf_state" where
  "PutCgroupBasenameInStagingMap io basename s =
    (case fixedStagingMapKey basename of
       Inl e \<Rightarrow> (Some e, s)
     | Inr key \<Rightarrow>
         (case fixedStagingMapValue [] of
            Inl e \<Rightarrow> (Some e, s)
          | Inr v \<Rightarrow>
              if staging_put_ok io key then (None, s\<lparr>staging_map := (staging_map s)(key \<mapsto> staging_value_of v)\<rparr>)
              else (Some (Staging_put_failed basename), s)))"

fun DeleteCgroupBasenamesFromStagingMap ::
  "('a) map_io_scheme \<Rightarrow> bytes list \<Rightarrow> bpf_state \<Rightarrow> map_error option \<times> bpf_state" where
  "DeleteCgroupBasenamesFromStagingMap io [] s = (None, s)"
| "DeleteCgroupBasenamesFromStagingMap io (b # bs) s =
    (case fixedStagingMapKey b of
       Inl e \<Rightarrow> (Some e, s)
     | Inr key \<Rightarrow>
         if staging_delete_ok io key
         then DeleteCgroupBasenamesFromStagingMap io bs (s\<lparr>staging_map := (staging_map s)(key := None)\<rparr>)
         else (Some (Staging_delete_failed b), s))"

subsection \<open>What a successful write leaves\<close>

lemma fixedStagingMapKey_Inr:
  "fixedStagingMapKey b = Inr key \<longleftrightarrow> length b \<le> 256 \<and> 0x2F \<notin> set b \<and> key = b @ replicate (256 - length b) 0"
  by (auto simp: fixedStagingMapKey_def StagingKeyLen_def blit_0)

lemma restrict_upd_None: "m(k := None) |` (- A) = m |` (- insert k A)"
  by (auto simp: restrict_map_def fun_eq_iff)

lemma delete_tracked_ok:
  "DeleteCgroupIDsFromTrackedCgroupsMap io cgs s = (None, s') \<Longrightarrow>
    s' = s\<lparr>tracked_cgroups := tracked_cgroups s |` (- set cgs)\<rparr>"
proof (induction cgs arbitrary: s)
  case (Cons cg cgs)
  from Cons.prems have "DeleteCgroupIDsFromTrackedCgroupsMap io cgs
      (s\<lparr>tracked_cgroups := (tracked_cgroups s)(cg := None)\<rparr>) = (None, s')"
    by (simp split: if_splits)
  from Cons.IH [OF this] show ?case by (simp add: restrict_upd_None del: restrict_fun_upd fun_upd_apply)
qed (simp add: restrict_map_def)

lemma delete_tracked_frame:
  "staging_map (snd (DeleteCgroupIDsFromTrackedCgroupsMap io cgs s)) = staging_map s
   \<and> events (snd (DeleteCgroupIDsFromTrackedCgroupsMap io cgs s)) = events s
   \<and> dom (tracked_cgroups (snd (DeleteCgroupIDsFromTrackedCgroupsMap io cgs s))) \<subseteq> dom (tracked_cgroups s)"
proof (induction cgs arbitrary: s)
  case (Cons cg cgs)
  from Cons.IH [of "s\<lparr>tracked_cgroups := (tracked_cgroups s)(cg := None)\<rparr>"]
  show ?case by (auto simp del: fun_upd_apply)
qed simp

text \<open>The keys of basenames that pass the guard are their zero-padded forms.\<close>

definition staging_pad :: "bytes \<Rightarrow> bytes" where
  "staging_pad b = b @ replicate (256 - length b) 0"

lemma delete_staging_ok:
  "DeleteCgroupBasenamesFromStagingMap io bs s = (None, s') \<Longrightarrow>
    s' = s\<lparr>staging_map := staging_map s |` (- staging_pad ` set bs)\<rparr>"
proof (induction bs arbitrary: s)
  case (Cons b bs)
  from Cons.prems have "DeleteCgroupBasenamesFromStagingMap io bs
      (s\<lparr>staging_map := (staging_map s)(staging_pad b := None)\<rparr>) = (None, s')"
    by (auto simp: fixedStagingMapKey_Inr staging_pad_def split: if_splits sum.splits)
  from Cons.IH [OF this] show ?case by (simp add: restrict_upd_None del: restrict_fun_upd fun_upd_apply)
qed (simp add: restrict_map_def)

lemma staging_pad_inj:
  assumes "staging_pad a = staging_pad b" "length a \<le> 256" "length b \<le> 256" "0 \<notin> set a" "0 \<notin> set b"
  shows "a = b"
proof -
  have "c_string (staging_pad a) = a" "c_string (staging_pad b) = b"
    unfolding staging_pad_def by (rule c_string_append_zeros, rule assms)+
  with assms(1) show ?thesis by metis
qed

subsection \<open>Staging meets the kernel\<close>

lemma staging_key_of_name:
  assumes "BPF_CORE_READ env h_kernfs (BPF_CORE_READ env h_cgroup cgrp cg_kn) kn_name = p" "p \<noteq> NULL"
    "bpf_probe_read_kernel_str env STAGING_KEY_LEN p = Some (name @ [0])" "name \<noteq> []" "length name < 256"
  shows "staging_key env cgrp = Some (staging_pad name)"
proof -
  have "(0 :: u8) # replicate (256 - Suc (length name)) 0 = replicate (256 - length name) 0"
    using assms(5) by (metis Suc_diff_Suc replicate_Suc)
  then show ?thesis
    using assms by (simp add: staging_key_def Let_def blit_0 staging_pad_def)
qed

end
