(* ===== verification/Engine.thy ===== *)
theory Engine
  imports Open_Dedup Kernel_Io
begin

text \<open>
  The single owner loop of userspace, after \<open>kerneltracker/engine*.go\<close>, \<open>job_tracking.go\<close>,
  \<open>job_tracking_state.go\<close> and \<open>kernel_sample_cgroup_handle.go\<close>.  One turn handles an input on the
  job state and then runs the effects it returned: map writes in the kernel, replies, event
  delivery into the per-job channels.  Go channels live in a heap, so that sending on or closing a
  closed channel is visible: a run-time panic is the value \<open>None\<close>.  The iteration order of Go maps and
  the outcome of every system call are fields of the environment.
\<close>

subsection \<open>State\<close>

record eventDeliveryStats =
  Attempted :: u64
  Delivered :: u64
  Dropped :: u64
  SuppressedDuplicates :: u64
  MaxQueueDepth :: nat

record event_channel =
  ch_buffer :: "EventRecord list"
  ch_capacity :: nat
  ch_closed :: bool

record jobTrackingState = processIndex +
  jobs :: "JobIdentity set"
  jobEventChannels :: "JobIdentity \<rightharpoonup> nat"
  jobEventDeliveryStats :: "JobIdentity \<rightharpoonup> (event_type \<rightharpoonup> eventDeliveryStats)"
  fileOpenDedupByJob :: "JobIdentity \<rightharpoonup> fileOpenDedupState"
  chan_heap :: "nat \<rightharpoonup> event_channel"
  next_chan :: nat

definition newJobTrackingState :: jobTrackingState where
  "newJobTrackingState =
    \<lparr>jobByCgroup = Map.empty, cgroupsByJob = Map.empty, removedCgroupQueue = [],
     stagingByBasename = Map.empty, stagingByJob = Map.empty, processesByJob = Map.empty,
     jobs = {}, jobEventChannels = Map.empty, jobEventDeliveryStats = Map.empty,
     fileOpenDedupByJob = Map.empty, chan_heap = Map.empty, next_chan = 0\<rparr>"

record KernelTracker =
  jobTracking :: jobTrackingState
  kernel_maps :: bpf_state
  job_ends :: "(JobIdentity \<times> EndReason) list"
  reply_log :: "engineEffect list"

record engine_env =
  go_part :: go_env
  map_calls :: map_io
  has_notifier :: bool
  cgroup_order :: "u64 set \<Rightarrow> u64 list"
  staging_order :: "bytes set \<Rightarrow> bytes list"
  visit_order :: "cgroupPurgeCandidate set \<Rightarrow> cgroupPurgeCandidate list"

definition defaultEventRecordBufferSize :: nat where
  "defaultEventRecordBufferSize = 65536"

definition zero_stats :: eventDeliveryStats where
  "zero_stats = \<lparr>Attempted = 0, Delivered = 0, Dropped = 0, SuppressedDuplicates = 0, MaxQueueDepth = 0\<rparr>"

subsection \<open>Registering and removing a job\<close>

definition registerJob :: "JobIdentity \<Rightarrow> nat \<Rightarrow> jobTrackingState \<Rightarrow> nat \<times> jobTrackingState" where
  "registerJob job cap s =
    (let s1 = s\<lparr>jobs := insert job (jobs s)\<rparr>;
         s2 = (if processesByJob s1 job = None
               then s1\<lparr>processesByJob := (processesByJob s1)(job \<mapsto> newJobProcessState)\<rparr> else s1);
         s3 = (if fileOpenDedupByJob s2 job = None
               then s2\<lparr>fileOpenDedupByJob := (fileOpenDedupByJob s2)(job \<mapsto> newFileOpenDedupState defaultFileOpenDedupKeyLimit)\<rparr>
               else s2)
     in case jobEventChannels s3 job of
          Some c \<Rightarrow> (c, s3)
        | None \<Rightarrow> (next_chan s3, s3\<lparr>
            chan_heap := (chan_heap s3)(next_chan s3 \<mapsto> \<lparr>ch_buffer = [], ch_capacity = cap, ch_closed = False\<rparr>),
            jobEventChannels := (jobEventChannels s3)(job \<mapsto> next_chan s3),
            next_chan := next_chan s3 + 1\<rparr>))"

definition observeQueueDepth :: "nat \<Rightarrow> eventDeliveryStats \<Rightarrow> eventDeliveryStats" where
  "observeQueueDepth depth st = (if depth > MaxQueueDepth st then st\<lparr>MaxQueueDepth := depth\<rparr> else st)"

definition deliveryStatsFor :: "jobTrackingState \<Rightarrow> JobIdentity \<Rightarrow> event_type \<Rightarrow> eventDeliveryStats" where
  "deliveryStatsFor s job ty =
    (case inner_map (jobEventDeliveryStats s) job ty of None \<Rightarrow> zero_stats | Some st \<Rightarrow> st)"

text \<open>Go hands out a pointer into the nested map; the writes through it are this store.\<close>

definition store_stats :: "JobIdentity \<Rightarrow> event_type \<Rightarrow> eventDeliveryStats \<Rightarrow> jobTrackingState \<Rightarrow> jobTrackingState" where
  "store_stats job ty st s = s\<lparr>jobEventDeliveryStats := (jobEventDeliveryStats s)
     (job \<mapsto> (inner_map (jobEventDeliveryStats s) job)(ty \<mapsto> st))\<rparr>"

definition removeJob :: "JobIdentity \<Rightarrow> jobTrackingState \<Rightarrow> nat option \<times> jobTrackingState" where
  "removeJob job s =
    (let channel = jobEventChannels s job;
         s1 = s\<lparr>jobEventChannels := (jobEventChannels s)(job := None),
                jobEventDeliveryStats := (jobEventDeliveryStats s)(job := None),
                fileOpenDedupByJob := (fileOpenDedupByJob s)(job := None)\<rparr>;
         s2 = removeCgroupAndStaging job s1
     in (channel, s2\<lparr>jobs := jobs s2 - {job}, processesByJob := (processesByJob s2)(job := None)\<rparr>))"

subsection \<open>Command handlers\<close>

datatype engineInput =
    commandRegisterJob JobIdentity
  | commandBindCgroup JobIdentity u64
  | commandRemoveJob JobIdentity
  | commandStageCgroupBasename bytes JobIdentity
  | commandFindJobForCgroup u64
  | commandPurgeExpiredTrackingState
  | commandReconcileCgroupLiveness int int "u64 set"
  | inputSample decodedKernelSample
  | inputExit exitSample

definition handleStageCgroupBasename :: "bytes \<Rightarrow> JobIdentity \<Rightarrow> jobTrackingState \<Rightarrow> engineEffect list \<times> jobTrackingState" where
  "handleStageCgroupBasename basename job s =
    (if basename = [] \<or> Contains basename (c_lit ''/'') \<or> length basename > StagingKeyLen
     then ([replyStageCgroupBasename (Some ''invalid staging basename'')], s)
     else if stagingByBasename s basename \<noteq> None \<and> stagingByBasename s basename \<noteq> Some job
     then ([replyStageCgroupBasename (Some ''staging basename already belongs to another job'')], s)
     else ([stageCgroupBasename basename job], s))"

text \<open>Replies carry the job's channel; a registered job always has one, a missing one replies 0.\<close>

definition handleRegisterJob :: "JobIdentity \<Rightarrow> jobTrackingState \<Rightarrow> engineEffect list \<times> jobTrackingState" where
  "handleRegisterJob job s =
    (if job \<in> jobs s
     then ([replyRegisterJob (case jobEventChannels s job of None \<Rightarrow> 0 | Some c \<Rightarrow> c)], s)
     else let (channel, s') = registerJob job defaultEventRecordBufferSize s in ([replyRegisterJob channel], s'))"

definition handleBindCgroup :: "JobIdentity \<Rightarrow> u64 \<Rightarrow> jobTrackingState \<Rightarrow> engineEffect list \<times> jobTrackingState" where
  "handleBindCgroup job cg s =
    (if job \<notin> jobs s then ([replyBindCgroup (Some ''job not registered'')], s)
     else if jobForCgroup s cg \<noteq> None \<and> jobForCgroup s cg \<noteq> Some job
     then ([replyBindCgroup (Some ''cgroup already bound to another job'')], s)
     else ([bindTrackedCgroup job cg], s))"

definition handleRemoveJob :: "engine_env \<Rightarrow> JobIdentity \<Rightarrow> jobTrackingState \<Rightarrow> engineEffect list \<times> jobTrackingState" where
  "handleRemoveJob env job s =
    (if job \<notin> jobs s then ([replyRemoveJob None], s)
     else ([removeJobFromKernel job (cgroup_order env (cgroupsForJob s job)) (staging_order env (stagingForJob s job))], s))"

subsection \<open>Cgroup sample handlers\<close>

definition handleCgroupMkdirSample :: "go_env \<Rightarrow> cgroupMkdirSample \<Rightarrow> 'a cgroupIndex_scheme \<Rightarrow> engineEffect list \<times> 'a cgroupIndex_scheme" where
  "handleCgroupMkdirSample env sample s =
    (case jobForCgroup s (ParentCgroupID sample) of
       Some parentJob \<Rightarrow> ([], snd (bindAt parentJob (mkdir_CgroupID sample) (time_now env) s))
     | None \<Rightarrow>
         if StagingMatched sample
         then ([], snd (promoteStagedCgroup (Base (CgroupPath sample)) (mkdir_CgroupID sample) (time_now env) s))
         else ([], s))"

definition handleCgroupAttachSample :: "go_env \<Rightarrow> cgroupAttachSample \<Rightarrow> 'a cgroupIndex_scheme \<Rightarrow> engineEffect list \<times> 'a cgroupIndex_scheme" where
  "handleCgroupAttachSample env sample s =
    (let own = lookupCgroupAttachOwnership s (SourceCgroupID sample) (DestinationCgroupID sample) in
     if \<not> SourceFound own then ([], s)
     else if DestinationFound own then ([], s)
     else ([], snd (bindAt (SourceJobID own) (DestinationCgroupID sample) (time_now env) s)))"

definition handleCgroupRmdirSample :: "go_env \<Rightarrow> cgroupRmdirSample \<Rightarrow> 'a cgroupIndex_scheme \<Rightarrow> engineEffect list \<times> 'a cgroupIndex_scheme" where
  "handleCgroupRmdirSample env sample s =
    (let (detached, s') = markTrackedCgroupRemoved (rmdir_CgroupID sample) (time_now env) s in
     if \<not> detached_Found detached then ([], s')
     else if JobDrained detached then ([notifyJobEnded (detached_JobID detached) EndCgroupRmdir], s')
     else ([], s'))"

definition handleCgroupLivenessReconciliation ::
  "engine_env \<Rightarrow> int \<Rightarrow> int \<Rightarrow> u64 set \<Rightarrow> 'a cgroupIndex_scheme \<Rightarrow> engineEffect list \<times> 'a cgroupIndex_scheme" where
  "handleCgroupLivenessReconciliation env started checked live s =
    (let (removed, s') = reconcileCgroupLiveness
           (visit_order env {(job, cg). job_cgroups s job cg \<noteq> None}) live started checked s
     in (map (\<lambda>r. notifyJobEnded (detached_JobID r) EndCgroupRmdir) (filter JobDrained removed), s'))"

definition handlePurgeTick :: "go_env \<Rightarrow> 'a processIndex_scheme \<Rightarrow> (engineEffect list \<times> 'a processIndex_scheme) option" where
  "handlePurgeTick env s =
    (case purgeExitedProcesses (time_now env) s of
       None \<Rightarrow> None
     | Some s' \<Rightarrow>
         let expired = expiredRemovedCgroups (time_now env) s' in
         Some (if expired = [] then [] else [deleteExpiredCgroupsFromKernel expired], s'))"

subsection \<open>Dispatch\<close>

fun handleSample :: "go_env \<Rightarrow> decodedKernelSample \<Rightarrow> 'a processIndex_scheme \<Rightarrow> engineEffect list \<times> 'a processIndex_scheme" where
  "handleSample env (Dec_fork x) s = handleForkSample x s"
| "handleSample env (Dec_exec x) s = handleExecSample env x s"
| "handleSample env (Dec_mkdir x) s = handleCgroupMkdirSample env x s"
| "handleSample env (Dec_attach x) s = handleCgroupAttachSample env x s"
| "handleSample env (Dec_rmdir x) s = handleCgroupRmdirSample env x s"
| "handleSample env (Dec_net_v4 x) s = handleNetConnectV4Sample env x s"
| "handleSample env (Dec_net_v6 x) s = handleNetConnectV6Sample env x s"
| "handleSample env (Dec_open x) s = handleFileOpenSample env x s"
| "handleSample env (Dec_remove x) s = handleFileRemoveSample env x s"
| "handleSample env (Dec_move x) s = handleFileMoveSample env x s"
| "handleSample env (Dec_link x) s = handleFileLinkSample env x s"
| "handleSample env (Dec_mount x) s = handleMountSample env x s"
| "handleSample env (Dec_dns x) s = handleDNSSample env x s"
| "handleSample env (Dec_http x) s = handleHTTPRequestSample env x s"
| "handleSample env (Dec_unix x) s = handleUnixSocketConnectSample env x s"

fun handleEngineInput :: "engine_env \<Rightarrow> engineInput \<Rightarrow> jobTrackingState \<Rightarrow> (engineEffect list \<times> jobTrackingState) option" where
  "handleEngineInput env (commandRegisterJob job) s = Some (handleRegisterJob job s)"
| "handleEngineInput env (commandBindCgroup job cg) s = Some (handleBindCgroup job cg s)"
| "handleEngineInput env (commandRemoveJob job) s = Some (handleRemoveJob env job s)"
| "handleEngineInput env (commandStageCgroupBasename b job) s = Some (handleStageCgroupBasename b job s)"
| "handleEngineInput env (commandFindJobForCgroup cg) s = Some ([replyJobForCgroup (jobForCgroup s cg)], s)"
| "handleEngineInput env commandPurgeExpiredTrackingState s = handlePurgeTick (go_part env) s"
| "handleEngineInput env (commandReconcileCgroupLiveness started checked live) s =
     Some (handleCgroupLivenessReconciliation env started checked live s)"
| "handleEngineInput env (inputSample x) s = Some (handleSample (go_part env) x s)"
| "handleEngineInput env (inputExit x) s = Some (handleExitSample (go_part env) x s)"

subsection \<open>Effects\<close>

text \<open>The delivery of one record: account, suppress, send or drop.\<close>

definition dedup_key :: "EventRecord \<Rightarrow> fileOpenDedupKey option" where
  "dedup_key r = (if EventType r = FileOpen then fileOpenDedupKeyForRecord r else None)"

definition deliver :: "JobIdentity \<Rightarrow> EventRecord \<Rightarrow> jobTrackingState \<Rightarrow> jobTrackingState option" where
  "deliver job r s =
    (case jobEventChannels s job of
       None \<Rightarrow> Some s
     | Some c \<Rightarrow>
         (case chan_heap s c of
            None \<Rightarrow> None
          | Some ch \<Rightarrow>
              let st = deliveryStatsFor s job (EventType r);
                  st1 = observeQueueDepth (length (ch_buffer ch)) (st\<lparr>Attempted := Attempted st + 1\<rparr>);
                  put = (\<lambda>st. store_stats job (EventType r) st s);
                  key = dedup_key r
              in if key \<noteq> None \<and> dedup_contains (fileOpenDedupByJob s job) (the key)
                 then Some (put (st1\<lparr>SuppressedDuplicates := SuppressedDuplicates st1 + 1\<rparr>))
                 else if ch_closed ch then None
                 else if length (ch_buffer ch) < ch_capacity ch
                 then Some ((put (st1\<lparr>Delivered := Delivered st1 + 1\<rparr>))\<lparr>
                   chan_heap := (chan_heap s)(c \<mapsto> ch\<lparr>ch_buffer := ch_buffer ch @ [r]\<rparr>),
                   fileOpenDedupByJob := (case key of
                      None \<Rightarrow> fileOpenDedupByJob s
                    | Some k \<Rightarrow> (fileOpenDedupByJob s)(job := map_option (dedup_remember k) (fileOpenDedupByJob s job)))\<rparr>)
                 else Some (put (st1\<lparr>Dropped := Dropped st1 + 1\<rparr>))))"

definition close_channel :: "nat option \<Rightarrow> jobTrackingState \<Rightarrow> jobTrackingState option" where
  "close_channel c s =
    (case c of
       None \<Rightarrow> Some s
     | Some c \<Rightarrow>
         (case chan_heap s c of
            None \<Rightarrow> None
          | Some ch \<Rightarrow>
              if ch_closed ch then None else Some (s\<lparr>chan_heap := (chan_heap s)(c \<mapsto> ch\<lparr>ch_closed := True\<rparr>)\<rparr>)))"

definition deleteCgroupKernelMapEntries :: "engine_env \<Rightarrow> u64 list \<Rightarrow> bpf_state \<Rightarrow> map_error option \<times> bpf_state" where
  "deleteCgroupKernelMapEntries env cgs k = DeleteCgroupIDsFromTrackedCgroupsMap (map_calls env) cgs k"

definition deleteJobKernelMapEntries :: "engine_env \<Rightarrow> u64 list \<Rightarrow> bytes list \<Rightarrow> bpf_state \<Rightarrow> map_error option \<times> bpf_state" where
  "deleteJobKernelMapEntries env cgs staging k =
    (case deleteCgroupKernelMapEntries env cgs k of
       (Some e, k') \<Rightarrow> (Some e, k')
     | (None, k') \<Rightarrow> DeleteCgroupBasenamesFromStagingMap (map_calls env) staging k')"

definition cgroupIDsForPurge :: "cgroupPurgeCandidate list \<Rightarrow> u64 list" where
  "cgroupIDsForPurge cs = map snd cs"

definition reply :: "engineEffect \<Rightarrow> KernelTracker \<Rightarrow> KernelTracker" where
  "reply e K = K\<lparr>reply_log := reply_log K @ [e]\<rparr>"

definition err_text :: "map_error option \<Rightarrow> string option" where
  "err_text e = map_option (\<lambda>_. ''kernel map operation failed'') e"

fun runEngineEffect :: "engine_env \<Rightarrow> engineEffect \<Rightarrow> KernelTracker \<Rightarrow> KernelTracker option" where
  "runEngineEffect env (emitEventRecord job r) K =
    map_option (\<lambda>s. K\<lparr>jobTracking := s\<rparr>) (deliver job r (jobTracking K))"
| "runEngineEffect env (notifyJobEnded job reason) K =
    Some (if has_notifier env then K\<lparr>job_ends := job_ends K @ [(job, reason)]\<rparr> else K)"
| "runEngineEffect env (bindTrackedCgroup job cg) K =
    (case PutCgroupIDInTrackedCgroupsMap (map_calls env) cg (kernel_maps K) of
       (Some e, k) \<Rightarrow> Some (reply (replyBindCgroup (err_text (Some e))) (K\<lparr>kernel_maps := k\<rparr>))
     | (None, k) \<Rightarrow>
         let (ok, s) = bindAt job cg (time_now (go_part env)) (jobTracking K) in
         Some (reply (replyBindCgroup (if ok then None else Some ''cgroup already bound to another job''))
           (K\<lparr>kernel_maps := k, jobTracking := s\<rparr>)))"
| "runEngineEffect env (stageCgroupBasename b job) K =
    (case PutCgroupBasenameInStagingMap (map_calls env) b (kernel_maps K) of
       (Some e, k) \<Rightarrow> Some (reply (replyStageCgroupBasename (err_text (Some e))) (K\<lparr>kernel_maps := k\<rparr>))
     | (None, k) \<Rightarrow>
         let (ok, s) = putStaging b job (jobTracking K) in
         Some (reply (replyStageCgroupBasename (if ok then None else Some ''staging basename already belongs to another job''))
           (K\<lparr>kernel_maps := k, jobTracking := s\<rparr>)))"
| "runEngineEffect env (removeJobFromKernel job cgs staging) K =
    (case deleteJobKernelMapEntries env cgs staging (kernel_maps K) of
       (Some e, k) \<Rightarrow> Some (reply (replyRemoveJob (err_text (Some e))) (K\<lparr>kernel_maps := k\<rparr>))
     | (None, k) \<Rightarrow>
         let (channel, s) = removeJob job (jobTracking K) in
         (case close_channel channel s of
            None \<Rightarrow> None
          | Some s' \<Rightarrow> Some (reply (replyRemoveJob None) (K\<lparr>kernel_maps := k, jobTracking := s'\<rparr>))))"
| "runEngineEffect env (deleteExpiredCgroupsFromKernel cs) K =
    (case deleteCgroupKernelMapEntries env (cgroupIDsForPurge cs) (kernel_maps K) of
       (Some e, k) \<Rightarrow> Some (K\<lparr>kernel_maps := k\<rparr>)
     | (None, k) \<Rightarrow> Some (K\<lparr>kernel_maps := k, jobTracking := purgeRemovedCgroups cs (jobTracking K)\<rparr>))"
| "runEngineEffect env e K = Some (reply e K)"

fun runEngineEffects :: "engine_env \<Rightarrow> engineEffect list \<Rightarrow> KernelTracker \<Rightarrow> KernelTracker option" where
  "runEngineEffects env [] K = Some K"
| "runEngineEffects env (e # es) K = (case runEngineEffect env e K of None \<Rightarrow> None | Some K' \<Rightarrow> runEngineEffects env es K')"

text \<open>One turn of \<open>Run\<close>, and what it defers: closing the channels that are left.\<close>

definition engine_step :: "engine_env \<Rightarrow> engineInput \<Rightarrow> KernelTracker \<Rightarrow> KernelTracker option" where
  "engine_step env input K =
    (case handleEngineInput env input (jobTracking K) of
       None \<Rightarrow> None
     | Some (effects, s) \<Rightarrow> runEngineEffects env effects (K\<lparr>jobTracking := s\<rparr>))"

fun close_all :: "nat list \<Rightarrow> jobTrackingState \<Rightarrow> jobTrackingState option" where
  "close_all [] s = Some s"
| "close_all (c # cs) s = (case close_channel (Some c) s of None \<Rightarrow> None | Some s' \<Rightarrow> close_all cs s')"

text \<open>The job worker at the other end of the channel takes one record.\<close>

definition receive :: "nat \<Rightarrow> jobTrackingState \<Rightarrow> EventRecord option \<times> jobTrackingState" where
  "receive c s =
    (case chan_heap s c of
       None \<Rightarrow> (None, s)
     | Some ch \<Rightarrow>
         (case ch_buffer ch of
            [] \<Rightarrow> (None, s)
          | r # rest \<Rightarrow> (Some r, s\<lparr>chan_heap := (chan_heap s)(c \<mapsto> ch\<lparr>ch_buffer := rest\<rparr>)\<rparr>)))"

end
