(* ===== verification/Engine_Safety.thy ===== *)
theory Engine_Safety
  imports Engine
begin

text \<open>
  The invariant of the owner loop and what follows from it: no input makes the engine panic, every
  delivery is accounted for, and a record only reaches the job that owns its cgroup.
\<close>

subsection \<open>Handlers leave the delivery state alone\<close>

lemma more_cgroup_ops [simp]:
  "processIndex.more (snd (bindAt job cg now s)) = processIndex.more s"
  "processIndex.more (snd (removeStaging b job s)) = processIndex.more s"
  "processIndex.more (snd (promoteStagedCgroup b cg now s)) = processIndex.more s"
  "processIndex.more (snd (markTrackedCgroupRemoved cg now s)) = processIndex.more s"
  for s :: "'a processIndex_scheme"
  by (auto simp: bindAt_def removeStaging_def promoteStagedCgroup_def markTrackedCgroupRemoved_def
      set_removed_def Let_def split_beta split: option.split)

lemma more_reconcile [simp]:
  "processIndex.more (snd (reconcileCgroupLiveness visit live started checked s)) = processIndex.more s"
  for s :: "'a processIndex_scheme"
proof (induction visit arbitrary: s)
  case (Cons c visit)
  then show ?case by (cases c) (auto simp: Let_def split_beta)
qed simp

lemma more_process_ops [simp]:
  "processIndex.more (snd (recordFork job c p s)) = processIndex.more s"
  "processIndex.more (snd (recordExec job i exe blob n s)) = processIndex.more s"
  "processIndex.more (recordExit job i t s) = processIndex.more s"
  "processIndex.more (snd (lookupProcessSummary proc job i s)) = processIndex.more s"
  by (auto simp: recordFork_def recordExec_def recordExit_def lookupProcessSummary_def Let_def split: option.split)

lemma more_emit_record [simp]:
  "processIndex.more (snd (emit_record env job ty x body tags s)) = processIndex.more s"
  by (simp add: emit_record_def Let_def split_beta)

lemmas handler_defs =
  handleForkSample_def handleExecSample_def handleCgroupMkdirSample_def handleCgroupAttachSample_def
  handleCgroupRmdirSample_def handleNetConnectV4Sample_def handleNetConnectV6Sample_def handleFileOpenSample_def
  handleFileRemoveSample_def handleFileMoveSample_def handleFileLinkSample_def handleMountSample_def
  handleDNSSample_def handleHTTPRequestSample_def handleUnixSocketConnectSample_def

lemma exec_split: "P (case r of (None, s') \<Rightarrow> f s' | (Some x, s') \<Rightarrow> g x s') \<longleftrightarrow>
  (fst r = None \<longrightarrow> P (f (snd r))) \<and> (\<forall>x. fst r = Some x \<longrightarrow> P (g x (snd r)))"
  by (cases r; cases "fst r") auto

lemma more_handleSample [simp]: "processIndex.more (snd (handleSample env x s)) = processIndex.more s"
  by (cases x) (simp_all add: handler_defs Let_def split_beta exec_split split: option.split)

subsection \<open>The two other parts of the state\<close>

definition cg_part :: "'a cgroupIndex_scheme \<Rightarrow> _" where
  "cg_part s = (jobByCgroup s, cgroupsByJob s, removedCgroupQueue s, stagingByBasename s, stagingByJob s)"

lemma index_inv_cong: "cg_part s = cg_part s' \<Longrightarrow> index_inv s \<longleftrightarrow> index_inv s'"
  by (simp add: cg_part_def index_inv_def indexes_agree_def staging_agrees_def queue_agrees_def)

lemma cg_part_process_ops [simp]:
  "cg_part (snd (recordFork job c p s)) = cg_part s"
  "cg_part (snd (recordExec job i exe blob n s)) = cg_part s"
  "cg_part (recordExit job i t s) = cg_part s"
  "cg_part (snd (lookupProcessSummary proc job i s)) = cg_part s"
  by (auto simp: cg_part_def recordFork_def recordExec_def recordExit_def lookupProcessSummary_def Let_def
      split: option.split)

lemma processes_cgroup_ops [simp]:
  "processesByJob (snd (bindAt job cg now s)) = processesByJob s"
  "processesByJob (snd (removeStaging b job s)) = processesByJob s"
  "processesByJob (snd (promoteStagedCgroup b cg now s)) = processesByJob s"
  "processesByJob (snd (markTrackedCgroupRemoved cg now s)) = processesByJob s"
  by (auto simp: bindAt_def removeStaging_def promoteStagedCgroup_def markTrackedCgroupRemoved_def
      set_removed_def Let_def split_beta split: option.split)

lemma processes_reconcile [simp]:
  "processesByJob (snd (reconcileCgroupLiveness visit live started checked s)) = processesByJob s"
proof (induction visit arbitrary: s)
  case (Cons c visit)
  then show ?case by (cases c) (auto simp: Let_def split_beta)
qed simp

text \<open>Every operation on the tree keeps the exit queues empty and the set of jobs with a tree.\<close>

definition trees_kept :: "'a processIndex_scheme \<Rightarrow> 'a processIndex_scheme \<Rightarrow> bool" where
  "trees_kept s s' \<longleftrightarrow> dom (processesByJob s') = dom (processesByJob s) \<and> (queues_empty s \<longrightarrow> queues_empty s')"

lemma trees_kept_refl [simp]: "trees_kept s s"
  by (simp add: trees_kept_def)

lemma trees_kept_ops [simp]:
  "trees_kept s (snd (recordFork job c p s))"
  "trees_kept s (snd (recordExec job i exe blob n s))"
  "trees_kept s (snd (lookupProcessSummary proc job i s))"
  by (auto simp: trees_kept_def queues_empty_def recordFork_def recordExec_def lookupProcessSummary_def Let_def domIff
      split: option.splits if_splits)

lemma trees_kept_same: "processesByJob s' = processesByJob s \<Longrightarrow> trees_kept s s'"
  by (simp add: trees_kept_def queues_empty_def)

lemma emit_record_parts [simp]:
  "cg_part (snd (emit_record env job ty x body tags s)) = cg_part s"
  "trees_kept s (snd (emit_record env job ty x body tags s))"
  by (simp_all add: emit_record_def Let_def split_beta)

lemma trees_handleSample: "trees_kept s (snd (handleSample env x s))"
  by (cases x) (simp_all add: handler_defs Let_def split_beta exec_split trees_kept_same split: option.split)

text \<open>
  An exec or fork sample of a process that has already exited: only such a late sample brings an
  identity back that waits in an exit queue.
\<close>

fun late_start :: "engineInput \<Rightarrow> 'a processIndex_scheme \<Rightarrow> bool" where
  "late_start (inputSample (Dec_fork x)) s \<longleftrightarrow>
    (case jobForCgroup s (ChildCgroupID x) of None \<Rightarrow> False | Some job \<Rightarrow> has_exited s job (Child x))"
| "late_start (inputSample (Dec_exec x)) s \<longleftrightarrow>
    (case jobForCgroup s (CgroupID x) of None \<Rightarrow> False | Some job \<Rightarrow> has_exited s job (Identity x))"
| "late_start _ s \<longleftrightarrow> False"

lemma exits_ops:
  "all_exits_ok s \<Longrightarrow> \<not> has_exited s job c \<Longrightarrow> all_exits_ok (snd (recordFork job c p s))"
  "all_exits_ok s \<Longrightarrow> \<not> has_exited s job i \<Longrightarrow> all_exits_ok (snd (recordExec job i exe blob n s))"
  "all_exits_ok s \<Longrightarrow> all_exits_ok (recordExit job i t s)"
  "all_exits_ok s \<Longrightarrow> all_exits_ok (snd (lookupProcessSummary proc job i s))"
  using proc_step_ok [of s job "Fork c p"] proc_step_ok [of s job "Exec i exe blob n"] proc_step_ok [of s job "Exit i t"]
    proc_step_ok [of s job "Look proc i"] by simp_all

lemma all_exits_cong: "processesByJob s' = processesByJob s \<Longrightarrow> all_exits_ok s' \<longleftrightarrow> all_exits_ok s"
  for s' :: "'a processIndex_scheme" and s :: "'b processIndex_scheme"
  by (simp add: all_exits_ok_def)

lemma exits_handleSample:
  "all_exits_ok s \<Longrightarrow> \<not> late_start (inputSample x) s \<Longrightarrow> all_exits_ok (snd (handleSample env x s))"
  by (cases x; simp add: handler_defs Let_def split_beta exec_split emit_record_def exits_ops
      all_exits_cong [OF processes_cgroup_ops(1)] all_exits_cong [OF processes_cgroup_ops(3)]
      all_exits_cong [OF processes_cgroup_ops(4)] split: option.splits; auto simp: exits_ops)

lemma no_late_start:
  assumes "queues_empty s" "all_exits_ok s"
  shows "\<not> late_start input s"
proof -
  have "\<not> has_exited s job i" for job i
    using assms by (fastforce simp: has_exited_def queues_empty_def all_exits_ok_def exits_ok_def)
  then show ?thesis by (cases "(input, s)" rule: late_start.cases) (auto split: option.split)
qed

definition is_lifecycle :: "decodedKernelSample \<Rightarrow> bool" where
  "is_lifecycle x = (case x of Dec_mkdir _ \<Rightarrow> True | Dec_attach _ \<Rightarrow> True | Dec_rmdir _ \<Rightarrow> True | _ \<Rightarrow> False)"

lemma cg_part_handleSample: "\<not> is_lifecycle x \<Longrightarrow> cg_part (snd (handleSample env x s)) = cg_part s"
  by (cases x) (simp_all add: is_lifecycle_def handler_defs Let_def split_beta exec_split split: option.split)

lemma index_inv_lifecycle:
  "index_inv s \<Longrightarrow> index_inv (snd (handleCgroupMkdirSample env m s))"
  "index_inv s \<Longrightarrow> index_inv (snd (handleCgroupAttachSample env a s))"
  "index_inv s \<Longrightarrow> index_inv (snd (handleCgroupRmdirSample env r s))"
  by (simp_all add: handler_defs Let_def split_beta index_inv_bindAt index_inv_promote index_inv_mark split: option.split)

lemma index_inv_handleSample: "index_inv s \<Longrightarrow> index_inv (snd (handleSample env x s))"
proof (cases "is_lifecycle x")
  case True
  then show "index_inv s \<Longrightarrow> ?thesis" by (cases x) (simp_all add: is_lifecycle_def index_inv_lifecycle)
next
  case False
  then show "index_inv s \<Longrightarrow> ?thesis" using index_inv_cong [OF cg_part_handleSample] by blast
qed

subsection \<open>The invariant\<close>

definition registered_ok :: "jobTrackingState \<Rightarrow> bool" where
  "registered_ok s \<longleftrightarrow> dom (jobEventChannels s) = jobs s \<and> dom (processesByJob s) = jobs s
     \<and> dom (fileOpenDedupByJob s) = jobs s \<and> dom (jobEventDeliveryStats s) \<subseteq> jobs s"

definition channels_ok :: "jobTrackingState \<Rightarrow> bool" where
  "channels_ok s \<longleftrightarrow>
     (\<forall>j j' c. jobEventChannels s j = Some c \<longrightarrow> jobEventChannels s j' = Some c \<longrightarrow> j' = j)
     \<and> (\<forall>j c. jobEventChannels s j = Some c \<longrightarrow> (\<exists>ch. chan_heap s c = Some ch \<and> \<not> ch_closed ch))
     \<and> (\<forall>c ch. chan_heap s c = Some ch \<longrightarrow> c < next_chan s \<and> ch_capacity ch = defaultEventRecordBufferSize
          \<and> length (ch_buffer ch) \<le> defaultEventRecordBufferSize)"

definition dedups_ok :: "jobTrackingState \<Rightarrow> bool" where
  "dedups_ok s \<longleftrightarrow> (\<forall>j d. fileOpenDedupByJob s j = Some d \<longrightarrow> dedup_ok d \<and> limit d = defaultFileOpenDedupKeyLimit)"

definition stats_ok :: "eventDeliveryStats \<Rightarrow> bool" where
  "stats_ok st \<longleftrightarrow> Attempted st = Delivered st + Dropped st + SuppressedDuplicates st
     \<and> MaxQueueDepth st \<le> defaultEventRecordBufferSize"

definition accounts_ok :: "jobTrackingState \<Rightarrow> bool" where
  "accounts_ok s \<longleftrightarrow> (\<forall>j ty st. inner_map (jobEventDeliveryStats s) j ty = Some st \<longrightarrow> stats_ok st)"

definition delivery_ok :: "jobTrackingState \<Rightarrow> bool" where
  "delivery_ok s \<longleftrightarrow> registered_ok s \<and> channels_ok s \<and> dedups_ok s \<and> accounts_ok s"

definition tracking_inv :: "jobTrackingState \<Rightarrow> bool" where
  "tracking_inv s \<longleftrightarrow> index_inv s \<and> all_exits_ok s \<and> delivery_ok s"

lemma more_fields:
  fixes s s' :: jobTrackingState
  assumes "processIndex.more s' = processIndex.more s"
  shows "jobs s' = jobs s" "jobEventChannels s' = jobEventChannels s" "fileOpenDedupByJob s' = fileOpenDedupByJob s"
    "jobEventDeliveryStats s' = jobEventDeliveryStats s" "chan_heap s' = chan_heap s" "next_chan s' = next_chan s"
  using assms by (cases s; cases s'; simp)+

lemma delivery_ok_more:
  assumes "processIndex.more s' = processIndex.more s" "dom (processesByJob s') = dom (processesByJob s)"
  shows "delivery_ok s' \<longleftrightarrow> delivery_ok s"
  by (simp add: delivery_ok_def registered_ok_def channels_ok_def dedups_ok_def accounts_ok_def
      more_fields [OF assms(1)] assms(2))

lemma tracking_inv_new: "tracking_inv newJobTrackingState"
  by (simp add: tracking_inv_def index_inv_def indexes_agree_def staging_agrees_def queue_agrees_def all_exits_ok_def
      delivery_ok_def registered_ok_def channels_ok_def dedups_ok_def accounts_ok_def newJobTrackingState_def)

lemma tracking_inv_handleSample:
  "tracking_inv s \<Longrightarrow> \<not> late_start (inputSample x) s \<Longrightarrow> tracking_inv (snd (handleSample env x s))"
  using trees_handleSample [of s env x] delivery_ok_more [of "snd (handleSample env x s)" s]
  by (auto simp: tracking_inv_def index_inv_handleSample exits_handleSample trees_kept_def)

lemma tracking_inv_handleExit: "tracking_inv s \<Longrightarrow> tracking_inv (snd (handleExitSample env x s))"
proof -
  assume inv: "tracking_inv s"
  let ?s = "snd (handleExitSample env x s)"
  have parts: "cg_part ?s = cg_part s" "processIndex.more ?s = processIndex.more s"
    by (simp_all add: handleExitSample_def split: option.split)
  have dom: "dom (processesByJob ?s) = dom (processesByJob s)"
    by (auto simp: handleExitSample_def recordExit_def split: option.splits if_splits)
  have "all_exits_ok ?s"
    using inv exits_ops(3) [of s] by (simp add: handleExitSample_def tracking_inv_def split: option.split)
  then show ?thesis
    using inv index_inv_cong [OF parts(1)] delivery_ok_more [OF parts(2) dom] by (simp add: tracking_inv_def)
qed

subsection \<open>Delivery\<close>

lemma stats_ok_for: "accounts_ok s \<Longrightarrow> stats_ok (deliveryStatsFor s job ty)"
  by (auto simp: deliveryStatsFor_def accounts_ok_def stats_ok_def zero_stats_def split: option.splits)

lemma stats_ok_observe:
  "stats_ok st \<Longrightarrow> d \<le> defaultEventRecordBufferSize \<Longrightarrow>
    stats_ok ((observeQueueDepth d (st\<lparr>Attempted := Attempted st + 1\<rparr>))
      \<lparr>SuppressedDuplicates := SuppressedDuplicates (observeQueueDepth d (st\<lparr>Attempted := Attempted st + 1\<rparr>)) + 1\<rparr>)"
  "stats_ok st \<Longrightarrow> d \<le> defaultEventRecordBufferSize \<Longrightarrow>
    stats_ok ((observeQueueDepth d (st\<lparr>Attempted := Attempted st + 1\<rparr>))
      \<lparr>Delivered := Delivered (observeQueueDepth d (st\<lparr>Attempted := Attempted st + 1\<rparr>)) + 1\<rparr>)"
  "stats_ok st \<Longrightarrow> d \<le> defaultEventRecordBufferSize \<Longrightarrow>
    stats_ok ((observeQueueDepth d (st\<lparr>Attempted := Attempted st + 1\<rparr>))
      \<lparr>Dropped := Dropped (observeQueueDepth d (st\<lparr>Attempted := Attempted st + 1\<rparr>)) + 1\<rparr>)"
  by (simp_all add: stats_ok_def observeQueueDepth_def)

lemma accounts_ok_store: "accounts_ok s \<Longrightarrow> stats_ok st \<Longrightarrow> accounts_ok (store_stats job ty st s)"
  by (auto simp: accounts_ok_def store_stats_def)

lemma store_stats_frame [simp]:
  "jobs (store_stats job ty st s) = jobs s" "jobEventChannels (store_stats job ty st s) = jobEventChannels s"
  "fileOpenDedupByJob (store_stats job ty st s) = fileOpenDedupByJob s" "chan_heap (store_stats job ty st s) = chan_heap s"
  "next_chan (store_stats job ty st s) = next_chan s" "processesByJob (store_stats job ty st s) = processesByJob s"
  "cg_part (store_stats job ty st s) = cg_part s"
  by (simp_all add: store_stats_def cg_part_def)

lemma delivery_ok_store:
  "delivery_ok s \<Longrightarrow> stats_ok st \<Longrightarrow> job \<in> jobs s \<Longrightarrow> delivery_ok (store_stats job ty st s)"
proof -
  assume ok: "delivery_ok s" and st: "stats_ok st" and job: "job \<in> jobs s"
  have "dom (jobEventDeliveryStats (store_stats job ty st s)) = insert job (dom (jobEventDeliveryStats s))"
    by (simp add: store_stats_def)
  then have "registered_ok (store_stats job ty st s)"
    using ok job by (simp add: delivery_ok_def registered_ok_def)
  moreover have "channels_ok (store_stats job ty st s) = channels_ok s" "dedups_ok (store_stats job ty st s) = dedups_ok s"
    by (simp_all add: channels_ok_def dedups_ok_def)
  ultimately show ?thesis
    using ok accounts_ok_store [OF _ st] by (simp add: delivery_ok_def)
qed

lemma delivery_ok_send:
  assumes ok: "delivery_ok s" and ch: "jobEventChannels s job = Some c" "chan_heap s c = Some ch" and
    room: "length (ch_buffer ch) < ch_capacity ch"
  shows "delivery_ok (s\<lparr>chan_heap := (chan_heap s)(c \<mapsto> ch\<lparr>ch_buffer := ch_buffer ch @ [r]\<rparr>),
    fileOpenDedupByJob := (case key of None \<Rightarrow> fileOpenDedupByJob s
      | Some k \<Rightarrow> (fileOpenDedupByJob s)(job := map_option (dedup_remember k) (fileOpenDedupByJob s job)))\<rparr>)"
proof -
  have "job \<in> dom (fileOpenDedupByJob s)"
    using ok ch(1) by (auto simp: delivery_ok_def registered_ok_def)
  then obtain d where d: "fileOpenDedupByJob s job = Some d" by auto
  have dok: "dedup_ok d" "limit d = defaultFileOpenDedupKeyLimit"
    using ok d by (auto simp: delivery_ok_def dedups_ok_def)
  have chans: "channels_ok s" using ok by (simp add: delivery_ok_def)
  then have open_ch: "\<not> ch_closed ch" "ch_capacity ch = defaultEventRecordBufferSize" "c < next_chan s"
    using ch by (fastforce simp: channels_ok_def)+
  let ?s = "s\<lparr>chan_heap := (chan_heap s)(c \<mapsto> ch\<lparr>ch_buffer := ch_buffer ch @ [r]\<rparr>),
    fileOpenDedupByJob := (case key of None \<Rightarrow> fileOpenDedupByJob s
      | Some k \<Rightarrow> (fileOpenDedupByJob s)(job := map_option (dedup_remember k) (fileOpenDedupByJob s job)))\<rparr>"
  have "channels_ok ?s"
    using chans open_ch room ch unfolding channels_ok_def by (auto; metis)
  moreover have "dedups_ok ?s"
    using ok d dok by (cases key) (auto simp: delivery_ok_def dedups_ok_def remember_fifo(1))
  moreover have "registered_ok ?s" "accounts_ok ?s"
    using ok d by (cases key; auto simp: delivery_ok_def registered_ok_def accounts_ok_def)+
  ultimately show ?thesis by (simp add: delivery_ok_def)
qed

lemma deliver_channel:
  assumes "delivery_ok s" "jobEventChannels s job = Some c"
  obtains ch where "chan_heap s c = Some ch" "\<not> ch_closed ch" "length (ch_buffer ch) \<le> defaultEventRecordBufferSize"
    "ch_capacity ch = defaultEventRecordBufferSize" "job \<in> jobs s"
proof -
  have chans: "channels_ok s" and "job \<in> jobs s"
    using assms by (auto simp: delivery_ok_def registered_ok_def)
  moreover obtain ch where "chan_heap s c = Some ch" "\<not> ch_closed ch"
    using chans assms(2) unfolding channels_ok_def by blast
  moreover have "length (ch_buffer ch) \<le> defaultEventRecordBufferSize" "ch_capacity ch = defaultEventRecordBufferSize"
    using chans \<open>chan_heap s c = Some ch\<close> unfolding channels_ok_def by blast+
  ultimately show thesis using that by blast
qed

lemma deliver_ok:
  assumes ok: "delivery_ok s"
  shows "\<exists>s'. deliver job r s = Some s' \<and> delivery_ok s' \<and> cg_part s' = cg_part s \<and> processesByJob s' = processesByJob s"
proof (cases "jobEventChannels s job")
  case None
  then show ?thesis using ok by (simp add: deliver_def)
next
  case (Some c)
  obtain ch where ch: "chan_heap s c = Some ch" "\<not> ch_closed ch" "length (ch_buffer ch) \<le> defaultEventRecordBufferSize"
    "ch_capacity ch = defaultEventRecordBufferSize" "job \<in> jobs s"
    by (rule deliver_channel [OF ok Some])
  have st: "stats_ok (deliveryStatsFor s job (EventType r))"
    using ok by (intro stats_ok_for) (simp add: delivery_ok_def)
  note stored = delivery_ok_store [OF ok stats_ok_observe(1) [OF st ch(3)] ch(5), of "EventType r"]
    delivery_ok_store [OF ok stats_ok_observe(2) [OF st ch(3)] ch(5), of "EventType r"]
    delivery_ok_store [OF ok stats_ok_observe(3) [OF st ch(3)] ch(5), of "EventType r"]
  have send: "delivery_ok ((store_stats job (EventType r) st' s)
      \<lparr>chan_heap := (chan_heap s)(c \<mapsto> ch\<lparr>ch_buffer := ch_buffer ch @ [r]\<rparr>),
       fileOpenDedupByJob := (case key of None \<Rightarrow> fileOpenDedupByJob s
         | Some k \<Rightarrow> (fileOpenDedupByJob s)(job := map_option (dedup_remember k) (fileOpenDedupByJob s job)))\<rparr>)"
    if "delivery_ok (store_stats job (EventType r) st' s)" "length (ch_buffer ch) < ch_capacity ch" for st' key
    using delivery_ok_send [OF that(1), where job = job and c = c and ch = ch and r = r and key = key, unfolded store_stats_frame]
      Some ch(1) that(2) by blast
  define st where "st = observeQueueDepth (length (ch_buffer ch))
    ((deliveryStatsFor s job (EventType r))\<lparr>Attempted := Attempted (deliveryStatsFor s job (EventType r)) + 1\<rparr>)"
  define supp where "supp \<longleftrightarrow> dedup_key r \<noteq> None \<and> dedup_contains (fileOpenDedupByJob s job) (the (dedup_key r))"
  define A where "A = store_stats job (EventType r) (st\<lparr>SuppressedDuplicates := SuppressedDuplicates st + 1\<rparr>) s"
  define B where "B = (store_stats job (EventType r) (st\<lparr>Delivered := Delivered st + 1\<rparr>) s)\<lparr>
    chan_heap := (chan_heap s)(c \<mapsto> ch\<lparr>ch_buffer := ch_buffer ch @ [r]\<rparr>),
    fileOpenDedupByJob := (case dedup_key r of None \<Rightarrow> fileOpenDedupByJob s
      | Some k \<Rightarrow> (fileOpenDedupByJob s)(job := map_option (dedup_remember k) (fileOpenDedupByJob s job)))\<rparr>"
  define C where "C = store_stats job (EventType r) (st\<lparr>Dropped := Dropped st + 1\<rparr>) s"
  have run: "deliver job r s =
      Some (if supp then A else if length (ch_buffer ch) < ch_capacity ch then B else C)"
    using Some ch(1, 2) unfolding deliver_def Let_def supp_def A_def B_def C_def st_def by (simp del: split_paired_Ex)
  have "delivery_ok A" "delivery_ok C"
    using stored by (simp_all add: A_def C_def st_def)
  moreover have "delivery_ok B" if "length (ch_buffer ch) < ch_capacity ch"
    using send [OF stored(2) that] by (simp add: B_def st_def)
  moreover have "cg_part A = cg_part s" "cg_part B = cg_part s" "cg_part C = cg_part s"
    "processesByJob A = processesByJob s" "processesByJob B = processesByJob s" "processesByJob C = processesByJob s"
    by (simp_all add: A_def B_def C_def cg_part_def store_stats_def)
  ultimately show ?thesis unfolding run by simp
qed

subsection \<open>Registration and removal\<close>

lemma registerJob_new:
  assumes "job \<notin> jobs s" "registered_ok s"
  shows "registerJob job cap s = (next_chan s, s\<lparr>jobs := insert job (jobs s),
    processesByJob := (processesByJob s)(job \<mapsto> newJobProcessState),
    fileOpenDedupByJob := (fileOpenDedupByJob s)(job \<mapsto> newFileOpenDedupState defaultFileOpenDedupKeyLimit),
    chan_heap := (chan_heap s)(next_chan s \<mapsto> \<lparr>ch_buffer = [], ch_capacity = cap, ch_closed = False\<rparr>),
    jobEventChannels := (jobEventChannels s)(job \<mapsto> next_chan s), next_chan := next_chan s + 1\<rparr>)"
proof -
  have "processesByJob s job = None" "fileOpenDedupByJob s job = None" "jobEventChannels s job = None"
    using assms by (auto simp: registered_ok_def)
  then show ?thesis by (simp add: registerJob_def Let_def)
qed

lemma tracking_inv_registerJob:
  assumes inv: "tracking_inv s" and new: "job \<notin> jobs s"
  shows "tracking_inv (snd (registerJob job defaultEventRecordBufferSize s))"
proof -
  have reg: "registered_ok s" and chans: "channels_ok s" and ded: "dedups_ok s" and acc: "accounts_ok s"
    using inv by (simp_all add: tracking_inv_def delivery_ok_def)
  let ?s = "snd (registerJob job defaultEventRecordBufferSize s)"
  note s' = registerJob_new [OF new reg]
  have "index_inv ?s"
    using inv index_inv_cong [of ?s s] by (simp add: s' cg_part_def tracking_inv_def)
  moreover have "all_exits_ok ?s"
    using inv by (auto simp: s' tracking_inv_def all_exits_ok_def exits_ok_def is_exited_def newJobProcessState_def)
  moreover have "registered_ok ?s" "dedups_ok ?s" "accounts_ok ?s"
    using reg ded acc dedup_ok_new by (auto simp: s' registered_ok_def dedups_ok_def accounts_ok_def newFileOpenDedupState_def)
  moreover have "channels_ok ?s"
  proof -
    have bound: "c < next_chan s" if "jobEventChannels s j = Some c" for j c
      using chans that unfolding channels_ok_def by blast
    have fresh: "jobEventChannels s j \<noteq> Some (next_chan s)" for j
      using bound [of j "next_chan s"] by blast
    show ?thesis
      using chans fresh bound unfolding s' channels_ok_def
      by (simp add: less_Suc_eq) (metis less_irrefl option.inject)
  qed
  ultimately show ?thesis by (simp add: tracking_inv_def delivery_ok_def)
qed

lemma removeJob_parts:
  "fst (removeJob job s) = jobEventChannels s job"
  "jobEventChannels (snd (removeJob job s)) = (jobEventChannels s)(job := None)"
  "jobEventDeliveryStats (snd (removeJob job s)) = (jobEventDeliveryStats s)(job := None)"
  "fileOpenDedupByJob (snd (removeJob job s)) = (fileOpenDedupByJob s)(job := None)"
  "processesByJob (snd (removeJob job s)) = (processesByJob s)(job := None)"
  "jobs (snd (removeJob job s)) = jobs s - {job}"
  "chan_heap (snd (removeJob job s)) = chan_heap s" "next_chan (snd (removeJob job s)) = next_chan s"
  "cg_part (snd (removeJob job s)) = cg_part (removeCgroupAndStaging job s)"
  by (auto simp: removeJob_def Let_def removeCgroupAndStaging_def cg_part_def fun_eq_iff)

lemma removeJob_closes:
  assumes inv: "tracking_inv s"
  shows "\<exists>s'. close_channel (fst (removeJob job s)) (snd (removeJob job s)) = Some s' \<and> tracking_inv s'
    \<and> cg_part s' = cg_part (removeCgroupAndStaging job s)"
proof -
  let ?s = "snd (removeJob job s)"
  have reg: "registered_ok s" and chans: "channels_ok s" and ded: "dedups_ok s" and acc: "accounts_ok s"
    using inv by (simp_all add: tracking_inv_def delivery_ok_def)
  have "index_inv ?s"
    using inv index_inv_cong [OF removeJob_parts(9)] by (auto simp: tracking_inv_def index_inv_removeJob)
  moreover have "all_exits_ok ?s"
    using inv by (simp add: tracking_inv_def all_exits_ok_def removeJob_parts)
  moreover have "registered_ok ?s" "dedups_ok ?s" "accounts_ok ?s"
    using reg ded acc by (auto simp: registered_ok_def dedups_ok_def accounts_ok_def removeJob_parts)
  ultimately have rest: "index_inv ?s" "all_exits_ok ?s" "registered_ok ?s" "dedups_ok ?s" "accounts_ok ?s"
    by blast+
  show ?thesis
  proof (cases "jobEventChannels s job")
    case None
    have "channels_ok ?s"
      using chans None unfolding channels_ok_def removeJob_parts by (metis fun_upd_triv)
    then show ?thesis
      using rest None by (simp add: close_channel_def removeJob_parts tracking_inv_def delivery_ok_def)
  next
    case (Some c)
    obtain ch where ch: "chan_heap s c = Some ch" "\<not> ch_closed ch"
      using chans Some unfolding channels_ok_def by blast
    let ?s' = "?s\<lparr>chan_heap := (chan_heap s)(c \<mapsto> ch\<lparr>ch_closed := True\<rparr>)\<rparr>"
    have other: "c' \<noteq> c" if "jobEventChannels s j = Some c'" "j \<noteq> job" for j c'
      using chans Some that unfolding channels_ok_def by blast
    have "channels_ok ?s'"
      using chans other ch unfolding channels_ok_def by (simp add: removeJob_parts)
    moreover have "index_inv ?s'"
      using rest(1) index_inv_cong [of ?s' ?s] by (simp add: cg_part_def)
    moreover have "all_exits_ok ?s'" "registered_ok ?s'" "dedups_ok ?s'" "accounts_ok ?s'"
      using rest by (simp_all add: all_exits_ok_def registered_ok_def dedups_ok_def accounts_ok_def)
    moreover have "cg_part ?s' = cg_part (removeCgroupAndStaging job s)"
      using removeJob_parts(9) [of job s] by (simp add: cg_part_def)
    ultimately show ?thesis
      using Some ch by (simp add: close_channel_def removeJob_parts tracking_inv_def delivery_ok_def)
  qed
qed

subsection \<open>Effects and turns\<close>

lemma tracking_inv_cg:
  fixes s s' :: jobTrackingState
  assumes "tracking_inv s" "index_inv s'" "processIndex.more s' = processIndex.more s"
    "processesByJob s' = processesByJob s"
  shows "tracking_inv s'"
  using assms delivery_ok_more [OF assms(3)] by (simp add: tracking_inv_def all_exits_ok_def)

lemma more_putStaging [simp]:
  "processIndex.more (snd (putStaging b job s)) = processIndex.more s"
  "processesByJob (snd (putStaging b job s)) = processesByJob s"
  for s :: "'a processIndex_scheme"
  by (simp_all add: putStaging_def)

lemma fold_purge_frame:
  "processIndex.more (fold purge_candidate cs s) = processIndex.more s
   \<and> processesByJob (fold purge_candidate cs s) = processesByJob s"
  for s :: "'a processIndex_scheme"
  by (induction cs arbitrary: s) (simp_all add: purge_candidate_def unbind_def split: option.split)

lemma more_purge [simp]:
  "processIndex.more (purgeRemovedCgroups cs s) = processIndex.more s"
  "processesByJob (purgeRemovedCgroups cs s) = processesByJob s"
  for s :: "'a processIndex_scheme"
  by (simp_all add: purgeRemovedCgroups_def Let_def fold_purge_frame)

definition plain :: "engineEffect \<Rightarrow> bool" where
  "plain e \<longleftrightarrow> (\<forall>cs. e \<noteq> deleteExpiredCgroupsFromKernel cs)"

lemma runEngineEffect_ok:
  assumes inv: "tracking_inv (jobTracking K)" and plain: "plain e"
  shows "\<exists>K'. runEngineEffect env e K = Some K' \<and> tracking_inv (jobTracking K')"
proof (cases e)
  case (emitEventRecord job r)
  obtain s' where s': "deliver job r (jobTracking K) = Some s'" "delivery_ok s'" "cg_part s' = cg_part (jobTracking K)"
    "processesByJob s' = processesByJob (jobTracking K)"
    using deliver_ok [of "jobTracking K" job r] inv by (auto simp: tracking_inv_def)
  then show ?thesis
    using inv index_inv_cong [OF s'(3)] emitEventRecord by (simp add: tracking_inv_def all_exits_ok_def)
next
  case (bindTrackedCgroup job cg)
  have "tracking_inv (snd (bindAt job cg now (jobTracking K)))" for now
    using inv by (intro tracking_inv_cg [OF inv]) (simp_all add: index_inv_bindAt tracking_inv_def)
  then show ?thesis
    using inv bindTrackedCgroup by (auto simp: reply_def Let_def split_beta split: prod.split option.split)
next
  case (stageCgroupBasename b job)
  have "tracking_inv (snd (putStaging b job (jobTracking K)))"
    using inv by (intro tracking_inv_cg [OF inv]) (simp_all add: index_inv_putStaging tracking_inv_def)
  then show ?thesis
    using inv stageCgroupBasename by (auto simp: reply_def Let_def split_beta split: prod.split option.split)
next
  case (removeJobFromKernel job cgs staging)
  obtain s' where "close_channel (fst (removeJob job (jobTracking K))) (snd (removeJob job (jobTracking K))) = Some s'"
    "tracking_inv s'"
    using removeJob_closes [OF inv] by blast
  then show ?thesis
    using inv removeJobFromKernel by (auto simp: reply_def Let_def split_beta split: prod.split option.split)
qed (use inv plain in \<open>simp_all add: reply_def plain_def\<close>)

lemma runEngineEffects_ok:
  "tracking_inv (jobTracking K) \<Longrightarrow> \<forall>e \<in> set es. plain e \<Longrightarrow>
    \<exists>K'. runEngineEffects env es K = Some K' \<and> tracking_inv (jobTracking K')"
proof (induction es arbitrary: K)
  case (Cons e es)
  obtain K' where "runEngineEffect env e K = Some K'" "tracking_inv (jobTracking K')"
    using runEngineEffect_ok [OF Cons.prems(1), of e env] Cons.prems(2) by auto
  then show ?case using Cons by auto
qed simp

lemma plain_simps [simp]:
  "plain (emitEventRecord job r)" "plain (notifyJobEnded job reason)" "plain (replyRegisterJob c)"
  "plain (replyBindCgroup e)" "plain (replyStageCgroupBasename e)" "plain (replyRemoveJob e)"
  "plain (replyJobForCgroup j)" "plain (bindTrackedCgroup job cg)" "plain (stageCgroupBasename b job)"
  "plain (removeJobFromKernel job cgs sts)"
  by (simp_all add: plain_def)

lemma emit_record_effects:
  "fst (emit_record env job ty x body tags s) =
    [emitEventRecord job \<lparr>EventType = ty, Timestamp = bootNsToUTC env (TsNs x), ev_Payload = body,
      Process = fst (lookupProcessSummary (proc_files env) job (Identity x) s), Tags = tags\<rparr>]"
  by (simp add: emit_record_def Let_def split_beta)

lemma plain_handleSample: "\<forall>e \<in> set (fst (handleSample env x s)). plain e"
  by (cases x) (simp_all add: handler_defs Let_def split_beta exec_split emit_record_effects split: option.split)

lemma purge_step_ok:
  assumes inv: "tracking_inv (jobTracking K)"
  shows "\<exists>K'. runEngineEffect env (deleteExpiredCgroupsFromKernel (expiredRemovedCgroups now (jobTracking K))) K = Some K'
    \<and> tracking_inv (jobTracking K')"
proof -
  have "tracking_inv (purgeRemovedCgroups (expiredRemovedCgroups now (jobTracking K)) (jobTracking K))"
    using inv by (intro tracking_inv_cg [OF inv]) (simp_all add: index_inv_purge tracking_inv_def)
  then show ?thesis
    using inv by (auto split: prod.split option.split)
qed

lemma liveness_ok:
  assumes inv: "tracking_inv s"
  shows "tracking_inv (snd (handleCgroupLivenessReconciliation env started checked live s))"
    "\<forall>e \<in> set (fst (handleCgroupLivenessReconciliation env started checked live s)). plain e"
proof -
  have "index_inv s" using inv by (simp add: tracking_inv_def)
  then show "tracking_inv (snd (handleCgroupLivenessReconciliation env started checked live s))"
    by (simp add: handleCgroupLivenessReconciliation_def Let_def split_beta tracking_inv_cg [OF inv] index_inv_reconcile)
  show "\<forall>e \<in> set (fst (handleCgroupLivenessReconciliation env started checked live s)). plain e"
    by (auto simp: handleCgroupLivenessReconciliation_def Let_def split_beta)
qed

lemma command_ok:
  assumes inv: "tracking_inv s"
  shows "tracking_inv (snd (handleRegisterJob job s))" "\<forall>e \<in> set (fst (handleRegisterJob job s)). plain e"
    "tracking_inv (snd (handleBindCgroup job cg s))" "\<forall>e \<in> set (fst (handleBindCgroup job cg s)). plain e"
    "tracking_inv (snd (handleRemoveJob env job s))" "\<forall>e \<in> set (fst (handleRemoveJob env job s)). plain e"
    "tracking_inv (snd (handleStageCgroupBasename b job s))"
    "\<forall>e \<in> set (fst (handleStageCgroupBasename b job s)). plain e"
  using inv tracking_inv_registerJob [OF inv, of job]
  by (simp_all add: handleRegisterJob_def handleBindCgroup_def handleRemoveJob_def handleStageCgroupBasename_def
      Let_def split_beta)

lemma purgeExited_ok:
  assumes "tracking_inv s"
  shows "\<exists>s'. purgeExitedProcesses now s = Some s' \<and> tracking_inv s'"
proof -
  obtain s' where s': "purgeExitedProcesses now s = Some s'" "all_exits_ok s'"
    using purge_all_ok assms by (auto simp: tracking_inv_def)
  have jobs: "\<And>job ps. processesByJob s job = Some ps \<Longrightarrow> \<exists>ps'. purge_job now ps = Some ps'"
    using s'(1) by (fastforce simp: purgeExitedProcesses_def split: if_splits)
  have parts: "cg_part s' = cg_part s" "processIndex.more s' = processIndex.more s"
    using s'(1) by (auto simp: purgeExitedProcesses_def cg_part_def split: if_splits)
  have "dom (processesByJob s') = dom (processesByJob s)"
    using s'(1) jobs by (fastforce simp: purgeExitedProcesses_def domIff split: if_splits option.splits)
  then show ?thesis
    using s' assms index_inv_cong [OF parts(1)] delivery_ok_more [OF parts(2)] by (simp add: tracking_inv_def)
qed

lemma engine_step_ok:
  assumes inv: "tracking_inv (jobTracking K)" and start: "\<not> late_start input (jobTracking K)"
  shows "\<exists>K'. engine_step env input K = Some K' \<and> tracking_inv (jobTracking K')"
proof (cases input)
  case commandPurgeExpiredTrackingState
  obtain s' where s': "purgeExitedProcesses (time_now (go_part env)) (jobTracking K) = Some s'" "tracking_inv s'"
    using purgeExited_ok [OF inv] by blast
  then show ?thesis
    using purge_step_ok [of "K\<lparr>jobTracking := s'\<rparr>" env "time_now (go_part env)"] commandPurgeExpiredTrackingState
    by (auto simp: engine_step_def handlePurgeTick_def Let_def split: option.splits)
next
  case (commandReconcileCgroupLiveness started checked live)
  then show ?thesis
    using liveness_ok [OF inv, of env started checked live]
    by (auto simp: engine_step_def split_beta intro!: runEngineEffects_ok)
next
  case (inputSample x)
  then show ?thesis
    using tracking_inv_handleSample [OF inv, of x "go_part env"] plain_handleSample [of "go_part env" x "jobTracking K"] start
    by (auto simp: engine_step_def split_beta intro!: runEngineEffects_ok)
next
  case (inputExit x)
  have "fst (handleExitSample (go_part env) x (jobTracking K)) = []" by (simp add: handleExitSample_def split: option.split)
  then show ?thesis
    using tracking_inv_handleExit [OF inv, of "go_part env" x] inputExit by (simp add: engine_step_def split_beta)
qed (use command_ok [OF inv] inv in \<open>auto simp: engine_step_def split_beta reply_def intro!: runEngineEffects_ok\<close>)

subsection \<open>Without exit samples no queue fills\<close>

lemma deliver_processes: "deliver job r s = Some s' \<Longrightarrow> processesByJob s' = processesByJob s"
  by (auto simp: deliver_def store_stats_def Let_def split: option.splits if_splits)

lemma close_processes: "close_channel c s = Some s' \<Longrightarrow> processesByJob s' = processesByJob s"
  by (auto simp: close_channel_def split: option.splits if_splits)

lemma queues_empty_cong: "processesByJob s' = processesByJob s \<Longrightarrow> queues_empty s' \<longleftrightarrow> queues_empty s"
  for s' :: "'a processIndex_scheme" and s :: "'b processIndex_scheme"
  by (simp add: queues_empty_def)

lemma effect_queues:
  assumes "runEngineEffect env e K = Some K'" "queues_empty (jobTracking K)"
  shows "queues_empty (jobTracking K')"
proof (cases e)
  case (emitEventRecord job r)
  then show ?thesis using assms queues_empty_cong [OF deliver_processes] by (auto split: option.splits)
next
  case (removeJobFromKernel job cgs staging)
  have "queues_empty (snd (removeJob job (jobTracking K)))" using assms(2) by (simp add: queues_empty_def removeJob_parts)
  then show ?thesis
    using assms removeJobFromKernel queues_empty_cong [OF close_processes]
    by (auto simp: reply_def Let_def split_beta split: prod.splits option.splits)
qed (use assms in \<open>auto simp: reply_def Let_def split_beta queues_empty_def split: prod.splits option.splits if_splits\<close>)

lemma effects_queues: "runEngineEffects env es K = Some K' \<Longrightarrow> queues_empty (jobTracking K) \<Longrightarrow> queues_empty (jobTracking K')"
  by (induction es arbitrary: K) (auto split: option.splits dest: effect_queues)

lemma step_queues:
  assumes "engine_step env input K = Some K'" "queues_empty (jobTracking K)" "\<nexists>x. input = inputExit x"
  shows "queues_empty (jobTracking K')"
proof -
  obtain es s where s: "handleEngineInput env input (jobTracking K) = Some (es, s)" "runEngineEffects env es (K\<lparr>jobTracking := s\<rparr>) = Some K'"
    using assms(1) by (auto simp: engine_step_def split: option.splits)
  have "queues_empty s"
  proof (cases input)
    case (inputSample x)
    then show ?thesis using s(1) assms(2) trees_handleSample [of "jobTracking K" "go_part env" x] by (auto simp: trees_kept_def)
  next
    case commandPurgeExpiredTrackingState
    then show ?thesis using s(1) assms(2) purge_queues_empty [OF assms(2)] by (simp add: handlePurgeTick_def Let_def)
  next
    case (commandReconcileCgroupLiveness started checked live)
    then show ?thesis using s(1) assms(2)
      by (auto simp: handleCgroupLivenessReconciliation_def queues_empty_def Let_def split_beta)
  next
    case (commandRegisterJob job)
    then show ?thesis using s(1) assms(2)
      by (auto simp: handleRegisterJob_def registerJob_def queues_empty_def newJobProcessState_def Let_def split_beta
          split: if_splits option.splits)
  qed (use s(1) assms(2,3) in \<open>auto simp: handleBindCgroup_def handleRemoveJob_def handleStageCgroupBasename_def split: if_splits\<close>)
  then show ?thesis using effects_queues [OF s(2)] by simp
qed

subsection \<open>Runs\<close>

text \<open>
  A run of the engine: turns of the owner loop, between which the workers of the jobs take records
  from their channels.
\<close>

datatype engine_event = Turn engine_env engineInput | Receive nat

definition receive_from :: "nat \<Rightarrow> KernelTracker \<Rightarrow> KernelTracker" where
  "receive_from c K = K\<lparr>jobTracking := snd (receive c (jobTracking K))\<rparr>"

fun engine_run :: "engine_event list \<Rightarrow> KernelTracker \<Rightarrow> KernelTracker option" where
  "engine_run [] K = Some K"
| "engine_run (Turn env input # es) K = (case engine_step env input K of None \<Rightarrow> None | Some K' \<Rightarrow> engine_run es K')"
| "engine_run (Receive c # es) K = engine_run es (receive_from c K)"

text \<open>The runs in which no process starts again after its exit.\<close>

fun exits_final :: "engine_event list \<Rightarrow> KernelTracker \<Rightarrow> bool" where
  "exits_final [] K \<longleftrightarrow> True"
| "exits_final (Turn env input # es) K \<longleftrightarrow> \<not> late_start input (jobTracking K) \<and>
    (case engine_step env input K of None \<Rightarrow> True | Some K' \<Rightarrow> exits_final es K')"
| "exits_final (Receive c # es) K \<longleftrightarrow> exits_final es (receive_from c K)"

definition newKernelTracker :: "bpf_state \<Rightarrow> KernelTracker" where
  "newKernelTracker k = \<lparr>jobTracking = newJobTrackingState, kernel_maps = k, job_ends = [], reply_log = []\<rparr>"

lemma receive_frame:
  "cg_part (snd (receive c s)) = cg_part s" "processesByJob (snd (receive c s)) = processesByJob s"
  "jobs (snd (receive c s)) = jobs s" "jobEventChannels (snd (receive c s)) = jobEventChannels s"
  "fileOpenDedupByJob (snd (receive c s)) = fileOpenDedupByJob s"
  "jobEventDeliveryStats (snd (receive c s)) = jobEventDeliveryStats s" "next_chan (snd (receive c s)) = next_chan s"
  by (simp_all add: receive_def cg_part_def split: option.split list.split)

lemma channels_ok_receive: "channels_ok s \<Longrightarrow> channels_ok (snd (receive c s))"
proof -
  assume ok: "channels_ok s"
  show ?thesis
  proof (cases "chan_heap s c")
    case (Some ch)
    show ?thesis
    proof (cases "ch_buffer ch")
      case (Cons r rest)
      have new: "snd (receive c s) = s\<lparr>chan_heap := (chan_heap s)(c \<mapsto> ch\<lparr>ch_buffer := rest\<rparr>)\<rparr>"
        using Some Cons by (simp add: receive_def)
      have ch: "c < next_chan s" "ch_capacity ch = defaultEventRecordBufferSize" "length rest \<le> defaultEventRecordBufferSize"
        using ok Some Cons unfolding channels_ok_def by fastforce+
      show ?thesis
        using ok ch Some unfolding channels_ok_def new by (simp; metis option.inject)
    qed (use ok Some in \<open>simp add: receive_def\<close>)
  qed (use ok in \<open>simp add: receive_def\<close>)
qed

lemma receive_ok: "tracking_inv (jobTracking K) \<Longrightarrow> tracking_inv (jobTracking (receive_from c K))"
  using index_inv_cong [OF receive_frame(1), of c "jobTracking K"] all_exits_cong [OF receive_frame(2), of c "jobTracking K"]
    channels_ok_receive [of "jobTracking K" c]
  by (simp add: tracking_inv_def receive_from_def delivery_ok_def registered_ok_def dedups_ok_def accounts_ok_def receive_frame)

lemma engine_run_ok:
  "tracking_inv (jobTracking K) \<Longrightarrow> exits_final es K \<Longrightarrow> \<exists>K'. engine_run es K = Some K' \<and> tracking_inv (jobTracking K')"
proof (induction es arbitrary: K)
  case (Cons e es)
  show ?case
  proof (cases e)
    case (Turn env input)
    obtain K' where "engine_step env input K = Some K'" "tracking_inv (jobTracking K')"
      using engine_step_ok [OF Cons.prems(1), of input env] Cons.prems(2) Turn by auto
    then show ?thesis using Cons Turn by auto
  next
    case (Receive c)
    then show ?thesis using Cons receive_ok [OF Cons.prems(1)] by simp
  qed
qed simp

lemma tracking_inv_start: "tracking_inv (jobTracking (newKernelTracker k))"
  by (simp add: newKernelTracker_def tracking_inv_new)

lemmas started_run_ok = engine_run_ok [OF tracking_inv_start]

text \<open>The decoders produce no exit samples, and every run without them is one of these.\<close>

lemma no_exits_final:
  "tracking_inv (jobTracking K) \<Longrightarrow> queues_empty (jobTracking K) \<Longrightarrow> \<forall>env x. Turn env (inputExit x) \<notin> set es \<Longrightarrow> exits_final es K"
proof (induction es arbitrary: K)
  case (Cons e es)
  have late: "\<not> late_start input (jobTracking K)" for input
    using no_late_start [of "jobTracking K" input] Cons.prems(1,2) by (simp add: tracking_inv_def)
  show ?case
  proof (cases e)
    case (Turn env input)
    have "exits_final es K'" if "engine_step env input K = Some K'" for K'
      using Cons.IH [of K'] engine_step_ok [OF Cons.prems(1) late, of env input] step_queues [OF that Cons.prems(2)] that
        Cons.prems(3) Turn by auto
    then show ?thesis using Turn late by (auto split: option.split)
  next
    case (Receive c)
    then show ?thesis
      using Cons.IH [of "receive_from c K"] Cons.prems receive_ok [OF Cons.prems(1)]
      by (simp add: receive_from_def queues_empty_cong [OF receive_frame(2)])
  qed
qed simp

lemma no_exits_final_start: "\<forall>env x. Turn env (inputExit x) \<notin> set es \<Longrightarrow> exits_final es (newKernelTracker k)"
  by (rule no_exits_final [OF tracking_inv_start])
    (simp_all add: newKernelTracker_def queues_empty_def newJobTrackingState_def)

lemma close_all_ok:
  assumes "distinct cs" "\<And>c. c \<in> set cs \<Longrightarrow> \<exists>ch. chan_heap s c = Some ch \<and> \<not> ch_closed ch"
  shows "close_all cs s \<noteq> None"
  using assms
proof (induction cs arbitrary: s)
  case (Cons c cs)
  obtain ch where ch: "chan_heap s c = Some ch" "\<not> ch_closed ch" using Cons.prems(2) by auto
  let ?s = "s\<lparr>chan_heap := (chan_heap s)(c \<mapsto> ch\<lparr>ch_closed := True\<rparr>)\<rparr>"
  have "\<exists>ch. chan_heap ?s c' = Some ch \<and> \<not> ch_closed ch" if "c' \<in> set cs" for c'
    using Cons.prems that by auto
  then have "close_all cs ?s \<noteq> None"
    using Cons by simp
  then show ?case using ch by (simp add: close_channel_def)
qed simp

lemma shutdown_ok:
  assumes "tracking_inv s" "distinct cs" "set cs = ran (jobEventChannels s)"
  shows "close_all cs s \<noteq> None"
proof (rule close_all_ok [OF assms(2)])
  fix c assume "c \<in> set cs"
  then obtain j where "jobEventChannels s j = Some c" using assms(3) by (auto simp: ran_def)
  then show "\<exists>ch. chan_heap s c = Some ch \<and> \<not> ch_closed ch"
    using assms(1) unfolding tracking_inv_def delivery_ok_def channels_ok_def by blast
qed

text \<open>
  C29: the owner loop never panics.  From a fresh engine, whatever commands, samples and maintenance
  ticks arrive, in whatever order, interleaved in whatever way with the receives of the job workers, and
  whatever the kernel map calls answer, every turn completes: no record is sent on a closed channel, no
  channel is closed twice, no missing node is dereferenced.  The deferred close of the remaining channels
  at shutdown completes too, in any order.  The runs are all those in which no process that has exited
  is forked or executed again; that includes every run without exit samples, and the decoders produce
  none.
\<close>

theorem engine_never_panics:
  "(exits_final es (newKernelTracker k) \<longrightarrow>
    (\<exists>K. engine_run es (newKernelTracker k) = Some K \<and>
      (\<forall>cs. distinct cs \<longrightarrow> set cs = ran (jobEventChannels (jobTracking K)) \<longrightarrow> close_all cs (jobTracking K) \<noteq> None))) \<and>
   ((\<forall>env x. Turn env (inputExit x) \<notin> set es) \<longrightarrow> exits_final es (newKernelTracker k))"
  using started_run_ok shutdown_ok no_exits_final_start by blast

definition example_env :: engine_env where
  "example_env =
    \<lparr>go_part = \<lparr>proc_files = no_proc, time_now = 0, bootTimeOffsetNs = 0, unicode_lower = id, dns_question = (\<lambda>_. None)\<rparr>,
     map_calls = \<lparr>tracked_put_ok = (\<lambda>_. True), tracked_delete_ok = (\<lambda>_. True), staging_put_ok = (\<lambda>_. True),
       staging_delete_ok = (\<lambda>_. True)\<rparr>,
     has_notifier = True, cgroup_order = sorted_list_of_set, staging_order = (\<lambda>_. []), visit_order = (\<lambda>_. [])\<rparr>"

definition example_inputs :: "engine_event list" where
  "example_inputs = map (Turn example_env) [commandRegisterJob example_job, commandBindCgroup example_job 7,
     inputSample (Dec_rmdir \<lparr>rmdir_CgroupID = 7, rmdir_TsNs = 1\<rparr>), commandRemoveJob example_job,
     commandRegisterJob example_job]"

theorem engine_never_panics_witness:
  "(\<exists>K. engine_run (example_inputs @ [Receive 0]) (newKernelTracker one_tracked) = Some K \<and>
    (\<forall>cs. distinct cs \<longrightarrow> set cs = ran (jobEventChannels (jobTracking K)) \<longrightarrow> close_all cs (jobTracking K) \<noteq> None))"
  using engine_never_panics [of "example_inputs @ [Receive 0]" one_tracked] by (auto simp: example_inputs_def)

text \<open>
  C30: every event is accounted for and every buffer is bounded.  In every state the engine
  reaches, with the job workers receiving in between and no exited process started again, for each job and event type the attempted deliveries are the delivered, the dropped and the
  suppressed ones; no channel holds more than 65,536 records; no job remembers more than 4,096
  file-open keys; and exactly the registered jobs have a channel, a process tree and a key memory.
\<close>

theorem delivery_accounted:
  assumes "exits_final es (newKernelTracker k)" "engine_run es (newKernelTracker k) = Some K"
  shows "(\<forall>job ty st. inner_map (jobEventDeliveryStats (jobTracking K)) job ty = Some st \<longrightarrow>
      Attempted st = Delivered st + Dropped st + SuppressedDuplicates st)
    \<and> (\<forall>c ch. chan_heap (jobTracking K) c = Some ch \<longrightarrow> length (ch_buffer ch) \<le> 65536)
    \<and> (\<forall>job d. fileOpenDedupByJob (jobTracking K) job = Some d \<longrightarrow> card (seen d) \<le> 4096)
    \<and> dom (jobEventChannels (jobTracking K)) = jobs (jobTracking K)
    \<and> dom (processesByJob (jobTracking K)) = jobs (jobTracking K)
    \<and> dom (fileOpenDedupByJob (jobTracking K)) = jobs (jobTracking K)"
proof -
  have ok: "delivery_ok (jobTracking K)"
    using started_run_ok [OF assms(1)] assms(2) by (simp add: tracking_inv_def)
  have "card (seen d) \<le> 4096" if "fileOpenDedupByJob (jobTracking K) job = Some d" for job d
  proof -
    have "dedup_ok d" "limit d = 4096"
      using ok that by (auto simp: delivery_ok_def dedups_ok_def defaultFileOpenDedupKeyLimit_def)
    then show ?thesis
      using card_length [of "order d"] unfolding dedup_ok_def by simp
  qed
  then show ?thesis
    using ok by (auto simp: delivery_ok_def accounts_ok_def stats_ok_def channels_ok_def registered_ok_def
        defaultEventRecordBufferSize_def)
qed

theorem delivery_accounted_witness:
  "\<exists>K. engine_run [Turn example_env (commandRegisterJob example_job)] (newKernelTracker one_tracked) = Some K
    \<and> dom (jobEventChannels (jobTracking K)) = jobs (jobTracking K) \<and> example_job \<in> jobs (jobTracking K)"
proof -
  let ?es = "[Turn example_env (commandRegisterJob example_job)]"
  obtain K where K: "engine_run ?es (newKernelTracker one_tracked) = Some K" "example_job \<in> jobs (jobTracking K)"
    by (simp add: engine_step_def handleRegisterJob_def newKernelTracker_def newJobTrackingState_def registerJob_def
        reply_def Let_def)
  have "exits_final ?es (newKernelTracker one_tracked)" by (rule no_exits_final_start) simp
  then show ?thesis using delivery_accounted [of ?es one_tracked K] K by auto
qed

subsection \<open>Where a record goes\<close>

text \<open>The cgroup a sample is attributed by; the lifecycle and fork samples produce no record.\<close>

definition decoded_cgroup :: "decodedKernelSample \<Rightarrow> u64 option" where
  "decoded_cgroup x = (case x of
     Dec_exec x \<Rightarrow> Some (CgroupID x) | Dec_net_v4 x \<Rightarrow> Some (CgroupID x) | Dec_net_v6 x \<Rightarrow> Some (CgroupID x)
   | Dec_open x \<Rightarrow> Some (CgroupID x) | Dec_remove x \<Rightarrow> Some (CgroupID x) | Dec_move x \<Rightarrow> Some (CgroupID x)
   | Dec_link x \<Rightarrow> Some (CgroupID x) | Dec_dns x \<Rightarrow> Some (CgroupID x) | Dec_unix x \<Rightarrow> Some (CgroupID x)
   | Dec_mount x \<Rightarrow> Some (CgroupID x) | Dec_http x \<Rightarrow> Some (CgroupID x) | _ \<Rightarrow> None)"

definition owned_effects :: "decodedKernelSample \<Rightarrow> 'a cgroupIndex_scheme \<Rightarrow> engineEffect list \<Rightarrow> bool" where
  "owned_effects x s es \<longleftrightarrow> es = [] \<or> (\<exists>job. es = [notifyJobEnded job EndCgroupRmdir])
     \<or> (\<exists>cg job r. decoded_cgroup x = Some cg \<and> jobByCgroup s cg = Some job \<and> es = [emitEventRecord job r])"

lemma owned_handleSample: "owned_effects x s (fst (handleSample env x s))"
  by (cases x) (simp_all add: owned_effects_def decoded_cgroup_def handler_defs jobForCgroup_def Let_def split_beta exec_split
      emit_record_effects split: option.split)

lemma deliver_heap:
  assumes "deliver job r s = Some s'"
  shows "chan_heap s' = chan_heap s \<or> (\<exists>c ch. jobEventChannels s job = Some c \<and> chan_heap s c = Some ch
    \<and> chan_heap s' = (chan_heap s)(c \<mapsto> ch\<lparr>ch_buffer := ch_buffer ch @ [r]\<rparr>))"
proof (cases "jobEventChannels s job")
  case None
  then show ?thesis using assms by (simp add: deliver_def)
next
  case (Some c)
  show ?thesis
  proof (cases "chan_heap s c")
    case None
    then show ?thesis using Some assms by (simp add: deliver_def)
  next
    case ch: (Some ch)
    have "chan_heap s' = chan_heap s \<or> chan_heap s' = (chan_heap s)(c \<mapsto> ch\<lparr>ch_buffer := ch_buffer ch @ [r]\<rparr>)"
      using assms unfolding deliver_def Some ch option.case Let_def by (auto split: if_splits)
    then show ?thesis using Some ch by blast
  qed
qed

text \<open>
  C31: repeated file opens are suppressed exactly while they are remembered.  In every state the
  engine reaches in a run as above, with the job workers receiving in between, delivering a record to a job suppresses it exactly if it is a file open whose
  key is among the last 4,096 distinct keys the job was sent; drops it if the channel is full;
  and otherwise appends it to the channel and pushes its key on that bounded first-in-first-out
  memory, which the set, the ring and the slot counter implement.
\<close>

theorem file_open_dedup_is_fifo:
  assumes "exits_final es (newKernelTracker k)" "engine_run es (newKernelTracker k) = Some K" "s = jobTracking K"
    "jobEventChannels s job = Some c" "chan_heap s c = Some ch" "fileOpenDedupByJob s job = Some d"
  shows "\<exists>s' d'. deliver job r s = Some s' \<and> fileOpenDedupByJob s' job = Some d' \<and>
    (if (\<exists>key. dedup_key r = Some key \<and> key \<in> set (fifo d)) \<or> length (ch_buffer ch) = 65536
     then chan_heap s' = chan_heap s \<and> fifo d' = fifo d
     else chan_heap s' = (chan_heap s)(c \<mapsto> ch\<lparr>ch_buffer := ch_buffer ch @ [r]\<rparr>)
       \<and> fifo d' = (case dedup_key r of None \<Rightarrow> fifo d | Some key \<Rightarrow> fifo_push 4096 key (fifo d)))"
proof -
  have ok: "delivery_ok s"
    using started_run_ok [OF assms(1)] assms(2, 3) by (simp add: tracking_inv_def)
  have d: "dedup_ok d" "limit d = 4096"
    using ok assms(6) by (auto simp: delivery_ok_def dedups_ok_def defaultFileOpenDedupKeyLimit_def)
  have ch: "\<not> ch_closed ch" "length (ch_buffer ch) \<le> 65536" "ch_capacity ch = 65536"
    using deliver_channel [OF ok assms(4)] assms(5) by (auto simp: defaultEventRecordBufferSize_def)
  let ?supp = "\<exists>key. dedup_key r = Some key \<and> key \<in> set (fifo d)"
  have supp: "dedup_key r \<noteq> None \<and> dedup_contains (fileOpenDedupByJob s job) (the (dedup_key r)) \<longleftrightarrow> ?supp"
    unfolding assms(6) by (cases "dedup_key r") (simp_all add: dedup_contains_def seen_fifo [OF d(1)])
  note run = deliver_def [of job r s, unfolded assms(4) option.case assms(5) Let_def supp]
  consider (kept) "?supp \<or> length (ch_buffer ch) = 65536" | (sent) "\<not> ?supp" "length (ch_buffer ch) < 65536"
    using le_neq_implies_less [OF ch(2)] by blast
  then show ?thesis
  proof cases
    case kept
    then show ?thesis
      using ch assms(6) unfolding run by (cases ?supp) simp_all
  next
    case sent
    show ?thesis
    proof (cases "dedup_key r")
      case None
      then show ?thesis using sent ch assms(6) unfolding run by simp
    next
      case (Some key)
      then show ?thesis
        using sent ch assms(6) remember_fifo(2) [OF d(1), of key] d(2) unfolding run by simp
    qed
  qed
qed

text \<open>An engine with one registered job and one of its cgroups bound.\<close>

definition one_job_run :: "engine_event list" where
  "one_job_run = [Turn example_env (commandRegisterJob example_job), Turn example_env (commandBindCgroup example_job 7)]"

definition one_job :: KernelTracker where
  "one_job = the (engine_run one_job_run (newKernelTracker one_tracked))"

lemma one_job_run: "engine_run one_job_run (newKernelTracker one_tracked) = Some one_job"
  by (simp add: one_job_def one_job_run_def engine_step_def handleRegisterJob_def handleBindCgroup_def newKernelTracker_def
      newJobTrackingState_def registerJob_def reply_def Let_def jobForCgroup_def PutCgroupIDInTrackedCgroupsMap_def
      bindAt_def example_env_def)

lemma one_job_final: "exits_final one_job_run (newKernelTracker one_tracked)"
  by (rule no_exits_final_start) (simp add: one_job_run_def)

lemma one_job_state:
  "jobEventChannels (jobTracking one_job) = [example_job \<mapsto> 0]"
  "chan_heap (jobTracking one_job) = [0 \<mapsto> \<lparr>ch_buffer = [], ch_capacity = 65536, ch_closed = False\<rparr>]"
  "fileOpenDedupByJob (jobTracking one_job) = [example_job \<mapsto> newFileOpenDedupState 4096]"
  "jobByCgroup (jobTracking one_job) = [7 \<mapsto> example_job]"
  "processesByJob (jobTracking one_job) = [example_job \<mapsto> newJobProcessState]"
  "jobEventDeliveryStats (jobTracking one_job) = Map.empty"
  by (simp_all add: one_job_def one_job_run_def engine_step_def handleRegisterJob_def handleBindCgroup_def newKernelTracker_def
      newJobTrackingState_def registerJob_def reply_def Let_def jobForCgroup_def PutCgroupIDInTrackedCgroupsMap_def
      bindAt_def example_env_def defaultEventRecordBufferSize_def defaultFileOpenDedupKeyLimit_def)

definition passwd_open :: EventRecord where
  "passwd_open = \<lparr>EventType = FileOpen, Timestamp = 5,
     ev_Payload = [''path'' \<mapsto> PStr (c_lit ''/etc/passwd''), ''is_read'' \<mapsto> PBool True, ''is_write'' \<mapsto> PBool False,
       ''flags'' \<mapsto> PInt 0],
     Process = \<lparr>sum_PID = 2, sum_StartBoottime = 20, sum_ExecPath = [], sum_Argv = [], sum_Ancestors = []\<rparr>, Tags = Map.empty\<rparr>"

theorem file_open_dedup_is_fifo_witness:
  "\<exists>s' d'. deliver example_job passwd_open (jobTracking one_job) = Some s' \<and> fileOpenDedupByJob s' example_job = Some d'
    \<and> dedup_key passwd_open \<noteq> None \<and> fifo d' = [the (dedup_key passwd_open)]"
proof -
  obtain key where key: "dedup_key passwd_open = Some key"
    by (simp add: dedup_key_def passwd_open_def fileOpenDedupKeyForRecord_def fileOpenPayloadFromRecord_def)
  from file_open_dedup_is_fifo [OF one_job_final one_job_run refl, of example_job 0 _ _ passwd_open]
  show ?thesis
    by (fastforce simp: one_job_state dedup_ok_new key fifo_push_def)
qed

text \<open>
  C32: a record reaches only the job that owns its cgroup.  Handling a kernel sample changes no
  channel, or appends one record to the channel of the job that the forward index names as the
  owner of the sample's cgroup.
\<close>

theorem records_reach_owner_only:
  assumes "engine_step env (inputSample x) K = Some K'"
  shows "chan_heap (jobTracking K') = chan_heap (jobTracking K) \<or>
    (\<exists>cg job c ch r. decoded_cgroup x = Some cg \<and> jobByCgroup (jobTracking K) cg = Some job
      \<and> jobEventChannels (jobTracking K) job = Some c \<and> chan_heap (jobTracking K) c = Some ch
      \<and> chan_heap (jobTracking K') = (chan_heap (jobTracking K))(c \<mapsto> ch\<lparr>ch_buffer := ch_buffer ch @ [r]\<rparr>))"
proof -
  let ?s = "jobTracking K" and ?h = "handleSample (go_part env) x (jobTracking K)"
  have frame: "chan_heap (snd ?h) = chan_heap ?s" "jobEventChannels (snd ?h) = jobEventChannels ?s"
    using more_fields [OF more_handleSample] by blast+
  consider (none) "fst ?h = []" | (drained) job where "fst ?h = [notifyJobEnded job EndCgroupRmdir]"
    | (emit) cg job r where "decoded_cgroup x = Some cg" "jobByCgroup ?s cg = Some job" "fst ?h = [emitEventRecord job r]"
    using owned_handleSample [of x ?s "go_part env"] unfolding owned_effects_def by blast
  then show ?thesis
  proof cases
    case none
    then show ?thesis using assms frame by (auto simp: engine_step_def split_beta)
  next
    case drained
    then show ?thesis using assms frame by (auto simp: engine_step_def split_beta split: if_splits)
  next
    case emit
    obtain s' where s': "deliver job r (snd ?h) = Some s'" "K' = K\<lparr>jobTracking := s'\<rparr>"
      using assms emit(3) by (auto simp: engine_step_def split_beta split: option.splits)
    then show ?thesis
      using deliver_heap [OF s'(1)] emit frame by auto
  qed
qed

definition ls_connect :: decodedKernelSample where
  "ls_connect = Dec_net_v4 \<lparr>Identity = \<lparr>PID = 2, StartBoottime = 20\<rparr>, CgroupID = 7, TsNs = 1,
     RemoteIP = [10, 0, 0, 1], Port = 443, Protocol = 6, Blocked = False\<rparr>"

lemma ls_connect_step:
  "\<exists>K r. engine_step example_env (inputSample ls_connect) one_job = Some K
    \<and> chan_heap (jobTracking K) = [0 \<mapsto> \<lparr>ch_buffer = [r], ch_capacity = 65536, ch_closed = False\<rparr>]"
  by (simp add: engine_step_def ls_connect_def handler_defs jobForCgroup_def one_job_state emit_record_def Let_def
      lookupProcessSummary_def newJobProcessState_def backfillProcessNode_def example_env_def no_proc_def deliver_def
      dedup_key_def store_stats_def) (rule exI, rule refl)

theorem records_reach_owner_only_witness:
  "\<exists>K. engine_step example_env (inputSample ls_connect) one_job = Some K \<and>
    (\<exists>cg job c ch r. decoded_cgroup ls_connect = Some cg \<and> jobByCgroup (jobTracking one_job) cg = Some job
      \<and> jobEventChannels (jobTracking one_job) job = Some c \<and> chan_heap (jobTracking one_job) c = Some ch
      \<and> chan_heap (jobTracking K) = (chan_heap (jobTracking one_job))(c \<mapsto> ch\<lparr>ch_buffer := ch_buffer ch @ [r]\<rparr>))"
proof -
  obtain K r where K: "engine_step example_env (inputSample ls_connect) one_job = Some K"
    "chan_heap (jobTracking K) = [0 \<mapsto> \<lparr>ch_buffer = [r], ch_capacity = 65536, ch_closed = False\<rparr>]"
    using ls_connect_step by blast
  have "chan_heap (jobTracking K) \<noteq> chan_heap (jobTracking one_job)"
    unfolding K(2) one_job_state by (metis event_channel.ext_inject fun_upd_same list.distinct(1) option.inject)
  then show ?thesis using records_reach_owner_only [OF K(1)] K(1) by blast
qed

end
