(* ===== verification/Uprobe_Discovery.thy ===== *)
theory Uprobe_Discovery
  imports Cgroup_Tracking
begin

text \<open>
  Discovery of files to probe, after \<open>http_uprobe_discovery_hooks.bpf.h\<close>: the program on
  \<open>uprobe_mmap\<close> announces each executable file mapping of a tracked cgroup once, with the
  LRU map \<open>http_uprobe_discovery_cache\<close> as the memory of what was announced.
\<close>

definition HTTP_UPROBE_VM_EXEC :: u64 where [simp]: "HTTP_UPROBE_VM_EXEC = 0x4"

text \<open>The seconds and nanoseconds of the change time, in the layout the kernel has.\<close>

definition http_uprobe_inode_ctime :: "kenv \<Rightarrow> ptr \<Rightarrow> file_classification_key \<Rightarrow> file_classification_key" where
  "http_uprobe_inode_ctime env inode key =
     (if has_i_ctime_sec (btf env) then
        key\<lparr>ctime_sec := BPF_CORE_READ env h_inode inode i_ctime_sec,
            ctime_nsec := BPF_CORE_READ env h_inode inode i_ctime_nsec AND 0x7fffffff\<rparr>
      else if has_mid_ctime (btf env) then
        key\<lparr>ctime_sec := BPF_CORE_READ env h_inode inode mid_ctime_tv_sec,
            ctime_nsec := ucast (BPF_CORE_READ env h_inode inode mid_ctime_tv_nsec)\<rparr>
      else
        key\<lparr>ctime_sec := BPF_CORE_READ env h_inode inode leg_ctime_tv_sec,
            ctime_nsec := ucast (BPF_CORE_READ env h_inode inode leg_ctime_tv_nsec)\<rparr>)"

text \<open>Kernel \<open>dev_t\<close> stores the major number above a 20-bit minor number.\<close>

definition classification_of :: "kenv \<Rightarrow> ptr \<Rightarrow> ptr \<Rightarrow> file_classification_key" where
  "classification_of env inode super =
     (let device = BPF_CORE_READ env h_super super s_dev in
      http_uprobe_inode_ctime env inode
        \<lparr>mapped_file = \<lparr>device_major = drop_bit 20 device, device_minor = device AND (push_bit 20 1 - 1),
                        mf_inode = BPF_CORE_READ env h_inode inode i_ino\<rparr>,
         ctime_sec = 0, ctime_nsec = 0, fc_pad = 0\<rparr>)"

definition candidate_sample_of :: "kenv \<Rightarrow> ptr \<Rightarrow> file_classification_key \<Rightarrow> http_uprobe_attach_candidate_sample" where
  "candidate_sample_of env vma classification =
     (st_candidate (storage env))
       \<lparr>kind := kind_value SAMPLE_KIND_HTTP_UPROBE_ATTACH_CANDIDATE, ac_tgid := current_tgid env,
        ac_vm_start := BPF_CORE_READ env h_vma vma vm_start, ac_vm_end := BPF_CORE_READ env h_vma vma vm_end,
        ac_file := classification\<rparr>"

text \<open>The part after the guards: claim the cache entry, then announce or give the entry back.\<close>

definition announce_candidate :: "kenv \<Rightarrow> ptr \<Rightarrow> file_classification_key \<Rightarrow> bpf_state \<Rightarrow> int \<times> bpf_state" where
  "announce_candidate env vma classification s =
     (if http_uprobe_discovery_cache s classification \<noteq> None then (0, s)
      else case lru_update_elem env (http_uprobe_discovery_cache s) classification 1 BPF_NOEXIST of
        None \<Rightarrow> (0, s)
      | Some cache \<Rightarrow>
          (let s1 = s\<lparr>http_uprobe_discovery_cache := cache\<rparr> in
           case bpf_ringbuf_reserve env (sizeof_sample SAMPLE_KIND_HTTP_UPROBE_ATTACH_CANDIDATE) s1 of
             None \<Rightarrow>
               (0, note_ringbuf_drop env
                     (s1\<lparr>http_uprobe_discovery_cache := bpf_map_delete_elem (http_uprobe_discovery_cache s1) classification\<rparr>))
           | Some s2 \<Rightarrow>
               (0, bpf_ringbuf_submit (HttpUprobeAttachCandidateSample (candidate_sample_of env vma classification)) s2)))"

definition emit_http_uprobe_attach_candidate :: "kenv \<Rightarrow> ptr \<Rightarrow> bpf_state \<Rightarrow> int \<times> bpf_state" where
  "emit_http_uprobe_attach_candidate env vma s =
     (if BPF_CORE_READ env h_vma vma vm_flags AND HTTP_UPROBE_VM_EXEC = 0 then (0, s)
      else
        (let file = BPF_CORE_READ env h_vma vma vm_file in
         if file = NULL then (0, s)
         else if cgroup_is_tracked s (current_cgroup_id env) = 0 then (0, s)
         else
           (let inode = BPF_CORE_READ env h_file file f_inode in
            if inode = NULL then (0, s)
            else
              (let super = BPF_CORE_READ env h_inode inode i_sb in
               if super = NULL then (0, s)
               else announce_candidate env vma (classification_of env inode super) s))))"

definition handle_uprobe_mmap :: "kenv \<Rightarrow> ptr \<Rightarrow> bpf_state \<Rightarrow> int \<times> bpf_state" where
  "handle_uprobe_mmap env vma s = emit_http_uprobe_attach_candidate env vma s"

section \<open>The contract of the program\<close>

lemma candidate_sample_facts [simp]:
  "kind_ok (HttpUprobeAttachCandidateSample (candidate_sample_of env vma k))"
  "sample_wf (HttpUprobeAttachCandidateSample (candidate_sample_of env vma k))"
  "ac_file (candidate_sample_of env vma k) = k"
  by (simp_all add: candidate_sample_of_def kind_ok_def)

text \<open>The outcomes: nothing, an announcement with its entry claimed, or a counted drop.\<close>

lemma announce_cases:
  "announce_candidate env vma k s =
     (0, if http_uprobe_discovery_cache s k \<noteq> None \<or> \<not> map_update_ok env then s
         else let m = (\<lambda>k'. if k' \<noteq> k \<and> lru_victim env k' then None else http_uprobe_discovery_cache s k') in
           if ringbuf_space env (sizeof_sample SAMPLE_KIND_HTTP_UPROBE_ATTACH_CANDIDATE)
           then s\<lparr>http_uprobe_discovery_cache := m(k \<mapsto> 1),
                  events := events s @ [HttpUprobeAttachCandidateSample (candidate_sample_of env vma k)]\<rparr>
           else note_ringbuf_drop env (s\<lparr>http_uprobe_discovery_cache := m(k := None)\<rparr>))"
  by (auto simp: announce_candidate_def lru_update_elem_def bpf_map_update_elem_def bpf_ringbuf_reserve_def
      bpf_ringbuf_submit_def bpf_map_delete_elem_def Let_def)

lemma uprobe_mmap_cases:
  obtains (skip) "handle_uprobe_mmap env vma s = (0, s)"
  | (announce) inode super where "tracked_cgroups s (current_cgroup_id env) \<noteq> None"
      "handle_uprobe_mmap env vma s = announce_candidate env vma (classification_of env inode super) s"
proof -
  let ?inode = "BPF_CORE_READ env h_file (BPF_CORE_READ env h_vma vma vm_file) f_inode"
  show thesis
  proof (cases "handle_uprobe_mmap env vma s = (0, s)")
    case False
    then show thesis
      by (intro announce [of ?inode "BPF_CORE_READ env h_inode ?inode i_sb"])
        (auto simp: handle_uprobe_mmap_def emit_http_uprobe_attach_candidate_def cgroup_is_tracked_0 Let_def split: if_splits)
  qed (rule skip)
qed

lemma announce_effect: "hook_effect env s (snd (announce_candidate env vma k s))"
  unfolding announce_cases
  by (auto simp: contract_defs Let_def kind_ok_def [symmetric] intro: drop_count_cong)

lemma announce_wf: "state_wf s \<Longrightarrow> state_wf (snd (announce_candidate env vma k s))"
  unfolding announce_cases by (auto simp: Let_def state_wf_def)

interpretation uprobe_mmap: bpf_hook handle_uprobe_mmap 0
proof
  fix env a s
  show "fst (handle_uprobe_mmap env a s) = 0"
    by (cases rule: uprobe_mmap_cases [of env a s]) (simp_all add: announce_cases)
  show "hook_effect env s (snd (handle_uprobe_mmap env a s))"
    by (cases rule: uprobe_mmap_cases [of env a s]) (simp_all add: announce_effect)
  show "state_wf (snd (handle_uprobe_mmap env a s))" if "env_wf env" "state_wf s"
    by (cases rule: uprobe_mmap_cases [of env a s]) (use that in \<open>simp_all add: announce_wf\<close>)
qed

section \<open>The cache and the announcements\<close>

fun announced :: "sample list \<Rightarrow> file_classification_key list" where
  "announced [] = []"
| "announced (HttpUprobeAttachCandidateSample x # xs) = ac_file x # announced xs"
| "announced (_ # xs) = announced xs"

lemma announced_append [simp]: "announced (xs @ ys) = announced xs @ announced ys"
  by (induction xs rule: announced.induct) simp_all

lemma announce_keeps_cached:
  assumes "dom (http_uprobe_discovery_cache s) \<subseteq> set (announced (events s))"
  shows "dom (http_uprobe_discovery_cache (snd (announce_candidate env vma k s)))
    \<subseteq> set (announced (events (snd (announce_candidate env vma k s))))"
  using assms unfolding announce_cases by (auto simp: Let_def dom_def subset_iff split: if_splits)

lemma announce_without_eviction:
  assumes "lru_victim env = (\<lambda>_. False)"
    and "distinct (announced (events s))" "dom (http_uprobe_discovery_cache s) = set (announced (events s))"
  shows "let s' = snd (announce_candidate env vma k s) in
    distinct (announced (events s')) \<and> dom (http_uprobe_discovery_cache s') = set (announced (events s'))"
  using assms unfolding announce_cases by (auto simp: Let_def dom_def set_eq_iff split: if_splits)

lemma run_mmap_cached:
  "dom (http_uprobe_discovery_cache s) \<subseteq> set (announced (events s)) \<Longrightarrow>
   dom (http_uprobe_discovery_cache (run_hook handle_uprobe_mmap cs s))
     \<subseteq> set (announced (events (run_hook handle_uprobe_mmap cs s)))"
proof (induction cs arbitrary: s)
  case (Cons c cs)
  have "dom (http_uprobe_discovery_cache (snd (handle_uprobe_mmap (fst c) (snd c) s)))
      \<subseteq> set (announced (events (snd (handle_uprobe_mmap (fst c) (snd c) s))))"
    using Cons.prems by (cases rule: uprobe_mmap_cases [of "fst c" "snd c" s]) (simp_all add: announce_keeps_cached)
  then show ?case using Cons.IH by simp
qed simp

lemma run_mmap_once:
  assumes "\<And>c. c \<in> set cs \<Longrightarrow> lru_victim (fst c) = (\<lambda>_. False)"
    and "distinct (announced (events s))" "dom (http_uprobe_discovery_cache s) = set (announced (events s))"
  shows "let s' = run_hook handle_uprobe_mmap cs s in
    distinct (announced (events s')) \<and> dom (http_uprobe_discovery_cache s') = set (announced (events s'))"
  using assms
proof (induction cs arbitrary: s)
  case (Cons c cs)
  let ?s = "snd (handle_uprobe_mmap (fst c) (snd c) s)"
  have "distinct (announced (events ?s))" "dom (http_uprobe_discovery_cache ?s) = set (announced (events ?s))"
    using announce_without_eviction [OF _ Cons.prems(2,3)] Cons.prems
    by (cases rule: uprobe_mmap_cases [of "fst c" "snd c" s]; simp add: Let_def)+
  then show ?case using Cons.IH [of ?s] Cons.prems(1) by simp
qed simp

text \<open>
  C21: The discovery cache suppresses only what userspace was told. Over any sequence of
  mappings, with failed updates, full ring buffers and evictions, every cached file was
  announced; and as long as the cache evicts nothing, every file is announced at most once and
  is cached exactly when it was announced. A notification that did not fit into the ring buffer
  leaves no entry behind, so the next mapping of the file tries again.
\<close>

theorem discovery_announces_once:
  assumes "http_uprobe_discovery_cache s = Map.empty" "announced (events s) = []"
    and "s' = run_hook handle_uprobe_mmap cs s"
  shows "dom (http_uprobe_discovery_cache s') \<subseteq> set (announced (events s')) \<and>
    ((\<forall>c \<in> set cs. lru_victim (fst c) = (\<lambda>_. False)) \<longrightarrow>
       distinct (announced (events s')) \<and> dom (http_uprobe_discovery_cache s') = set (announced (events s')))"
  using run_mmap_cached [of s cs] run_mmap_once [of cs s] assms by (auto simp: Let_def)

section \<open>The announced identity\<close>

lemma device_split:
  fixes d :: u32
  shows "unat (drop_bit 20 d) * 2 ^ 20 + unat (d AND (push_bit 20 1 - 1)) = unat d" "unat (d AND (push_bit 20 1 - 1)) < 2 ^ 20"
proof -
  have d: "unat d < 2 ^ LENGTH(32)" by (rule unsigned_less)
  have "d AND (push_bit 20 1 - 1) = take_bit 20 d" by (simp add: take_bit_eq_mask mask_eq_exp_minus_1)
  moreover have "unat (take_bit 20 d) = unat d mod 2 ^ 20" by (simp only: unsigned_take_bit_eq take_bit_eq_mod [of _ "unat _"])
  moreover have "unat (drop_bit 20 d) = unat d div 2 ^ 20"
    using d by (simp add: unsigned_drop_bit_eq drop_bit_eq_div [of _ "unat _"] take_bit_nat_eq_self)
  ultimately show "unat (drop_bit 20 d) * 2 ^ 20 + unat (d AND (push_bit 20 1 - 1)) = unat d"
    "unat (d AND (push_bit 20 1 - 1)) < 2 ^ 20" by simp_all
qed

lemma queried_bit_masked:
  fixes n :: u32
  shows "n AND 0x7fffffff = take_bit 31 n" "unat (n AND 0x7fffffff) = unat n mod 2 ^ 31"
proof -
  show "n AND 0x7fffffff = take_bit 31 n" by (simp add: take_bit_eq_mask mask_eq_exp_minus_1)
  then show "unat (n AND 0x7fffffff) = unat n mod 2 ^ 31" by (simp only: unsigned_take_bit_eq take_bit_eq_mod [of _ "unat _"])
qed

lemma classification_fields:
  assumes "h_inode (heap env) inode = Some i" "h_super (heap env) super = Some sb"
  shows "classification_of env inode super =
    \<lparr>mapped_file = \<lparr>device_major = drop_bit 20 (s_dev sb), device_minor = s_dev sb AND (push_bit 20 1 - 1), mf_inode = i_ino i\<rparr>,
     ctime_sec = (if has_i_ctime_sec (btf env) then i_ctime_sec i
                  else if has_mid_ctime (btf env) then mid_ctime_tv_sec i else leg_ctime_tv_sec i),
     ctime_nsec = (if has_i_ctime_sec (btf env) then i_ctime_nsec i AND 0x7fffffff
                   else if has_mid_ctime (btf env) then ucast (mid_ctime_tv_nsec i) else ucast (leg_ctime_tv_nsec i)),
     fc_pad = 0\<rparr>"
  using assms by (simp add: classification_of_def http_uprobe_inode_ctime_def Let_def)

text \<open>
  C22: An executable mapping of a file in a tracked cgroup that is not in the cache is announced
  with the identity userspace checks by \<open>fstat\<close>: device numbers that reassemble the device of
  the file system, the inode number, and the change time; with the range of the mapping and the
  process.  On each of the three layouts of the kernel's inode the seconds are the inode's, and so are
  the nanoseconds: without the internal bit 31 where the inode has \<open>i_ctime_sec\<close> and \<open>i_ctime_nsec\<close>, and
  their low 32 bits where it has a 64-bit \<open>tv_nsec\<close>. The file is cached afterwards, and a second
  mapping changes nothing.
\<close>

theorem candidate_announced_exact:
  assumes "tracked_cgroups s (current_cgroup_id env) \<noteq> None"
    and "h_vma (heap env) vma = Some v" "h_file (heap env) (vm_file v) = Some f" "h_inode (heap env) (f_inode f) = Some i"
    and "h_super (heap env) (i_sb i) = Some sb" "vm_file v \<noteq> NULL" "f_inode f \<noteq> NULL" "i_sb i \<noteq> NULL"
    and "vm_flags v AND 4 \<noteq> 0" "map_update_ok env" "ringbuf_space env (sizeof_sample SAMPLE_KIND_HTTP_UPROBE_ATTACH_CANDIDATE)"
    and "http_uprobe_discovery_cache s (classification_of env (f_inode f) (i_sb i)) = None"
    and "s' = snd (handle_uprobe_mmap env vma s)"
  shows "\<exists>x. events s' = events s @ [HttpUprobeAttachCandidateSample x] \<and>
      ac_tgid x = current_tgid env \<and> ac_vm_start x = vm_start v \<and> ac_vm_end x = vm_end v \<and>
      unat (device_major (mapped_file (ac_file x))) * 2 ^ 20 + unat (device_minor (mapped_file (ac_file x))) = unat (s_dev sb) \<and>
      unat (device_minor (mapped_file (ac_file x))) < 2 ^ 20 \<and> mf_inode (mapped_file (ac_file x)) = i_ino i \<and>
      (has_i_ctime_sec (btf env) \<longrightarrow>
         ctime_sec (ac_file x) = i_ctime_sec i \<and> unat (ctime_nsec (ac_file x)) = unat (i_ctime_nsec i) mod 2 ^ 31) \<and>
      (\<not> has_i_ctime_sec (btf env) \<and> has_mid_ctime (btf env) \<longrightarrow> ctime_sec (ac_file x) = mid_ctime_tv_sec i \<and>
         unat (ctime_nsec (ac_file x)) = unat (mid_ctime_tv_nsec i) mod 2 ^ 32) \<and>
      (\<not> has_i_ctime_sec (btf env) \<and> \<not> has_mid_ctime (btf env) \<longrightarrow> ctime_sec (ac_file x) = leg_ctime_tv_sec i \<and>
         unat (ctime_nsec (ac_file x)) = unat (leg_ctime_tv_nsec i) mod 2 ^ 32) \<and>
      http_uprobe_discovery_cache s' (ac_file x) = Some 1 \<and> snd (handle_uprobe_mmap env vma s') = s'"
proof -
  let ?k = "classification_of env (f_inode f) (i_sb i)"
  have run: "handle_uprobe_mmap env vma t = announce_candidate env vma ?k t"
    if "tracked_cgroups t (current_cgroup_id env) \<noteq> None" for t
    using assms(2-9) that by (auto simp: handle_uprobe_mmap_def emit_http_uprobe_attach_candidate_def cgroup_is_tracked_0)
  have s': "events s' = events s @ [HttpUprobeAttachCandidateSample (candidate_sample_of env vma ?k)]"
    "http_uprobe_discovery_cache s' ?k = Some 1" "tracked_cgroups s' = tracked_cgroups s"
    using run [of s] assms by (simp_all add: announce_cases Let_def)
  then have "snd (handle_uprobe_mmap env vma s') = s'" using run [of s'] assms(1) by (simp add: announce_cases)
  moreover have "ac_tgid (candidate_sample_of env vma ?k) = current_tgid env"
    "ac_vm_start (candidate_sample_of env vma ?k) = vm_start v" "ac_vm_end (candidate_sample_of env vma ?k) = vm_end v"
    using assms(2) by (simp_all add: candidate_sample_of_def)
  moreover have "unat (ucast w :: u32) = unat w mod 2 ^ 32" for w :: u64
    by (simp only: unsigned_ucast_eq) (simp add: take_bit_eq_mod)
  ultimately show ?thesis
    using s'(1,2) device_split [of "s_dev sb"] queried_bit_masked(2) classification_fields [OF assms(4,5)]
    by (intro exI [of _ "candidate_sample_of env vma ?k"]) simp
qed

text \<open>An executable mapping of inode 42 on device 8:1.\<close>

definition map_env :: kenv where
  "map_env = quiet_env\<lparr>heap := empty_heap\<lparr>
     h_vma := [50 \<mapsto> \<lparr>vm_flags = 5, vm_file = 60, vm_start = 0x400000, vm_end = 0x500000\<rparr>],
     h_file := [60 \<mapsto> \<lparr>f_inode = 70, f_path_dentry = NULL, f_path = NULL, f_flags = 0\<rparr>],
     h_inode := [70 \<mapsto> \<lparr>i_sb = 80, i_ino = 42, i_ctime_sec = 1700000000, i_ctime_nsec = 0x80000005,
       mid_ctime_tv_sec = 0, mid_ctime_tv_nsec = 0, leg_ctime_tv_sec = 0, leg_ctime_tv_nsec = 0\<rparr>],
     h_super := [80 \<mapsto> \<lparr>s_magic = 0, s_dev = 0x800001\<rparr>]\<rparr>\<rparr>"

definition map_key :: file_classification_key where
  "map_key = \<lparr>mapped_file = \<lparr>device_major = 8, device_minor = 1, mf_inode = 42\<rparr>, ctime_sec = 1700000000, ctime_nsec = 5, fc_pad = 0\<rparr>"

lemma map_env_facts [simp]:
  "current_cgroup_id map_env = 7" "ringbuf_space map_env n" "map_update_ok map_env" "lru_victim map_env = (\<lambda>_. False)"
  "btf map_env = recent_btf"
  by (simp_all add: map_env_def current_cgroup_id_def)

lemma map_env_objects:
  "h_vma (heap map_env) 50 = Some \<lparr>vm_flags = 5, vm_file = 60, vm_start = 0x400000, vm_end = 0x500000\<rparr>"
  "h_file (heap map_env) 60 = Some \<lparr>f_inode = 70, f_path_dentry = NULL, f_path = NULL, f_flags = 0\<rparr>"
  "h_inode (heap map_env) 70 = Some \<lparr>i_sb = 80, i_ino = 42, i_ctime_sec = 1700000000, i_ctime_nsec = 0x80000005,
     mid_ctime_tv_sec = 0, mid_ctime_tv_nsec = 0, leg_ctime_tv_sec = 0, leg_ctime_tv_nsec = 0\<rparr>"
  "h_super (heap map_env) 80 = Some \<lparr>s_magic = 0, s_dev = 0x800001\<rparr>"
  by (simp_all add: map_env_def)

lemma map_key_of: "classification_of map_env 70 80 = map_key"
  by (simp add: classification_of_def http_uprobe_inode_ctime_def map_env_def map_key_def)

lemma one_tracked_cache [simp]:
  "http_uprobe_discovery_cache one_tracked = Map.empty" "events one_tracked = []" "tracked_cgroups one_tracked 7 = Some 1"
  by (simp_all add: one_tracked_def loaded_state_def)

theorem candidate_announced_exact_witness:
  "\<exists>x. events (snd (handle_uprobe_mmap map_env 50 one_tracked)) = [HttpUprobeAttachCandidateSample x] \<and>
       unat (ctime_nsec (ac_file x)) = 5 \<and> ac_vm_start x = 0x400000"
  using candidate_announced_exact [OF _ map_env_objects(1), of one_tracked, simplified,
      OF map_env_objects(2), simplified, OF map_env_objects(3), simplified, OF map_env_objects(4), simplified]
  by auto

theorem discovery_announces_once_witness:
  "announced (events (run_hook handle_uprobe_mmap [(map_env, 50), (map_env, 50)] one_tracked)) = [map_key] \<and>
   distinct (announced (events (run_hook handle_uprobe_mmap [(map_env, 50), (map_env, 50)] one_tracked)))"
proof -
  have "announced (events (run_hook handle_uprobe_mmap [(map_env, 50), (map_env, 50)] one_tracked)) = [map_key]"
  proof -
    have run: "handle_uprobe_mmap map_env 50 t = announce_candidate map_env 50 map_key t" if "tracked_cgroups t 7 = Some 1" for t
      unfolding map_key_of [symmetric] using that
      by (simp add: handle_uprobe_mmap_def emit_http_uprobe_attach_candidate_def cgroup_is_tracked_0 map_env_objects)
    show ?thesis by (simp add: run announce_cases Let_def)
  qed
  then show ?thesis
    using discovery_announces_once [of one_tracked _ "[(map_env, 50), (map_env, 50)]"] by simp
qed

end
