(* ===== verification/Job_Mirror.thy ===== *)
theory Job_Mirror
  imports Engine_Safety Uprobe_Discovery "HOL-Library.List_Lexorder"
begin

text \<open>
  The kernel and userspace together.  The kernel programs and the engine loop share
  \<open>tracked_cgroups\<close> and \<open>staging_map\<close>: a program extends them and reports what it did in a sample,
  userspace mirrors the report in its job index when it reads the sample, and writes the maps itself
  when it binds, stages, removes and purges.  The system is the state of the tracker, which contains
  the maps, with the number of ring buffer records userspace has read; its steps are the programs, the
  reading of one record and the turns of the engine, in any order.  Which orders keep the two sides
  together is a condition of its own.
\<close>

subsection \<open>What a lifecycle sample does to the owners\<close>

text \<open>The two maps of the job index the kernel maps correspond to, and a sample's effect on them.\<close>

type_synonym owners = "(u64 \<rightharpoonup> JobIdentity) \<times> (bytes \<rightharpoonup> JobIdentity)"

definition owners_of :: "'a cgroupIndex_scheme \<Rightarrow> owners" where
  "owners_of s = (jobByCgroup s, stagingByBasename s)"

definition adopt :: "JobIdentity \<Rightarrow> u64 \<Rightarrow> (u64 \<rightharpoonup> JobIdentity) \<Rightarrow> (u64 \<rightharpoonup> JobIdentity)" where
  "adopt job cg own = (if own cg = None then own(cg \<mapsto> job) else own)"

fun mirror_sample :: "loop_item \<Rightarrow> owners \<Rightarrow> owners" where
  "mirror_sample (To_engine (Dec_mkdir x)) (own, staged) =
    (case own (ParentCgroupID x) of
       Some job \<Rightarrow> (adopt job (mkdir_CgroupID x) own, staged)
     | None \<Rightarrow>
         (case staged (Base (CgroupPath x)) of
            None \<Rightarrow> (own, staged)
          | Some job \<Rightarrow>
              if StagingMatched x \<and> (own (mkdir_CgroupID x) = None \<or> own (mkdir_CgroupID x) = Some job)
              then (adopt job (mkdir_CgroupID x) own, staged(Base (CgroupPath x) := None)) else (own, staged)))"
| "mirror_sample (To_engine (Dec_attach x)) (own, staged) =
    (case own (SourceCgroupID x) of
       None \<Rightarrow> (own, staged)
     | Some job \<Rightarrow> (adopt job (DestinationCgroupID x) own, staged))"
| "mirror_sample _ os = os"

lemma jobByCgroup_ops:
  "jobByCgroup (snd (bindAt job cg now s)) = adopt job cg (jobByCgroup s)"
  "jobByCgroup (snd (removeStaging b job s)) = jobByCgroup s"
  "jobByCgroup (snd (markTrackedCgroupRemoved cg now s)) = jobByCgroup s"
  "stagingByBasename (snd (removeStaging b job s)) =
     (if stagingByBasename s b = Some job then (stagingByBasename s)(b := None) else stagingByBasename s)"
  by (auto simp: bindAt_def adopt_def removeStaging_def markTrackedCgroupRemoved_def set_removed_def Let_def
      split: option.split)

lemma fst_bindAt: "fst (bindAt job cg now s) \<longleftrightarrow> jobByCgroup s cg = None \<or> jobByCgroup s cg = Some job"
  by (auto simp: bindAt_def split: option.split)

lemma owners_handleSample: "owners_of (snd (handleSample env x s)) = mirror_sample (To_engine x) (owners_of s)"
proof (cases "is_lifecycle x")
  case True
  then show ?thesis
    by (cases x) (auto simp: is_lifecycle_def owners_of_def handler_defs jobForCgroup_def lookupCgroupAttachOwnership_def
        promoteStagedCgroup_def Let_def split_beta jobByCgroup_ops staging_unchanged fst_bindAt adopt_def
        split: option.split)
next
  case False
  then have "owners_of (snd (handleSample env x s)) = owners_of s"
    using cg_part_handleSample [OF False, of env s] by (simp add: cg_part_def owners_of_def)
  then show ?thesis using False by (cases x; cases "owners_of s") (simp_all add: is_lifecycle_def)
qed

subsection \<open>A turn on a sample leaves the kernel maps alone\<close>

definition quiet :: "engineEffect \<Rightarrow> bool" where
  "quiet e \<longleftrightarrow> (\<exists>job r. e = emitEventRecord job r) \<or> (\<exists>job reason. e = notifyJobEnded job reason)"

lemma quiet_simps [simp]: "quiet (emitEventRecord job r)" "quiet (notifyJobEnded job reason)"
  by (auto simp: quiet_def)

lemma quiet_plain: "quiet e \<Longrightarrow> plain e"
  by (auto simp: quiet_def)

lemma quiet_handleSample: "\<forall>e \<in> set (fst (handleSample env x s)). quiet e"
  by (cases x) (simp_all add: handler_defs Let_def split_beta exec_split emit_record_effects split: option.split)

lemma owners_cong: "cg_part s = cg_part s' \<Longrightarrow> owners_of s = owners_of s'"
  by (simp add: cg_part_def owners_of_def)

lemma quiet_effect:
  assumes "tracking_inv (jobTracking K)" "quiet e" "runEngineEffect env e K = Some K'"
  shows "kernel_maps K' = kernel_maps K \<and> owners_of (jobTracking K') = owners_of (jobTracking K) \<and> tracking_inv (jobTracking K')"
proof -
  have inv: "tracking_inv (jobTracking K')"
    using runEngineEffect_ok [OF assms(1) quiet_plain [OF assms(2)], of env] assms(3) by auto
  from assms(2) consider (emit) job r where "e = emitEventRecord job r" | (ended) job reason where "e = notifyJobEnded job reason"
    by (auto simp: quiet_def)
  then show ?thesis
  proof cases
    case emit
    then show ?thesis
      using assms(3) deliver_ok [of "jobTracking K" job r] assms(1) inv by (auto simp: tracking_inv_def intro: owners_cong)
  qed (use assms inv in \<open>auto split: if_splits\<close>)
qed

lemma quiet_effects:
  assumes "tracking_inv (jobTracking K)" "\<forall>e \<in> set es. quiet e" "runEngineEffects env es K = Some K'"
  shows "kernel_maps K' = kernel_maps K \<and> owners_of (jobTracking K') = owners_of (jobTracking K) \<and> tracking_inv (jobTracking K')"
  using assms
proof (induction es arbitrary: K)
  case (Cons e es)
  then obtain K1 where K1: "runEngineEffect env e K = Some K1" "runEngineEffects env es K1 = Some K'"
    by (auto split: option.splits)
  show ?case
    using quiet_effect [OF Cons.prems(1) _ K1(1)] Cons.IH [of K1] Cons.prems(2) K1(2) by auto
qed simp

lemma sample_turn:
  assumes "tracking_inv (jobTracking K)" "engine_step env (inputSample x) K = Some K'" "queues_empty (jobTracking K)"
  shows "kernel_maps K' = kernel_maps K" "tracking_inv (jobTracking K')"
    "owners_of (jobTracking K') = mirror_sample (To_engine x) (owners_of (jobTracking K))"
proof -
  let ?K = "K\<lparr>jobTracking := snd (handleSample (go_part env) x (jobTracking K))\<rparr>"
  have "runEngineEffects env (fst (handleSample (go_part env) x (jobTracking K))) ?K = Some K'"
    using assms(2) by (simp add: engine_step_def split_beta)
  from quiet_effects [OF _ quiet_handleSample this] tracking_inv_handleSample [OF assms(1)]
    no_late_start [OF assms(3)] assms(1)
  show "kernel_maps K' = kernel_maps K" "tracking_inv (jobTracking K')"
    "owners_of (jobTracking K') = mirror_sample (To_engine x) (owners_of (jobTracking K))"
    by (simp_all add: owners_handleSample tracking_inv_def)
qed

subsection \<open>The steps of the system\<close>


text \<open>A program that only reports: every observing program, and the discovery program.\<close>

definition lifecycle_sample :: "sample \<Rightarrow> bool" where
  "lifecycle_sample x \<longleftrightarrow>
    struct_kind x \<in> {SAMPLE_KIND_CGROUP_MKDIR, SAMPLE_KIND_CGROUP_ATTACH, SAMPLE_KIND_CGROUP_RMDIR}"

definition reports_only :: "bpf_state \<Rightarrow> bpf_state \<Rightarrow> bool" where
  "reports_only s s' \<longleftrightarrow>
    tracked_cgroups s' = tracked_cgroups s \<and> staging_map s' = staging_map s \<and>
    (\<exists>xs. events s' = events s @ xs \<and> (\<forall>x \<in> set xs. valid_sample x \<and> \<not> lifecycle_sample x))"

lemma reports_onlyI:
  assumes "hook_effect env s s'" "state_wf s'" "tracked_cgroups s' = tracked_cgroups s" "staging_map s' = staging_map s"
    and "\<And>x. events s' = events s @ [x] \<Longrightarrow> \<not> lifecycle_sample x"
  shows "reports_only s s'"
proof -
  have "\<exists>xs. events s' = events s @ xs \<and> (\<forall>x \<in> set xs. valid_sample x \<and> \<not> lifecycle_sample x)"
  proof (cases "events s' = events s")
    case False
    then obtain x where x: "events s' = events s @ [x]" "stored_kind x = kind_value (struct_kind x)" "lengths_ok x"
      using assms(1) unfolding hook_effect_def emission_def by auto
    moreover have "sample_wf x" using assms(2) x(1) by (simp add: state_wf_def)
    ultimately show ?thesis using assms(5) by (intro exI [of _ "[x]"]) (simp add: valid_sampleI)
  qed (intro exI [of _ "[]"], simp)
  then show ?thesis using assms(3,4) by (simp add: reports_only_def)
qed

lemma task_sample_not_lifecycle: "sample_cgroup x = Some c \<Longrightarrow> \<not> lifecycle_sample x"
  by (cases x) (simp_all add: lifecycle_sample_def)

context observer_hook
begin

lemma reports_only: "env_wf env \<Longrightarrow> state_wf s \<Longrightarrow> reports_only s (snd (hook env a s))"
  using gated [of env s a]
  by (intro reports_onlyI [OF effect] keeps_wf) (auto simp: observes_def dest: task_sample_not_lifecycle)

end

lemma uprobe_mmap_reports_only:
  assumes "env_wf env" "state_wf s"
  shows "reports_only s (snd (handle_uprobe_mmap env vma s))"
proof (rule reports_onlyI [OF uprobe_mmap.effect uprobe_mmap.keeps_wf [OF assms]])
  show "tracked_cgroups (snd (handle_uprobe_mmap env vma s)) = tracked_cgroups s"
    "staging_map (snd (handle_uprobe_mmap env vma s)) = staging_map s"
    by (cases rule: uprobe_mmap_cases [of env vma s]; simp add: announce_cases Let_def)+
  show "\<not> lifecycle_sample x" if "events (snd (handle_uprobe_mmap env vma s)) = events s @ [x]" for x
    using that by (cases rule: uprobe_mmap_cases [of env vma s])
      (auto simp: announce_cases Let_def lifecycle_sample_def split: if_splits)
qed

text \<open>The map calls answer, and ranging over a Go map visits every key.\<close>

definition calls_succeed :: "engine_env \<Rightarrow> bool" where
  "calls_succeed env \<longleftrightarrow>
    (\<forall>cg. tracked_delete_ok (map_calls env) cg) \<and> (\<forall>b. staging_delete_ok (map_calls env) b) \<and>
    (\<forall>A. finite A \<longrightarrow> set (cgroup_order env A) = A) \<and> (\<forall>A. finite A \<longrightarrow> set (staging_order env A) = A)"

text \<open>
  The programs run at any time, whatever their helpers answer; the reader takes the next record of the
  ring buffer, skipping one that no decoder accepts; a command or tick of userspace is handled at any
  time, whatever the map calls answer.
\<close>

type_synonym system = "KernelTracker \<times> nat"




text \<open>
  The order in which the two sides have to act.  Userspace is caught up when no record of a creation,
  migration or removal is unread.  In an orderly step a lifecycle program has ring buffer space for its
  sample, since a dropped one is a cgroup the kernel tracks and userspace never hears of, and a created
  cgroup has a name and an id that is not tracked; binding, staging, removing a job and purging what has
  expired happen when userspace is caught up, the last two with successful deletes, and a staged
  basename has no NUL.  Everything else is orderly at any time: reports, reads, registering and finding
  jobs, liveness scans and ticks with nothing to purge.
\<close>

fun caught_up :: "system \<Rightarrow> bool" where
  "caught_up (K, n) \<longleftrightarrow> (\<forall>x \<in> set (drop n (events (kernel_maps K))). \<not> lifecycle_sample x)"




subsection \<open>The invariant\<close>

text \<open>
  After the unread samples the owners will cover exactly the tracked cgroups, and the staged
  basenames are the staged keys.
\<close>

definition staged_name :: "bytes \<Rightarrow> bool" where
  "staged_name b \<longleftrightarrow> b \<noteq> [] \<and> length b \<le> 256 \<and> 0 \<notin> set b \<and> 0x2F \<notin> set b"

definition maps_match :: "bpf_state \<Rightarrow> owners \<Rightarrow> bool" where
  "maps_match k os \<longleftrightarrow> dom (tracked_cgroups k) = dom (fst os) \<and> dom (staging_map k) = staging_pad ` dom (snd os)
     \<and> (\<forall>b \<in> dom (snd os). staged_name b)"

definition unread_items :: "system \<Rightarrow> loop_item list" where
  "unread_items S = map delivered (drop (snd S) (events (kernel_maps (fst S))))"

definition mirrored :: "system \<Rightarrow> bool" where
  "mirrored S \<longleftrightarrow> tracking_inv (jobTracking (fst S)) \<and> queues_empty (jobTracking (fst S)) \<and> finite (dom (stagingByBasename (jobTracking (fst S))))
     \<and> snd S \<le> length (events (kernel_maps (fst S))) \<and> (\<forall>x \<in> set (events (kernel_maps (fst S))). valid_sample x)
     \<and> maps_match (kernel_maps (fst S)) (fold mirror_sample (unread_items S) (owners_of (jobTracking (fst S))))"








lemma maps_match_own: "maps_match k (own, staged) \<Longrightarrow> own cg = None \<longleftrightarrow> tracked_cgroups k cg = None"
  unfolding maps_match_def by (metis domIff fst_conv)




lemma mirror_other: "\<not> lifecycle_sample x \<Longrightarrow> mirror_sample (delivered x) os = os"
  by (cases x; cases os) (simp_all add: lifecycle_sample_def)

lemma mirror_others: "\<forall>x \<in> set xs. \<not> lifecycle_sample x \<Longrightarrow> fold mirror_sample (map delivered xs) os = os"
  by (induction xs) (simp_all add: mirror_other)






subsection \<open>Commands\<close>

text \<open>When userspace is caught up the invariant is about the owners themselves.\<close>

lemma mirrored_caught_up:
  "caught_up (K, n) \<Longrightarrow> mirrored (K, n) \<longleftrightarrow> tracking_inv (jobTracking K) \<and> queues_empty (jobTracking K)
     \<and> finite (dom (stagingByBasename (jobTracking K))) \<and> n \<le> length (events (kernel_maps K))
     \<and> (\<forall>x \<in> set (events (kernel_maps K)). valid_sample x) \<and> maps_match (kernel_maps K) (owners_of (jobTracking K))"
  by (simp add: mirrored_def unread_items_def mirror_others)

lemma delete_tracked_all:
  "\<forall>cg. tracked_delete_ok io cg \<Longrightarrow> DeleteCgroupIDsFromTrackedCgroupsMap io cgs s =
    (None, s\<lparr>tracked_cgroups := tracked_cgroups s |` (- set cgs)\<rparr>)"
proof -
  assume ok: "\<forall>cg. tracked_delete_ok io cg"
  then have "fst (DeleteCgroupIDsFromTrackedCgroupsMap io cgs s) = None" by (induction cgs arbitrary: s) simp_all
  then show ?thesis using delete_tracked_ok [of io cgs s] by (metis prod.collapse)
qed

lemma delete_staging_all:
  "\<forall>b. staging_delete_ok io b \<Longrightarrow> \<forall>b \<in> set bs. staged_name b \<Longrightarrow> DeleteCgroupBasenamesFromStagingMap io bs s =
    (None, s\<lparr>staging_map := staging_map s |` (- staging_pad ` set bs)\<rparr>)"
proof -
  assume ok: "\<forall>b. staging_delete_ok io b" "\<forall>b \<in> set bs. staged_name b"
  then have "fst (DeleteCgroupBasenamesFromStagingMap io bs s) = None"
  proof (induction bs arbitrary: s)
    case (Cons b bs)
    have "fixedStagingMapKey b = Inr (b @ replicate (256 - length b) 0)"
      using Cons.prems(2) by (simp add: fixedStagingMapKey_Inr staged_name_def)
    then show ?case using Cons by simp
  qed simp
  then show ?thesis using delete_staging_ok [of io bs s] by (metis prod.collapse)
qed







lemma remove_effect:
  fixes K :: KernelTracker and job :: JobIdentity
  defines "A \<equiv> dom (job_cgroups (jobTracking K) job)" and "B \<equiv> job_staging (jobTracking K) job"
  assumes inv: "tracking_inv (jobTracking K)" and fin: "finite (dom (stagingByBasename (jobTracking K)))" and
    names: "\<forall>b \<in> dom (stagingByBasename (jobTracking K)). staged_name b" and ok: "calls_succeed env" and
    run: "runEngineEffect env (removeJobFromKernel job (cgroup_order env (cgroupsForJob (jobTracking K) job))
      (staging_order env (stagingForJob (jobTracking K) job))) K = Some K'"
  shows "kernel_maps K' = (kernel_maps K)\<lparr>tracked_cgroups := tracked_cgroups (kernel_maps K) |` (- A),
      staging_map := staging_map (kernel_maps K) |` (- staging_pad ` B)\<rparr>"
    "owners_of (jobTracking K') = ((\<lambda>cg. if cg \<in> A then None else jobByCgroup (jobTracking K) cg),
      (\<lambda>b. if b \<in> B then None else stagingByBasename (jobTracking K) b))"
    "B \<subseteq> dom (stagingByBasename (jobTracking K))"
proof -
  let ?s = "jobTracking K"
  have index: "index_inv ?s" using inv by (simp add: tracking_inv_def)
  show B: "B \<subseteq> dom (stagingByBasename ?s)" unfolding B_def using staged_entry [OF index] by blast
  have "A \<subseteq> dom (jobByCgroup ?s)" unfolding A_def using owner_entry [OF index] by blast
  then have "finite A" "finite B"
    using index fin B by (auto simp: index_inv_def intro: finite_subset)
  then have orders: "set (cgroup_order env (cgroupsForJob ?s job)) = A" "set (staging_order env (stagingForJob ?s job)) = B"
    using ok by (simp_all add: calls_succeed_def cgroupsForJob_def stagingForJob_def A_def B_def)
  have "\<forall>b \<in> B. staged_name b" using names B by blast
  then have "deleteJobKernelMapEntries env (cgroup_order env (cgroupsForJob ?s job)) (staging_order env (stagingForJob ?s job)) (kernel_maps K)
      = (None, (kernel_maps K)\<lparr>tracked_cgroups := tracked_cgroups (kernel_maps K) |` (- A),
          staging_map := staging_map (kernel_maps K) |` (- staging_pad ` B)\<rparr>)"
    using ok delete_tracked_all [of "map_calls env"] delete_staging_all [of "map_calls env"] orders
    by (simp add: deleteJobKernelMapEntries_def deleteCgroupKernelMapEntries_def calls_succeed_def)
  moreover obtain s' where s': "close_channel (fst (removeJob job ?s)) (snd (removeJob job ?s)) = Some s'"
    "cg_part s' = cg_part (removeCgroupAndStaging job ?s)"
    using removeJob_closes [OF inv] by blast
  ultimately have K': "kernel_maps K' = (kernel_maps K)\<lparr>tracked_cgroups := tracked_cgroups (kernel_maps K) |` (- A),
      staging_map := staging_map (kernel_maps K) |` (- staging_pad ` B)\<rparr>" "jobTracking K' = s'"
    using run by (auto simp: Let_def split_beta reply_def)
  show "kernel_maps K' = (kernel_maps K)\<lparr>tracked_cgroups := tracked_cgroups (kernel_maps K) |` (- A),
      staging_map := staging_map (kernel_maps K) |` (- staging_pad ` B)\<rparr>" by (rule K'(1))
  show "owners_of (jobTracking K') = ((\<lambda>cg. if cg \<in> A then None else jobByCgroup ?s cg),
      (\<lambda>b. if b \<in> B then None else stagingByBasename ?s b))"
    using owners_cong [OF s'(2)] by (simp add: K'(2) owners_of_def removeCgroupAndStaging_def domIff A_def B_def)
qed







subsection \<open>Catching up\<close>





text \<open>
  The order of commands and records matters.  When a job is removed while the sample of a child
  cgroup is still unread, the child stays in \<open>tracked_cgroups\<close> with no owner: the removal deletes the
  cgroups userspace knows, and the sample then names a parent that is gone.  Nothing purges such an
  entry later.
\<close>

lemma remove_before_read_leaves_tracked:
  assumes m: "mirrored (K, length (events (kernel_maps K)))" and job: "job \<in> jobs (jobTracking K)" and
    parent: "jobByCgroup (jobTracking K) (parent_cgroup_id_from_cgroup env cgrp) = Some job" and
    fresh: "tracked_cgroups (kernel_maps K) (cgroup_id_from_cgroup env cgrp) = None" and
    env: "map_update_ok env" "ringbuf_space env (sizeof_sample SAMPLE_KIND_CGROUP_MKDIR)" and ok: "calls_succeed genv" and
    K1: "K1 = K\<lparr>kernel_maps := snd (handle_cgroup_mkdir env (cgrp, path) (kernel_maps K))\<rparr>" and
    K2: "engine_step genv (commandRemoveJob job) K1 = Some K2" and
    K3: "engine_step genv (inputSample (Dec_mkdir (mkdir_of (mkdir_sample env cgrp path 0)))) K2 = Some K3"
  shows "tracked_cgroups (kernel_maps K3) (cgroup_id_from_cgroup env cgrp) \<noteq> None \<and>
    jobByCgroup (jobTracking K3) (cgroup_id_from_cgroup env cgrp) = None"
proof -
  let ?s = "jobTracking K" and ?cg = "cgroup_id_from_cgroup env cgrp" and ?p = "parent_cgroup_id_from_cgroup env cgrp"
  have inv: "tracking_inv ?s" and fin: "finite (dom (stagingByBasename ?s))" and match: "maps_match (kernel_maps K) (owners_of ?s)"
    and empty: "queues_empty ?s"
    using m mirrored_caught_up [of K "length (events (kernel_maps K))"] by simp_all
  then have index: "index_inv ?s" and names: "\<forall>b \<in> dom (stagingByBasename ?s). staged_name b"
    by (simp_all add: tracking_inv_def maps_match_def owners_of_def)
  have own: "jobByCgroup ?s ?cg = None" and tracked: "tracked_cgroups (kernel_maps K) ?p \<noteq> None"
    using maps_match_own [OF match [unfolded owners_of_def]] fresh parent by (simp, metis option.distinct(1))
  have k1: "tracked_cgroups (kernel_maps K1) ?cg \<noteq> None" "jobTracking K1 = ?s"
    using tracked env by (auto simp: K1 handle_cgroup_mkdir_eq mkdir_track_def Let_def bpf_map_update_elem_def emit_sample_def)
  have "runEngineEffect genv (removeJobFromKernel job (cgroup_order genv (cgroupsForJob ?s job))
      (staging_order genv (stagingForJob ?s job))) K1 = Some K2"
  proof -
    have same: "K1\<lparr>jobTracking := ?s\<rparr> = K1" by (simp add: K1)
    show ?thesis using K2 job by (auto simp: engine_step_def handleRemoveJob_def k1(2) same simp del: runEngineEffect.simps(5) split: option.splits)
  qed
  note K2' = remove_effect [of K1, unfolded k1(2), OF inv fin names ok this]
  have "?cg \<notin> dom (job_cgroups ?s job)" "?p \<in> dom (job_cgroups ?s job)"
    using owner_entry [OF index] own parent by (metis domD option.distinct(1), metis domI)
  then have two: "tracked_cgroups (kernel_maps K2) ?cg \<noteq> None" "jobByCgroup (jobTracking K2) ?cg = None"
    "jobByCgroup (jobTracking K2) ?p = None"
    using K2' k1(1) own by (simp_all add: owners_of_def)
  have inv2: "tracking_inv (jobTracking K2)" "queues_empty (jobTracking K2)"
    using engine_step_ok [of K1 "commandRemoveJob job" genv] inv k1(2) K2 step_queues [OF K2] empty by auto
  have "mkdir_CgroupID (mkdir_of (mkdir_sample env cgrp path 0)) = ?cg"
    "ParentCgroupID (mkdir_of (mkdir_sample env cgrp path 0)) = ?p" "\<not> StagingMatched (mkdir_of (mkdir_sample env cgrp path 0))"
    by (simp_all add: mkdir_of_def mkdir_sample_def Let_def)
  then have "owners_of (jobTracking K3) = owners_of (jobTracking K2)"
    using sample_turn(3) [OF inv2(1) K3 inv2(2)] two(3) by (simp add: owners_of_def split: option.splits)
  then show ?thesis using sample_turn(1) [OF inv2(1) K3 inv2(2)] two by (simp add: owners_of_def)
qed


definition sorted_env :: engine_env where
  "sorted_env = example_env\<lparr>staging_order := sorted_list_of_set\<rparr>"




lemma sorted_env_ok: "calls_succeed sorted_env"
  by (simp add: calls_succeed_def sorted_env_def example_env_def)





end
