(* ===== verification/Job_Lifecycle.thy ===== *)
theory Job_Lifecycle
  imports Engine_Safety
begin

text \<open>
  The end of a job as the engine sees it.  A job ends when its last active cgroup is removed, which
  userspace learns from an rmdir sample or from the liveness scan that makes up for lost samples.
\<close>

subsection \<open>Turns that only notify\<close>

lemma notify_effects:
  assumes "has_notifier env"
  shows "runEngineEffects env (map (\<lambda>job. notifyJobEnded job reason) jobs_list) K =
    Some (K\<lparr>job_ends := job_ends K @ map (\<lambda>job. (job, reason)) jobs_list\<rparr>)"
  using assms by (induction jobs_list arbitrary: K) simp_all

definition drained_by :: "'a cgroupIndex_scheme \<Rightarrow> 'a cgroupIndex_scheme \<Rightarrow> JobIdentity set" where
  "drained_by s s' = {job. 0 < activeCgroupCount s job \<and> activeCgroupCount s' job = 0}"

lemma drained_by_refl [simp]: "drained_by s s = {}"
  by (auto simp: drained_by_def)

lemma rmdir_drains:
  assumes inv: "index_inv s"
  obtains ended where "handleCgroupRmdirSample env x s =
      (map (\<lambda>job. notifyJobEnded job EndCgroupRmdir) ended, snd (markTrackedCgroupRemoved (rmdir_CgroupID x) (time_now env) s))"
    "distinct ended" "set ended = drained_by s (snd (markTrackedCgroupRemoved (rmdir_CgroupID x) (time_now env) s))"
proof (cases rule: mark_cases [OF inv, of "rmdir_CgroupID x" "time_now env", case_names absent again removed])
  case absent
  then show thesis
    by (intro that [of "[]"]) (simp_all add: handleCgroupRmdirSample_def nothing_detached_def)
next
  case (again job t)
  then show thesis
    by (intro that [of "[]"]) (simp_all add: handleCgroupRmdirSample_def)
next
  case (removed job t)
  let ?s = "set_removed job (rmdir_CgroupID x) (time_now env) s"
  note count = activeCgroupCount_set_removed [OF inv removed(1,2), of _ "time_now env"]
  have "drained_by s ?s = (if activeCgroupCount ?s job = 0 then {job} else {})"
    by (auto simp: drained_by_def count)
  then show thesis
    using removed(3)
    by (intro that [of "if activeCgroupCount ?s job = 0 then [job] else []"]) (simp_all add: handleCgroupRmdirSample_def)
qed

lemma scan_drains:
  assumes inv: "index_inv s"
  obtains ended where "fst (handleCgroupLivenessReconciliation env started checked live s) =
      map (\<lambda>job. notifyJobEnded job EndCgroupRmdir) ended"
    "distinct ended" "set ended = drained_by s (snd (handleCgroupLivenessReconciliation env started checked live s))"
  using drained_reconcile [OF inv, of "visit_order env {(job, cg). job_cgroups s job cg \<noteq> None}" live started checked]
  by (intro that [of "drained_jobs (fst (reconcileCgroupLiveness (visit_order env {(job, cg). job_cgroups s job cg \<noteq> None}) live started checked s))"])
    (simp_all add: handleCgroupLivenessReconciliation_def drained_jobs_def drained_by_def Let_def split_beta)

fun may_end_jobs :: "engineInput \<Rightarrow> bool" where
  "may_end_jobs (inputSample (Dec_rmdir x)) = True"
| "may_end_jobs (commandReconcileCgroupLiveness started checked live) = True"
| "may_end_jobs _ = False"

text \<open>
  C33: The end of a job is announced exactly once.  In every state the engine reaches, with
  the job workers receiving in between and no exited process started again, an rmdir sample or a liveness scan announces each job whose last active cgroup it retires, once, and no other job;
  a repeated rmdir of the same cgroup and a scan that finds it gone again announce nothing.
\<close>

theorem job_end_announced_once:
  assumes "exits_final es (newKernelTracker k)" "engine_run es (newKernelTracker k) = Some K"
    and "has_notifier env" "may_end_jobs input" "engine_step env input K = Some K'"
  shows "\<exists>ended. job_ends K' = job_ends K @ map (\<lambda>job. (job, EndCgroupRmdir)) ended \<and> distinct ended \<and>
    set ended = {job. 0 < activeCgroupCount (jobTracking K) job \<and> activeCgroupCount (jobTracking K') job = 0}"
proof -
  have inv: "index_inv (jobTracking K)"
    using started_run_ok [OF assms(1)] assms(2) by (auto simp: tracking_inv_def)
  from assms(4) consider (rmdir) x where "input = inputSample (Dec_rmdir x)"
    | (scan) started checked live where "input = commandReconcileCgroupLiveness started checked live"
    by (cases input rule: may_end_jobs.cases) auto
  then show ?thesis
  proof cases
    case rmdir
    show ?thesis
      by (rule rmdir_drains [OF inv, of "go_part env" x])
        (use assms(3,5) rmdir in \<open>auto simp: engine_step_def notify_effects drained_by_def\<close>)
  next
    case scan
    show ?thesis
      by (rule scan_drains [OF inv, of env started checked live])
        (use assms(3,5) scan in \<open>auto simp: engine_step_def split_beta notify_effects drained_by_def\<close>)
  qed
qed

theorem job_end_announced_once_witness:
  "\<exists>K'. engine_step example_env (inputSample (Dec_rmdir \<lparr>rmdir_CgroupID = 7, rmdir_TsNs = 1\<rparr>)) one_job = Some K' \<and>
    job_ends K' = [(example_job, EndCgroupRmdir)]"
proof -
  let ?input = "inputSample (Dec_rmdir \<lparr>rmdir_CgroupID = 7, rmdir_TsNs = 1\<rparr>)"
  have cgs: "job_cgroups (jobTracking one_job) = (\<lambda>_. Map.empty)(example_job := [7 \<mapsto>
      \<lparr>cgroup_State = trackedCgroupActive, TrackedAt = 0, RemovedAt = zero_time\<rparr>])" "job_ends one_job = []"
    by (simp_all add: one_job_def one_job_run_def engine_step_def handleRegisterJob_def handleBindCgroup_def newKernelTracker_def
      newJobTrackingState_def registerJob_def reply_def Let_def jobForCgroup_def PutCgroupIDInTrackedCgroupsMap_def
      bindAt_def example_env_def)
  have notifier: "has_notifier example_env" by (simp add: example_env_def)
  obtain K' where K': "engine_step example_env ?input one_job = Some K'"
    "job_cgroups (jobTracking K') = (\<lambda>_. Map.empty)(example_job := [7 \<mapsto>
      \<lparr>cgroup_State = trackedCgroupRemoved, TrackedAt = 0, RemovedAt = 0\<rparr>])"
  proof -
    let ?x = "\<lparr>rmdir_CgroupID = 7, rmdir_TsNs = 1\<rparr> :: cgroupRmdirSample"
    let ?s = "snd (markTrackedCgroupRemoved 7 (time_now (go_part example_env)) (jobTracking one_job))"
    have inv: "index_inv (jobTracking one_job)"
      using started_run_ok [OF one_job_final] one_job_run by (simp add: tracking_inv_def)
    have removed: "job_cgroups ?s = (\<lambda>_. Map.empty)(example_job := [7 \<mapsto>
        \<lparr>cgroup_State = trackedCgroupRemoved, TrackedAt = 0, RemovedAt = 0\<rparr>])"
      using one_job_state(4) cgs(1)
      by (simp add: markTrackedCgroupRemoved_def jobForCgroup_def set_removed_def Let_def example_env_def)
    show thesis
      by (rule rmdir_drains [OF inv, of "go_part example_env" ?x])
        (use that removed in \<open>simp add: engine_step_def notify_effects [OF notifier]\<close>)
  qed
  have "{cg. is_active (job_cgroups (jobTracking one_job) job cg)} = (if job = example_job then {7} else {})"
    "{cg. is_active (job_cgroups (jobTracking K') job cg)} = {}" for job
    by (auto simp: cgs(1) K'(2) is_active_def split: option.splits if_splits)
  then have "{job. 0 < activeCgroupCount (jobTracking one_job) job \<and> activeCgroupCount (jobTracking K') job = 0} = {example_job}"
    by (auto simp: activeCgroupCount_def)
  then obtain ended where "job_ends K' = map (\<lambda>job. (job, EndCgroupRmdir)) ended" "distinct ended" "set ended = {example_job}"
    using job_end_announced_once [OF one_job_final one_job_run, of example_env ?input K'] notifier K'(1) cgs(2) by auto
  moreover have "ended = [example_job]"
    using calculation(2,3) by (metis distinct.simps(2) distinct_singleton insert_iff list.exhaust list.set(2) list.set_intros(1,2) empty_iff)
  ultimately show ?thesis using K'(1) by simp
qed

end
