(* ===== verification/End_To_End.thy ===== *)
theory End_To_End
  imports Process_Hooks Engine_Safety
begin

text \<open>
  From the kernel object to the channel of the job: the program, the image of its sample in the ring
  buffer, the decoder, the handler and the delivery composed.
\<close>

subsection \<open>Executions\<close>

lemma length_argv_area_of: "length args \<le> length (argv_area_of args)"
  by (induction args) simp_all

lemma exec_item:
  assumes "env_wf env" "cBytes (argv_blob (exec_sample_of env task bprm)) (argv_blob_len (exec_sample_of env task bprm)) = Some blob"
  shows "read_record True (sample_image tail (ExecSample (exec_sample_of env task bprm))) =
    Inr (To_engine (Dec_exec (exec_of (exec_sample_of env task bprm) blob)))"
proof -
  let ?x = "exec_sample_of env task bprm"
  have "valid_sample (ExecSample ?x)"
    using exec_sample_of_wf [OF assms(1), of task bprm] exec_sample_of_facts exec_sample_of_len
    by (simp add: valid_sample_def)
  moreover have "take (unat (argv_blob_len ?x)) (argv_blob ?x) = blob"
    using assms(2) by (simp add: cBytes_def split: if_splits)
  ultimately show ?thesis
    using image_delivered [of "ExecSample ?x" tail] by (simp del: sample_image.simps)
qed

text \<open>A record that is no file open, delivered to a channel with room.\<close>

lemma deliver_room:
  assumes "jobEventChannels s job = Some c" "chan_heap s c = Some ch" "\<not> ch_closed ch" "length (ch_buffer ch) < ch_capacity ch"
    "EventType r \<noteq> FileOpen"
  shows "\<exists>s'. deliver job r s = Some s' \<and> chan_heap s' c = Some (ch\<lparr>ch_buffer := ch_buffer ch @ [r]\<rparr>)"
  using assms by (simp add: deliver_def dedup_key_def Let_def)

lemma emitted_record_delivered:
  assumes "handleSample (go_part genv) item (jobTracking K) = ([emitEventRecord job r], J)"
    and "jobEventChannels (jobTracking K) job = Some c" "chan_heap (jobTracking K) c = Some ch" "\<not> ch_closed ch"
    and "length (ch_buffer ch) < ch_capacity ch" "EventType r \<noteq> FileOpen"
  shows "\<exists>K'. engine_step genv (inputSample item) K = Some K' \<and>
    chan_heap (jobTracking K') c = Some (ch\<lparr>ch_buffer := ch_buffer ch @ [r]\<rparr>)"
proof -
  have "processIndex.more J = processIndex.more (jobTracking K)"
    using more_handleSample [of "go_part genv" item "jobTracking K"] assms(1) by simp
  note J = more_fields [OF this]
  obtain s' where "deliver job r J = Some s'" "chan_heap s' c = Some (ch\<lparr>ch_buffer := ch_buffer ch @ [r]\<rparr>)"
    using deliver_room [of J job c ch r] assms(2-6) J(2,5) by auto
  then show ?thesis using assms(1) by (simp add: engine_step_def)
qed

text \<open>
  C4: An execution is reported as it happened.  When a process of a tracked cgroup executes a program
  whose file name has fewer than 512 bytes, with any arguments that take at most 2,048 bytes with their
  NULs and are readable, one sample is submitted, userspace accepts it, and the turn of the engine appends
  one record to the channel of the job that owns the cgroup, provided the channel has room: with the path
  of the executable, exactly the arguments, one by one, and the memfd flag, without a truncation or
  fault tag.
\<close>

theorem exec_reported_end_to_end:
  assumes "env_wf env" "tracked_cgroups s (current_cgroup_id env) \<noteq> None" "ringbuf_space env (sizeof_sample SAMPLE_KIND_EXEC)"
    and "argv_area env task = Some (start, n)" "n \<le> 2048" "read_bytes (umem env) start n = Some (argv_area_of args)"
    and "\<forall>a \<in> set args. 0 \<notin> set a" "bprm \<noteq> NULL" "BPF_CORE_READ env h_binprm bprm bprm_argc = of_nat (length args)"
    and "BPF_CORE_READ env h_binprm bprm bprm_filename = p" "p \<noteq> NULL"
    and "read_bytes (kmem env) p (Suc (length exe)) = Some (exe @ [0])" "0 \<notin> set exe" "length exe < 512"
    and "jobForCgroup (jobTracking K) (current_cgroup_id env) = Some job" "processesByJob (jobTracking K) job = Some processes"
    and "jobEventChannels (jobTracking K) job = Some c" "chan_heap (jobTracking K) c = Some ch" "\<not> ch_closed ch"
    and "length (ch_buffer ch) < ch_capacity ch"
  shows "\<exists>x item r K'. events (snd (handle_sched_process_exec env (task, old_pid, bprm) s)) = events s @ [x] \<and>
    read_record True (sample_image tail x) = Inr (To_engine item) \<and>
    engine_step genv (inputSample item) K = Some K' \<and>
    chan_heap (jobTracking K') c = Some (ch\<lparr>ch_buffer := ch_buffer ch @ [r]\<rparr>) \<and> EventType r = ProcessExec \<and>
    sum_ExecPath (Process r) = exe \<and> sum_Argv (Process r) = args \<and>
    ev_Payload r = [''is_memfd'' \<mapsto> PBool (memfd_backed env bprm)] \<and> Tags r = Map.empty"
proof -
  let ?x = "exec_sample_of env task bprm" and ?J = "jobTracking K"
  have report: "argv_report env task = (argv_area_of args, False, False)"
    using assms(4-6) by (simp add: argv_report_def min_absorb1)
  note x = exec_sample_argv [OF assms(1) refl, where task = task and bprm = bprm, unfolded report]
  have blob: "cBytes (argv_blob ?x) (argv_blob_len ?x) = Some (argv_area_of args)" "argv_truncated ?x = 0" "argv_faulted ?x = 0"
    using x(1) by simp_all
  have exe: "c_string (exec_path ?x) = exe"
    using exec_path_name [OF assms(1,10-13)] assms(14) by simp
  have "length args \<le> 2048"
    using length_argv_area_of [of args] length_read_bytes [OF assms(6)] assms(5) by simp
  then have "uint (argc ?x) = int (length args)"
    using x(3) [OF assms(8)] assms(9) by (simp add: uint_nat unat_u32_of_nat)
  then have args: "splitArgv (argv_area_of args) (uint (argc ?x)) = args"
    using splitArgv_area [OF assms(7)] by simp
  have own: "jobForCgroup ?J (cgroup_id ?x) = Some job" using assms(15) exec_sample_of_facts by simp
  have sent: "events (snd (handle_sched_process_exec env (task, old_pid, bprm) s)) = events s @ [ExecSample ?x]"
    using assms(2,3) by (simp add: handle_sched_process_exec_def reserve_submit emit_sample_def)
  obtain r J' where r: "handleSample (go_part genv) (Dec_exec (exec_of ?x (argv_area_of args))) ?J = ([emitEventRecord job r], J')"
      "EventType r = ProcessExec" "sum_ExecPath (Process r) = exe" "sum_Argv (Process r) = args"
      "ev_Payload r = [''is_memfd'' \<mapsto> PBool (memfd_backed env bprm)]" "Tags r = Map.empty"
    using own assms(16) blob args exe x(2)
    by (simp add: handleExecSample_def exec_of_def recordExec_def exec_node_def processSummaryFromNode_def tag_if_def Let_def)
  have "EventType r \<noteq> FileOpen" using r(2) by simp
  from emitted_record_delivered [OF r(1) assms(17-20) this] show ?thesis
    using sent r exec_item [OF assms(1) blob(1), of tail] by blast
qed

text \<open>\<open>ls -l\<close> with the NUL that ends its last argument, in the cgroup of a job.\<close>

definition ls_area_env :: kenv where
  "ls_area_env = ls_env\<lparr>umem := memory_at 5000 (argv_area_of [c_lit ''ls'', c_lit ''-l'']),
     heap := (heap ls_env)\<lparr>h_mm := [2 \<mapsto> \<lparr>arg_start = 5000, arg_end = 5006\<rparr>]\<rparr>\<rparr>"

theorem exec_reported_end_to_end_witness:
  "\<exists>x item r K'. events (snd (handle_sched_process_exec ls_area_env (1, 0, 3) one_tracked)) = [x] \<and>
    read_record True (sample_image [] x) = Inr (To_engine item) \<and>
    engine_step example_env (inputSample item) one_job = Some K' \<and>
    chan_heap (jobTracking K') 0 = Some \<lparr>ch_buffer = [r], ch_capacity = 65536, ch_closed = False\<rparr> \<and>
    sum_ExecPath (Process r) = c_lit ''/bin/ls'' \<and> sum_Argv (Process r) = [c_lit ''ls'', c_lit ''-l'']"
proof -
  let ?ch = "\<lparr>ch_buffer = [], ch_capacity = 65536, ch_closed = False\<rparr> :: event_channel"
  have area: "argv_area ls_area_env 1 = Some (5000, 6)" by (simp add: argv_area_def ls_area_env_def ls_env_def)
  have bytes: "read_bytes (umem ls_area_env) 5000 6 = Some (argv_area_of [c_lit ''ls'', c_lit ''-l''])"
    using read_bytes_memory_at [of 6 "argv_area_of [c_lit ''ls'', c_lit ''-l'']" 5000] by (simp add: ls_area_env_def c_lit_def)
  have facts: "env_wf ls_area_env" "current_cgroup_id ls_area_env = 7" "ringbuf_space ls_area_env k"
    "BPF_CORE_READ ls_area_env h_binprm 3 bprm_argc = 2" "BPF_CORE_READ ls_area_env h_binprm 3 bprm_filename = 6000" for k
    using ls_env_wf by (simp_all add: ls_area_env_def env_wf_def ls_env_def current_cgroup_id_def)
  have name: "read_bytes (kmem ls_area_env) 6000 (Suc (length (c_lit ''/bin/ls''))) = Some (c_lit ''/bin/ls'' @ [0])"
    using ls_filename_bytes by (simp add: ls_area_env_def del: read_bytes.simps)
  have plain: "\<forall>a \<in> set [c_lit ''ls'', c_lit ''-l'']. 0 \<notin> set a" "0 \<notin> set (c_lit ''/bin/ls'')" "length (c_lit ''/bin/ls'') < 512"
    by (simp_all add: c_lit_def)
  have "tracked_cgroups one_tracked 7 \<noteq> None" "events one_tracked = []" by (simp_all add: one_tracked_def loaded_state_def)
  moreover have "jobForCgroup (jobTracking one_job) 7 = Some example_job"
    "processesByJob (jobTracking one_job) example_job = Some newJobProcessState"
    "jobEventChannels (jobTracking one_job) example_job = Some 0" "chan_heap (jobTracking one_job) 0 = Some ?ch"
    by (simp_all add: jobForCgroup_def one_job_state)
  ultimately show ?thesis
    using exec_reported_end_to_end [OF facts(1) _ facts(3) area _ bytes plain(1) _ _ facts(5) _ name plain(2,3),
        of one_tracked one_job example_job newJobProcessState 0 ?ch 0 "[]" example_env] facts(2,4)
    by simp blast
qed

end
