(* ===== verification/Go_Text.thy ===== *)
theory Go_Text
  imports Go_Std Job_Identity
begin

text \<open>
  Reading numbers and fields back from text, as \<open>strconv\<close> and \<open>strings\<close> do for the files of
  \<open>/proc\<close>, with the lemmas that reading inverts printing.
\<close>

subsection \<open>Fields\<close>

definition is_space :: "u8 \<Rightarrow> bool" where
  "is_space c \<longleftrightarrow> c \<in> {0x09, 0x0A, 0x0B, 0x0C, 0x0D, 0x20}"

text \<open>
  The number of bytes of the white space a string starts with: the ASCII spaces, and the UTF-8 encodings
  of U+0085, U+00A0, U+1680, U+2000 to U+200A, U+2028, U+2029, U+202F, U+205F and U+3000, which are the
  runes \<open>unicode.IsSpace\<close> accepts.  Their lead bytes never occur inside another encoding, so the
  decoding of the bytes before them does not matter.
\<close>

fun space_width :: "bytes \<Rightarrow> nat" where
  "space_width [] = 0"
| "space_width (c # cs) =
    (if is_space c then 1
     else if c = 0xC2 \<and> cs \<noteq> [] \<and> hd cs \<in> {0x85, 0xA0} then 2
     else if 2 \<le> length cs \<and>
       (c = 0xE1 \<and> cs ! 0 = 0x9A \<and> cs ! 1 = 0x80 \<or>
        c = 0xE2 \<and> cs ! 0 = 0x80 \<and> (0x80 \<le> cs ! 1 \<and> cs ! 1 \<le> 0x8A \<or> cs ! 1 \<in> {0xA8, 0xA9, 0xAF}) \<or>
        c = 0xE2 \<and> cs ! 0 = 0x81 \<and> cs ! 1 = 0x9F \<or>
        c = 0xE3 \<and> cs ! 0 = 0x80 \<and> cs ! 1 = 0x80)
     then 3 else 0)"

function split_fields :: "bytes \<Rightarrow> bytes \<Rightarrow> bytes list" where
  "split_fields word [] = (if word = [] then [] else [rev word])"
| "split_fields word (c # cs) =
    (if space_width (c # cs) = 0 then split_fields (c # word) cs
     else (if word = [] then [] else [rev word]) @ split_fields [] (drop (space_width (c # cs) - 1) cs))"
  by pat_completeness auto

termination by (relation "measure (\<lambda>(word, s). length s)") auto

definition Fields :: "bytes \<Rightarrow> bytes list" where
  "Fields s = split_fields [] s"

text \<open>\<open>strings.Cut\<close> at a single byte.\<close>

definition Cut :: "bytes \<Rightarrow> u8 \<Rightarrow> (bytes \<times> bytes) option" where
  "Cut s sep = (if sep \<in> set s then Some (takeWhile (\<lambda>c. c \<noteq> sep) s, tl (dropWhile (\<lambda>c. c \<noteq> sep) s)) else None)"

lemma Cut_append: "sep \<notin> set a \<Longrightarrow> Cut (a @ sep # b) sep = Some (a, b)"
  by (induction a) (auto simp: Cut_def)

text \<open>A byte that neither is a space nor starts the encoding of one.\<close>

definition plain_char :: "u8 \<Rightarrow> bool" where
  "plain_char c \<longleftrightarrow> \<not> is_space c \<and> c < 0x80"

lemma space_width_plain: "plain_char c \<Longrightarrow> space_width (c # cs) = 0"
  by (auto simp: plain_char_def)

lemma space_width_space: "is_space c \<Longrightarrow> space_width (c # cs) = 1"
  by simp

lemma split_fields_word: "\<forall>c \<in> set w. plain_char c \<Longrightarrow> split_fields acc (w @ rest) = split_fields (rev w @ acc) rest"
  by (induction w arbitrary: acc) (simp_all add: space_width_plain del: space_width.simps)

lemma split_fields_blanks: "\<forall>c \<in> set blanks. is_space c \<Longrightarrow> split_fields [] (blanks @ rest) = split_fields [] rest"
  by (induction blanks) (simp_all add: space_width_space del: space_width.simps)

lemma split_fields_Cons:
  assumes "w \<noteq> []" "\<forall>c \<in> set w. plain_char c" "is_space b" "\<forall>c \<in> set blanks. is_space c"
  shows "split_fields [] (w @ b # blanks @ rest) = w # split_fields [] rest"
  using assms by (simp add: split_fields_word split_fields_blanks space_width_space del: space_width.simps)

subsection \<open>Numbers\<close>

definition hex_value :: "u8 \<Rightarrow> nat option" where
  "hex_value c =
    (if 0x30 \<le> c \<and> c \<le> 0x39 then Some (unat c - 0x30)
     else if 0x61 \<le> c \<and> c \<le> 0x66 then Some (unat c - 0x61 + 10)
     else if 0x41 \<le> c \<and> c \<le> 0x46 then Some (unat c - 0x41 + 10) else None)"

fun hex_number :: "nat \<Rightarrow> bytes \<Rightarrow> nat option" where
  "hex_number acc [] = Some acc"
| "hex_number acc (c # cs) = (case hex_value c of None \<Rightarrow> None | Some d \<Rightarrow> hex_number (16 * acc + d) cs)"

definition ParseUint16 :: "nat \<Rightarrow> bytes \<Rightarrow> nat option" where
  "ParseUint16 bits s =
    (if s = [] then None
     else case hex_number 0 s of None \<Rightarrow> None | Some n \<Rightarrow> if n < 2 ^ bits then Some n else None)"

text \<open>\<open>strconv.ParseInt(s, 10, 32)\<close>.\<close>

definition ParseInt10 :: "bytes \<Rightarrow> int option" where
  "ParseInt10 s =
    (let (neg, digits) = (case s of c # cs \<Rightarrow> if c = 0x2D then (True, cs) else if c = 0x2B then (False, cs) else (False, s)
                          | [] \<Rightarrow> (False, [])) in
     if digits = [] \<or> \<not> list_all is_digit digits then None
     else let n = int (decimal digits) in
       if neg then (if n \<le> 2 ^ 31 then Some (- n) else None) else if n < 2 ^ 31 then Some n else None)"

text \<open>Facts about the digits, by evaluation on all of them.\<close>

lemma hex_digits: "list_all (\<lambda>d. hex_value (hex_digit d) = Some d \<and> hex_digit d \<in> {0x30..0x39} \<union> {0x61..0x66}) [0..<16]"
  by (simp add: upt_conv_Cons hex_value_def hex_digit_def)

lemma hex_value_digit: "d < 16 \<Longrightarrow> hex_value (hex_digit d) = Some d"
  using hex_digits by (simp add: list_all_iff)

lemma hex_digit_plain: "d < 16 \<Longrightarrow> hex_digit d \<in> {0x30..0x39} \<union> {0x61..0x66}"
  using hex_digits by (simp add: list_all_iff)

lemma decimal_digits: "list_all (\<lambda>d. is_digit (of_nat (0x30 + d)) \<and> unat (of_nat (0x30 + d) :: u8) - 0x30 = d) [0..<10]"
  by (simp add: upt_conv_Cons is_digit_def)

lemma decimal_digit:
  "d < 10 \<Longrightarrow> is_digit (of_nat (0x30 + d)) \<and> unat (of_nat (0x30 + d) :: u8) - 0x30 = d"
  using decimal_digits by (simp add: list_all_iff del: of_nat_add)

lemma hex_number_append: "hex_number acc (xs @ ys) = (case hex_number acc xs of None \<Rightarrow> None | Some n \<Rightarrow> hex_number n ys)"
  by (induction xs arbitrary: acc) (auto split: option.split)

lemma hex_number_text: "hex_number acc (hex_text n) = Some (acc * 16 ^ length (hex_text n) + n)"
proof (induction n arbitrary: acc rule: hex_text.induct)
  case (1 n)
  show ?case
  proof (cases "n < 16")
    case True
    then show ?thesis by (subst (1 2) hex_text.simps) (simp add: hex_value_digit)
  next
    case False
    have "hex_text n = hex_text (n div 16) @ [hex_digit (n mod 16)]" using False by (subst hex_text.simps) simp
    then show ?thesis using 1 [OF False] by (simp add: hex_number_append hex_value_digit algebra_simps)
  qed
qed

lemma hex_number_zeros: "hex_number 0 (replicate k 0x30 @ s) = hex_number 0 s"
  by (induction k) (simp_all add: hex_value_def)

lemma hex_text_nonempty: "hex_text n \<noteq> []"
  by (subst hex_text.simps) simp

lemma ParseUint16_padded:
  "n < 2 ^ bits \<Longrightarrow> ParseUint16 bits (replicate k 0x30 @ hex_text n) = Some n"
  by (simp add: ParseUint16_def hex_number_zeros hex_number_text hex_text_nonempty)

lemma set_hex_text: "c \<in> set (hex_text n) \<Longrightarrow> \<exists>d < 16. c = hex_digit d"
proof (induction n rule: hex_text.induct)
  case (1 n)
  show ?case
  proof (cases "n < 16")
    case True
    then show ?thesis using 1(2) by (subst (asm) hex_text.simps) auto
  next
    case False
    then have "hex_text n = hex_text (n div 16) @ [hex_digit (n mod 16)]" by (subst hex_text.simps) simp
    then show ?thesis using 1 False by (auto intro: exI [of _ "n mod 16"])
  qed
qed

lemma decimal_append: "decimal (xs @ [c]) = 10 * decimal xs + (unat c - 0x30)"
  by (simp add: decimal_def)

lemma decimal_decimal_text: "decimal (decimal_text n) = n \<and> list_all is_digit (decimal_text n) \<and> decimal_text n \<noteq> []"
proof (induction n rule: decimal_text.induct)
  case (1 n)
  show ?case
  proof (cases "n < 10")
    case True
    then have "decimal_text n = [of_nat (0x30 + n)]" by (subst decimal_text.simps) simp
    then show ?thesis using decimal_digit [OF True] by (simp add: decimal_def del: of_nat_add)
  next
    case False
    then have "decimal_text n = decimal_text (n div 10) @ [of_nat (0x30 + n mod 10)]" by (subst decimal_text.simps) simp
    then show ?thesis
      using 1 [OF False] decimal_digit [of "n mod 10"] by (simp add: decimal_append del: of_nat_add)
  qed
qed

lemma ParseUint10_text: "n < 2 ^ 64 \<Longrightarrow> ParseUint10 (decimal_text n) = Some n"
  by (simp add: ParseUint10_def decimal_decimal_text)

end
