(* ===== verification/Uprobe_Worker.thy ===== *)
theory Uprobe_Worker
  imports Go_Text Uprobe_Discovery Sample_Decode "HOL-Library.Monad_Syntax"
begin

text \<open>
  The worker that attaches and reclaims the HTTP uprobes, after \<open>kernelio/http_uprobe_worker.go\<close> and
  the two symbol resolvers beside it.  It takes the candidates the discovery program announces, checks
  that the mapped file still is the announced one, attaches where the file defines a target, and
  detaches a target that two complete scans of the tracked processes did not find mapped.

  What the system answers is the record \<open>worker_env\<close>: opening and \<open>fstat\<close> of files, the lines of
  \<open>/proc\<close> files, what \<open>debug/elf\<close> and the profiler library read out of a file, attach results and the
  discovery-cache calls.  Links are handles; the set of open ones is part of the state.  Of
  the log only the throttled warnings are kept.
\<close>

subsection \<open>What the system answers\<close>

datatype os_error = Not_exist | Esrch | Permission | Other_error

record file_stat =
  st_dev :: u64
  st_ino :: u64
  st_ctime_sec :: s64
  st_ctime_nsec :: s64

datatype attach_result = Attached | No_symbol | Attach_failed

record elf_symbol =
  sym_Name :: string
  sym_Info :: u8
  sym_Section :: u16
  sym_Value :: u64

datatype symbols_result = Symbols "elf_symbol list" | No_symbols | Symbols_error

record elf_file =
  elf_Type :: u16
  elf_Symbols :: symbols_result
  elf_DynamicSymbols :: symbols_result

text \<open>\<open>elf.NewFile\<close>: a format or end-of-file error, any other error or panic, or a file.\<close>

datatype elf_result = Elf_not_elf | Elf_error | Elf_file elf_file

record elf_prog =
  p_Type :: u32
  p_Flags :: u32
  p_Off :: u64
  p_Vaddr :: u64
  p_Filesz :: u64

datatype lookup_result = Lookup_at u64 | Lookup_not_found | Lookup_error

datatype pclntab_result = Pclntab_error | Pclntab "string \<Rightarrow> lookup_result"

record go_file =
  go_Type :: u16
  go_IsGolang :: bool
  go_Progs :: "elf_prog list"
  go_Pclntab :: pclntab_result

datatype go_result = Go_not_elf | Go_read_error | Go_panic | Go_file go_file

datatype walk_entry = Walk_error bytes os_error | Walk_file bytes | Walk_dir bytes "os_error + u64"

record worker_env =
  open_path :: "bytes \<Rightarrow> os_error + nat"
  reopen_path :: "bytes \<Rightarrow> os_error + nat"
  fstat_file :: "nat \<Rightarrow> file_stat option"
  proc_maps :: "s32 \<Rightarrow> os_error + bytes list \<times> bool"
  cgroup_procs :: "bytes \<Rightarrow> os_error + bytes list \<times> bool"
  cgroup_walk :: "walk_entry list"
  elf_read :: "nat \<Rightarrow> elf_result"
  go_read :: "nat \<Rightarrow> go_result"
  open_executable :: "nat \<Rightarrow> bool"
  attach_symbol :: "nat \<Rightarrow> string \<Rightarrow> attach_result"
  attach_offset :: "nat \<Rightarrow> u64 \<Rightarrow> bool"
  cache_delete_ok :: "file_classification_key \<Rightarrow> bool"
  cache_put_ok :: "file_classification_key \<Rightarrow> bool"
  cache_evicts :: "file_classification_key \<Rightarrow> bool"
  pid_order :: "s32 set \<Rightarrow> s32 list"
  target_order :: "mapped_file_identity set \<Rightarrow> mapped_file_identity list"

subsection \<open>State\<close>

definition maxAttachedUprobeTargets :: nat where
  "maxAttachedUprobeTargets = 4096"

definition attachCandidateQueueSize :: nat where
  "attachCandidateQueueSize = 4096"

definition missingScanLimit :: u8 where
  "missingScanLimit = 2"

record processMapping =
  addressRange :: bytes
  mapping_file :: mapped_file_identity

record attachedUprobeTarget =
  classificationKey :: file_classification_key
  links :: "nat list"
  missingScanCount :: u8

datatype warn_counter = attachCandidateQueueDropped | permDenied | opErrors | identityMismatch | capReached

record httpUprobeWorker =
  symbolTargets :: "string list"
  goTarget_function :: string
  cgroupRootPath :: bytes
  attachCandidates :: "httpUprobeAttachCandidate list"
  reconcileRequests :: "u64 list list"
  attachedTargets :: "mapped_file_identity \<rightharpoonup> attachedUprobeTarget"
  discoveryCache :: "(file_classification_key \<rightharpoonup> u8) option"
  warn_counts :: "warn_counter \<Rightarrow> u64"
  warn_log :: "(warn_counter \<times> u64) list"
  open_links :: "nat set"
  next_link :: nat

definition newHTTPUprobeWorker :: "string list \<Rightarrow> string \<Rightarrow> bytes \<Rightarrow> (file_classification_key \<rightharpoonup> u8) option \<Rightarrow> httpUprobeWorker" where
  "newHTTPUprobeWorker targets function root cache =
    \<lparr>symbolTargets = targets, goTarget_function = function, cgroupRootPath = root, attachCandidates = [],
     reconcileRequests = [], attachedTargets = Map.empty, discoveryCache = cache, warn_counts = (\<lambda>_. 0), warn_log = [],
     open_links = {}, next_link = 0\<rparr>"

definition warnThrottled :: "warn_counter \<Rightarrow> httpUprobeWorker \<Rightarrow> httpUprobeWorker" where
  "warnThrottled c w =
    (let n = warn_counts w c + 1;
         w' = w\<lparr>warn_counts := (warn_counts w)(c := n)\<rparr>
     in if n AND (n - 1) = 0 then w'\<lparr>warn_log := warn_log w @ [(c, n)]\<rparr> else w')"

definition closeLinks :: "nat list \<Rightarrow> httpUprobeWorker \<Rightarrow> httpUprobeWorker" where
  "closeLinks ls w = w\<lparr>open_links := open_links w - set ls\<rparr>"

definition processIsGone :: "os_error \<Rightarrow> bool" where
  "processIsGone e \<longleftrightarrow> e = Not_exist \<or> e = Esrch"

text \<open>A permission error is counted apart from any other.\<close>

definition warn_error :: "os_error \<Rightarrow> httpUprobeWorker \<Rightarrow> httpUprobeWorker" where
  "warn_error e w = warnThrottled (if e = Permission then permDenied else opErrors) w"

subsection \<open>The discovery cache\<close>

definition deleteDiscoveryCacheEntry :: "worker_env \<Rightarrow> file_classification_key \<Rightarrow> httpUprobeWorker \<Rightarrow> bool \<times> httpUprobeWorker" where
  "deleteDiscoveryCacheEntry env key w =
    (case discoveryCache w of
       None \<Rightarrow> (True, w)
     | Some m \<Rightarrow>
         if cache_delete_ok env key then (True, w\<lparr>discoveryCache := Some (m(key := None))\<rparr>) else (False, w))"

definition cacheDiscoveryFile :: "worker_env \<Rightarrow> file_classification_key \<Rightarrow> httpUprobeWorker \<Rightarrow> httpUprobeWorker" where
  "cacheDiscoveryFile env key w =
    (case discoveryCache w of
       None \<Rightarrow> w
     | Some m \<Rightarrow>
         if cache_put_ok env key
         then w\<lparr>discoveryCache := Some ((\<lambda>k. if k \<noteq> key \<and> cache_evicts env k then None else m k)(key \<mapsto> 1))\<rparr>
         else warnThrottled opErrors w)"

text \<open>Deleting where a failure is only reported.\<close>

definition release_entry :: "worker_env \<Rightarrow> file_classification_key \<Rightarrow> httpUprobeWorker \<Rightarrow> httpUprobeWorker" where
  "release_entry env key w =
    (case deleteDiscoveryCacheEntry env key w of (ok, w') \<Rightarrow> if ok then w' else warnThrottled opErrors w')"

subsection \<open>Inputs of the worker\<close>

definition queueTargetReconciliation :: "u64 list \<Rightarrow> httpUprobeWorker \<Rightarrow> httpUprobeWorker" where
  "queueTargetReconciliation ids w =
    (if length (reconcileRequests w) < 1 then w\<lparr>reconcileRequests := reconcileRequests w @ [ids]\<rparr> else w)"

definition queueAttachCandidate :: "worker_env \<Rightarrow> httpUprobeAttachCandidate \<Rightarrow> httpUprobeWorker \<Rightarrow> httpUprobeWorker" where
  "queueAttachCandidate env candidate w =
    (if length (attachCandidates w) < attachCandidateQueueSize then w\<lparr>attachCandidates := attachCandidates w @ [candidate]\<rparr>
     else warnThrottled attachCandidateQueueDropped (snd (deleteDiscoveryCacheEntry env (cand_file candidate) w)))"

subsection \<open>Mappings of a process\<close>

text \<open>
  One line of \<open>/proc/<pid>/maps\<close>; \<open>None\<close> for a line that is not an executable file mapping.
\<close>

definition guard_that :: "bool \<Rightarrow> unit option" where
  "guard_that b = (if b then Some () else None)"

definition parseExecMapping :: "bytes \<Rightarrow> processMapping option" where
  "parseExecMapping line =
    (let fields = Fields line in do {
       guard_that (6 \<le> length fields);
       guard_that (3 \<le> length (fields ! 1) \<and> fields ! 1 ! 2 = 0x78);
       guard_that (fields ! 4 \<noteq> [0x30]);
       guard_that (\<not> HasPrefix (fields ! 5) (c_lit ''[''));
       (deviceMajorText, deviceMinorText) \<leftarrow> Cut (fields ! 3) 0x3A;
       deviceMajor \<leftarrow> ParseUint16 32 deviceMajorText;
       deviceMinor \<leftarrow> ParseUint16 32 deviceMinorText;
       inode \<leftarrow> ParseUint10 (fields ! 4);
       (startText, endText) \<leftarrow> Cut (fields ! 0) 0x2D;
       start \<leftarrow> ParseUint16 64 startText;
       stop \<leftarrow> ParseUint16 64 endText;
       guard_that (start < stop);
       Some \<lparr>addressRange = hex_text start @ 0x2D # hex_text stop,
             mapping_file = \<lparr>device_major = of_nat deviceMajor, device_minor = of_nat deviceMinor, mf_inode = of_nat inode\<rparr>\<rparr>
     })"

fun collect_mappings :: "mapped_file_identity set \<Rightarrow> bytes list \<Rightarrow> processMapping list" where
  "collect_mappings seen [] = []"
| "collect_mappings seen (line # lines) =
    (case parseExecMapping line of
       None \<Rightarrow> collect_mappings seen lines
     | Some m \<Rightarrow>
         if mapping_file m \<in> seen then collect_mappings seen lines
         else m # collect_mappings (insert (mapping_file m) seen) lines)"

definition scanProcessMappings :: "worker_env \<Rightarrow> s32 \<Rightarrow> httpUprobeWorker \<Rightarrow> (processMapping list \<times> bool) \<times> httpUprobeWorker" where
  "scanProcessMappings env pid w =
    (case proc_maps env pid of
       Inl e \<Rightarrow> if processIsGone e then (([], True), w) else (([], False), warn_error e w)
     | Inr (lines, read_ok) \<Rightarrow> ((collect_mappings {} lines, read_ok), w))"

subsection \<open>Opening the candidate\<close>

definition int_text :: "s32 \<Rightarrow> bytes" where
  "int_text n = (if sint n < 0 then 0x2D # decimal_text (nat (- sint n)) else decimal_text (nat (sint n)))"

definition map_files_path :: "s32 \<Rightarrow> bytes \<Rightarrow> bytes" where
  "map_files_path pid rng = c_lit ''/proc/'' @ int_text pid @ c_lit ''/map_files/'' @ rng"

definition mappedFilePath :: "s32 \<Rightarrow> u64 \<Rightarrow> u64 \<Rightarrow> bytes" where
  "mappedFilePath pid start stop = map_files_path pid (hex_text (unat start) @ 0x2D # hex_text (unat stop))"

definition openMappedFile :: "worker_env \<Rightarrow> httpUprobeAttachCandidate \<Rightarrow> httpUprobeWorker \<Rightarrow> (os_error + nat) \<times> httpUprobeWorker" where
  "openMappedFile env candidate w =
    (case open_path env (mappedFilePath (cand_tgid candidate) (vmStart candidate) (vmEnd candidate)) of
       Inr f \<Rightarrow> (Inr f, w)
     | Inl e \<Rightarrow>
         if e \<noteq> Not_exist then (Inl e, w)
         else case scanProcessMappings env (cand_tgid candidate) w of
           ((mappings, complete), w') \<Rightarrow>
             if \<not> complete then (Inl e, w')
             else case find (\<lambda>m. mapping_file m = mapped_file (cand_file candidate)) mappings of
               None \<Rightarrow> (Inl e, w')
             | Some current \<Rightarrow> (reopen_path env (map_files_path (cand_tgid candidate) (addressRange current)), w'))"

text \<open>\<open>unix.Major\<close> and \<open>unix.Minor\<close>.\<close>

definition Major :: "u64 \<Rightarrow> u32" where
  "Major dev = ucast (drop_bit 8 (dev AND 0x00000000000fff00)) OR ucast (drop_bit 32 (dev AND 0xfffff00000000000))"

definition Minor :: "u64 \<Rightarrow> u32" where
  "Minor dev = ucast (dev AND 0x00000000000000ff) OR ucast (drop_bit 12 (dev AND 0x00000ffffff00000))"

definition classificationKeyFromFile :: "worker_env \<Rightarrow> nat \<Rightarrow> file_classification_key option" where
  "classificationKeyFromFile env f =
    map_option (\<lambda>st. \<lparr>mapped_file = \<lparr>device_major = Major (st_dev st), device_minor = Minor (st_dev st), mf_inode = st_ino st\<rparr>,
                       ctime_sec = st_ctime_sec st, ctime_nsec = ucast (st_ctime_nsec st), fc_pad = 0\<rparr>) (fstat_file env f)"

subsection \<open>Targets defined by a file\<close>

definition ET_EXEC :: u16 where [simp]: "ET_EXEC = 2"
definition ET_DYN :: u16 where [simp]: "ET_DYN = 3"

definition defines_function :: "elf_symbol \<Rightarrow> bool" where
  "defines_function symbol \<longleftrightarrow> sym_Info symbol AND 0xf = 2 \<and> sym_Section symbol \<noteq> 0 \<and> sym_Value symbol \<noteq> 0"

fun collect_symbols :: "string set \<Rightarrow> string set \<Rightarrow> symbols_result list \<Rightarrow> string set option" where
  "collect_symbols wanted found [] = Some found"
| "collect_symbols wanted found (Symbols symbols # tables) =
    collect_symbols wanted (found \<union> sym_Name ` set (filter (\<lambda>s. sym_Name s \<in> wanted \<and> defines_function s) symbols)) tables"
| "collect_symbols wanted found (No_symbols # tables) = collect_symbols wanted found tables"
| "collect_symbols wanted found (Symbols_error # tables) = None"

text \<open>\<open>None\<close> is an error; otherwise the selected targets and whether that is definitive.\<close>

definition definedSymbolTargets :: "elf_result \<Rightarrow> string list \<Rightarrow> (string list \<times> bool) option" where
  "definedSymbolTargets reader candidates =
    (case reader of
       Elf_not_elf \<Rightarrow> Some ([], True)
     | Elf_error \<Rightarrow> None
     | Elf_file file \<Rightarrow>
         if elf_Type file \<noteq> ET_EXEC \<and> elf_Type file \<noteq> ET_DYN then Some ([], True)
         else case collect_symbols (set candidates) {} [elf_Symbols file, elf_DynamicSymbols file] of
           None \<Rightarrow> None
         | Some found \<Rightarrow> Some (filter (\<lambda>candidate. candidate \<in> found) candidates, True))"

fun executableFileOffset :: "elf_prog list \<Rightarrow> u64 \<Rightarrow> u64 option" where
  "executableFileOffset [] address = None"
| "executableFileOffset (program # programs) address =
    (if p_Type program \<noteq> 1 \<or> p_Flags program AND 1 = 0 \<or> address < p_Vaddr program then executableFileOffset programs address
     else let relative = address - p_Vaddr program in
       if relative \<ge> p_Filesz program then executableFileOffset programs address
       else if relative > NOT 0 - p_Off program then None
       else Some (p_Off program + relative))"

datatype go_resolution = Go_found u64 | Go_absent | Go_unsupported | Go_failed

definition resolveGoFunctionOffset :: "go_result \<Rightarrow> string \<Rightarrow> go_resolution" where
  "resolveGoFunctionOffset reader name =
    (case reader of
       Go_not_elf \<Rightarrow> Go_absent
     | Go_read_error \<Rightarrow> Go_failed
     | Go_panic \<Rightarrow> Go_unsupported
     | Go_file file \<Rightarrow>
         if go_Type file \<noteq> ET_EXEC \<and> go_Type file \<noteq> ET_DYN then Go_absent
         else if \<not> go_IsGolang file then Go_absent
         else case go_Pclntab file of
           Pclntab_error \<Rightarrow> Go_unsupported
         | Pclntab lookup \<Rightarrow>
             (case lookup name of
                Lookup_not_found \<Rightarrow> Go_absent
              | Lookup_error \<Rightarrow> Go_unsupported
              | Lookup_at address \<Rightarrow>
                  (case executableFileOffset (go_Progs file) address of None \<Rightarrow> Go_unsupported | Some offset \<Rightarrow> Go_found offset)))"

subsection \<open>Attaching\<close>

definition open_link :: "httpUprobeWorker \<Rightarrow> nat \<times> httpUprobeWorker" where
  "open_link w = (next_link w, w\<lparr>open_links := insert (next_link w) (open_links w), next_link := next_link w + 1\<rparr>)"

fun attach_loop :: "worker_env \<Rightarrow> nat \<Rightarrow> string list \<Rightarrow> nat list \<Rightarrow> httpUprobeWorker \<Rightarrow> nat list option \<times> httpUprobeWorker" where
  "attach_loop env ex [] got w = (Some got, w)"
| "attach_loop env ex (target # targets) got w =
    (case attach_symbol env ex target of
       Attached \<Rightarrow> (case open_link w of (l, w') \<Rightarrow> attach_loop env ex targets (got @ [l]) w')
     | No_symbol \<Rightarrow> attach_loop env ex targets got w
     | Attach_failed \<Rightarrow> (None, closeLinks got (warnThrottled opErrors w)))"

definition record_target :: "file_classification_key \<Rightarrow> nat list \<Rightarrow> httpUprobeWorker \<Rightarrow> httpUprobeWorker" where
  "record_target key got w =
    w\<lparr>attachedTargets := (attachedTargets w)(mapped_file key \<mapsto> \<lparr>classificationKey = key, links = got, missingScanCount = 0\<rparr>)\<rparr>"

definition attachSymbolTargets :: "worker_env \<Rightarrow> file_classification_key \<Rightarrow> nat \<Rightarrow> string list \<Rightarrow> httpUprobeWorker \<Rightarrow> bool \<times> httpUprobeWorker" where
  "attachSymbolTargets env key ex targets w =
    (case attach_loop env ex targets [] w of
       (None, w') \<Rightarrow> (False, w')
     | (Some got, w') \<Rightarrow>
         if got \<noteq> [] then (True, cacheDiscoveryFile env key (record_target key got w'))
         else (True, cacheDiscoveryFile env key w'))"

definition attachGoNetHTTPTarget :: "worker_env \<Rightarrow> file_classification_key \<Rightarrow> nat \<Rightarrow> u64 \<Rightarrow> httpUprobeWorker \<Rightarrow> bool \<times> httpUprobeWorker" where
  "attachGoNetHTTPTarget env key ex fileOffset w =
    (if attach_offset env ex fileOffset
     then case open_link w of (l, w') \<Rightarrow> (True, cacheDiscoveryFile env key (record_target key [l] w'))
     else (False, warnThrottled opErrors w))"

text \<open>The file is open and is the announced one: attach by symbol, else by the Go function.\<close>

definition attach_file :: "worker_env \<Rightarrow> file_classification_key \<Rightarrow> nat \<Rightarrow> httpUprobeWorker \<Rightarrow> bool \<times> httpUprobeWorker" where
  "attach_file env key f w =
    (case definedSymbolTargets (elf_read env f) (symbolTargets w) of
       None \<Rightarrow> (False, warnThrottled opErrors w)
     | Some (selected, definitive) \<Rightarrow>
         if selected \<noteq> [] then
           if open_executable env f then attachSymbolTargets env key f selected w else (False, warnThrottled opErrors w)
         else if \<not> definitive then (False, w)
         else case resolveGoFunctionOffset (go_read env f) (goTarget_function w) of
           Go_failed \<Rightarrow> (False, warnThrottled opErrors w)
         | Go_unsupported \<Rightarrow> (True, cacheDiscoveryFile env key (warnThrottled opErrors w))
         | Go_absent \<Rightarrow> (True, cacheDiscoveryFile env key w)
         | Go_found offset \<Rightarrow>
             if open_executable env f then attachGoNetHTTPTarget env key f offset w else (False, warnThrottled opErrors w))"

text \<open>The body of \<open>classifyAndAttach\<close>, with the value of \<open>retainCacheEntry\<close> at its return.\<close>

definition classify :: "worker_env \<Rightarrow> httpUprobeAttachCandidate \<Rightarrow> httpUprobeWorker \<Rightarrow> bool \<times> httpUprobeWorker" where
  "classify env candidate w =
    (let key = cand_file candidate in
     case attachedTargets w (mapped_file key) of
       Some attached \<Rightarrow>
         let w1 = (if classificationKey attached \<noteq> key
                   then (release_entry env (classificationKey attached) w)
                     \<lparr>attachedTargets := (attachedTargets w)(mapped_file key \<mapsto> attached\<lparr>classificationKey := key\<rparr>)\<rparr>
                   else w)
         in (True, cacheDiscoveryFile env key w1)
     | None \<Rightarrow>
         if card (dom (attachedTargets w)) \<ge> maxAttachedUprobeTargets then (False, warnThrottled capReached w)
         else case openMappedFile env candidate w of
           (Inl e, w1) \<Rightarrow> (False, if processIsGone e then w1 else warn_error e w1)
         | (Inr f, w1) \<Rightarrow>
             (case classificationKeyFromFile env f of
                None \<Rightarrow> (False, warnThrottled opErrors w1)
              | Some actual \<Rightarrow>
                  if actual \<noteq> key then (False, warnThrottled identityMismatch w1) else attach_file env key f w1))"

definition classifyAndAttach :: "worker_env \<Rightarrow> httpUprobeAttachCandidate \<Rightarrow> httpUprobeWorker \<Rightarrow> httpUprobeWorker" where
  "classifyAndAttach env candidate w =
    (case classify env candidate w of
       (retainCacheEntry, w') \<Rightarrow> if retainCacheEntry then w' else release_entry env (cand_file candidate) w')"

subsection \<open>Reclaiming\<close>

fun walk_cgroups :: "bytes \<Rightarrow> u64 set \<Rightarrow> walk_entry list \<Rightarrow> bytes list \<times> bool" where
  "walk_cgroups root wanted [] = ([], True)"
| "walk_cgroups root wanted (Walk_error path e # entries) =
    (if path \<noteq> root \<and> e = Not_exist then walk_cgroups root wanted entries else ([], False))"
| "walk_cgroups root wanted (Walk_file path # entries) = walk_cgroups root wanted entries"
| "walk_cgroups root wanted (Walk_dir path (Inl e) # entries) =
    (if path \<noteq> root \<and> e = Not_exist then walk_cgroups root wanted entries else ([], False))"
| "walk_cgroups root wanted (Walk_dir path (Inr ino) # entries) =
    (case walk_cgroups root wanted entries of (paths, complete) \<Rightarrow> (if ino \<in> wanted then path # paths else paths, complete))"

definition resolveActiveCgroupPaths :: "worker_env \<Rightarrow> bytes \<Rightarrow> u64 list \<Rightarrow> bytes list \<times> bool" where
  "resolveActiveCgroupPaths env root activeCgroupIDs =
    (if activeCgroupIDs = [] then ([], True)
     else if root = [] then ([], False)
     else walk_cgroups root (set activeCgroupIDs) (cgroup_walk env))"

fun pid_lines :: "bytes list \<Rightarrow> s32 set \<Rightarrow> bool \<times> s32 set" where
  "pid_lines [] pids = (True, pids)"
| "pid_lines (line # lines) pids =
    (case ParseInt10 line of
       None \<Rightarrow> (False, snd (pid_lines lines pids))
     | Some pid \<Rightarrow> if pid \<le> 0 then (False, snd (pid_lines lines pids)) else pid_lines lines (insert (of_int pid) pids))"

definition collectCgroupPIDs :: "worker_env \<Rightarrow> bytes \<Rightarrow> s32 set \<times> httpUprobeWorker \<Rightarrow> bool \<times> s32 set \<times> httpUprobeWorker" where
  "collectCgroupPIDs env cgroupPath = (\<lambda>(pids, w).
    (case cgroup_procs env cgroupPath of
       Inl e \<Rightarrow> if e = Not_exist then (True, pids, w) else (False, pids, warn_error e w)
     | Inr (lines, read_ok) \<Rightarrow>
         (case pid_lines lines pids of
            (complete, pids') \<Rightarrow> if read_ok then (complete, pids', w) else (False, pids', warnThrottled opErrors w))))"

fun collect_pids :: "worker_env \<Rightarrow> bytes list \<Rightarrow> bool \<times> s32 set \<times> httpUprobeWorker \<Rightarrow> bool \<times> s32 set \<times> httpUprobeWorker" where
  "collect_pids env [] (complete, pids, w) = (complete, pids, w)"
| "collect_pids env (path # paths) (complete, pids, w) =
    (case collectCgroupPIDs env path (pids, w) of (ok, pids', w') \<Rightarrow> collect_pids env paths (complete \<and> ok, pids', w'))"

fun observe_mappings :: "worker_env \<Rightarrow> s32 list \<Rightarrow> bool \<times> mapped_file_identity set \<times> httpUprobeWorker
    \<Rightarrow> bool \<times> mapped_file_identity set \<times> httpUprobeWorker" where
  "observe_mappings env [] (complete, observed, w) = (complete, observed, w)"
| "observe_mappings env (pid # pids) (complete, observed, w) =
    (case scanProcessMappings env pid w of
       ((mappings, ok), w') \<Rightarrow> observe_mappings env pids (complete \<and> ok, observed \<union> mapping_file ` set mappings, w'))"

text \<open>The first half of \<open>reconcileTargets\<close>: what is mapped, and whether nothing was hidden.\<close>

definition observe :: "worker_env \<Rightarrow> u64 list \<Rightarrow> httpUprobeWorker \<Rightarrow> bool \<times> mapped_file_identity set \<times> httpUprobeWorker" where
  "observe env activeCgroupIDs w =
    (let (paths, complete) = resolveActiveCgroupPaths env (cgroupRootPath w) activeCgroupIDs;
         (complete1, pids, w1) = collect_pids env paths (complete, {}, w)
     in observe_mappings env (pid_order env pids) (complete1, {}, w1))"

text \<open>The second half, for one attached target.\<close>

definition reclaim_target :: "worker_env \<Rightarrow> mapped_file_identity set \<Rightarrow> bool \<Rightarrow> mapped_file_identity \<Rightarrow> httpUprobeWorker \<Rightarrow> httpUprobeWorker" where
  "reclaim_target env observed complete mappedID w =
    (case attachedTargets w mappedID of
       None \<Rightarrow> w
     | Some entry \<Rightarrow>
         if mappedID \<in> observed
         then w\<lparr>attachedTargets := (attachedTargets w)(mappedID \<mapsto> entry\<lparr>missingScanCount := 0\<rparr>)\<rparr>
         else if \<not> complete then w
         else let entry' = entry\<lparr>missingScanCount := missingScanCount entry + 1\<rparr>;
                  w1 = w\<lparr>attachedTargets := (attachedTargets w)(mappedID \<mapsto> entry')\<rparr>
           in if missingScanCount entry' \<ge> missingScanLimit
              then case deleteDiscoveryCacheEntry env (classificationKey entry') w1 of
                (ok, w2) \<Rightarrow>
                  if \<not> ok then warnThrottled opErrors w2
                  else (closeLinks (links entry') w2)\<lparr>attachedTargets := (attachedTargets w2)(mappedID := None)\<rparr>
              else w1)"

definition reconcileTargets :: "worker_env \<Rightarrow> u64 list \<Rightarrow> httpUprobeWorker \<Rightarrow> httpUprobeWorker" where
  "reconcileTargets env activeCgroupIDs w =
    (case observe env activeCgroupIDs w of
       (complete, observed, w') \<Rightarrow>
         fold (reclaim_target env observed complete) (target_order env (dom (attachedTargets w'))) w')"

subsection \<open>The worker loop\<close>

definition closeAll :: "worker_env \<Rightarrow> httpUprobeWorker \<Rightarrow> httpUprobeWorker" where
  "closeAll env w =
    fold (\<lambda>mappedID w. case attachedTargets w mappedID of None \<Rightarrow> w | Some entry \<Rightarrow> closeLinks (links entry) w)
      (target_order env (dom (attachedTargets w))) w"

text \<open>
  What may happen to the worker: the sample reader and the engine loop queue inputs, the programs
  change the discovery cache, and the worker goroutine takes one of its inputs.
\<close>

datatype worker_event =
    Queue_candidate httpUprobeAttachCandidate
  | Queue_reconciliation "u64 list"
  | Cache_changed "file_classification_key \<rightharpoonup> u8"
  | Take_request
  | Take_candidate

fun worker_step :: "worker_env \<Rightarrow> worker_event \<Rightarrow> httpUprobeWorker \<Rightarrow> httpUprobeWorker" where
  "worker_step env (Queue_candidate candidate) w = queueAttachCandidate env candidate w"
| "worker_step env (Queue_reconciliation ids) w = queueTargetReconciliation ids w"
| "worker_step env (Cache_changed cache) w = w\<lparr>discoveryCache := map_option (\<lambda>_. cache) (discoveryCache w)\<rparr>"
| "worker_step env Take_request w =
    (case reconcileRequests w of [] \<Rightarrow> w | ids # rest \<Rightarrow> reconcileTargets env ids (w\<lparr>reconcileRequests := rest\<rparr>))"
| "worker_step env Take_candidate w =
    (case attachCandidates w of [] \<Rightarrow> w | candidate # rest \<Rightarrow> classifyAndAttach env candidate (w\<lparr>attachCandidates := rest\<rparr>))"

fun worker_run :: "(worker_env \<times> worker_event) list \<Rightarrow> httpUprobeWorker \<Rightarrow> httpUprobeWorker" where
  "worker_run [] w = w"
| "worker_run ((env, event) # turns) w = worker_run turns (worker_step env event w)"

end
