(* ===== verification/Uprobe_Lifetime.thy ===== *)
theory Uprobe_Lifetime
  imports Uprobe_Worker
begin

text \<open>
  What the uprobe worker promises: it owns every open link through exactly one attached target, never
  holds more targets than its cap, detaches a target only after complete scans have missed it, keeps
  what a live process maps, and leaves an undecided file for the next mapping to announce again.
\<close>

subsection \<open>What the steps leave alone\<close>

lemma warnThrottled_frame [simp]:
  "attachedTargets (warnThrottled c w) = attachedTargets w" "open_links (warnThrottled c w) = open_links w"
  "next_link (warnThrottled c w) = next_link w" "discoveryCache (warnThrottled c w) = discoveryCache w"
  "attachCandidates (warnThrottled c w) = attachCandidates w" "reconcileRequests (warnThrottled c w) = reconcileRequests w"
  "cgroupRootPath (warnThrottled c w) = cgroupRootPath w" "symbolTargets (warnThrottled c w) = symbolTargets w"
  "goTarget_function (warnThrottled c w) = goTarget_function w"
  by (simp_all add: warnThrottled_def Let_def)

lemma closeLinks_frame [simp]:
  "attachedTargets (closeLinks ls w) = attachedTargets w" "open_links (closeLinks ls w) = open_links w - set ls"
  "next_link (closeLinks ls w) = next_link w" "discoveryCache (closeLinks ls w) = discoveryCache w"
  "attachCandidates (closeLinks ls w) = attachCandidates w" "reconcileRequests (closeLinks ls w) = reconcileRequests w"
  by (simp_all add: closeLinks_def)

lemma warn_error_frame [simp]:
  "attachedTargets (warn_error e w) = attachedTargets w" "open_links (warn_error e w) = open_links w"
  "next_link (warn_error e w) = next_link w" "discoveryCache (warn_error e w) = discoveryCache w"
  "attachCandidates (warn_error e w) = attachCandidates w" "reconcileRequests (warn_error e w) = reconcileRequests w"
  "cgroupRootPath (warn_error e w) = cgroupRootPath w" "symbolTargets (warn_error e w) = symbolTargets w"
  "goTarget_function (warn_error e w) = goTarget_function w"
  by (simp_all add: warn_error_def)

text \<open>Everything but the discovery cache and the warnings.\<close>

definition core :: "httpUprobeWorker \<Rightarrow> (mapped_file_identity \<rightharpoonup> attachedUprobeTarget) \<times> nat set \<times> nat \<times>
    httpUprobeAttachCandidate list \<times> u64 list list" where
  "core w = (attachedTargets w, open_links w, next_link w, attachCandidates w, reconcileRequests w)"

lemma core_warn [simp]: "core (warnThrottled c w) = core w" "core (warn_error e w) = core w"
  by (simp_all add: core_def)

lemma core_delete [simp]: "core (snd (deleteDiscoveryCacheEntry env key w)) = core w"
  by (auto simp: deleteDiscoveryCacheEntry_def core_def split: option.split)

lemma delete_keeps: "deleteDiscoveryCacheEntry env key w = (ok, w') \<Longrightarrow> core w' = core w"
  using core_delete [of env key w] by (simp del: core_delete)

lemma core_cache [simp]: "core (cacheDiscoveryFile env key w) = core w"
  by (auto simp: cacheDiscoveryFile_def core_def split: option.split)

lemma core_release [simp]: "core (release_entry env key w) = core w"
  by (auto simp: release_entry_def dest: delete_keeps split: prod.split)

text \<open>Scanning and opening change the warnings at most.\<close>

definition unwarned :: "httpUprobeWorker \<Rightarrow> httpUprobeWorker" where
  "unwarned w = w\<lparr>warn_counts := (\<lambda>_. 0), warn_log := []\<rparr>"

lemma unwarned_warn [simp]: "unwarned (warnThrottled c w) = unwarned w" "unwarned (warn_error e w) = unwarned w"
  by (simp_all add: unwarned_def warn_error_def warnThrottled_def Let_def)

lemma unwarned_eq:
  assumes "unwarned w' = unwarned w"
  shows "core w' = core w" "discoveryCache w' = discoveryCache w" "attachedTargets w' = attachedTargets w"
    "open_links w' = open_links w" "symbolTargets w' = symbolTargets w" "goTarget_function w' = goTarget_function w"
  using arg_cong [OF assms, of core] arg_cong [OF assms, of discoveryCache] arg_cong [OF assms, of symbolTargets]
    arg_cong [OF assms, of goTarget_function] by (simp_all add: unwarned_def core_def)

lemma scan_keeps: "scanProcessMappings env pid w = (r, w') \<Longrightarrow> unwarned w' = unwarned w"
  by (auto simp: scanProcessMappings_def split: sum.splits prod.splits if_splits)

lemma open_keeps: "openMappedFile env candidate w = (r, w') \<Longrightarrow> unwarned w' = unwarned w"
  by (auto simp: openMappedFile_def scan_keeps split: sum.splits prod.splits option.splits if_splits)

lemma collectCgroupPIDs_keeps: "collectCgroupPIDs env path (pids, w) = (ok, pids', w') \<Longrightarrow> unwarned w' = unwarned w"
  by (auto simp: collectCgroupPIDs_def split: sum.splits prod.splits if_splits)

lemma collect_pids_keeps: "collect_pids env paths (c, pids, w) = (c', pids', w') \<Longrightarrow> unwarned w' = unwarned w"
proof (induction paths arbitrary: c pids w)
  case (Cons p ps)
  then show ?case by (fastforce dest: collectCgroupPIDs_keeps split: prod.splits)
qed simp

lemma observe_mappings_keeps: "observe_mappings env ps (c, obs, w) = (c', obs', w') \<Longrightarrow> unwarned w' = unwarned w"
proof (induction ps arbitrary: c obs w)
  case (Cons p ps)
  then show ?case by (fastforce dest: scan_keeps split: prod.splits)
qed simp

lemma observe_keeps: "observe env ids w = (c, obs, w') \<Longrightarrow> unwarned w' = unwarned w"
  by (auto simp: observe_def Let_def dest!: collect_pids_keeps observe_mappings_keeps split: prod.splits)

subsection \<open>Targets own their links\<close>

definition targets_ok :: "(mapped_file_identity \<rightharpoonup> attachedUprobeTarget) \<Rightarrow> nat set \<Rightarrow> nat \<Rightarrow> bool" where
  "targets_ok A L n \<longleftrightarrow>
     (\<forall>k t. A k = Some t \<longrightarrow> mapped_file (classificationKey t) = k \<and> links t \<noteq> []) \<and>
     L = (\<Union>t \<in> ran A. set (links t)) \<and> (\<forall>l \<in> L. l < n) \<and>
     (\<forall>k t k' t'. A k = Some t \<longrightarrow> A k' = Some t' \<longrightarrow> k \<noteq> k' \<longrightarrow> set (links t) \<inter> set (links t') = {})"

lemma targets_okI:
  assumes "\<And>k t. A k = Some t \<Longrightarrow> mapped_file (classificationKey t) = k \<and> links t \<noteq> []"
    and "L = (\<Union>t \<in> ran A. set (links t))" "\<And>l. l \<in> L \<Longrightarrow> l < n"
    and "\<And>k t k' t'. A k = Some t \<Longrightarrow> A k' = Some t' \<Longrightarrow> k \<noteq> k' \<Longrightarrow> set (links t) \<inter> set (links t') = {}"
  shows "targets_ok A L n"
  unfolding targets_ok_def using assms by (intro conjI allI impI ballI) simp_all

lemma targets_okD:
  assumes "targets_ok A L n"
  shows "A k = Some t \<Longrightarrow> mapped_file (classificationKey t) = k" "A k = Some t \<Longrightarrow> links t \<noteq> []"
    "L = (\<Union>t \<in> ran A. set (links t))" "l \<in> L \<Longrightarrow> l < n" "A k = Some t \<Longrightarrow> set (links t) \<subseteq> L"
    "A k = Some t \<Longrightarrow> A k' = Some t' \<Longrightarrow> k \<noteq> k' \<Longrightarrow> set (links t) \<inter> set (links t') = {}"
proof -
  note parts = assms [unfolded targets_ok_def]
  show "A k = Some t \<Longrightarrow> mapped_file (classificationKey t) = k" "A k = Some t \<Longrightarrow> links t \<noteq> []"
    "L = (\<Union>t \<in> ran A. set (links t))" "l \<in> L \<Longrightarrow> l < n"
    "A k = Some t \<Longrightarrow> A k' = Some t' \<Longrightarrow> k \<noteq> k' \<Longrightarrow> set (links t) \<inter> set (links t') = {}"
    using parts by simp_all
  show "A k = Some t \<Longrightarrow> set (links t) \<subseteq> L"
    using parts by (auto simp: ran_def)
qed

lemma targets_ok_empty: "targets_ok Map.empty {} n"
  by (rule targets_okI) simp_all

lemma targets_ok_mono: "targets_ok A L n \<Longrightarrow> n \<le> n' \<Longrightarrow> targets_ok A L n'"
  by (rule targets_okI) (blast dest: targets_okD less_le_trans)+

lemma ran_insert: "ran (A(k \<mapsto> t)) = insert t (ran (A(k := None)))"
  by (auto simp: ran_def)

lemma ran_split: "A k = Some t \<Longrightarrow> ran A = insert t (ran (A(k := None)))"
  using ran_insert [of A k t] by (simp add: fun_upd_idem)

lemma targets_ok_add:
  assumes ok: "targets_ok A L n" and new: "A (mapped_file key) = None" "got \<noteq> []" "set got \<subseteq> {n..<n'}"
  shows "targets_ok (A(mapped_file key \<mapsto> \<lparr>classificationKey = key, links = got, missingScanCount = 0\<rparr>)) (L \<union> set got) n'"
proof (rule targets_okI)
  let ?t = "\<lparr>classificationKey = key, links = got, missingScanCount = 0\<rparr>" and ?k = "mapped_file key"
  have fresh: "x \<notin> set got" if "A k = Some t" "x \<in> set (links t)" for k t x
    using targets_okD(4) [OF ok, of x] targets_okD(5) [OF ok that(1)] new(3) that(2) by fastforce
  fix k t k' t'
  assume at: "(A(?k \<mapsto> ?t)) k = Some t"
  then show "mapped_file (classificationKey t) = k \<and> links t \<noteq> []"
    using new(2) targets_okD(1,2) [OF ok] by (auto split: if_splits)
  assume "(A(?k \<mapsto> ?t)) k' = Some t'" "k \<noteq> k'"
  with at show "set (links t) \<inter> set (links t') = {}"
    using targets_okD(6) [OF ok] by (auto dest: fresh split: if_splits)
next
  show "L \<union> set got = (\<Union>t \<in> ran (A(mapped_file key \<mapsto> \<lparr>classificationKey = key, links = got, missingScanCount = 0\<rparr>)). set (links t))"
    using targets_okD(3) [OF ok] by (simp add: ran_insert fun_upd_idem [of A, OF new(1)] Un_commute)
next
  fix l
  assume "l \<in> L \<union> set got"
  moreover have "n < n'" using new(2,3) by (cases got) auto
  ultimately show "l < n'" using targets_okD(4) [OF ok] new(3) by fastforce
qed

lemma targets_ok_update:
  assumes ok: "targets_ok A L n" and at: "A k = Some t" and same: "links t' = links t" "mapped_file (classificationKey t') = k"
  shows "targets_ok (A(k \<mapsto> t')) L n"
proof (rule targets_okI)
  fix k1 t1 k2 t2
  assume 1: "(A(k \<mapsto> t')) k1 = Some t1"
  then show "mapped_file (classificationKey t1) = k1 \<and> links t1 \<noteq> []"
    using targets_okD(1,2) [OF ok] at same by (auto split: if_splits)
  assume "(A(k \<mapsto> t')) k2 = Some t2" "k1 \<noteq> k2"
  with 1 show "set (links t1) \<inter> set (links t2) = {}"
    using targets_okD(6) [OF ok] at same(1) by (auto split: if_splits)
qed (use targets_okD(3,4) [OF ok] same(1) in \<open>simp_all add: ran_insert ran_split [of A, OF at]\<close>)

lemma targets_ok_remove:
  assumes ok: "targets_ok A L n" and at: "A k = Some t"
  shows "targets_ok (A(k := None)) (L - set (links t)) n"
proof (rule targets_okI)
  have "set (links t) \<inter> set (links u) = {}" if "u \<in> ran (A(k := None))" for u
    using targets_okD(6) [OF ok at] that by (auto simp: ran_def split: if_splits)
  then show "L - set (links t) = (\<Union>u \<in> ran (A(k := None)). set (links u))"
    using targets_okD(3) [OF ok] by (auto simp: ran_split [of A, OF at])
qed (use targets_okD(1,2,4,6) [OF ok] in \<open>auto split: if_splits\<close>)

definition worker_inv :: "httpUprobeWorker \<Rightarrow> bool" where
  "worker_inv w \<longleftrightarrow>
     targets_ok (attachedTargets w) (open_links w) (next_link w) \<and> finite (dom (attachedTargets w)) \<and>
     card (dom (attachedTargets w)) \<le> maxAttachedUprobeTargets \<and>
     length (attachCandidates w) \<le> attachCandidateQueueSize \<and> length (reconcileRequests w) \<le> 1"

lemma worker_inv_core: "core w' = core w \<Longrightarrow> worker_inv w' \<longleftrightarrow> worker_inv w"
  by (simp add: core_def worker_inv_def)

lemma worker_inv_quiet [simp]:
  "worker_inv (warnThrottled c w) \<longleftrightarrow> worker_inv w" "worker_inv (warn_error e w) \<longleftrightarrow> worker_inv w"
  "worker_inv (cacheDiscoveryFile env key w) \<longleftrightarrow> worker_inv w" "worker_inv (release_entry env key w) \<longleftrightarrow> worker_inv w"
  "worker_inv (snd (deleteDiscoveryCacheEntry env key w)) \<longleftrightarrow> worker_inv w"
  by (rule worker_inv_core, simp)+

lemma worker_inv_new: "worker_inv (newHTTPUprobeWorker targets function root cache)"
  by (simp add: worker_inv_def newHTTPUprobeWorker_def targets_ok_empty)

lemma attach_loop_links:
  assumes "attach_loop env ex targets got w = (r, w')" "set got = {n..<next_link w}" "open_links w = L \<union> set got"
    and "\<forall>l \<in> L. l < n" "n \<le> next_link w"
  shows "attachedTargets w' = attachedTargets w \<and> attachCandidates w' = attachCandidates w \<and>
    reconcileRequests w' = reconcileRequests w \<and> discoveryCache w' = discoveryCache w \<and> n \<le> next_link w' \<and>
    (case r of None \<Rightarrow> open_links w' = L | Some got' \<Rightarrow> set got' = {n..<next_link w'} \<and> open_links w' = L \<union> set got')"
  using assms
proof (induction targets arbitrary: got w)
  case Nil
  then show ?case by auto
next
  case (Cons target targets)
  show ?case
  proof (cases "attach_symbol env ex target")
    case Attached
    let ?w = "snd (open_link w)"
    have "attach_loop env ex targets (got @ [next_link w]) ?w = (r, w')"
      using Cons.prems(1) Attached by (simp add: open_link_def)
    from Cons.IH [OF this] Cons.prems(2-5) show ?thesis
      by (simp add: open_link_def atLeastLessThanSuc insert_commute)
  next
    case No_symbol
    then show ?thesis using Cons.IH [of got w] Cons.prems by simp
  next
    case Attach_failed
    then have r: "r = None" "w' = closeLinks got (warnThrottled opErrors w)" using Cons.prems(1) by simp_all
    moreover have "L \<inter> set got = {}" using Cons.prems(2,4) by fastforce
    ultimately show ?thesis using Cons.prems(3,5) by auto
  qed
qed

text \<open>The loop on a worker that satisfies the invariant.\<close>

lemma attach_loop_fresh:
  assumes "worker_inv w" "attach_loop env ex targets [] w = (r, w')"
  shows "attachedTargets w' = attachedTargets w \<and> attachCandidates w' = attachCandidates w \<and>
    reconcileRequests w' = reconcileRequests w \<and> discoveryCache w' = discoveryCache w \<and> next_link w \<le> next_link w' \<and>
    (case r of None \<Rightarrow> open_links w' = open_links w
     | Some got \<Rightarrow> set got = {next_link w..<next_link w'} \<and> open_links w' = open_links w \<union> set got)"
proof -
  have "\<forall>l \<in> open_links w. l < next_link w" using assms(1) by (simp add: worker_inv_def targets_ok_def)
  then show ?thesis using attach_loop_links [OF assms(2), of "next_link w" "open_links w"] by simp
qed

lemma record_target_inv:
  assumes "worker_inv w" "attachedTargets w (mapped_file key) = None"
    and "card (dom (attachedTargets w)) < maxAttachedUprobeTargets"
    and "got \<noteq> []" "set got = {next_link w..<next_link w'}" "open_links w' = open_links w \<union> set got"
    and "attachedTargets w' = attachedTargets w" "attachCandidates w' = attachCandidates w" "reconcileRequests w' = reconcileRequests w"
  shows "worker_inv (record_target key got w')"
proof -
  have "targets_ok (attachedTargets (record_target key got w')) (open_links w') (next_link w')"
    using targets_ok_add [of "attachedTargets w" "open_links w" "next_link w" key got "next_link w'"] assms
    by (simp add: worker_inv_def record_target_def)
  then show ?thesis
    using assms by (auto simp: worker_inv_def record_target_def card_insert_if)
qed

lemma worker_inv_links:
  assumes "worker_inv w" "attachedTargets w' = attachedTargets w" "open_links w' = open_links w" "next_link w \<le> next_link w'"
    and "attachCandidates w' = attachCandidates w" "reconcileRequests w' = reconcileRequests w"
  shows "worker_inv w'"
  using assms targets_ok_mono [of "attachedTargets w" "open_links w" "next_link w" "next_link w'"] by (simp add: worker_inv_def)

lemma attach_file_inv:
  assumes "worker_inv w" "attachedTargets w (mapped_file key) = None"
    and "card (dom (attachedTargets w)) < maxAttachedUprobeTargets"
  shows "worker_inv (snd (attach_file env key f w))"
proof -
  have symbols: "worker_inv (snd (attachSymbolTargets env key f targets w))" for targets
  proof (cases "attach_loop env f targets [] w")
    case (Pair r w')
    note facts = attach_loop_fresh [OF assms(1) Pair]
    show ?thesis
    proof (cases r)
      case None
      then have "worker_inv w'" using facts by (intro worker_inv_links [OF assms(1), of w']) auto
      then show ?thesis using Pair None by (simp add: attachSymbolTargets_def)
    next
      case (Some got)
      show ?thesis
      proof (cases "got = []")
        case True
        then have "worker_inv w'" using facts Some by (intro worker_inv_links [OF assms(1), of w']) auto
        then show ?thesis using Pair Some True by (simp add: attachSymbolTargets_def)
      next
        case False
        then have "worker_inv (record_target key got w')" using record_target_inv [OF assms, of got w'] facts Some by simp
        then show ?thesis using Pair Some False by (simp add: attachSymbolTargets_def)
      qed
    qed
  qed
  have "worker_inv (record_target key [next_link w] (snd (open_link w)))"
    by (rule record_target_inv [OF assms]) (auto simp: open_link_def)
  then have "worker_inv (snd (attachGoNetHTTPTarget env key f offset w))" for offset
    using assms(1) by (simp add: attachGoNetHTTPTarget_def open_link_def)
  with symbols assms(1) show ?thesis
    by (simp add: attach_file_def split: option.split prod.split go_resolution.split)
qed

lemma classify_inv: "worker_inv w \<Longrightarrow> worker_inv (snd (classify env candidate w))"
proof (cases "attachedTargets w (mapped_file (cand_file candidate))")
  case (Some t)
  let ?key = "cand_file candidate"
  assume inv: "worker_inv w"
  have "core (release_entry env k w) = core w" for k by simp
  then have "worker_inv ((release_entry env k w)
      \<lparr>attachedTargets := (attachedTargets w)(mapped_file ?key \<mapsto> t\<lparr>classificationKey := ?key\<rparr>)\<rparr>)" for k
    using inv Some targets_ok_update [of "attachedTargets w", OF _ Some, of "open_links w" "next_link w" "t\<lparr>classificationKey := ?key\<rparr>"]
    by (auto simp: worker_inv_def core_def insert_absorb domI)
  then show ?thesis using inv Some by (simp add: classify_def Let_def)
next
  case None
  assume inv: "worker_inv w"
  have "worker_inv w1" "attachedTargets w1 = attachedTargets w" if "openMappedFile env candidate w = (r, w1)" for r w1
    using unwarned_eq [OF open_keeps [OF that]] inv worker_inv_core [of w1 w] by simp_all
  then show ?thesis
    using None inv by (auto simp: classify_def Let_def attach_file_inv split: prod.split sum.split option.split)
qed

lemma classifyAndAttach_inv: "worker_inv w \<Longrightarrow> worker_inv (classifyAndAttach env candidate w)"
  using classify_inv [of w env candidate] by (auto simp: classifyAndAttach_def split: prod.split)

lemma reclaim_target_inv:
  assumes "worker_inv w"
  shows "worker_inv (reclaim_target env observed complete k w)"
proof (cases "attachedTargets w k")
  case None
  then show ?thesis using assms by (simp add: reclaim_target_def)
next
  case (Some t)
  define counted where "counted n = w\<lparr>attachedTargets := (attachedTargets w)(k \<mapsto> t\<lparr>missingScanCount := n\<rparr>)\<rparr>" for n
  have k: "mapped_file (classificationKey t) = k" using assms Some by (simp add: worker_inv_def targets_ok_def)
  have inv: "worker_inv (counted n)" for n
    using assms Some k targets_ok_update [of "attachedTargets w", OF _ Some, of "open_links w" "next_link w" "t\<lparr>missingScanCount := n\<rparr>"]
    by (auto simp: worker_inv_def counted_def insert_absorb domI)
  have gone: "worker_inv ((closeLinks (links t) w2)\<lparr>attachedTargets := (attachedTargets w2)(k := None)\<rparr>)"
    if "core w2 = core (counted n)" for w2 n
    using that assms targets_ok_remove [of "attachedTargets w", OF _ Some, of "open_links w" "next_link w"] card_Diff1_le [of "dom (attachedTargets w)" k]
    by (auto simp: worker_inv_def core_def counted_def)
  have deleted: "core w2 = core (counted n) \<and> worker_inv w2"
    if "deleteDiscoveryCacheEntry env key (counted n) = (ok, w2)" for key n ok w2
    using delete_keeps [OF that] worker_inv_core [of w2 "counted n"] inv by simp
  show ?thesis
    using Some assms inv
    by (auto simp: reclaim_target_def Let_def counted_def [symmetric] dest!: deleted intro: gone split: prod.split)
qed

lemma fold_keeps: "(\<And>x w. P w \<Longrightarrow> P (f x w)) \<Longrightarrow> P w \<Longrightarrow> P (fold f xs w)"
  by (induction xs arbitrary: w) simp_all

lemma reconcileTargets_inv: "worker_inv w \<Longrightarrow> worker_inv (reconcileTargets env ids w)"
proof (cases "observe env ids w")
  case (fields complete observed w')
  assume "worker_inv w"
  then have "worker_inv w'" using worker_inv_core [OF unwarned_eq(1) [OF observe_keeps [OF fields]]] by simp
  then show ?thesis using fields by (simp add: reconcileTargets_def fold_keeps reclaim_target_inv)
qed

lemma worker_step_inv:
  assumes "worker_inv w"
  shows "worker_inv (worker_step env event w)"
proof (cases event)
  case (Queue_candidate c)
  then show ?thesis
    using assms by (auto simp: queueAttachCandidate_def) (simp add: worker_inv_def)
next
  case Take_request
  have "worker_inv (w\<lparr>reconcileRequests := rest\<rparr>)" if "reconcileRequests w = ids # rest" for ids rest
    using assms that by (simp add: worker_inv_def)
  then show ?thesis using assms Take_request by (auto intro: reconcileTargets_inv split: list.split)
next
  case Take_candidate
  have "worker_inv (w\<lparr>attachCandidates := rest\<rparr>)" if "attachCandidates w = c # rest" for c rest
    using assms that by (simp add: worker_inv_def)
  then show ?thesis using assms Take_candidate by (auto intro: classifyAndAttach_inv split: list.split)
qed (use assms in \<open>auto simp: queueTargetReconciliation_def worker_inv_def\<close>)

lemma worker_run_inv: "worker_inv w \<Longrightarrow> worker_inv (worker_run turns w)"
  by (induction turns arbitrary: w) (auto simp: worker_step_inv)

lemma closeAll_links:
  "open_links (fold (\<lambda>k w. case attachedTargets w k of None \<Rightarrow> w | Some entry \<Rightarrow> closeLinks (links entry) w) ks w) =
    open_links w - (\<Union>k \<in> set ks. case attachedTargets w k of None \<Rightarrow> {} | Some t \<Rightarrow> set (links t))"
  by (induction ks arbitrary: w) (auto split: option.split)

text \<open>
  C34: Every open uprobe is accounted for.  However candidates, requests and cache changes arrive, and
  whatever opening, reading and attaching answer, the worker has at most 4096 targets and 4096 queued
  candidates, every open link belongs to exactly one target, every target is filed under the file it
  was classified as and has open links only, a failed attach leaves no link behind, and shutting down
  closes everything.
\<close>

theorem uprobe_links_owned:
  assumes "w = worker_run turns (newHTTPUprobeWorker targets function root cache)"
    and "set (target_order env (dom (attachedTargets w))) = dom (attachedTargets w)"
  shows "card (dom (attachedTargets w)) \<le> 4096 \<and> length (attachCandidates w) \<le> 4096 \<and>
    (\<forall>l \<in> open_links w. \<exists>!k. \<exists>t. attachedTargets w k = Some t \<and> l \<in> set (links t)) \<and>
    (\<forall>k t. attachedTargets w k = Some t \<longrightarrow>
       mapped_file (classificationKey t) = k \<and> links t \<noteq> [] \<and> set (links t) \<subseteq> open_links w) \<and>
    open_links (closeAll env w) = {}"
proof -
  have inv: "worker_inv w" using worker_run_inv [OF worker_inv_new] assms(1) by simp
  then have ok: "targets_ok (attachedTargets w) (open_links w) (next_link w)" by (simp add: worker_inv_def)
  have owner: "\<exists>!k. \<exists>t. attachedTargets w k = Some t \<and> l \<in> set (links t)" if "l \<in> open_links w" for l
    using that targets_okD(3,6) [OF ok] by (auto simp: ran_def) (metis IntI empty_iff)
  have "open_links (closeAll env w) = {}"
    using targets_okD(3) [OF ok] assms(2) by (auto simp: closeAll_def closeAll_links ran_def split: option.split)
  then show ?thesis
    using inv owner targets_okD(1,2,5) [OF ok]
    by (simp add: worker_inv_def maxAttachedUprobeTargets_def attachCandidateQueueSize_def)
qed

subsection \<open>What a scan sees\<close>

lemma walk_finds:
  assumes "Walk_dir path (Inr ino) \<in> set entries" "ino \<in> wanted"
  shows "path \<in> set (fst (walk_cgroups root wanted entries)) \<or> \<not> snd (walk_cgroups root wanted entries)"
  using assms by (induction root wanted entries rule: walk_cgroups.induct) (auto split: prod.splits)

lemma resolve_finds:
  assumes "Walk_dir path (Inr cg) \<in> set (cgroup_walk env)" "cg \<in> set ids"
  shows "path \<in> set (fst (resolveActiveCgroupPaths env root ids)) \<or> \<not> snd (resolveActiveCgroupPaths env root ids)"
  using walk_finds [OF assms(1), of "set ids"] assms(2) by (auto simp: resolveActiveCgroupPaths_def)

lemma pid_lines_mono: "pids \<subseteq> snd (pid_lines lines pids)"
  by (induction lines pids rule: pid_lines.induct) (auto split: option.split)

lemma pid_lines_finds:
  assumes "line \<in> set lines" "ParseInt10 line = Some pid" "0 < pid"
  shows "of_int pid \<in> snd (pid_lines lines pids)"
  using assms
proof (induction lines pids rule: pid_lines.induct)
  case (2 l lines pids)
  show ?case
  proof (cases "l = line")
    case True
    then show ?thesis using assms(2,3) pid_lines_mono [of "insert (of_int pid) pids" lines] by auto
  next
    case False
    then show ?thesis using 2 by (auto split: option.split)
  qed
qed simp

lemma finite_pid_lines: "finite pids \<Longrightarrow> finite (snd (pid_lines lines pids))"
  by (induction lines pids rule: pid_lines.induct) (auto split: option.split)

lemma collectCgroupPIDs_pids:
  assumes "collectCgroupPIDs env path (pids, w) = (ok, pids', w')"
  shows "pids \<subseteq> pids'" "finite pids \<Longrightarrow> finite pids'"
    "cgroup_procs env path = Inr (lines, read_ok) \<Longrightarrow> pids' = snd (pid_lines lines pids)"
  using assms pid_lines_mono [of pids] finite_pid_lines [of pids]
  by (auto simp: collectCgroupPIDs_def split: sum.splits prod.splits if_splits) (metis snd_conv subsetD finite_subset)+

lemma collect_pids_facts:
  assumes "collect_pids env paths (c, pids, w) = (c', pids', w')"
  shows "pids \<subseteq> pids'" "finite pids \<Longrightarrow> finite pids'" "\<not> c \<Longrightarrow> \<not> c'"
proof -
  have "pids \<subseteq> pids' \<and> (finite pids \<longrightarrow> finite pids') \<and> (\<not> c \<longrightarrow> \<not> c')"
    using assms
  proof (induction paths arbitrary: c pids w)
    case (Cons p ps)
    obtain ok pids1 w1 where first: "collectCgroupPIDs env p (pids, w) = (ok, pids1, w1)" by (rule prod_cases3)
    from Cons.IH [of "c \<and> ok" pids1 w1] Cons.prems first collectCgroupPIDs_pids(1,2) [OF first]
    show ?case by auto
  qed simp
  then show "pids \<subseteq> pids'" "finite pids \<Longrightarrow> finite pids'" "\<not> c \<Longrightarrow> \<not> c'" by auto
qed

lemma collect_pids_finds:
  assumes "collect_pids env paths (c, pids, w) = (c', pids', w')" "path \<in> set paths"
    and "cgroup_procs env path = Inr (lines, read_ok)" "line \<in> set lines" "ParseInt10 line = Some pid" "0 < pid"
  shows "of_int pid \<in> pids'"
  using assms(1,2)
proof (induction paths arbitrary: c pids w)
  case (Cons p ps)
  obtain ok pids1 w1 where first: "collectCgroupPIDs env p (pids, w) = (ok, pids1, w1)" by (rule prod_cases3)
  then have rest: "collect_pids env ps (c \<and> ok, pids1, w1) = (c', pids', w')" using Cons.prems(1) by simp
  show ?case
  proof (cases "p = path")
    case True
    then have "pids1 = snd (pid_lines lines pids)" using collectCgroupPIDs_pids(3) [OF first] assms(3) by simp
    then show ?thesis using pid_lines_finds [OF assms(4-6)] collect_pids_facts(1) [OF rest] by blast
  next
    case False
    then show ?thesis using Cons.IH [OF rest] Cons.prems(2) by simp
  qed
qed simp

lemma collect_mappings_files:
  "mapping_file ` set (collect_mappings seen lines) \<union> seen =
    {mapping_file m | m. \<exists>line \<in> set lines. parseExecMapping line = Some m} \<union> seen"
  by (induction seen lines rule: collect_mappings.induct) (auto split: option.splits if_splits)

lemma observe_mappings_facts:
  assumes "observe_mappings env pids (c, obs, w) = (c', obs', w')"
  shows "obs \<subseteq> obs' \<and> (\<not> c \<longrightarrow> \<not> c')"
  using assms
proof (induction pids arbitrary: c obs w)
  case (Cons p ps)
  obtain ms ok w1 where first: "scanProcessMappings env p w = ((ms, ok), w1)" by (metis prod.exhaust)
  from Cons.IH [of "c \<and> ok" "obs \<union> mapping_file ` set ms" w1] Cons.prems first show ?case by auto
qed simp

lemma observe_mappings_finds:
  assumes "observe_mappings env pids (c, obs, w) = (c', obs', w')" "pid \<in> set pids"
    and "proc_maps env pid = Inr (lines, read_ok)" "line \<in> set lines" "parseExecMapping line = Some m"
  shows "mapping_file m \<in> obs'"
  using assms(1,2)
proof (induction pids arbitrary: c obs w)
  case (Cons p ps)
  obtain ms ok w1 where first: "scanProcessMappings env p w = ((ms, ok), w1)" by (metis prod.exhaust)
  then have rest: "observe_mappings env ps (c \<and> ok, obs \<union> mapping_file ` set ms, w1) = (c', obs', w')"
    using Cons.prems(1) by simp
  show ?case
  proof (cases "p = pid")
    case True
    then have "ms = collect_mappings {} lines" using first assms(3) by (simp add: scanProcessMappings_def)
    then have "mapping_file m \<in> mapping_file ` set ms"
      using collect_mappings_files [of "{}" lines] assms(4,5) by auto
    then show ?thesis using observe_mappings_facts [OF rest] by blast
  next
    case False
    then show ?thesis using Cons.IH [OF rest] Cons.prems(2) by simp
  qed
qed simp

text \<open>A file mapped by a process of an active cgroup is observed, or the scan knows it is incomplete.\<close>

lemma observe_finds:
  assumes "observe env ids w = (complete, observed, w')" "\<And>P. finite P \<Longrightarrow> set (pid_order env P) = P"
    and "Walk_dir path (Inr cg) \<in> set (cgroup_walk env)" "cg \<in> set ids"
    and "cgroup_procs env path = Inr (pid_text, ok1)" "pid_line \<in> set pid_text" "ParseInt10 pid_line = Some pid" "0 < pid"
    and "proc_maps env (of_int pid) = Inr (maps_text, ok2)" "maps_line \<in> set maps_text"
    and "parseExecMapping maps_line = Some m"
  shows "mapping_file m \<in> observed \<or> \<not> complete"
proof -
  obtain paths c0 where resolved: "resolveActiveCgroupPaths env (cgroupRootPath w) ids = (paths, c0)" by (rule prod.exhaust)
  obtain c1 pids w1 where collected: "collect_pids env paths (c0, {}, w) = (c1, pids, w1)" by (rule prod_cases3)
  have seen: "observe_mappings env (pid_order env pids) (c1, {}, w1) = (complete, observed, w')"
    using assms(1) resolved collected by (simp add: observe_def)
  show ?thesis
  proof (cases c0)
    case True
    then have "path \<in> set paths" using resolve_finds [OF assms(3,4), of "cgroupRootPath w"] resolved by simp
    then have "of_int pid \<in> pids" by (rule collect_pids_finds [OF collected _ assms(5-8)])
    then have "of_int pid \<in> set (pid_order env pids)" using assms(2) collect_pids_facts(2) [OF collected] by simp
    then show ?thesis using observe_mappings_finds [OF seen _ assms(9-11)] by simp
  next
    case False
    then show ?thesis using collect_pids_facts(3) [OF collected] observe_mappings_facts [OF seen] by simp
  qed
qed

subsection \<open>What a scan detaches\<close>

lemma restrict_all: "map_option (\<lambda>m. m |` UNIV) c = c"
  by (cases c) (simp_all add: restrict_map_def)

text \<open>The fate of one target; \<open>deletable\<close> says whether its discovery-cache entry can be deleted.\<close>

definition scan_outcome :: "(file_classification_key \<Rightarrow> bool) \<Rightarrow> mapped_file_identity set \<Rightarrow> bool \<Rightarrow> mapped_file_identity
    \<Rightarrow> attachedUprobeTarget \<Rightarrow> attachedUprobeTarget option" where
  "scan_outcome deletable observed complete k t =
    (if k \<in> observed then Some (t\<lparr>missingScanCount := 0\<rparr>)
     else if \<not> complete then Some t
     else if 2 \<le> missingScanCount t + 1 \<and> deletable (classificationKey t) then None
     else Some (t\<lparr>missingScanCount := missingScanCount t + 1\<rparr>))"

definition detached_targets :: "(mapped_file_identity \<Rightarrow> attachedUprobeTarget \<Rightarrow> attachedUprobeTarget option)
    \<Rightarrow> mapped_file_identity set \<Rightarrow> (mapped_file_identity \<rightharpoonup> attachedUprobeTarget) \<Rightarrow> attachedUprobeTarget set" where
  "detached_targets fate ks A = {t. \<exists>k \<in> ks. A k = Some t \<and> fate k t = None}"

lemma reclaim_target_effect:
  assumes "fate = scan_outcome (\<lambda>key. discoveryCache w = None \<or> cache_delete_ok env key) observed complete"
  shows "attachedTargets (reclaim_target env observed complete k w) = (attachedTargets w)(k := Option.bind (attachedTargets w k) (fate k))"
    "discoveryCache (reclaim_target env observed complete k w) =
      map_option (\<lambda>m. m |` (- classificationKey ` detached_targets fate {k} (attachedTargets w))) (discoveryCache w)"
    "open_links (reclaim_target env observed complete k w) =
      open_links w - (\<Union>t \<in> detached_targets fate {k} (attachedTargets w). set (links t))"
proof -
  let ?w = "reclaim_target env observed complete k w" and ?A = "attachedTargets w"
  have "attachedTargets ?w = ?A(k := Option.bind (?A k) (fate k)) \<and>
    discoveryCache ?w = map_option (\<lambda>m. m |` (- classificationKey ` detached_targets fate {k} ?A)) (discoveryCache w) \<and>
    open_links ?w = open_links w - (\<Union>t \<in> detached_targets fate {k} ?A. set (links t))"
  proof (cases "\<exists>t. ?A k = Some t \<and> fate k t = None")
    case True
    then obtain t where t: "?A k = Some t" "k \<notin> observed" "complete" "2 \<le> missingScanCount t + 1"
      "discoveryCache w = None \<or> cache_delete_ok env (classificationKey t)"
      using assms by (auto simp: scan_outcome_def split: if_splits)
    moreover have "detached_targets fate {k} ?A = {t}" using True t(1) by (auto simp: detached_targets_def)
    ultimately show ?thesis
      using True by (auto simp: reclaim_target_def deleteDiscoveryCacheEntry_def missingScanLimit_def Let_def
          restrict_complement_singleton_eq split: option.split)
  next
    case False
    then have "detached_targets fate {k} ?A = {}" by (auto simp: detached_targets_def)
    then show ?thesis
      using False assms by (auto simp: reclaim_target_def scan_outcome_def deleteDiscoveryCacheEntry_def missingScanLimit_def
          Let_def fun_upd_idem restrict_all split: option.split if_splits)
  qed
  then show "attachedTargets ?w = ?A(k := Option.bind (?A k) (fate k))"
    "discoveryCache ?w = map_option (\<lambda>m. m |` (- classificationKey ` detached_targets fate {k} ?A)) (discoveryCache w)"
    "open_links ?w = open_links w - (\<Union>t \<in> detached_targets fate {k} ?A. set (links t))"
    by simp_all
qed

lemma reclaim_fold_effect:
  assumes "distinct ks" "fate = scan_outcome (\<lambda>key. discoveryCache w = None \<or> cache_delete_ok env key) observed complete"
  shows "attachedTargets (fold (reclaim_target env observed complete) ks w) =
      (\<lambda>k. if k \<in> set ks then Option.bind (attachedTargets w k) (fate k) else attachedTargets w k) \<and>
    discoveryCache (fold (reclaim_target env observed complete) ks w) =
      map_option (\<lambda>m. m |` (- classificationKey ` detached_targets fate (set ks) (attachedTargets w))) (discoveryCache w) \<and>
    open_links (fold (reclaim_target env observed complete) ks w) =
      open_links w - (\<Union>t \<in> detached_targets fate (set ks) (attachedTargets w). set (links t))"
  using assms
proof (induction ks arbitrary: w)
  case Nil
  then show ?case by (simp add: detached_targets_def option.map_ident)
next
  case (Cons k ks)
  let ?w = "reclaim_target env observed complete k w"
  note step = reclaim_target_effect [OF Cons.prems(2), of k]
  have "fate = scan_outcome (\<lambda>key. discoveryCache ?w = None \<or> cache_delete_ok env key) observed complete"
    using Cons.prems(2) step(2) by simp
  note rest = Cons.IH [OF _ this]
  have later: "detached_targets fate (set ks) (attachedTargets ?w) = detached_targets fate (set ks) (attachedTargets w)"
    using Cons.prems(1) step(1) by (auto simp: detached_targets_def)
  have both: "detached_targets fate (insert k (set ks)) A = detached_targets fate {k} A \<union> detached_targets fate (set ks) A" for A
    by (auto simp: detached_targets_def)
  let ?w' = "fold (reclaim_target env observed complete) (k # ks) w"
  from rest Cons.prems(1) have end_state:
    "attachedTargets ?w' = (\<lambda>k. if k \<in> set ks then Option.bind (attachedTargets ?w k) (fate k) else attachedTargets ?w k)"
    "discoveryCache ?w' = map_option (\<lambda>m. m |` (- classificationKey ` detached_targets fate (set ks) (attachedTargets w))) (discoveryCache ?w)"
    "open_links ?w' = open_links ?w - (\<Union>t \<in> detached_targets fate (set ks) (attachedTargets w). set (links t))"
    by (simp_all add: later)
  have "attachedTargets ?w' = (\<lambda>j. if j \<in> set (k # ks) then Option.bind (attachedTargets w j) (fate j) else attachedTargets w j)"
    unfolding end_state(1) using Cons.prems(1) by (auto simp: step fun_eq_iff)
  moreover have "discoveryCache ?w' =
      map_option (\<lambda>m. m |` (- classificationKey ` detached_targets fate (set (k # ks)) (attachedTargets w))) (discoveryCache w)"
    unfolding end_state(2) by (simp add: both step option.map_comp comp_def image_Un)
  moreover have "open_links ?w' = open_links w - (\<Union>t \<in> detached_targets fate (set (k # ks)) (attachedTargets w). set (links t))"
    unfolding end_state(3) by (auto simp: both step)
  ultimately show ?case by blast
qed

lemma reconcile_effect:
  assumes "observe env ids w = (complete, observed, w1)" "distinct (target_order env (dom (attachedTargets w)))"
    and "fate = scan_outcome (\<lambda>key. discoveryCache w = None \<or> cache_delete_ok env key) observed complete"
    and "ks = set (target_order env (dom (attachedTargets w)))"
  shows "attachedTargets (reconcileTargets env ids w) =
      (\<lambda>k. if k \<in> ks then Option.bind (attachedTargets w k) (fate k) else attachedTargets w k)"
    "discoveryCache (reconcileTargets env ids w) =
      map_option (\<lambda>m. m |` (- classificationKey ` detached_targets fate ks (attachedTargets w))) (discoveryCache w)"
    "open_links (reconcileTargets env ids w) =
      open_links w - (\<Union>t \<in> detached_targets fate ks (attachedTargets w). set (links t))"
proof -
  note same = unwarned_eq(2-4) [OF observe_keeps [OF assms(1)]]
  show "attachedTargets (reconcileTargets env ids w) =
      (\<lambda>k. if k \<in> ks then Option.bind (attachedTargets w k) (fate k) else attachedTargets w k)"
    "discoveryCache (reconcileTargets env ids w) =
      map_option (\<lambda>m. m |` (- classificationKey ` detached_targets fate ks (attachedTargets w))) (discoveryCache w)"
    "open_links (reconcileTargets env ids w) =
      open_links w - (\<Union>t \<in> detached_targets fate ks (attachedTargets w). set (links t))"
    using reclaim_fold_effect [OF assms(2), of fate w1 env observed complete, unfolded same, OF assms(3)]
    unfolding reconcileTargets_def assms(1,4) prod.case same by blast+
qed

text \<open>
  A target nobody maps is detached: the second complete scan that misses it closes its links, after
  its cache entry is deleted.
\<close>

lemma unmapped_target_detached:
  assumes "observe env ids w = (True, observed, w1)" "distinct (target_order env (dom (attachedTargets w)))"
    and "k \<in> set (target_order env (dom (attachedTargets w)))" "attachedTargets w k = Some t" "k \<notin> observed"
    and "missingScanCount t = 1" "discoveryCache w = Some m" "cache_delete_ok env (classificationKey t)"
  shows "attachedTargets (reconcileTargets env ids w) k = None"
    "open_links (reconcileTargets env ids w) \<inter> set (links t) = {}"
    "\<exists>m'. discoveryCache (reconcileTargets env ids w) = Some m' \<and> m' (classificationKey t) = None"
proof -
  note effect = reconcile_effect [OF assms(1,2) refl refl]
  let ?fate = "scan_outcome (\<lambda>key. discoveryCache w = None \<or> cache_delete_ok env key) observed True"
  have gone: "?fate k t = None" using assms(5-8) by (simp add: scan_outcome_def)
  then have t: "t \<in> detached_targets ?fate (set (target_order env (dom (attachedTargets w)))) (attachedTargets w)"
    using assms(3,4) unfolding detached_targets_def by blast
  show "attachedTargets (reconcileTargets env ids w) k = None" using effect(1) assms(3,4) gone by simp
  show "open_links (reconcileTargets env ids w) \<inter> set (links t) = {}" using effect(3) t by auto
  show "\<exists>m'. discoveryCache (reconcileTargets env ids w) = Some m' \<and> m' (classificationKey t) = None"
    using effect(2) assms(7) t by (auto simp: restrict_map_def)
qed

subsection \<open>Targets over a run\<close>

lemma attachedTargets_cache [simp]: "attachedTargets (cacheDiscoveryFile env key v) = attachedTargets v"
  using core_cache [of env key v] by (simp add: core_def del: core_cache)

lemma attachedTargets_release [simp]: "attachedTargets (release_entry env key v) = attachedTargets v"
  using core_release [of env key v] by (simp add: core_def del: core_release)

lemma attach_file_others:
  assumes "worker_inv w" "k \<noteq> mapped_file key"
  shows "attachedTargets (snd (attach_file env key f w)) k = attachedTargets w k"
proof -
  have "attachedTargets (snd (attachSymbolTargets env key f targets w)) k = attachedTargets w k" for targets
  proof (cases "attach_loop env f targets [] w")
    case (Pair r w')
    then have "attachedTargets w' = attachedTargets w" using attach_loop_fresh [OF assms(1) Pair] by simp
    then show ?thesis
      using Pair assms(2) by (simp add: attachSymbolTargets_def record_target_def split: option.split)
  qed
  then show ?thesis
    using assms(2) by (simp add: attach_file_def attachGoNetHTTPTarget_def open_link_def record_target_def
        split: option.split prod.split go_resolution.split)
qed

text \<open>Classifying a candidate keeps every attached target, its links and its count.\<close>

lemma classify_keeps:
  assumes "worker_inv w" "attachedTargets w k = Some t"
  shows "\<exists>t'. attachedTargets (classifyAndAttach env candidate w) k = Some t' \<and> links t' = links t \<and>
    missingScanCount t' = missingScanCount t"
proof -
  have "\<exists>t'. attachedTargets (snd (classify env candidate w)) k = Some t' \<and> links t' = links t \<and>
    missingScanCount t' = missingScanCount t"
  proof (cases "attachedTargets w (mapped_file (cand_file candidate))")
    case None
    then have k: "k \<noteq> mapped_file (cand_file candidate)" using assms(2) by auto
    have "attachedTargets w1 = attachedTargets w" "worker_inv w1" if "openMappedFile env candidate w = (r, w1)" for r w1
      using unwarned_eq [OF open_keeps [OF that]] worker_inv_core [of w1 w] assms(1) by simp_all
    then show ?thesis
      using None assms(2) attach_file_others [OF _ k]
      by (auto simp: classify_def Let_def split: prod.split sum.split option.split)
  next
    case (Some u)
    then show ?thesis using assms(2) by (auto simp: classify_def Let_def)
  qed
  then show ?thesis by (auto simp: classifyAndAttach_def split: prod.split)
qed

text \<open>Whether a turn is a complete scan that does not find the file, and how many of a run are.\<close>

definition scan_misses :: "worker_env \<Rightarrow> worker_event \<Rightarrow> httpUprobeWorker \<Rightarrow> mapped_file_identity \<Rightarrow> bool" where
  "scan_misses env event w k \<longleftrightarrow>
    (event = Take_request \<and> (case reconcileRequests w of [] \<Rightarrow> False
       | ids # rest \<Rightarrow> (case observe env ids (w\<lparr>reconcileRequests := rest\<rparr>) of (complete, observed, _) \<Rightarrow> complete \<and> k \<notin> observed)))"

fun missed_scans :: "(worker_env \<times> worker_event) list \<Rightarrow> httpUprobeWorker \<Rightarrow> mapped_file_identity \<Rightarrow> nat" where
  "missed_scans [] w k = 0"
| "missed_scans ((env, event) # turns) w k =
    (if scan_misses env event w k then 1 else 0) + missed_scans turns (worker_step env event w) k"

lemma count_two: "unat (c :: u8) + 1 < 2 \<Longrightarrow> \<not> 2 \<le> c + 1 \<and> unat (c + 1) = unat c + 1"
  by (simp add: unat_eq_0 word_le_nat_alt)

lemma step_keeps_target:
  assumes inv: "worker_inv w" and order: "\<And>D. distinct (target_order env D)" and at: "attachedTargets w k = Some t"
    and few: "unat (missingScanCount t) + (if scan_misses env event w k then 1 else 0) < 2"
  shows "\<exists>t'. attachedTargets (worker_step env event w) k = Some t' \<and> links t' = links t \<and>
    unat (missingScanCount t') \<le> unat (missingScanCount t) + (if scan_misses env event w k then 1 else 0)"
proof (cases event)
  case (Queue_candidate c)
  then show ?thesis
    using at core_delete [of env "cand_file c" w] by (simp add: queueAttachCandidate_def core_def del: core_delete)
next
  case Take_request
  show ?thesis
  proof (cases "reconcileRequests w")
    case (Cons ids rest)
    let ?w = "w\<lparr>reconcileRequests := rest\<rparr>"
    obtain complete observed w1 where seen: "observe env ids ?w = (complete, observed, w1)" by (rule prod_cases3)
    have "scan_misses env event w k \<longleftrightarrow> complete \<and> k \<notin> observed" using Take_request Cons seen by (simp add: scan_misses_def)
    then show ?thesis
      using Take_request Cons at few count_two [of "missingScanCount t"] reconcile_effect(1) [OF seen order refl refl]
      by (auto simp: scan_outcome_def split: if_splits)
  qed (use Take_request at in simp)
next
  case Take_candidate
  show ?thesis
  proof (cases "attachCandidates w")
    case (Cons c rest)
    have "worker_inv (w\<lparr>attachCandidates := rest\<rparr>)" using inv Cons by (simp add: worker_inv_def)
    then show ?thesis
      using classify_keeps [of "w\<lparr>attachCandidates := rest\<rparr>" k t env c] Take_candidate Cons at by fastforce
  qed (use Take_candidate at in simp)
qed (use at in \<open>auto simp: queueTargetReconciliation_def\<close>)

lemma run_keeps_target:
  assumes "worker_inv w" "\<forall>(env, _) \<in> set turns. \<forall>D. distinct (target_order env D)" "attachedTargets w k = Some t"
    and "unat (missingScanCount t) + missed_scans turns w k < 2"
  shows "\<exists>t'. attachedTargets (worker_run turns w) k = Some t' \<and> links t' = links t"
  using assms
proof (induction turns arbitrary: w t)
  case (Cons turn turns)
  obtain env event where turn: "turn = (env, event)" by (rule prod.exhaust)
  obtain t1 where t1: "attachedTargets (worker_step env event w) k = Some t1" "links t1 = links t"
    "unat (missingScanCount t1) \<le> unat (missingScanCount t) + (if scan_misses env event w k then 1 else 0)"
    using step_keeps_target [of w env k t event] Cons.prems turn by auto
  then show ?case
    using Cons.IH [OF worker_step_inv [OF Cons.prems(1)] _ t1(1)] Cons.prems(2,4) turn by auto
qed simp

lemma worker_inv_open: "worker_inv w \<Longrightarrow> attachedTargets w k = Some t \<Longrightarrow> set (links t) \<subseteq> open_links w"
  using targets_okD(5) [of "attachedTargets w" "open_links w" "next_link w" k t] by (simp add: worker_inv_def)

text \<open>
  C35: A target is detached only when it is gone.  As long as a run has fewer than two complete scans
  that do not find a file, a target that had just been seen stays attached with the same open links,
  however many incomplete scans, candidates and requests there are in between.
\<close>

theorem detached_after_two_misses:
  assumes "w = worker_run before (newHTTPUprobeWorker targets function root cache)"
    and "\<forall>(env, _) \<in> set turns. \<forall>D. distinct (target_order env D)"
    and "attachedTargets w k = Some t" "missingScanCount t = 0" "missed_scans turns w k < 2"
  shows "\<exists>t'. attachedTargets (worker_run turns w) k = Some t' \<and> links t' = links t \<and>
    set (links t) \<subseteq> open_links (worker_run turns w)"
proof -
  have inv: "worker_inv w" using worker_run_inv [OF worker_inv_new] assms(1) by simp
  obtain t' where t': "attachedTargets (worker_run turns w) k = Some t'" "links t' = links t"
    using run_keeps_target [OF inv assms(2,3)] assms(4,5) by auto
  moreover have "set (links t') \<subseteq> open_links (worker_run turns w)"
    by (rule worker_inv_open [OF worker_run_inv [OF inv] t'(1)])
  ultimately show ?thesis by auto
qed

text \<open>
  C36: A live mapping keeps its probes.  When a process listed in an active cgroup has an executable
  mapping of an attached file, reconciliation keeps that target with its links open, whatever else of
  the cgroup tree, the process lists and the other mappings could not be read.
\<close>

theorem mapped_target_kept:
  assumes "w = worker_run turns (newHTTPUprobeWorker targets function root cache)"
    and "distinct (target_order env (dom (attachedTargets w)))" "\<And>P. finite P \<Longrightarrow> set (pid_order env P) = P"
    and "Walk_dir path (Inr cg) \<in> set (cgroup_walk env)" "cg \<in> set ids"
    and "cgroup_procs env path = Inr (pid_text, ok1)" "pid_line \<in> set pid_text" "ParseInt10 pid_line = Some pid" "0 < pid"
    and "proc_maps env (of_int pid) = Inr (maps_text, ok2)" "maps_line \<in> set maps_text"
    and "parseExecMapping maps_line = Some m" "attachedTargets w (mapping_file m) = Some t"
  shows "\<exists>t'. attachedTargets (reconcileTargets env ids w) (mapping_file m) = Some t' \<and> links t' = links t \<and>
    set (links t) \<subseteq> open_links (reconcileTargets env ids w)"
proof -
  obtain complete observed w1 where seen: "observe env ids w = (complete, observed, w1)" by (rule prod_cases3)
  have "mapping_file m \<in> observed \<or> \<not> complete" by (rule observe_finds [OF seen assms(3-12)])
  then obtain t' where t': "attachedTargets (reconcileTargets env ids w) (mapping_file m) = Some t'" "links t' = links t"
    using reconcile_effect(1) [OF seen assms(2) refl refl] assms(13)
    by (fastforce simp: scan_outcome_def split: if_splits)
  moreover have "worker_inv (reconcileTargets env ids w)"
    using worker_run_inv [OF worker_inv_new] assms(1) by (simp add: reconcileTargets_inv)
  ultimately have "set (links t') \<subseteq> open_links (reconcileTargets env ids w)"
    using worker_inv_open by blast
  then show ?thesis using t' by auto
qed

subsection \<open>Undecided files\<close>

text \<open>The file defines nothing to probe, as far as its contents can ever tell.\<close>

definition no_target :: "worker_env \<Rightarrow> nat \<Rightarrow> httpUprobeWorker \<Rightarrow> bool" where
  "no_target env f w \<longleftrightarrow>
    (case definedSymbolTargets (elf_read env f) (symbolTargets w) of
       None \<Rightarrow> False
     | Some (selected, _) \<Rightarrow>
         if selected \<noteq> [] then list_all (\<lambda>s. attach_symbol env f s = No_symbol) selected
         else resolveGoFunctionOffset (go_read env f) (goTarget_function w) \<in> {Go_absent, Go_unsupported})"

lemma attach_loop_nothing:
  "attach_loop env ex targets got w = (Some got', w') \<Longrightarrow> length got \<le> length got' \<and>
    (length got' = length got \<longrightarrow> list_all (\<lambda>s. attach_symbol env ex s = No_symbol) targets)"
proof (induction targets arbitrary: got w)
  case (Cons target targets)
  then show ?case
    by (cases "attach_symbol env ex target") (fastforce simp: open_link_def)+
qed simp

lemma attach_file_undecided:
  assumes "worker_inv w" "attachedTargets w (mapped_file key) = None" "attach_file env key f w = (retain, w')"
    and "attachedTargets w' (mapped_file key) = None" "\<not> no_target env f w"
  shows "\<not> retain" "attachedTargets w' = attachedTargets w" "open_links w' = open_links w" "discoveryCache w' = discoveryCache w"
proof -
  have symbols: "\<not> retain \<and> attachedTargets w' = attachedTargets w \<and> open_links w' = open_links w \<and> discoveryCache w' = discoveryCache w"
    if "attachSymbolTargets env key f targets w = (retain, w')" "\<not> list_all (\<lambda>s. attach_symbol env f s = No_symbol) targets" for targets
  proof -
    obtain r w1 where loop: "attach_loop env f targets [] w = (r, w1)" by (rule prod.exhaust)
    show ?thesis
    proof (cases r)
      case None
      then show ?thesis using that loop attach_loop_fresh [OF assms(1) loop] by (auto simp: attachSymbolTargets_def)
    next
      case (Some got)
      then have "got \<noteq> []" using attach_loop_nothing [of env f targets "[]" w got w1] loop that(2) by auto
      then show ?thesis using that(1) loop Some assms(4) by (auto simp: attachSymbolTargets_def record_target_def)
    qed
  qed
  have "\<not> retain \<and> attachedTargets w' = attachedTargets w \<and> open_links w' = open_links w \<and> discoveryCache w' = discoveryCache w"
    using assms(3-5) symbols
    by (auto simp: attach_file_def no_target_def attachGoNetHTTPTarget_def open_link_def record_target_def
        split: option.splits prod.splits go_resolution.splits if_splits)
  then show "\<not> retain" "attachedTargets w' = attachedTargets w" "open_links w' = open_links w" "discoveryCache w' = discoveryCache w"
    by simp_all
qed

lemma classify_undecided:
  assumes "worker_inv w" "key = cand_file candidate" "attachedTargets w (mapped_file key) = None"
    and "classify env candidate w = (retain, w')" "attachedTargets w' (mapped_file key) = None"
    and "\<And>f. fst (openMappedFile env candidate w) = Inr f \<Longrightarrow> classificationKeyFromFile env f = Some key \<Longrightarrow> \<not> no_target env f w"
  shows "\<not> retain \<and> attachedTargets w' = attachedTargets w \<and> open_links w' = open_links w \<and> discoveryCache w' = discoveryCache w"
proof (cases "card (dom (attachedTargets w)) \<ge> maxAttachedUprobeTargets")
  case True
  then show ?thesis using assms(2-4) by (auto simp: classify_def)
next
  case False
  obtain r w1 where opened: "openMappedFile env candidate w = (r, w1)" by (rule prod.exhaust)
  note same = unwarned_eq [OF open_keeps [OF opened]]
  have inv: "worker_inv w1" using worker_inv_core [OF same(1)] assms(1) by simp
  show ?thesis
  proof (cases "\<exists>f. r = Inr f \<and> classificationKeyFromFile env f = Some key")
    case True
    then obtain f where f: "r = Inr f" "classificationKeyFromFile env f = Some key" by blast
    then have "attach_file env key f w1 = (retain, w')" using assms(2-4) opened False by (simp add: classify_def)
    moreover have "\<not> no_target env f w1" using assms(6) [of f] f opened unfolding no_target_def same by simp
    ultimately show ?thesis
      using attach_file_undecided [OF inv, of key env f retain w'] assms(3,5) same by simp
  next
    case undecided: False
    have "retain = False \<and> core w' = core w1 \<and> discoveryCache w' = discoveryCache w1"
    proof (cases r)
      case (Inl e)
      then show ?thesis using assms(2-4) opened False by (auto simp: classify_def)
    next
      case (Inr f)
      with undecided have "classificationKeyFromFile env f \<noteq> Some key" by blast
      then show ?thesis
        using assms(2-4) opened False Inr by (cases "classificationKeyFromFile env f") (auto simp: classify_def)
    qed
    then show ?thesis using same by (simp add: core_def)
  qed
qed

text \<open>An executable mapping of the file with this key.\<close>

definition maps_file :: "kenv \<Rightarrow> ptr \<Rightarrow> file_classification_key \<Rightarrow> bool" where
  "maps_file env vma key \<longleftrightarrow>
    (let file = BPF_CORE_READ env h_vma vma vm_file;
         inode = BPF_CORE_READ env h_file file f_inode;
         super = BPF_CORE_READ env h_inode inode i_sb
     in BPF_CORE_READ env h_vma vma vm_flags AND HTTP_UPROBE_VM_EXEC \<noteq> 0 \<and> file \<noteq> NULL \<and> inode \<noteq> NULL \<and> super \<noteq> NULL \<and>
        classification_of env inode super = key)"

lemma maps_file_announce:
  "maps_file env vma key \<Longrightarrow> tracked_cgroups s (current_cgroup_id env) \<noteq> None \<Longrightarrow>
    handle_uprobe_mmap env vma s = announce_candidate env vma key s"
  by (auto simp: maps_file_def handle_uprobe_mmap_def emit_http_uprobe_attach_candidate_def cgroup_is_tracked_0 Let_def)

text \<open>
  C37: An undecided file gets another chance.  When a candidate is not attached, and not because its
  file was opened, is the announced one and defines no target, the worker is left with the targets and
  links it had, and the next executable mapping of that file in a tracked cgroup is announced again.
\<close>

theorem undecided_file_announced_again:
  assumes "w = worker_run turns (newHTTPUprobeWorker targets function root cache)" "discoveryCache w \<noteq> None"
    and "key = cand_file candidate" "attachedTargets w (mapped_file key) = None" "cache_delete_ok env key"
    and "w' = classifyAndAttach env candidate w" "attachedTargets w' (mapped_file key) = None"
    and "\<And>f. fst (openMappedFile env candidate w) = Inr f \<Longrightarrow> classificationKeyFromFile env f = Some key \<Longrightarrow> \<not> no_target env f w"
    and "discoveryCache w' = Some (http_uprobe_discovery_cache s)" "maps_file kenv vma key"
    and "tracked_cgroups s (current_cgroup_id kenv) \<noteq> None" "map_update_ok kenv"
    and "ringbuf_space kenv (sizeof_sample SAMPLE_KIND_HTTP_UPROBE_ATTACH_CANDIDATE)"
  shows "attachedTargets w' = attachedTargets w \<and> open_links w' = open_links w \<and>
    events (snd (handle_uprobe_mmap kenv vma s)) =
      events s @ [HttpUprobeAttachCandidateSample (candidate_sample_of kenv vma key)]"
proof -
  have inv: "worker_inv w" using worker_run_inv [OF worker_inv_new] assms(1) by simp
  obtain retain w1 where first: "classify env candidate w = (retain, w1)" by (rule prod.exhaust)
  have "attachedTargets w1 (mapped_file key) = None"
    using assms(6,7) first by (auto simp: classifyAndAttach_def split: if_splits)
  note out = classify_undecided [OF inv assms(3,4) first this assms(8)]
  then have w': "w' = release_entry env key w1" using assms(3,6) first by (simp add: classifyAndAttach_def)
  then have "attachedTargets w' = attachedTargets w \<and> open_links w' = open_links w"
    using out core_release [of env key w1] by (simp add: core_def del: core_release)
  moreover have "http_uprobe_discovery_cache s key = None"
    using w' assms(2,5,9) out by (auto simp: release_entry_def deleteDiscoveryCacheEntry_def) (metis fun_upd_same)
  ultimately show ?thesis
    using maps_file_announce [OF assms(10,11)] assms(12,13) by (simp add: announce_cases Let_def)
qed

subsection \<open>One library in one cgroup\<close>

text \<open>Process 77 of cgroup 7 maps inode 42 of device 8:1, which defines \<open>SSL_write\<close>.\<close>

definition ssl_line :: bytes where
  "ssl_line = c_lit ''00400000-00500000 r-xp 00000000 08:01 42         /lib/libssl.so.3''"

definition ssl_env :: worker_env where
  "ssl_env = \<lparr>open_path = (\<lambda>_. Inr 5), reopen_path = (\<lambda>_. Inl Not_exist),
     fstat_file = (\<lambda>_. Some \<lparr>st_dev = 0x801, st_ino = 42, st_ctime_sec = 1700000000, st_ctime_nsec = 5\<rparr>),
     proc_maps = (\<lambda>pid. if pid = 77 then Inr ([ssl_line], True) else Inl Permission),
     cgroup_procs = (\<lambda>_. Inr ([c_lit ''78'', c_lit ''77''], True)), cgroup_walk = [Walk_dir (c_lit ''/sys'') (Inr 7)],
     elf_read = (\<lambda>_. Elf_file \<lparr>elf_Type = 3, elf_Symbols = No_symbols,
       elf_DynamicSymbols = Symbols [\<lparr>sym_Name = ''SSL_write'', sym_Info = 0x12, sym_Section = 11, sym_Value = 0x4000\<rparr>]\<rparr>),
     go_read = (\<lambda>_. Go_not_elf), open_executable = (\<lambda>_. True), attach_symbol = (\<lambda>_ _. Attached), attach_offset = (\<lambda>_ _. False),
     cache_delete_ok = (\<lambda>_. True), cache_put_ok = (\<lambda>_. True), cache_evicts = (\<lambda>_. False),
     pid_order = sorted_list_of_set, target_order = (\<lambda>D. if D = {mapped_file map_key} then [mapped_file map_key] else [])\<rparr>"

definition ssl_candidate :: httpUprobeAttachCandidate where
  "ssl_candidate = \<lparr>cand_tgid = 77, vmStart = 0x400000, vmEnd = 0x500000, cand_file = map_key\<rparr>"

definition fresh_worker :: httpUprobeWorker where
  "fresh_worker = newHTTPUprobeWorker [''SSL_write''] ''net/http'' (c_lit ''/sys'') (Some [map_key \<mapsto> 1])"

definition ssl_turns :: "(worker_env \<times> worker_event) list" where
  "ssl_turns = [(ssl_env, Queue_candidate ssl_candidate), (ssl_env, Take_candidate)]"

lemma ssl_key: "classificationKeyFromFile ssl_env 5 = Some map_key"
  by (simp add: classificationKeyFromFile_def ssl_env_def map_key_def Major_def Minor_def)

lemma ssl_attached:
  "attachedTargets (worker_run ssl_turns fresh_worker) =
     [mapped_file map_key \<mapsto> \<lparr>classificationKey = map_key, links = [0], missingScanCount = 0\<rparr>]"
  "open_links (worker_run ssl_turns fresh_worker) = {0}" "reconcileRequests (worker_run ssl_turns fresh_worker) = []"
proof -
  have opened: "openMappedFile ssl_env ssl_candidate w = (Inr 5, w)" for w by (simp add: openMappedFile_def ssl_env_def)
  have targets: "definedSymbolTargets (elf_read ssl_env 5) [''SSL_write''] = Some ([''SSL_write''], True)"
    by (simp add: definedSymbolTargets_def ssl_env_def defines_function_def)
  have "attach_symbol ssl_env 5 s = Attached" "open_executable ssl_env 5" for s by (simp_all add: ssl_env_def)
  moreover have key: "cand_file ssl_candidate = map_key" by (simp add: ssl_candidate_def)
  ultimately show "attachedTargets (worker_run ssl_turns fresh_worker) =
     [mapped_file map_key \<mapsto> \<lparr>classificationKey = map_key, links = [0], missingScanCount = 0\<rparr>]"
    "open_links (worker_run ssl_turns fresh_worker) = {0}" "reconcileRequests (worker_run ssl_turns fresh_worker) = []"
    using opened targets ssl_key
    by (simp_all add: ssl_turns_def fresh_worker_def newHTTPUprobeWorker_def queueAttachCandidate_def attachCandidateQueueSize_def
        classifyAndAttach_def classify_def maxAttachedUprobeTargets_def attach_file_def attachSymbolTargets_def open_link_def
        record_target_def cacheDiscoveryFile_def)
qed

lemma ssl_orders: "distinct (target_order ssl_env D)" "target_order ssl_env {mapped_file map_key} = [mapped_file map_key]"
  "finite P \<Longrightarrow> set (pid_order ssl_env P) = P"
  by (simp_all add: ssl_env_def)

theorem uprobe_links_owned_witness:
  "open_links (worker_run ssl_turns fresh_worker) = {0} \<and> open_links (closeAll ssl_env (worker_run ssl_turns fresh_worker)) = {}"
  using uprobe_links_owned [OF refl, of ssl_env ssl_turns "[''SSL_write'']" "''net/http''" "c_lit ''/sys''" "Some [map_key \<mapsto> 1]"]
    ssl_attached ssl_orders(2) by (simp add: fresh_worker_def)

text \<open>No cgroup is active any more: one complete scan misses the file.\<close>

theorem detached_after_two_misses_witness:
  "missed_scans [(ssl_env, Queue_reconciliation []), (ssl_env, Take_request)] (worker_run ssl_turns fresh_worker) (mapped_file map_key) = 1 \<and>
   open_links (worker_run [(ssl_env, Queue_reconciliation []), (ssl_env, Take_request)] (worker_run ssl_turns fresh_worker)) \<noteq> {}"
proof -
  let ?w = "worker_run ssl_turns fresh_worker" and ?turns = "[(ssl_env, Queue_reconciliation []), (ssl_env, Take_request)]"
  have "observe ssl_env [] w = (True, {}, w)" for w
    by (simp add: observe_def resolveActiveCgroupPaths_def ssl_env_def)
  then have misses: "missed_scans ?turns ?w (mapped_file map_key) = 1"
    using ssl_attached(3) by (simp add: scan_misses_def queueTargetReconciliation_def)
  then show ?thesis
    using detached_after_two_misses [OF refl, of ?turns ssl_turns "[''SSL_write'']" "''net/http''" "c_lit ''/sys''"
        "Some [map_key \<mapsto> 1]" "mapped_file map_key", folded fresh_worker_def] ssl_attached(1) ssl_orders(1) by auto
qed

lemma ssl_line_parsed:
  "\<exists>m. parseExecMapping ssl_line = Some m \<and> mapping_file m = mapped_file map_key"
  by (simp add: parseExecMapping_def Fields_def ssl_line_def c_lit_def is_space_def guard_that_def HasPrefix_def Cut_def
      ParseUint16_def hex_value_def ParseUint10_def decimal_def is_digit_def map_key_def)

text \<open>The maps of process 78 cannot be read, those of process 77 can.\<close>

theorem mapped_target_kept_witness:
  "open_links (reconcileTargets ssl_env [7] (worker_run ssl_turns fresh_worker)) \<noteq> {}"
proof -
  obtain m where m: "parseExecMapping ssl_line = Some m" "mapping_file m = mapped_file map_key"
    using ssl_line_parsed by blast
  have "ParseInt10 (c_lit ''77'') = Some 77" by (simp add: ParseInt10_def c_lit_def is_digit_def decimal_def)
  then show ?thesis
    using mapped_target_kept [OF refl, of ssl_env ssl_turns "[''SSL_write'']" "''net/http''" "c_lit ''/sys''" "Some [map_key \<mapsto> 1]"
        "c_lit ''/sys''" 7 "[7]" "[c_lit ''78'', c_lit ''77'']" True "c_lit ''77''" 77 "[ssl_line]" True ssl_line m, folded fresh_worker_def]
      ssl_attached(1) ssl_orders m
    by (auto simp: ssl_env_def)
qed

text \<open>The library cannot be opened: the next mapping of it is announced again.\<close>

theorem undecided_file_announced_again_witness:
  "\<exists>s. events (snd (handle_uprobe_mmap map_env 50 s)) =
    events s @ [HttpUprobeAttachCandidateSample (candidate_sample_of map_env 50 map_key)] \<and>
    discoveryCache (classifyAndAttach (ssl_env\<lparr>open_path := \<lambda>_. Inl Permission\<rparr>) ssl_candidate fresh_worker) =
      Some (http_uprobe_discovery_cache s)"
proof -
  let ?env = "ssl_env\<lparr>open_path := \<lambda>_. Inl Permission\<rparr>" and ?s = "one_tracked\<lparr>http_uprobe_discovery_cache := Map.empty\<rparr>"
  let ?w = "classifyAndAttach ?env ssl_candidate fresh_worker"
  have opened: "openMappedFile ?env ssl_candidate w = (Inl Permission, w)" for w by (simp add: openMappedFile_def)
  have key: "cand_file ssl_candidate = map_key" "cache_delete_ok ssl_env k" for k by (simp_all add: ssl_candidate_def ssl_env_def)
  have w: "attachedTargets ?w = Map.empty" "discoveryCache ?w = Some Map.empty"
    by (simp_all add: classifyAndAttach_def classify_def opened key fresh_worker_def newHTTPUprobeWorker_def
        maxAttachedUprobeTargets_def processIsGone_def release_entry_def deleteDiscoveryCacheEntry_def)
  have "maps_file map_env 50 map_key"
    using map_key_of by (simp add: maps_file_def map_env_objects Let_def)
  then have "events (snd (handle_uprobe_mmap map_env 50 ?s)) =
      events ?s @ [HttpUprobeAttachCandidateSample (candidate_sample_of map_env 50 map_key)]"
    using undecided_file_announced_again [of fresh_worker "[]" "[''SSL_write'']" "''net/http''" "c_lit ''/sys''" "Some [map_key \<mapsto> 1]"
        map_key ssl_candidate ?env ?w ?s map_env 50] w key opened
    by (simp add: fresh_worker_def newHTTPUprobeWorker_def)
  then show ?thesis using w(2) by (intro exI [of _ ?s]) simp
qed

end
