(* ===== verification/Uprobe_Identity.thy ===== *)
theory Uprobe_Identity
  imports Uprobe_Lifetime
begin

text \<open>
  Which file is which: the discovery program reads kernel objects, the worker calls \<open>fstat\<close> and reads
  \<open>/proc/<pid>/maps\<close>.  The three views of a file agree, and offsets into it do not wrap.
\<close>

subsection \<open>The lines of the maps file\<close>

definition hex_padded :: "nat \<Rightarrow> nat \<Rightarrow> bytes" where
  "hex_padded k n = replicate (k - length (hex_text n)) 0x30 @ hex_text n"

text \<open>
  A line as the kernel documents it: \<open>start-end perms offset major:minor inode   path\<close>.  Anonymous
  mappings have no path.
\<close>

definition maps_perms :: "bool \<Rightarrow> bool \<Rightarrow> bool \<Rightarrow> bool \<Rightarrow> bytes" where
  "maps_perms r w x shared =
    [if r then 0x72 else 0x2D, if w then 0x77 else 0x2D, if x then 0x78 else 0x2D, if shared then 0x73 else 0x70]"

definition maps_line :: "nat \<Rightarrow> nat \<Rightarrow> bytes \<Rightarrow> nat \<Rightarrow> nat \<Rightarrow> nat \<Rightarrow> nat \<Rightarrow> nat \<Rightarrow> bytes \<Rightarrow> bytes" where
  "maps_line start stop perms offset major minor inode blanks path =
    (hex_padded 8 start @ 0x2D # hex_padded 8 stop) @ 0x20 # perms @ 0x20 # hex_padded 8 offset @ 0x20 #
    (hex_padded 2 major @ 0x3A # hex_padded 2 minor) @ 0x20 # decimal_text inode @ 0x20 # replicate blanks 0x20 @ path"

lemma hex_digit_chars: "list_all (\<lambda>d. plain_char (hex_digit d) \<and> hex_digit d \<noteq> 0x2D \<and> hex_digit d \<noteq> 0x3A) [0..<16]"
  by (simp add: upt_conv_Cons hex_digit_def is_space_def plain_char_def)

lemma hex_digit_char: "d < 16 \<Longrightarrow> plain_char (hex_digit d) \<and> hex_digit d \<noteq> 0x2D \<and> hex_digit d \<noteq> 0x3A"
  using hex_digit_chars by (simp add: list_all_iff)

lemma hex_padded_chars:
  assumes "c \<in> set (hex_padded k n)"
  shows "plain_char c \<and> c \<noteq> 0x2D \<and> c \<noteq> 0x3A"
  using assms set_hex_text [of c n] hex_digit_char by (auto simp: hex_padded_def is_space_def plain_char_def)

lemma decimal_chars: "c \<in> set (decimal_text n) \<Longrightarrow> plain_char c"
  using decimal_decimal_text [of n]
  by (auto simp: list_all_iff is_digit_def is_space_def plain_char_def word_less_nat_alt word_le_nat_alt)

lemma hex_padded_nonempty [simp]: "hex_padded k n \<noteq> []"
  by (simp add: hex_padded_def hex_text_nonempty)

lemma parse_hex_padded: "n < 2 ^ bits \<Longrightarrow> ParseUint16 bits (hex_padded k n) = Some n"
  by (simp add: hex_padded_def ParseUint16_padded)

lemma first_field:
  assumes "path \<noteq> []" "space_width path = 0"
  shows "\<exists>word rest. split_fields [] path = word # rest \<and> word \<noteq> [] \<and> hd word = hd path"
proof -
  have first: "word \<noteq> [] \<Longrightarrow> \<exists>w rest. split_fields word s = w # rest \<and> w \<noteq> [] \<and> hd w = last word" for word s
    by (induction word s rule: split_fields.induct) (auto simp: hd_rev simp del: space_width.simps)
  obtain c cs where path: "path = c # cs" using assms(1) by (cases path) auto
  show ?thesis using first [of "[c]" cs] assms(2) path by (simp del: space_width.simps)
qed

lemma maps_line_fields:
  assumes "perms \<noteq> []" "\<forall>c \<in> set perms. plain_char c"
  shows "Fields (maps_line start stop perms offset major minor inode blanks path) =
    [hex_padded 8 start @ 0x2D # hex_padded 8 stop, perms, hex_padded 8 offset,
     hex_padded 2 major @ 0x3A # hex_padded 2 minor, decimal_text inode] @ split_fields [] path"
proof -
  have sp: "is_space 0x20" "plain_char 0x2D" "plain_char 0x3A" by (simp_all add: is_space_def plain_char_def)
  have pairs: "\<forall>c \<in> set (hex_padded k a @ s # hex_padded k b). plain_char c" if "plain_char s" for k a b s
    using that hex_padded_chars by auto
  note next_field = split_fields_Cons [OF _ _ sp(1), of _ "[]", simplified]
  have "split_fields [] (decimal_text inode @ 0x20 # replicate blanks 0x20 @ path) = decimal_text inode # split_fields [] path"
    using split_fields_Cons [of "decimal_text inode" "0x20" "replicate blanks 0x20" path] decimal_chars decimal_decimal_text sp(1) by auto
  then show ?thesis
    unfolding maps_line_def Fields_def
    using next_field [OF _ pairs [OF sp(2), of 8 start stop]] next_field [OF assms] next_field [of "hex_padded 8 offset"]
      next_field [OF _ pairs [OF sp(3), of 2 major minor]] hex_padded_chars
    by simp
qed

lemma maps_perms_facts:
  "maps_perms r w x shared \<noteq> []" "\<forall>c \<in> set (maps_perms r w x shared). plain_char c"
  "3 \<le> length (maps_perms r w x shared)" "maps_perms r w x shared ! 2 = 0x78 \<longleftrightarrow> x"
  by (simp_all add: maps_perms_def plain_char_def is_space_def)

lemma not_a_mapping:
  assumes "length (Fields line) < 6" shows "parseExecMapping line = None"
  using assms by (simp add: parseExecMapping_def guard_that_def Let_def)

text \<open>
  C38: The worker reads the maps of a process as the kernel prints them.  A line in the documented
  format, with any permissions, with or without a path, and a path of any bytes that does not start with
  white space, is taken for an executable file mapping exactly if it is one: it has the execute
  permission, an inode and a path that is not a bracketed name.  Then device and inode are those printed,
  and the range, without its leading zeros, names the entry of \<open>map_files\<close> that the announced range names.
\<close>

theorem maps_line_roundtrip:
  assumes "start < stop" "stop < 2 ^ 64" "major < 2 ^ 32" "minor < 2 ^ 32" "inode < 2 ^ 64"
    and "space_width path = 0" "rng = hex_text start @ 0x2D # hex_text stop"
  shows "parseExecMapping (maps_line start stop (maps_perms r w x shared) offset major minor inode blanks path) =
      (if x \<and> inode \<noteq> 0 \<and> path \<noteq> [] \<and> hd path \<noteq> 0x5B
       then Some \<lparr>addressRange = rng,
                  mapping_file = \<lparr>device_major = of_nat major, device_minor = of_nat minor, mf_inode = of_nat inode\<rparr>\<rparr>
       else None) \<and>
    map_files_path pid rng = mappedFilePath pid (of_nat start) (of_nat stop)"
proof -
  let ?line = "maps_line start stop (maps_perms r w x shared) offset major minor inode blanks path"
  note line = maps_line_fields [OF maps_perms_facts(1,2), of start stop r w x shared offset major minor inode blanks path]
  have "0x2D \<notin> set (hex_padded 8 start)" "0x3A \<notin> set (hex_padded 2 major)" using hex_padded_chars by auto
  then have cuts: "Cut (hex_padded 8 start @ 0x2D # hex_padded 8 stop) 0x2D = Some (hex_padded 8 start, hex_padded 8 stop)"
    "Cut (hex_padded 2 major @ 0x3A # hex_padded 2 minor) 0x3A = Some (hex_padded 2 major, hex_padded 2 minor)"
    by (simp_all add: Cut_append)
  have zero: "decimal_text inode = [0x30] \<longleftrightarrow> inode = 0"
    using decimal_decimal_text [of inode] by (auto simp: decimal_def decimal_text.simps [of 0])
  have start: "start < 2 ^ 64" using assms(1,2) by simp
  have parse: "parseExecMapping ?line =
      (if x \<and> inode \<noteq> 0 \<and> path \<noteq> [] \<and> hd path \<noteq> 0x5B
       then Some \<lparr>addressRange = rng,
                  mapping_file = \<lparr>device_major = of_nat major, device_minor = of_nat minor, mf_inode = of_nat inode\<rparr>\<rparr>
       else None)"
  proof (cases "path = []")
    case True
    then show ?thesis using line not_a_mapping [of ?line] by simp
  next
    case False
    obtain word rest where word: "split_fields [] path = word # rest" "word \<noteq> []" "hd word = hd path"
      using first_field [OF False assms(6)] by blast
    have bracket: "HasPrefix word [0x5B] \<longleftrightarrow> hd path = 0x5B"
      using word(2,3) by (cases word) (auto simp: HasPrefix_def c_lit_def)
    show ?thesis
      using assms start False line word(1) maps_perms_facts(3,4) [of r w x shared]
      by (simp add: parseExecMapping_def guard_that_def cuts zero bracket parse_hex_padded ParseUint10_text)
  qed
  have "unat (of_nat start :: u64) = start" "unat (of_nat stop :: u64) = stop"
    using assms(1,2) by (simp_all add: unat_of_nat)
  then show ?thesis using parse assms(7) by (simp add: mappedFilePath_def)
qed

text \<open>A library whose name has a byte above \<open>0x7f\<close>, and an anonymous executable mapping.\<close>

theorem maps_line_roundtrip_witness:
  "parseExecMapping (maps_line 0x400000 0x7f0000000000 (maps_perms True False True False) 0 8 1 42 9 (c_lit ''/lib/'' @ [0xC3, 0xA9])) =
    Some \<lparr>addressRange = hex_text 0x400000 @ 0x2D # hex_text 0x7f0000000000,
          mapping_file = \<lparr>device_major = 8, device_minor = 1, mf_inode = 42\<rparr>\<rparr> \<and>
   parseExecMapping (maps_line 0x400000 0x7f0000000000 (maps_perms True False True False) 0 0 0 0 0 []) = None"
proof -
  have "space_width (c_lit ''/lib/'' @ [0xC3, 0xA9]) = 0" by (simp add: c_lit_def is_space_def)
  then show ?thesis
    using maps_line_roundtrip [of "0x400000" "0x7f0000000000" 8 1 42 "c_lit ''/lib/'' @ [0xC3, 0xA9]" _ True False True False 0 9 1]
      maps_line_roundtrip [of "0x400000" "0x7f0000000000" 0 0 0 "[]" _ True False True False 0 0 1]
    by (simp add: c_lit_def)
qed

subsection \<open>Device numbers\<close>

lemma high_bits_clear:
  assumes "unat (dev :: u64) < 2 ^ 32"
  shows "drop_bit 32 dev = 0"
proof -
  have "unat (drop_bit 32 dev) = 0" using assms by (simp only: unsigned_drop_bit_eq) (simp add: take_bit_eq_mod drop_bit_eq_div)
  then show ?thesis by (simp only: unat_eq_0)
qed

lemma Major_unat:
  assumes "unat dev < 2 ^ 32"
  shows "unat (Major dev) = unat dev div 256 mod 4096"
proof -
  have high: "drop_bit 32 (dev AND 0xfffff00000000000) = 0"
    by (simp only: drop_bit_and high_bits_clear [OF assms]) simp
  have "(0xfff00 :: u64) = push_bit 8 (mask 12)" by (simp add: mask_eq_exp_minus_1)
  then have low: "drop_bit 8 (dev AND 0xfff00) = take_bit 12 (drop_bit 8 dev)"
    by (simp only: drop_bit_and take_bit_eq_mask) (simp add: mask_eq_exp_minus_1)
  show ?thesis
    unfolding Major_def high low
    by (simp only: unsigned_ucast_eq unsigned_take_bit_eq unsigned_drop_bit_eq unsigned_0 or.right_neutral)
      (use assms in \<open>simp add: take_bit_eq_mod drop_bit_eq_div mod_mod_cancel\<close>)
qed

lemma Minor_unat:
  assumes "unat dev < 2 ^ 32"
  shows "unat (Minor dev) = unat dev mod 256 + 256 * (unat dev div 2 ^ 20)"
proof -
  have "int (unat dev) < int (2 ^ 32)" using assms by (simp only: of_nat_less_iff)
  then have small: "uint dev < 2 ^ 32" by simp
  have "dev AND 0xff = take_bit 8 dev" by (simp add: take_bit_eq_mask mask_eq_exp_minus_1)
  then have low: "uint (ucast (dev AND 0xff) :: u32) = take_bit 8 (uint dev)"
    by (simp only: unsigned_ucast_eq unsigned_take_bit_eq take_bit_take_bit) simp
  have mask: "(0xffffff00000 :: u64) = push_bit 20 (mask 24)" by (simp add: mask_eq_exp_minus_1)
  have shifted: "drop_bit 12 (dev AND 0xffffff00000) = push_bit 8 (take_bit 24 (drop_bit 20 dev))"
    unfolding mask by (rule bit_word_eqI) (auto simp: bit_simps)
  have quotient: "uint dev div 1048576 < 4096" "0 \<le> uint dev div 1048576" using small by (simp_all add: pos_imp_zdiv_nonneg_iff)
  have high: "uint (ucast (drop_bit 12 (dev AND 0xffffff00000)) :: u32) = push_bit 8 (uint dev div 2 ^ 20)"
    unfolding shifted
    by (simp only: unsigned_ucast_eq unsigned_push_bit_eq unsigned_take_bit_eq unsigned_drop_bit_eq)
      (use small quotient in \<open>simp add: take_bit_eq_mod drop_bit_eq_div push_bit_eq_mult mod_pos_pos_trivial\<close>)
  have "uint (Minor dev) = uint dev mod 256 + 256 * (uint dev div 2 ^ 20)"
    unfolding Minor_def
    by (simp only: unsigned_or_eq low high concat_bit_def [symmetric] concat_bit_eq) (simp add: take_bit_eq_mod push_bit_eq_mult)
  then have "int (unat (Minor dev)) = int (unat dev mod 256 + 256 * (unat dev div 2 ^ 20))" by (simp add: zmod_int zdiv_int)
  then show ?thesis by (simp only: of_nat_eq_iff)
qed

lemma device_arith:
  fixes D M m :: nat
  assumes "M < 4096"
  shows "D div 256 mod 4096 = M \<and> D mod 256 + 256 * (D div 2 ^ 20) = m \<longleftrightarrow> D = m mod 256 + 256 * M + 2 ^ 20 * (m div 256)"
proof
  assume h: "D div 256 mod 4096 = M \<and> D mod 256 + 256 * (D div 2 ^ 20) = m"
  have "D div 256 div 4096 = D div 2 ^ 20" by (simp add: div_mult2_eq [symmetric])
  then have split: "D div 256 = M + 4096 * (D div 2 ^ 20)" using h div_mult_mod_eq [of "D div 256" 4096] by (simp add: mult.commute)
  have "m mod 256 = D mod 256" "m div 256 = D div 2 ^ 20" using h by (auto simp add: div_mult_self3)
  then show "D = m mod 256 + 256 * M + 2 ^ 20 * (m div 256)" using split div_mult_mod_eq [of D 256] by simp
next
  assume h: "D = m mod 256 + 256 * M + 2 ^ 20 * (m div 256)"
  then have D: "D = m mod 256 + 256 * (M + 4096 * (m div 256))" by simp
  have low: "(r + 256 * q) mod 256 = r" "(r + 256 * q) div 256 = q" if "r < 256" for r q :: nat using that by simp_all
  have "D mod 256 = m mod 256" "D div 256 = M + 4096 * (m div 256)" unfolding D by (rule low, simp)+
  moreover have "D div 2 ^ 20 = D div 256 div 4096" by (simp add: div_mult2_eq [symmetric])
  ultimately show "D div 256 mod 4096 = M \<and> D mod 256 + 256 * (D div 2 ^ 20) = m" using assms by simp
qed

lemma ucast_eq_iff:
  fixes a :: u64 and b :: u32
  assumes "unat a < 2 ^ 32"
  shows "ucast a = b \<longleftrightarrow> unat a = unat b"
proof -
  have "unat (ucast a :: u32) = unat a"
    by (simp only: unsigned_ucast_eq) (use assms in \<open>simp add: take_bit_eq_mod\<close>)
  then show ?thesis by (metis unsigned_word_eqI)
qed

text \<open>
  C39: The worker recognises the announced file.  The identity it computes from \<open>fstat\<close> equals the one
  the program computed from the inode exactly if \<open>fstat\<close> describes that inode: the device in the
  encoding the kernel uses towards user space, the inode number, and the change time, on each of the
  three layouts of the kernel's inode, without the kernel's internal bit 31 where there is one.  So a
  live file passes the check and a replaced or changed one does not.
\<close>

theorem fstat_identity_exact:
  assumes "h_inode (heap kenv) inode = Some i" "h_super (heap kenv) super = Some sb"
    and "(sec, nsec) = (if has_i_ctime_sec (btf kenv) then (i_ctime_sec i, unat (i_ctime_nsec i) mod 2 ^ 31)
      else if has_mid_ctime (btf kenv) then (mid_ctime_tv_sec i, unat (mid_ctime_tv_nsec i))
      else (leg_ctime_tv_sec i, unat (leg_ctime_tv_nsec i)))" "nsec < 2 ^ 32"
    and "fstat_file env f = Some st" "unat (st_dev st) < 2 ^ 32" "unat (st_ctime_nsec st) < 2 ^ 32"
    and "major = unat (s_dev sb) div 2 ^ 20" "minor = unat (s_dev sb) mod 2 ^ 20"
  shows "classificationKeyFromFile env f = Some (classification_of kenv inode super) \<longleftrightarrow>
    unat (st_dev st) = minor mod 256 + 256 * major + 2 ^ 20 * (minor div 256) \<and> st_ino st = i_ino i \<and>
    st_ctime_sec st = sec \<and> unat (st_ctime_nsec st) = nsec"
proof -
  let ?d = "s_dev sb"
  have bound: "unat ?d < 2 ^ LENGTH(32)" by (rule unsigned_less)
  have "x = d div 2 ^ 20 \<and> y = d mod 2 ^ 20" if "x * 2 ^ 20 + y = d" "y < 2 ^ 20" for x y d :: nat using that by auto
  from this [OF device_split [of ?d]] have major: "unat (drop_bit 20 ?d) = major" "unat (?d AND (push_bit 20 1 - 1)) = minor"
    using assms(8,9) by simp_all
  have "major < 4096" using bound assms(8) by (simp add: less_mult_imp_div_less)
  note arith = device_arith [OF this]
  have "Major (st_dev st) = drop_bit 20 ?d \<and> Minor (st_dev st) = ?d AND (push_bit 20 1 - 1) \<longleftrightarrow>
      unat (Major (st_dev st)) = major \<and> unat (Minor (st_dev st)) = minor"
    unfolding major [symmetric] by (metis unsigned_word_eqI)
  then have dev: "Major (st_dev st) = drop_bit 20 ?d \<and> Minor (st_dev st) = ?d AND (push_bit 20 1 - 1) \<longleftrightarrow>
      unat (st_dev st) = minor mod 256 + 256 * major + 2 ^ 20 * (minor div 256)"
    using arith Major_unat [OF assms(6)] Minor_unat [OF assms(6)] by simp
  have recent: "ucast (st_ctime_nsec st) = i_ctime_nsec i AND 0x7fffffff \<longleftrightarrow> unat (st_ctime_nsec st) = unat (i_ctime_nsec i) mod 2 ^ 31"
    unfolding ucast_eq_iff [OF assms(7)] queried_bit_masked(2) ..
  have older: "ucast (st_ctime_nsec st) = (ucast w :: u32) \<longleftrightarrow> unat (st_ctime_nsec st) = unat w" if "unat w < 2 ^ 32" for w :: u64
  proof -
    have "unat (ucast w :: u32) = unat w" by (simp only: unsigned_ucast_eq) (use that in \<open>simp add: take_bit_eq_mod\<close>)
    then show ?thesis unfolding ucast_eq_iff [OF assms(7)] by simp
  qed
  show ?thesis
    unfolding classificationKeyFromFile_def classification_fields [OF assms(1,2)] assms(5) dev [symmetric]
    using assms(3,4) recent older by (auto split: if_splits)
qed

text \<open>Inode 42 on device 8:1 again, and the same file after a change.\<close>

theorem fstat_identity_exact_witness:
  "\<exists>changed. classificationKeyFromFile ssl_env 5 = Some (classification_of map_env 70 80) \<and>
   classificationKeyFromFile (ssl_env\<lparr>fstat_file := changed\<rparr>) 5 \<noteq> Some (classification_of map_env 70 80)"
proof -
  define st where "st n = \<lparr>st_dev = 0x801, st_ino = 42, st_ctime_sec = 1700000000, st_ctime_nsec = n\<rparr>" for n
  let ?i = "the (h_inode (heap map_env) 70)"
  have ctime: "(1700000000, 5) = (if has_i_ctime_sec (btf map_env) then (i_ctime_sec ?i, unat (i_ctime_nsec ?i) mod 2 ^ 31)
      else if has_mid_ctime (btf map_env) then (mid_ctime_tv_sec ?i, unat (mid_ctime_tv_nsec ?i))
      else (leg_ctime_tv_sec ?i, unat (leg_ctime_tv_nsec ?i)))" by (simp add: map_env_objects recent_btf_def)
  have inode: "h_inode (heap map_env) 70 = Some ?i" by (simp add: map_env_objects)
  have exact: "classificationKeyFromFile env 5 = Some (classification_of map_env 70 80) \<longleftrightarrow> unat n = 5"
    if "fstat_file env 5 = Some (st n)" "unat n < 2 ^ 32" for env n
  proof -
    have "unat (st_dev (st n)) < 2 ^ 32" "unat (st_ctime_nsec (st n)) < 2 ^ 32" using that(2) by (simp_all add: st_def)
    from fstat_identity_exact [OF inode map_env_objects(4) ctime _ that(1) this refl refl] show ?thesis
      by (simp add: st_def map_env_objects)
  qed
  have "fstat_file ssl_env 5 = Some (st 5)" by (simp add: ssl_env_def st_def)
  then show ?thesis
    using exact [of ssl_env 5] exact [of "ssl_env\<lparr>fstat_file := \<lambda>_. Some (st 6)\<rparr>" 6] by auto
qed

subsection \<open>Offsets of Go functions\<close>

text \<open>
  The offset found for a function is that of its address in an executable segment of the file, it lies
  inside the bytes of that segment, and computing it does not wrap around.
\<close>

lemma executable_offset_inside:
  assumes "executableFileOffset programs address = Some offset"
  shows "\<exists>p \<in> set programs. p_Type p = 1 \<and> p_Flags p AND 1 \<noteq> 0 \<and> p_Vaddr p \<le> address \<and>
    unat address - unat (p_Vaddr p) < unat (p_Filesz p) \<and>
    unat offset = unat (p_Off p) + (unat address - unat (p_Vaddr p))"
  using assms
proof (induction programs address rule: executableFileOffset.induct)
  case (2 p programs address)
  let ?r = "address - p_Vaddr p"
  show ?case
  proof (cases "p_Type p \<noteq> 1 \<or> p_Flags p AND 1 = 0 \<or> address < p_Vaddr p \<or> p_Filesz p \<le> ?r")
    case True
    then have "executableFileOffset programs address = Some offset" using 2(3) by (auto simp: Let_def split: if_splits)
    then have "\<exists>p \<in> set programs. p_Type p = 1 \<and> p_Flags p AND 1 \<noteq> 0 \<and> p_Vaddr p \<le> address \<and>
      unat address - unat (p_Vaddr p) < unat (p_Filesz p) \<and> unat offset = unat (p_Off p) + (unat address - unat (p_Vaddr p))"
      using 2(1) 2(2) True by blast
    then show ?thesis by auto
  next
    case False
    then have here: "p_Type p = 1" "p_Flags p AND 1 \<noteq> 0" "p_Vaddr p \<le> address" "?r < p_Filesz p" by (simp_all add: not_le not_less)
    have fits: "?r \<le> NOT 0 - p_Off p" and offset: "offset = p_Off p + ?r"
      using 2(3) False by (simp_all add: Let_def not_less split: if_splits)
    have r: "unat ?r = unat address - unat (p_Vaddr p)" using here(3) by (simp add: unat_sub)
    have "unat (NOT 0 - p_Off p) = 2 ^ 64 - 1 - unat (p_Off p)" by (simp add: unat_sub unsigned_minus_1_eq_mask mask_eq_exp_minus_1)
    then have "unat (p_Off p) + unat ?r < 2 ^ LENGTH(64)"
      using fits unsigned_less [of "p_Off p", where ?'a = nat] by (simp add: word_le_nat_alt)
    then have "unat offset = unat (p_Off p) + unat ?r" unfolding offset by (simp only: unat_add_lem)
    then show ?thesis using here r by (auto simp: word_less_nat_alt)
  qed
qed simp

end
