(* ===== verification/Program.thy ===== *)
theory Program
  imports Cgroup_Tracking Process_Hooks File_Hooks Mount_Hooks Network_Hooks Dns Http_Chains Uprobe_Discovery Sample_Decode
begin

text \<open>
  The object \<open>program.bpf.c\<close> puts together: every attached program may run next, on any arguments and
  in any environment, and userspace may rewrite the maps it owns.  The contract of the hooks gives the
  types of all that is ever stored or submitted.
\<close>

inductive program_step :: "bpf_state \<Rightarrow> bpf_state \<Rightarrow> bool" where
  fork: "env_wf env \<Longrightarrow> program_step s (snd (handle_sched_process_fork env a s))"
| exec: "env_wf env \<Longrightarrow> program_step s (snd (handle_sched_process_exec env b s))"
| cgroup_mkdir: "env_wf env \<Longrightarrow> program_step s (snd (handle_cgroup_mkdir env c s))"
| cgroup_attach: "env_wf env \<Longrightarrow> program_step s (snd (handle_cgroup_attach_task env d s))"
| cgroup_rmdir: "env_wf env \<Longrightarrow> program_step s (snd (handle_cgroup_rmdir env e s))"
| file_open: "env_wf env \<Longrightarrow> program_step s (snd (handle_security_file_open env f s))"
| unlink: "env_wf env \<Longrightarrow> program_step s (snd (handle_security_inode_unlink env g s))"
| rmdir: "env_wf env \<Longrightarrow> program_step s (snd (handle_security_inode_rmdir env h s))"
| rename: "env_wf env \<Longrightarrow> program_step s (snd (handle_security_inode_rename env i s))"
| hardlink: "env_wf env \<Longrightarrow> program_step s (snd (handle_security_inode_link env j s))"
| symlink: "env_wf env \<Longrightarrow> program_step s (snd (handle_security_inode_symlink env k s))"
| sb_mount: "env_wf env \<Longrightarrow> program_step s (snd (handle_security_sb_mount env l s))"
| move_mount: "env_wf env \<Longrightarrow> program_step s (snd (handle_security_move_mount env m s))"
| connect4: "env_wf env \<Longrightarrow> program_step s (snd (handle_cgroup_connect4 env n s))"
| connect6: "env_wf env \<Longrightarrow> program_step s (snd (handle_cgroup_connect6 env p s))"
| unix_stream_connect: "env_wf env \<Longrightarrow> program_step s (snd (handle_unix_stream_connect env q s))"
| unix_dgram_connect: "env_wf env \<Longrightarrow> program_step s (snd (handle_unix_dgram_connect env r s))"
| udp_sendmsg: "env_wf env \<Longrightarrow> program_step s (snd (handle_udp_sendmsg env t s))"
| udpv6_sendmsg: "env_wf env \<Longrightarrow> program_step s (snd (handle_udpv6_sendmsg env u s))"
| tcp_sendmsg: "env_wf env \<Longrightarrow> program_step s (snd (handle_tcp_sendmsg env v s))"
| unix_stream_sendmsg: "env_wf env \<Longrightarrow> program_step s (snd (handle_unix_stream_sendmsg env w s))"
| tcp_sendmsg_http: "env_wf env \<Longrightarrow> program_step s (snd (tcp_http_chain (same_env env) env x s))"
| ssl_write: "env_wf env \<Longrightarrow> program_step s (snd (ssl_write_chain (same_env env) env y s))"
| nghttp2_submit: "env_wf env \<Longrightarrow> program_step s (snd (nghttp2_chain (same_env env) env z s))"
| go_round_trip: "env_wf env \<Longrightarrow> program_step s (snd (go_http_chain (same_env env) env ctx s))"
| uprobe_mmap: "env_wf env \<Longrightarrow> program_step s (snd (handle_uprobe_mmap env vma s))"
| userspace: "program_step s (s\<lparr>tracked_cgroups := tracked, staging_map := staged, http_uprobe_discovery_cache := cache\<rparr>)"

text \<open>The invariant: buffers have their length, no reservation is open, every record is a sample.\<close>

definition typed :: "bpf_state \<Rightarrow> bool" where
  "typed s \<longleftrightarrow> state_wf s \<and> reserved s = 0 \<and> http_stages s = installed_http_stages \<and>
     http_uprobe_stages s = installed_http_uprobe_stages \<and> (\<forall>x \<in> set (events s). valid_sample x)"

context bpf_hook
begin

lemma keeps_typed:
  assumes "env_wf env" "typed s"
  shows "typed (snd (hook env a s))"
proof -
  let ?s = "snd (hook env a s)"
  have wf: "state_wf ?s" using keeps_wf assms by (simp add: typed_def)
  have "valid_sample x" if "x \<in> set (events ?s)" for x
  proof (cases "x \<in> set (events s)")
    case True
    then show ?thesis using assms(2) by (simp add: typed_def)
  next
    case False
    then show ?thesis
      using that wf effect [of env s a] by (auto simp: hook_effect_def emission_def state_wf_def intro!: valid_sampleI)
  qed
  then show ?thesis using wf effect [of env s a] assms(2) by (simp add: typed_def hook_effect_def)
qed

end

lemmas programs_typed =
  process_fork.keeps_typed process_exec.keeps_typed cgroup_mkdir.keeps_typed cgroup_attach.keeps_typed cgroup_rmdir.keeps_typed
  file_open.keeps_typed inode_unlink.keeps_typed inode_rmdir.keeps_typed inode_rename.keeps_typed inode_link.keeps_typed
  inode_symlink.keeps_typed sb_mount.keeps_typed move_mount.keeps_typed connect4.keeps_typed connect6.keeps_typed
  unix_stream_connect.keeps_typed unix_dgram_connect.keeps_typed udp_sendmsg.keeps_typed udpv6_sendmsg.keeps_typed
  tcp_sendmsg.keeps_typed unix_stream_sendmsg.keeps_typed tcp_http.keeps_typed ssl_write.keeps_typed nghttp2.keeps_typed
  go_http.keeps_typed uprobe_mmap.keeps_typed

lemma userspace_typed:
  "typed s \<Longrightarrow> typed (s\<lparr>tracked_cgroups := tracked, staging_map := staged, http_uprobe_discovery_cache := cache\<rparr>)"
  by (simp add: typed_def state_wf_def)

lemma program_step_typed: "program_step s s' \<Longrightarrow> typed s \<Longrightarrow> typed s'"
  by (induction rule: program_step.induct) (rule programs_typed userspace_typed; assumption)+

lemma program_run_typed: "program_step\<^sup>*\<^sup>* s s' \<Longrightarrow> typed s \<Longrightarrow> typed s'"
  by (induction rule: rtranclp_induct) (auto intro: program_step_typed)

text \<open>
  C40: Whatever runs, the data keeps its types.  From the loaded state, after any runs of the attached
  programs in any order and environment and any rewriting of the maps userspace owns, every per-CPU
  buffer has its declared length, no ring buffer reservation is open, the tail-call tables are those the
  loader installed, and every record in the ring buffer is decoded to the sample that was submitted.
\<close>

theorem programs_keep_types:
  assumes "program_step\<^sup>*\<^sup>* loaded_state s"
  shows "state_wf s \<and> reserved s = 0 \<and> http_stages s = installed_http_stages \<and>
    http_uprobe_stages s = installed_http_uprobe_stages \<and>
    (\<forall>x \<in> set (events s). \<forall>tail. read_record True (sample_image tail x) = Inr (delivered x))"
proof -
  have "typed loaded_state" by (simp add: typed_def)
  then have "typed s" by (rule program_run_typed [OF assms])
  then show ?thesis using image_delivered by (simp add: typed_def del: sample_image.simps)
qed

text \<open>Userspace tracks cgroup 7, then a library is mapped there.\<close>

theorem programs_keep_types_witness:
  "\<exists>s x. program_step\<^sup>*\<^sup>* loaded_state s \<and> events s = [x] \<and> read_record True (sample_image [] x) = Inr (delivered x)"
proof -
  let ?s = "snd (handle_uprobe_mmap map_env 50 one_tracked)"
  have "one_tracked = loaded_state\<lparr>tracked_cgroups := [7 \<mapsto> 1], staging_map := Map.empty, http_uprobe_discovery_cache := Map.empty\<rparr>"
    by (simp add: one_tracked_def loaded_state_def)
  then have first: "program_step loaded_state one_tracked" using program_step.userspace [of loaded_state] by metis
  have "env_wf map_env" by (simp add: map_env_def)
  then have second: "program_step one_tracked ?s" by (rule program_step.uprobe_mmap)
  note run = rtranclp.rtrancl_into_rtrancl [OF r_into_rtranclp [of program_step, OF first] second]
  have "events ?s = [HttpUprobeAttachCandidateSample (candidate_sample_of map_env 50 map_key)]"
    by (simp add: handle_uprobe_mmap_def emit_http_uprobe_attach_candidate_def cgroup_is_tracked_0 map_env_objects map_key_of announce_cases)
  moreover from this have "read_record True (sample_image [] x) = Inr (delivered x)"
    if "x = HttpUprobeAttachCandidateSample (candidate_sample_of map_env 50 map_key)" for x
    using programs_keep_types [OF run] that by (metis list.set_intros(1))
  ultimately show ?thesis using run by blast
qed

end
