(* ===== verification/Spec2Isabelle.thy ===== *)
theory Spec2Isabelle
  imports Cgroup_Tracking Path_Helpers Process_Hooks File_Hooks Mount_Hooks Network_Hooks Dns Http_Requests Job_Mirror Job_Lifecycle End_To_End Uprobe_Identity Program
begin

text \<open>
  A verification library for cicd-sensor: the BPF programs that observe a CI job in the kernel
  (\<open>src/internal/agent/bpf\<close>) and the userspace tracker that decodes what they report, attributes
  it to a job and delivers it (\<open>src/internal/agent/kerneltracker\<close>).

  \<^bold>\<open>The parts and how they interact.\<close>
  Userspace binds a cgroup to a job by writing \<open>tracked_cgroups\<close>, or stages the name of a cgroup
  that does not exist yet in \<open>staging_map\<close>.  The kernel programs run on their hooks; those in
  \<open>cgroup_hooks.bpf.h\<close> extend \<open>tracked_cgroups\<close>, all the others look the cgroup of the current task
  up there and do nothing for an untracked one.  A program reports by submitting a sample to the
  ring buffer.  Userspace reads the sample, decodes it, and hands it to the engine loop, which
  updates the job mirror and sends event records to the channel of the owning job.

  \<^bold>\<open>Kernel side.\<close>
  \<^item> \<open>Bpf_Prelude\<close>: machine types, byte buffers, bounded copies, C strings.
  \<^item> \<open>Kernel_Samples\<close>, \<open>Sample_Layout\<close>: the structs of \<open>kernel_samples.h\<close> and their C layout.
  \<^item> \<open>Bpf_Kernel\<close>: what a program sees of the kernel, one record \<open>kenv\<close> that is an argument of every
    hook: the objects reached by \<open>BPF_CORE_READ\<close>, memory, and every decision of the kernel (failed
    reservations, failed updates, evictions, faulting reads, which members a struct has).
  \<^item> \<open>Bpf_Maps\<close>, \<open>Common_Helpers\<close>, \<open>Loaded_State\<close>: \<open>maps.bpf.h\<close> as the state \<open>bpf_state\<close>, the helpers
    of \<open>common_helpers.bpf.h\<close>, and the state after loading.
  \<^item> \<open>Hook_Contract\<close>, \<open>Tail_Calls\<close>: the locales \<open>bpf_hook\<close> and \<open>observer_hook\<close>, which say what any
    program may do to the maps, with their consequences for runs; each hook interprets one.
  \<^item> \<open>Cgroup_Tracking\<close>, \<open>Path_Helpers\<close>, \<open>Process_Hooks\<close>, \<open>File_Hooks\<close>, \<open>Mount_Hooks\<close>,
    \<open>Network_Hooks\<close>, \<open>Dns\<close>, \<open>Uprobe_Discovery\<close>: the header files of the same names, one definition
    per C function, named after it.
  \<^item> \<open>Http_Parse\<close>, \<open>Http_Equivalence\<close>, \<open>Http_Taps\<close>, \<open>Nghttp2_Taps\<close>, \<open>Go_Http_Taps\<close>, \<open>Http_Chains\<close>,
    \<open>Http_Requests\<close>: \<open>http_helpers.bpf.h\<close> and the tap files; each stage is a program, and a chain
    runs through the tail-call tables that \<open>NewLinux\<close> fills.
  \<^item> \<open>Program\<close>: \<open>program.bpf.c\<close>, all programs as one step relation.

  \<^bold>\<open>Userspace side.\<close>
  \<^item> \<open>Sample_Image\<close>, \<open>Decode_Helpers\<close>, \<open>Sample_Decode\<close>: the byte image of a sample and the decoders of
    \<open>kernel_sample_*_decode_linux.go\<close> with all their errors.
  \<^item> \<open>Job_Identity\<close>: \<open>jobcontext/job_identity.go\<close>.
  \<^item> \<open>Job_Cgroups\<close>, \<open>Process_Tree\<close>, \<open>Open_Dedup\<close>: the three parts of the job mirror, after
    \<open>job_tracking_cgroup.go\<close>, \<open>job_tracking_process.go\<close> and \<open>job_tracking_file_open_dedup.go\<close>.
  \<^item> \<open>Go_Std\<close>: the standard library functions the handlers call, on byte strings.
  \<^item> \<open>Sample_Handlers\<close>: \<open>kernel_sample_*_handle.go\<close>, one definition per handler.
  \<^item> \<open>Kernel_Io\<close>: the map writes of \<open>kernelio/kernel_io_maps_linux.go\<close> on \<open>bpf_state\<close>.
  \<^item> \<open>Engine\<close>, \<open>Engine_Safety\<close>: \<open>engine.go\<close>, \<open>engine_handler.go\<close>, \<open>engine_effect.go\<close>,
    \<open>job_tracking.go\<close> and \<open>job_tracking_state.go\<close>; one turn handles an input and runs its effects, and a
    run is a list of turns and of receives by the job workers.
  \<^item> \<open>Job_Mirror\<close>, \<open>Job_Lifecycle\<close>, \<open>End_To_End\<close>: both sides together.  \<open>Job_Mirror\<close> interleaves kernel
    programs, reads of the ring buffer and engine turns in any order, in one labelled step relation, and
    says which steps are orderly; \<open>Job_Lifecycle\<close> is about the announcement of ended jobs; \<open>End_To_End\<close>
    follows an execution from the kernel to the channel of its job.
  \<^item> \<open>Go_Text\<close>, \<open>Uprobe_Worker\<close>, \<open>Uprobe_Lifetime\<close>, \<open>Uprobe_Identity\<close>: \<open>kernelio/http_uprobe_worker.go\<close>,
    \<open>http_uprobe_symbols.go\<close> and \<open>go_http_symbols.go\<close>.  \<open>Uprobe_Worker\<close> has the definitions, from queues to
    the worker loop; \<open>Uprobe_Lifetime\<close> is about targets, links and the discovery cache over runs;
    \<open>Uprobe_Identity\<close> is about the identity of files and the lines of \<open>/proc/<pid>/maps\<close>.

  \<^bold>\<open>How code corresponds to definitions.\<close>
  A hook is a function of the environment, its arguments and the maps, and returns its result and
  the maps.  Integers keep their C width as words; an index the code has bounded is a natural
  number.  Go methods take and return the record of the state they mutate, on its scheme, so that
  each part of \<open>jobTrackingState\<close> is a record extension of the previous one.  A Go panic is \<open>None\<close>.
  The iteration order of Go maps, clock readings and the results of system calls are arguments.

  \<^bold>\<open>What the lemmas show.\<close>
  The tracking hooks refine a set of tracked cgroups, and every tracked cgroup has a justification
  in the history.  Each record carries exactly the path, arguments, address, payload or request that
  the kernel objects hold, within the sizes of its fields, and flags say what was cut, except
  that a long executable name, symbolic link target or DNS payload is cut without one.  The staged parser computes a
  reference parser, and the taps report what it says.  A submitted sample survives encoding and
  decoding, and the decoder accepts exactly the images of samples with lengths in range.  The job mirror refines a ledger of owners; removed
  cgroups and exited processes are reclaimed; summaries carry the true lineage.  The engine does not
  panic as long as no exited process starts again, accounts for every delivery, suppresses only recent duplicates and never sends a record to
  a job that does not own its cgroup.  In orderly runs the kernel filter and the job index agree
  whenever no lifecycle record is unread, a staged cgroup is attributed from its creation, the end of a job is announced once, and an
  execution reaches its job with its arguments unchanged.  The uprobe worker owns every open link,
  detaches a file only after two complete scans missed it, keeps what a live process maps, and leaves
  undecided files to be announced again.  Whatever the programs do, stored data keeps its types.

  \<^bold>\<open>Bounds.\<close>
  Loops have the literal bounds of the C code (dentry depth, segments, header fields, parser steps);
  a tail-call chain takes one environment per jump, the kernel's limit of 33 in the statements about
  reports, and the chains are proved to need at most two.  Go loops are structural
  recursion on the ranged collection; \<open>Fields\<close> recurses on the rest of the text, with a termination proof.

  \<^bold>\<open>Assumptions.\<close>
  One invocation, with its tail calls, runs on one CPU and is not interleaved with another program on
  that CPU; the memory a program reads does not change while it runs.  The engine loop is sequential
  in the code, so its runs are lists of inputs, with the receives of the job workers between them; a
  worker's receive and a turn are atomic.  The uprobe worker is one goroutine; what the sample
  reader queues and what the programs change in the discovery cache happens between its turns.

  \<^bold>\<open>Not modelled.\<close>
  Loading and attaching programs (\<open>kernel_io_linux.go\<close> beyond the tail-call tables) are calls into
  cilium/ebpf.  ELF and pclntab reading are calls into \<open>debug/elf\<close> and the profiler library; what they
  return is an argument of the symbol resolvers.
  \<open>engine_api.go\<close> sends inputs and waits for replies; only the inputs are modelled.  The walks of
  cgroupfs and \<open>/proc\<close> are I/O, whose results are arguments here.  The rule engine, the manager and
  the listeners consume the channels and are outside the tracker.  The vendored headers are modelled
  as far as the programs use them.
\<close>

end
